(* ===== verification/QDC_Prelude.thy ===== *)
theory QDC_Prelude imports Main "HOL-Library.AList" begin

text \<open>
  Shared vocabulary of the development: results with an error side, the part of Python's string
  methods the program uses, insertion-ordered dictionaries, and the dynamically typed values that
  come out of YAML and JSON files.

  Strings are byte strings. Every character the program inspects is ASCII, and a character outside
  ASCII is the sequence of its UTF-8 bytes, so comparisons, prefixes and concatenations agree with
  Python's.
\<close>

named_theorems qdc_simps \<open>rewrite rules the component proofs share\<close>

section \<open>Results\<close>

fun bind_res :: "'e + 'a \<Rightarrow> ('a \<Rightarrow> 'e + 'b) \<Rightarrow> 'e + 'b" where
  "bind_res (Inl e) f = Inl e"
| "bind_res (Inr x) f = f x"

fun is_ok :: "'e + 'a \<Rightarrow> bool" where
  "is_ok (Inl e) = False"
| "is_ok (Inr x) = True"

fun traverse :: "('a \<Rightarrow> 'e + 'b) \<Rightarrow> 'a list \<Rightarrow> 'e + 'b list" where
  "traverse f [] = Inr []"
| "traverse f (x # xs) =
     bind_res (f x) (\<lambda>y. bind_res (traverse f xs) (\<lambda>ys. Inr (y # ys)))"

lemma bind_res_Inr [simp]:
  "bind_res m f = Inr y \<longleftrightarrow> (\<exists>x. m = Inr x \<and> f x = Inr y)"
  by (cases m) auto

lemma bind_res_Inl [simp]:
  "bind_res m f = Inl e \<longleftrightarrow> m = Inl e \<or> (\<exists>x. m = Inr x \<and> f x = Inl e)"
  by (cases m) auto

lemma bind_res_cong [fundef_cong]:
  "m = m' \<Longrightarrow> (\<And>x. m' = Inr x \<Longrightarrow> f x = g x) \<Longrightarrow> bind_res m f = bind_res m' g"
  by (cases m') auto

lemma is_ok_iff: "is_ok m \<longleftrightarrow> (\<exists>x. m = Inr x)"
  by (cases m) auto

lemma traverse_Inr:
  "traverse f xs = Inr ys \<longleftrightarrow> list_all2 (\<lambda>x y. f x = Inr y) xs ys"
  by (induction xs arbitrary: ys) (auto simp: list_all2_Cons1)

lemma traverse_Inr_mem:
  "traverse f xs = Inr ys \<Longrightarrow> y \<in> set ys \<Longrightarrow> \<exists>x \<in> set xs. f x = Inr y"
  by (induction xs arbitrary: ys) auto

lemma traverse_length: "traverse f xs = Inr ys \<Longrightarrow> length ys = length xs"
  by (auto simp: traverse_Inr dest: list_all2_lengthD)

text \<open>The values of an association list in turn, with their keys.\<close>

definition traverse_vals :: "('k \<Rightarrow> 'a \<Rightarrow> 'e + 'b) \<Rightarrow> ('k \<times> 'a) list \<Rightarrow> 'e + ('k \<times> 'b) list" where
  "traverse_vals f = traverse (\<lambda>kv. bind_res (f (fst kv) (snd kv)) (\<lambda>w. Inr (fst kv, w)))"

lemma traverse_vals_simps [simp]:
  "traverse_vals f [] = Inr []"
  "traverse_vals f (kv # xs) =
     bind_res (f (fst kv) (snd kv)) (\<lambda>w. bind_res (traverse_vals f xs) (\<lambda>ys. Inr ((fst kv, w) # ys)))"
  by (simp_all add: traverse_vals_def) (cases "f (fst kv) (snd kv)"; simp)

lemma map_of_traverse_vals:
  "traverse_vals f xs = Inr ys \<Longrightarrow>
   (case map_of xs k of None \<Rightarrow> map_of ys k = None | Some v \<Rightarrow> \<exists>w. map_of ys k = Some w \<and> f k v = Inr w)"
  by (induction xs arbitrary: ys) (auto split: option.splits)

section \<open>Strings\<close>

definition is_space :: "char \<Rightarrow> bool" where
  "is_space c \<longleftrightarrow> (let n = (of_char c :: nat) in (9 \<le> n \<and> n \<le> 13) \<or> (28 \<le> n \<and> n \<le> 32))"

definition is_digit :: "char \<Rightarrow> bool" where
  "is_digit c \<longleftrightarrow> (let n = (of_char c :: nat) in 48 \<le> n \<and> n \<le> 57)"

definition lower_char :: "char \<Rightarrow> char" where
  "lower_char c = (let n = (of_char c :: nat) in if 65 \<le> n \<and> n \<le> 90 then char_of (n + 32) else c)"

definition py_strip :: "string \<Rightarrow> string" where
  "py_strip s = rev (dropWhile is_space (rev (dropWhile is_space s)))"

definition py_lower :: "string \<Rightarrow> string" where
  "py_lower s = map lower_char s"

definition starts_with :: "string \<Rightarrow> string \<Rightarrow> bool" where
  "starts_with p s \<longleftrightarrow> take (length p) s = p"

definition ends_with :: "string \<Rightarrow> string \<Rightarrow> bool" where
  "ends_with p s \<longleftrightarrow> starts_with (rev p) (rev s)"

fun join_with :: "string \<Rightarrow> string list \<Rightarrow> string" where
  "join_with sep [] = []"
| "join_with sep [x] = x"
| "join_with sep (x # y # ys) = x @ sep @ join_with sep (y # ys)"

text \<open>The text before and after the first occurrence of a character.\<close>

definition split_first :: "char \<Rightarrow> string \<Rightarrow> string \<times> string" where
  "split_first c s = (takeWhile (\<lambda>x. x \<noteq> c) s, drop 1 (dropWhile (\<lambda>x. x \<noteq> c) s))"

lemma starts_with_append [simp]: "starts_with p (p @ s)"
  by (simp add: starts_with_def)

lemma starts_with_iff: "starts_with p s \<longleftrightarrow> (\<exists>t. s = p @ t)"
  by (auto simp: starts_with_def) (metis append_take_drop_id)

lemma dropWhile_hd: "dropWhile P xs = y # ys \<Longrightarrow> \<not> P y"
  using hd_dropWhile [of P xs] by force

lemma dropWhile_id_iff: "dropWhile P xs = xs \<longleftrightarrow> xs = [] \<or> \<not> P (hd xs)"
proof (cases xs)
  case (Cons y ys)
  have "length (dropWhile P ys) \<le> length ys" by (rule length_dropWhile_le)
  with Cons show ?thesis by auto
qed simp

lemma last_dropWhile: "dropWhile P xs \<noteq> [] \<Longrightarrow> last (dropWhile P xs) = last xs"
  by (metis last_append takeWhile_dropWhile_id)

text \<open>Stripping is idempotent: a stripped name is a fixed point.\<close>

lemma py_strip_idem [simp]: "py_strip (py_strip s) = py_strip s"
proof -
  define t where "t = dropWhile is_space s"
  define u where "u = dropWhile is_space (rev t)"
  have s: "py_strip s = rev u" by (simp add: py_strip_def t_def u_def)
  have u: "dropWhile is_space u = u" by (simp add: u_def)
  have "dropWhile is_space (rev u) = rev u"
  proof (cases "u = []")
    case False
    then have "last u = last (rev t)" by (simp add: u_def last_dropWhile)
    moreover from False have "t \<noteq> []" by (auto simp: u_def)
    ultimately have "hd (rev u) = hd t" using False by (simp add: hd_rev last_rev)
    moreover have "\<not> is_space (hd t)"
      using \<open>t \<noteq> []\<close> hd_dropWhile [of is_space s] by (simp add: t_def)
    ultimately show ?thesis by (simp add: dropWhile_id_iff)
  qed simp
  then have "py_strip (rev u) = rev u" by (simp add: py_strip_def u)
  then show ?thesis by (simp only: s)
qed

text \<open>Decimal numerals, as \<open>str\<close> prints and \<open>int\<close> reads them.\<close>

definition digit_char :: "nat \<Rightarrow> char" where
  "digit_char d = char_of (48 + d)"

fun show_nat :: "nat \<Rightarrow> string" where
  "show_nat n = (if n < 10 then [digit_char n] else show_nat (n div 10) @ [digit_char (n mod 10)])"

declare show_nat.simps [simp del]

definition show_int :: "int \<Rightarrow> string" where
  "show_int i = (if i < 0 then CHR ''-'' # show_nat (nat (- i)) else show_nat (nat i))"

text \<open>\<open>f"{n:0<w>d}"\<close>: at least \<open>w\<close> digits.\<close>

definition pad_nat :: "nat \<Rightarrow> nat \<Rightarrow> string" where
  "pad_nat w n = (let s = show_nat n in replicate (w - length s) (CHR ''0'') @ s)"

text \<open>
  \<open>int(s)\<close>: surrounding blanks, one sign, digits with single underscores between them.
  \<open>None\<close> is \<open>ValueError\<close>.
\<close>

fun read_digits :: "nat \<Rightarrow> string \<Rightarrow> nat option" where
  "read_digits acc [] = Some acc"
| "read_digits acc (c # cs) =
     (if is_digit c then read_digits (acc * 10 + (of_char c - 48)) cs
      else if c = CHR ''_'' then
        (case cs of [] \<Rightarrow> None
         | d # ds \<Rightarrow> if is_digit d then read_digits (acc * 10 + (of_char d - 48)) ds else None)
      else None)"

definition py_int_of_string :: "string \<Rightarrow> int option" where
  "py_int_of_string s =
     (case py_strip s of
        [] \<Rightarrow> None
      | c # cs \<Rightarrow>
          (let (neg, ds) = (if c = CHR ''-'' then (True, cs)
                            else if c = CHR ''+'' then (False, cs) else (False, c # cs))
           in case ds of [] \<Rightarrow> None
              | d # _ \<Rightarrow> if \<not> is_digit d then None
                         else map_option (\<lambda>n. if neg then - int n else int n) (read_digits 0 ds)))"

section \<open>Dictionaries\<close>

text \<open>
  A dictionary is an association list in insertion order: \<open>AList.update\<close> overwrites a present
  key in place and appends a new one, as Python does.
\<close>

type_synonym 'v dict = "(string \<times> 'v) list"

abbreviation dict_get :: "'v dict \<Rightarrow> string \<Rightarrow> 'v option" where
  "dict_get d k \<equiv> map_of d k"

abbreviation dict_set :: "'v dict \<Rightarrow> string \<Rightarrow> 'v \<Rightarrow> 'v dict" where
  "dict_set d k v \<equiv> AList.update k v d"

definition dict_get_default :: "'v dict \<Rightarrow> string \<Rightarrow> 'v \<Rightarrow> 'v" where
  "dict_get_default d k v = (case dict_get d k of None \<Rightarrow> v | Some x \<Rightarrow> x)"

lemma dict_get_set [simp]: "dict_get (dict_set d k v) k' = (if k' = k then Some v else dict_get d k')"
  by (simp add: update_conv')

lemma dict_get_default_set [simp]:
  "dict_get_default (dict_set d k v) k' w = (if k' = k then v else dict_get_default d k' w)"
  by (simp add: dict_get_default_def)

text \<open>\<open>list(dict.fromkeys(xs))\<close>: duplicates removed, first occurrences kept in order.\<close>

fun dedup_first :: "'a list \<Rightarrow> 'a list" where
  "dedup_first [] = []"
| "dedup_first (x # xs) = x # filter (\<lambda>y. y \<noteq> x) (dedup_first xs)"

lemma set_dedup_first [simp]: "set (dedup_first xs) = set xs"
  by (induction xs) auto

lemma distinct_dedup_first [simp]: "distinct (dedup_first xs)"
  by (induction xs) auto

lemma dedup_first_distinct: "distinct xs \<Longrightarrow> dedup_first xs = xs"
proof (induction xs)
  case (Cons x xs)
  then have "dedup_first xs = xs" and "x \<notin> set xs" by auto
  then show ?case by (simp add: filter_id_conv) metis
qed simp

text \<open>
  \<open>drop_duplicates(keep="last")\<close> on a key, and the last row of a key: the view under which a list of
  rows is a map that later rows override.
\<close>

fun keep_last :: "('a \<Rightarrow> 'k) \<Rightarrow> 'a list \<Rightarrow> 'a list" where
  "keep_last key [] = []"
| "keep_last key (x # xs) = (if key x \<in> key ` set xs then keep_last key xs else x # keep_last key xs)"

definition last_by :: "('a \<Rightarrow> 'k) \<Rightarrow> 'a list \<Rightarrow> 'k \<Rightarrow> 'a option" where
  "last_by key xs k = map_of (rev (map (\<lambda>x. (key x, x)) xs)) k"

lemma last_by_Nil [simp]: "last_by key [] k = None"
  by (simp add: last_by_def)

lemma last_by_append: "last_by key (xs @ ys) k = (case last_by key ys k of None \<Rightarrow> last_by key xs k | Some y \<Rightarrow> Some y)"
  by (simp add: last_by_def map_add_def split: option.split)

lemma last_by_snoc: "last_by key (xs @ [x]) k = (if key x = k then Some x else last_by key xs k)"
  by (simp add: last_by_append) (simp add: last_by_def)

lemma last_by_Cons: "last_by key (x # xs) k = (case last_by key xs k of None \<Rightarrow> if key x = k then Some x else None | Some y \<Rightarrow> Some y)"
  using last_by_append [of key "[x]" xs k] by (simp add: last_by_def split: option.split)

lemma last_by_None: "last_by key xs k = None \<longleftrightarrow> k \<notin> key ` set xs"
  by (auto simp: last_by_def map_of_eq_None_iff image_image)

lemma last_by_Some: "last_by key xs k = Some x \<Longrightarrow> x \<in> set xs \<and> key x = k"
  by (auto simp: last_by_def dest!: map_of_SomeD)

lemma last_by_filter: "(\<And>x. x \<in> set xs \<Longrightarrow> key x = k \<Longrightarrow> P x) \<Longrightarrow> last_by key (filter P xs) k = last_by key xs k"
  by (induction xs) (auto simp: last_by_Cons split: option.split)

lemma set_keep_last: "set (keep_last key xs) \<subseteq> set xs"
  by (induction xs) auto

lemma keys_keep_last [simp]: "key ` set (keep_last key xs) = key ` set xs"
  by (induction xs) auto

lemma distinct_keep_last: "distinct (map key (keep_last key xs))"
  by (induction xs) auto

lemma last_by_keep_last [simp]: "last_by key (keep_last key xs) k = last_by key xs k"
proof (induction xs)
  case (Cons x xs)
  then show ?case
    by (cases "key x \<in> key ` set xs") (auto simp: last_by_Cons last_by_None split: option.split)
qed simp

section \<open>Dynamically typed values\<close>

text \<open>
  What \<open>yaml.safe_load\<close> and \<open>json.loads\<close> return. Dictionary keys are strings: the program only
  looks string keys up. \<open>POther\<close> stands for a value of a type the program never inspects
  (a float, a timestamp), with its truth value, its \<open>str\<close> and what \<open>int\<close> makes of it, if anything.
\<close>

datatype pyval =
    PNone
  | PBool bool
  | PInt int
  | PStr string
  | PList "pyval list"
  | PDict "(string \<times> pyval) list"
  | POther bool string "int option"

fun truthy :: "pyval \<Rightarrow> bool" where
  "truthy PNone = False"
| "truthy (PBool b) = b"
| "truthy (PInt i) = (i \<noteq> 0)"
| "truthy (PStr s) = (s \<noteq> [])"
| "truthy (PList xs) = (xs \<noteq> [])"
| "truthy (PDict d) = (d \<noteq> [])"
| "truthy (POther t s i) = t"

text \<open>
  \<open>repr\<close> of a string: double quotes when it holds a single quote and no double quote; the quote
  character, the backslash and the three named control characters are escaped.
\<close>

definition escape_char :: "char \<Rightarrow> char \<Rightarrow> string" where
  "escape_char q c =
     (if c = q \<or> c = CHR 0x5C then [CHR 0x5C, c]
      else if c = CHR 0x0A then [CHR 0x5C, CHR ''n'']
      else if c = CHR 0x0D then [CHR 0x5C, CHR ''r'']
      else if c = CHR 0x09 then [CHR 0x5C, CHR ''t'']
      else [c])"

definition repr_str :: "string \<Rightarrow> string" where
  "repr_str s =
     (let q = (if CHR 0x27 \<in> set s \<and> CHR 0x22 \<notin> set s then CHR 0x22 else CHR 0x27)
      in [q] @ concat (map (escape_char q) s) @ [q])"

fun py_repr :: "pyval \<Rightarrow> string" where
  "py_repr PNone = ''None''"
| "py_repr (PBool b) = (if b then ''True'' else ''False'')"
| "py_repr (PInt i) = show_int i"
| "py_repr (PStr s) = repr_str s"
| "py_repr (PList xs) = ''['' @ join_with '', '' (map py_repr xs) @ '']''"
| "py_repr (PDict d) =
     ''{'' @ join_with '', '' (map (\<lambda>kv. repr_str (fst kv) @ '': '' @ py_repr (snd kv)) d) @ ''}''"
| "py_repr (POther t s i) = s"

fun py_str :: "pyval \<Rightarrow> string" where
  "py_str (PStr s) = s"
| "py_str v = py_repr v"

text \<open>\<open>int(v)\<close>; \<open>None\<close> is \<open>TypeError\<close> or \<open>ValueError\<close>.\<close>

fun py_int :: "pyval \<Rightarrow> int option" where
  "py_int (PInt i) = Some i"
| "py_int (PBool b) = Some (if b then 1 else 0)"
| "py_int (PStr s) = py_int_of_string s"
| "py_int (POther t s i) = i"
| "py_int _ = None"

text \<open>The fields of a dictionary value; anything else has none.\<close>

fun as_dict :: "pyval \<Rightarrow> pyval dict option" where
  "as_dict (PDict d) = Some d"
| "as_dict _ = None"

lemma as_dict_Some [simp]: "as_dict v = Some d \<longleftrightarrow> v = PDict d"
  by (cases v) auto

section \<open>Keyed stores\<close>

text \<open>
  The contract several components share: a state into which rows are put under a key. The client
  lemmas say what a sequence of puts leaves behind.
\<close>

locale keyed_store =
  fixes get :: "'s \<Rightarrow> 'k \<Rightarrow> 'v option"
    and put :: "'k \<Rightarrow> 'v \<Rightarrow> 's \<Rightarrow> 's"
  assumes get_put_same: "get (put k v s) k = Some v"
    and get_put_other: "k' \<noteq> k \<Longrightarrow> get (put k v s) k' = get s k'"
begin

definition put_all :: "('k \<times> 'v) list \<Rightarrow> 's \<Rightarrow> 's" where
  "put_all kvs s = fold (\<lambda>kv. put (fst kv) (snd kv)) kvs s"

lemma get_put: "get (put k v s) k' = (if k' = k then Some v else get s k')"
  by (simp add: get_put_same get_put_other)

lemma get_put_all:
  "get (put_all kvs s) k = (case map_of (rev kvs) k of None \<Rightarrow> get s k | Some v \<Rightarrow> Some v)"
  by (induction kvs rule: rev_induct) (auto simp: put_all_def get_put)

lemma get_put_all_frame: "k \<notin> fst ` set kvs \<Longrightarrow> get (put_all kvs s) k = get s k"
proof -
  assume "k \<notin> fst ` set kvs"
  then have "map_of (rev kvs) k = None" by (simp add: map_of_eq_None_iff)
  then show ?thesis by (simp add: get_put_all)
qed

end

interpretation dict_store: keyed_store "\<lambda>d k. map_of d k" AList.update
  by unfold_locales (simp_all add: update_conv')

end
