(* ===== verification/Calendar_Date.thy ===== *)
theory Calendar_Date imports QDC_Prelude "HOL-Library.Product_Lexorder" begin

text \<open>
  Python's \<open>datetime.date\<close> as the program uses it: comparison, subtraction of a number of days,
  \<open>weekday()\<close> and \<open>isoformat()\<close>; and the time of day of a \<open>datetime\<close>.
\<close>

section \<open>Dates and their order\<close>

datatype date = Date (dt_year: nat) (dt_month: nat) (dt_day: nat)

fun date_key :: "date \<Rightarrow> nat \<times> nat \<times> nat" where
  "date_key (Date y m d) = (y, m, d)"

lemma date_key_inj: "date_key a = date_key b \<Longrightarrow> a = b"
  by (cases a; cases b) simp

instantiation date :: linorder
begin

definition less_eq_date :: "date \<Rightarrow> date \<Rightarrow> bool" where
  "less_eq_date a b \<longleftrightarrow> date_key a \<le> date_key b"

definition less_date :: "date \<Rightarrow> date \<Rightarrow> bool" where
  "less_date a b \<longleftrightarrow> date_key a < date_key b"

instance
  by standard (auto simp: less_eq_date_def less_date_def intro: date_key_inj)

end

lemma less_date_iff [simp]:
  "Date y m d < Date y' m' d' \<longleftrightarrow> y < y' \<or> y = y' \<and> (m < m' \<or> m = m' \<and> d < d')"
  by (auto simp: less_date_def)

lemma less_eq_date_iff [simp]:
  "Date y m d \<le> Date y' m' d' \<longleftrightarrow> y < y' \<or> y = y' \<and> (m < m' \<or> m = m' \<and> d \<le> d')"
  by (auto simp: less_eq_date_def)

section \<open>The proleptic Gregorian calendar\<close>

definition is_leap :: "nat \<Rightarrow> bool" where
  "is_leap y \<longleftrightarrow> y mod 4 = 0 \<and> (y mod 100 \<noteq> 0 \<or> y mod 400 = 0)"

definition days_in_month :: "nat \<Rightarrow> nat \<Rightarrow> nat" where
  "days_in_month y m =
     (if m = 2 then (if is_leap y then 29 else 28)
      else if m \<in> {4, 6, 9, 11} then 30 else 31)"

fun valid_date :: "date \<Rightarrow> bool" where
  "valid_date (Date y m d) \<longleftrightarrow>
     1 \<le> y \<and> y \<le> 9999 \<and> 1 \<le> m \<and> m \<le> 12 \<and> 1 \<le> d \<and> d \<le> days_in_month y m"

definition days_before_month :: "nat \<Rightarrow> nat \<Rightarrow> nat" where
  "days_before_month y m = sum_list (map (days_in_month y) [1..<m])"

definition days_before_year :: "nat \<Rightarrow> nat" where
  "days_before_year y = (y - 1) * 365 + (y - 1) div 4 + (y - 1) div 400 - (y - 1) div 100"

fun to_ordinal :: "date \<Rightarrow> nat" where
  "to_ordinal (Date y m d) = days_before_year y + days_before_month y m + d"

text \<open>Monday is 0, as \<open>date.weekday()\<close> counts.\<close>

definition weekday :: "date \<Rightarrow> nat" where
  "weekday d = (to_ordinal d + 6) mod 7"

definition day_name :: "date \<Rightarrow> string" where
  "day_name d =
     [''monday'', ''tuesday'', ''wednesday'', ''thursday'', ''friday'', ''saturday'', ''sunday''] ! weekday d"

fun prev_day :: "date \<Rightarrow> date" where
  "prev_day (Date y m d) =
     (if 1 < d then Date y m (d - 1)
      else if 1 < m then Date y (m - 1) (days_in_month y (m - 1))
      else Date (y - 1) 12 31)"

text \<open>\<open>d - timedelta(days=n)\<close>; \<open>None\<close> is the \<open>OverflowError\<close> below 0001-01-01.\<close>

fun sub_days :: "nat \<Rightarrow> date \<Rightarrow> date option" where
  "sub_days 0 d = Some d"
| "sub_days (Suc n) d = (if d = Date 1 1 1 then None else sub_days n (prev_day d))"

definition isoformat :: "date \<Rightarrow> string" where
  "isoformat d = pad_nat 4 (dt_year d) @ ''-'' @ pad_nat 2 (dt_month d) @ ''-'' @ pad_nat 2 (dt_day d)"

section \<open>Subtracting days\<close>

lemma valid_prev_day:
  "valid_date d \<Longrightarrow> d \<noteq> Date 1 1 1 \<Longrightarrow> valid_date (prev_day d)"
proof (cases d)
  case (Date y m x)
  have "1 \<le> days_in_month y k" and "days_in_month (y - 1) 12 = 31" for k
    by (simp_all add: days_in_month_def)
  moreover assume "valid_date d" and "d \<noteq> Date 1 1 1"
  ultimately show ?thesis using Date by auto
qed

lemma prev_day_less: "valid_date d \<Longrightarrow> prev_day d < d"
  by (cases d) auto

lemma sub_days_valid: "sub_days n d = Some e \<Longrightarrow> valid_date d \<Longrightarrow> valid_date e"
proof (induction n arbitrary: d)
  case (Suc n)
  then have "d \<noteq> Date 1 1 1" and e: "sub_days n (prev_day d) = Some e"
    by (auto split: if_splits)
  with Suc.prems have "valid_date (prev_day d)" by (blast intro: valid_prev_day)
  with Suc.IH e show ?case by blast
qed simp

lemma sub_days_le: "sub_days n d = Some e \<Longrightarrow> valid_date d \<Longrightarrow> e \<le> d"
proof (induction n arbitrary: d)
  case (Suc n)
  then have "d \<noteq> Date 1 1 1" and e: "sub_days n (prev_day d) = Some e"
    by (auto split: if_splits)
  with Suc.prems have "valid_date (prev_day d)" by (blast intro: valid_prev_day)
  with Suc.IH e have "e \<le> prev_day d" by blast
  also have "\<dots> < d" using Suc.prems by (blast intro: prev_day_less)
  finally show ?case by simp
qed simp

lemma sub_days_less: "sub_days (Suc n) d = Some e \<Longrightarrow> valid_date d \<Longrightarrow> e < d"
  using sub_days_le [of n "prev_day d" e] prev_day_less [of d] valid_prev_day [of d]
  by (fastforce split: if_splits simp del: prev_day.simps)

lemma days_before_year_Suc:
  "1 \<le> y \<Longrightarrow> days_before_year (Suc y) = days_before_year y + (if is_leap y then 366 else 365)"
proof -
  assume y: "1 \<le> y"
  define q where "q = y - 1"
  have yq: "y = Suc q" using y by (simp add: q_def)
  have c: "Suc q div 4 = (if Suc q mod 4 = 0 then Suc (q div 4) else q div 4)"
    "Suc q div 100 = (if Suc q mod 100 = 0 then Suc (q div 100) else q div 100)"
    "Suc q div 400 = (if Suc q mod 400 = 0 then Suc (q div 400) else q div 400)"
    by (simp_all add: div_Suc)
  have le: "q div 100 \<le> q div 4" by (simp add: div_le_mono2)
  have "(4 :: nat) dvd 100" and "(100 :: nat) dvd 400" by simp_all
  then have m4: "Suc q mod 100 = 0 \<Longrightarrow> Suc q mod 4 = 0"
    and m400: "Suc q mod 400 = 0 \<Longrightarrow> Suc q mod 100 = 0"
    unfolding mod_eq_0_iff_dvd by (blast intro: dvd_trans)+
  show ?thesis
    using le m4 m400 by (auto simp: days_before_year_def yq c is_leap_def ac_simps)
qed

lemma days_before_month_1: "days_before_month y 1 = 0"
  by (simp add: days_before_month_def)

lemma days_before_month_Suc: "0 < m \<Longrightarrow> days_before_month y (Suc m) = days_before_month y m + days_in_month y m"
  by (simp add: days_before_month_def)

lemma days_before_month_13: "days_before_month y 12 + 31 = (if is_leap y then 366 else 365)"
proof -
  have "[1..<12] = [1, 2, 3, 4, 5, 6, 7, 8, 9, 10, 11 :: nat]" by (simp add: upt_rec)
  then show ?thesis by (simp add: days_before_month_def days_in_month_def)
qed

lemma to_ordinal_prev_day:
  assumes "valid_date d" and "d \<noteq> Date 1 1 1"
  shows "to_ordinal d = Suc (to_ordinal (prev_day d))"
proof (cases d)
  case (Date y m x)
  show ?thesis
  proof (cases "x = 1 \<and> m = 1")
    case True
    with assms Date have "1 \<le> y - 1" and y: "y = Suc (y - 1)" by auto
    then have "days_before_year y = days_before_year (y - 1) + (if is_leap (y - 1) then 366 else 365)"
      using days_before_year_Suc [of "y - 1"] by simp
    with True Date y show ?thesis
      using days_before_month_13 [of "y - 1"] by (simp add: days_before_month_1 [simplified])
  next
    case False
    show ?thesis
    proof (cases "x = 1")
      case True
      with False assms Date have "1 < m" by auto
      then obtain k where "m = Suc k" and "0 < k" by (cases m) auto
      with Date True show ?thesis by (simp add: days_before_month_Suc)
    next
      case x: False
      with assms Date have "1 < x" by auto
      with Date show ?thesis by simp
    qed
  qed
qed

text \<open>The day count drops by exactly the number of days subtracted.\<close>

lemma to_ordinal_sub_days:
  "sub_days n d = Some e \<Longrightarrow> valid_date d \<Longrightarrow> to_ordinal d = to_ordinal e + n"
proof (induction n arbitrary: d)
  case (Suc n)
  then have d: "d \<noteq> Date 1 1 1" and e: "sub_days n (prev_day d) = Some e"
    by (auto split: if_splits)
  with Suc.prems have "valid_date (prev_day d)" by (blast intro: valid_prev_day)
  with Suc.IH e have "to_ordinal (prev_day d) = to_ordinal e + n" by blast
  then show ?case using to_ordinal_prev_day [OF Suc.prems(2) d] by simp
qed simp

section \<open>The ISO text determines the date\<close>

lemma of_char_digit_char: "d < 10 \<Longrightarrow> of_char (digit_char d) = (48 + d :: nat)"
  by (simp add: digit_char_def)

lemma is_digit_digit_char: "d < 10 \<Longrightarrow> is_digit (digit_char d)"
  by (simp add: is_digit_def of_char_digit_char)

lemma read_digits_append_digits:
  "list_all is_digit s \<Longrightarrow>
   read_digits acc (s @ t) = Option.bind (read_digits acc s) (\<lambda>n. read_digits n t)"
  by (induction s arbitrary: acc) auto

lemma show_nat_digits: "list_all is_digit (show_nat n)"
proof (induction n rule: show_nat.induct)
  case (1 n)
  then show ?case by (subst show_nat.simps) (auto simp: is_digit_digit_char)
qed

lemma read_digits_show_nat: "read_digits 0 (show_nat n) = Some n"
proof (induction n rule: show_nat.induct)
  case (1 n)
  show ?case
  proof (cases "n < 10")
    case True
    then show ?thesis
      by (subst show_nat.simps) (simp add: is_digit_digit_char of_char_digit_char)
  next
    case False
    with "1.IH" show ?thesis
      by (subst show_nat.simps)
        (simp add: read_digits_append_digits show_nat_digits is_digit_digit_char of_char_digit_char)
  qed
qed

lemma read_digits_pad_nat: "read_digits 0 (pad_nat w n) = Some n"
proof -
  have zero: "is_digit (CHR ''0'')" "of_char (CHR ''0'') = (48 :: nat)"
    by (simp_all add: is_digit_def)
  have "read_digits 0 (replicate k (CHR ''0'') @ s) = read_digits 0 s" for k s
    by (induction k) (simp_all add: zero)
  then show ?thesis by (simp add: pad_nat_def Let_def read_digits_show_nat)
qed

lemma pad_nat_inj: "pad_nat w n = pad_nat w m \<longleftrightarrow> n = m"
  by (metis option.inject read_digits_pad_nat)

lemma length_show_nat: "n < 10 ^ Suc k \<Longrightarrow> length (show_nat n) \<le> Suc k"
proof (induction k arbitrary: n)
  case 0
  then show ?case by (subst show_nat.simps) simp
next
  case (Suc k)
  show ?case
  proof (cases "n < 10")
    case True
    then show ?thesis by (subst show_nat.simps) simp
  next
    case False
    from Suc.prems have "n div 10 < 10 ^ Suc k" by (simp add: less_mult_imp_div_less)
    with Suc.IH have "length (show_nat (n div 10)) \<le> Suc k" by blast
    with False show ?thesis by (subst show_nat.simps) simp
  qed
qed

lemma length_pad_nat: "n < 10 ^ Suc k \<Longrightarrow> length (pad_nat (Suc k) n) = Suc k"
  using length_show_nat [of n k] by (simp add: pad_nat_def Let_def)

lemma length_isoformat_parts:
  assumes "valid_date (Date y m d)"
  shows "length (pad_nat 4 y) = 4" and "length (pad_nat 2 m) = 2" and "length (pad_nat 2 d) = 2"
proof -
  from assms have "d \<le> 31" by (auto simp: days_in_month_def split: if_splits)
  with assms have "y < 10 ^ Suc 3" "m < 10 ^ Suc 1" "d < 10 ^ Suc 1" by auto
  from this [THEN length_pad_nat] show "length (pad_nat 4 y) = 4"
    "length (pad_nat 2 m) = 2" "length (pad_nat 2 d) = 2" by (simp_all add: numeral_eq_Suc)
qed

lemma isoformat_inj:
  assumes "valid_date a" and "valid_date b" and "isoformat a = isoformat b"
  shows "a = b"
proof -
  obtain y m d where a: "a = Date y m d" by (cases a)
  obtain y' m' d' where b: "b = Date y' m' d'" by (cases b)
  note len = length_isoformat_parts [OF assms(1) [unfolded a]] length_isoformat_parts [OF assms(2) [unfolded b]]
  have "pad_nat 4 y = pad_nat 4 y' \<and> pad_nat 2 m = pad_nat 2 m' \<and> pad_nat 2 d = pad_nat 2 d'"
    using assms(3) by (simp add: a b isoformat_def append_eq_append_conv len)
  then show ?thesis by (simp add: a b pad_nat_inj)
qed

section \<open>Times of day\<close>

text \<open>A naive local \<open>datetime\<close>: its date and the seconds since midnight.\<close>

record local_datetime =
  ldt_date :: date
  ldt_seconds :: nat

end
