(* ===== verification/Network_Policy.thy ===== *)
theory Network_Policy imports QDC_Prelude begin

text \<open>
  \<open>src/utils/network_policy.py\<close>: the environment a child process gets under a network profile, and
  the context manager that swaps the process environment and puts it back.
\<close>

section \<open>Profiles and the environment they build\<close>

definition NETWORK_PROFILE_DIRECT :: string where
  "NETWORK_PROFILE_DIRECT = ''direct''"

definition NETWORK_PROFILE_INHERIT :: string where
  "NETWORK_PROFILE_INHERIT = ''inherit''"

definition NETWORK_PROFILES :: "string list" where
  "NETWORK_PROFILES = [NETWORK_PROFILE_DIRECT, NETWORK_PROFILE_INHERIT]"

definition PROXY_ENV_VARS :: "string list" where
  "PROXY_ENV_VARS =
     [''HTTP_PROXY'', ''HTTPS_PROXY'', ''ALL_PROXY'', ''FTP_PROXY'', ''NO_PROXY'',
      ''http_proxy'', ''https_proxy'', ''all_proxy'', ''ftp_proxy'', ''no_proxy'']"

datatype network_error = InvalidNetworkProfile string

type_synonym environ = "string dict"

text \<open>
  \<open>os_env\<close> is \<open>os.environ\<close>; an absent or empty \<open>base_env\<close> falls back to it.
\<close>

definition build_network_env ::
  "environ \<Rightarrow> environ option \<Rightarrow> string \<Rightarrow> network_error + environ" where
  "build_network_env os_env base_env profile =
     (if profile \<notin> set NETWORK_PROFILES then Inl (InvalidNetworkProfile profile)
      else
        (let env = (case base_env of None \<Rightarrow> os_env | Some [] \<Rightarrow> os_env | Some e \<Rightarrow> e)
         in if profile = NETWORK_PROFILE_INHERIT
            then Inr (dict_set env ''QDC_NETWORK_PROFILE'' NETWORK_PROFILE_INHERIT)
            else
              (let env = fold AList.delete PROXY_ENV_VARS env;
                   env = dict_set env ''NO_PROXY'' ''*'';
                   env = dict_set env ''no_proxy'' ''*''
               in Inr (dict_set env ''QDC_NETWORK_PROFILE'' NETWORK_PROFILE_DIRECT))))"

text \<open>\<open>os.environ.clear(); os.environ.update(e)\<close>.\<close>

definition environ_replace :: "environ \<Rightarrow> environ" where
  "environ_replace e = fold (\<lambda>kv d. dict_set d (fst kv) (snd kv)) e []"

text \<open>
  \<open>network_env\<close> around a body: the body sees the target environment, may change the process
  environment itself and may raise. The result is the environment after the \<open>finally\<close> clause
  and the body's outcome. The module's re-entrant lock serialises whole calls.
\<close>

definition network_env ::
  "string \<Rightarrow> (environ \<Rightarrow> environ \<times> ('x + 'a)) \<Rightarrow> environ \<Rightarrow> environ \<times> ((network_error + 'x) + 'a)" where
  "network_env profile body os_env =
     (let original_env = os_env
      in case build_network_env os_env (Some os_env) profile of
           Inl e \<Rightarrow> (environ_replace original_env, Inl (Inl e))
         | Inr target_env \<Rightarrow>
             (case body (environ_replace target_env) of
                (_, Inl x) \<Rightarrow> (environ_replace original_env, Inl (Inr x))
              | (_, Inr a) \<Rightarrow> (environ_replace original_env, Inr a)))"

section \<open>What the environment holds\<close>

lemma get_fold_delete:
  "map_of (fold AList.delete ks d) k = (if k \<in> set ks then None else map_of d k)"
  by (induction ks arbitrary: d) (auto simp: AList.delete_conv')

lemma get_environ_replace:
  "distinct (map fst e) \<Longrightarrow> map_of (environ_replace e) = map_of e"
proof -
  assume d: "distinct (map fst e)"
  have "map_of (fold (\<lambda>kv d. dict_set d (fst kv) (snd kv)) e d0) = map_of d0 ++ map_of e"
    if "distinct (map fst e)" for e and d0 :: environ
    using that
  proof (induction e arbitrary: d0)
    case (Cons kv e)
    then have "fst kv \<notin> dom (map_of e)" by (auto simp: dom_map_of_conv_image_fst)
    with Cons show ?case
      by (cases kv) (auto simp: fun_eq_iff update_conv' map_add_def dom_def split: option.splits)
  qed simp
  with d show ?thesis by (simp add: environ_replace_def)
qed

lemmas network_defs =
  build_network_env_def NETWORK_PROFILES_def NETWORK_PROFILE_DIRECT_def NETWORK_PROFILE_INHERIT_def

text \<open>The environment the body of a profile starts from, key by key.\<close>

fun profile_lookup :: "string \<Rightarrow> environ \<Rightarrow> string \<Rightarrow> string option" where
  "profile_lookup profile env k =
     (if k = ''QDC_NETWORK_PROFILE'' then Some profile
      else if profile = ''inherit'' then map_of env k
      else if k \<in> {''NO_PROXY'', ''no_proxy''} then Some ''*''
      else if k \<in> set PROXY_ENV_VARS then None
      else map_of env k)"

lemma build_network_env_lookup:
  "build_network_env os_env (Some env) profile = Inr e \<Longrightarrow> env \<noteq> [] \<Longrightarrow>
   map_of e k = profile_lookup profile env k"
proof -
  assume e: "build_network_env os_env (Some env) profile = Inr e" and "env \<noteq> []"
  then have sel: "(case Some env of None \<Rightarrow> os_env | Some [] \<Rightarrow> os_env | Some e \<Rightarrow> e) = env"
    by (cases env) simp_all
  from e consider "profile = ''inherit''" | "profile = ''direct''"
    by (auto simp: network_defs split: if_splits)
  then show ?thesis
  proof cases
    case 1
    then have "e = dict_set env ''QDC_NETWORK_PROFILE'' ''inherit''"
      using e unfolding build_network_env_def sel by (simp add: network_defs)
    with 1 show ?thesis by (simp add: update_conv')
  next
    case 2
    then have "e = dict_set (dict_set (dict_set (fold AList.delete PROXY_ENV_VARS env)
        ''NO_PROXY'' ''*'') ''no_proxy'' ''*'') ''QDC_NETWORK_PROFILE'' ''direct''"
      using e unfolding build_network_env_def sel by (simp add: network_defs Let_def)
    with 2 show ?thesis by (simp add: update_conv' get_fold_delete)
  qed
qed

lemma build_network_env_valid:
  "(\<exists>e. build_network_env os_env base profile = Inr e) \<longleftrightarrow> profile \<in> set NETWORK_PROFILES"
  by (simp add: build_network_env_def Let_def)

section \<open>Properties\<close>

text \<open>
  a child process under the direct profile sees no proxy. Every proxy variable of the parent
  is gone, the two no-proxy variables are the wildcard, the profile is recorded, and nothing else
  changes.
\<close>

theorem direct_env_has_no_proxy:
  assumes "build_network_env os_env (Some env) ''direct'' = Inr e" and "env \<noteq> []"
  shows "map_of e k =
    (if k = ''QDC_NETWORK_PROFILE'' then Some ''direct''
     else if k = ''NO_PROXY'' \<or> k = ''no_proxy'' then Some ''*''
     else if k \<in> set PROXY_ENV_VARS then None
     else map_of env k)"
  using build_network_env_lookup [OF assms, of k] by simp

theorem direct_env_has_no_proxy_witness:
  "\<exists>e. build_network_env [] (Some [(''HTTP_PROXY'', ''h''), (''PATH'', ''p'')]) ''direct'' = Inr e \<and>
       map_of e ''HTTP_PROXY'' = None \<and> map_of e ''PATH'' = Some ''p''"
proof -
  obtain e where e: "build_network_env [] (Some [(''HTTP_PROXY'', ''h''), (''PATH'', ''p'')]) ''direct'' = Inr e"
    by (simp add: network_defs Let_def)
  have ne: "[(''HTTP_PROXY'', ''h''), (''PATH'', ''p'')] \<noteq> []" by simp
  from direct_env_has_no_proxy [OF e ne, of "''HTTP_PROXY''"] direct_env_has_no_proxy [OF e ne, of "''PATH''"] e
  show ?thesis by (simp add: PROXY_ENV_VARS_def)
qed

text \<open>
  the process environment is restored. Whatever the body of the context manager does to the
  environment, and whether it returns, raises or is never entered because the profile is invalid,
  every variable has its old value afterwards.
\<close>

theorem network_env_restores:
  assumes "distinct (map fst os_env)"
  shows "map_of (fst (network_env profile body os_env)) = map_of os_env"
  using get_environ_replace [OF assms]
  by (simp add: network_env_def Let_def split: sum.splits prod.splits)

theorem network_env_restores_witness:
  "map_of (fst (network_env ''direct'' (\<lambda>e. ([], Inl ())) [(''HTTP_PROXY'', ''h''), (''PATH'', ''p'')] ::
     environ \<times> ((network_error + unit) + nat))) ''HTTP_PROXY'' = Some ''h''"
  using network_env_restores [of "[(''HTTP_PROXY'', ''h''), (''PATH'', ''p'')]" "''direct''"
    "\<lambda>e. ([], Inl ()) :: environ \<times> (unit + nat)"]
  by simp

end
