(* ===== verification/Schema.thy ===== *)
theory Schema imports QDC_Prelude begin

text \<open>
  \<open>src/storage/schema.py\<close>: the column names and types of every dataset and metadata table. A PyArrow
  schema is the list of its fields; \<open>TimestampMs\<close> is \<open>pa.timestamp("ms")\<close>.
\<close>

datatype arrow_type = Date32 | StringT | Float64 | Int64 | TimestampMs | BoolT

type_synonym arrow_schema = "(string \<times> arrow_type) list"

definition field_names :: "arrow_schema \<Rightarrow> string list" where
  "field_names schema = map fst schema"

section \<open>Dataset and metadata schemas\<close>

definition DAILY_BAR_SCHEMA :: arrow_schema where
  "DAILY_BAR_SCHEMA =
    [(''date'', Date32), (''code'', StringT), (''open'', Float64), (''high'', Float64),
     (''low'', Float64), (''close'', Float64), (''prev_close'', Float64), (''volume'', Int64),
     (''amount'', Float64), (''adjust_flag'', StringT), (''turnover_rate'', Float64),
     (''trade_status'', StringT), (''pct_change'', Float64), (''pe_ttm'', Float64),
     (''pb_mrq'', Float64), (''ps_ttm'', Float64), (''pcf_ncf_ttm'', Float64),
     (''is_st'', StringT)]"

definition BAOSTOCK_VALUATION_PERCENTILE_SCHEMA :: arrow_schema where
  "BAOSTOCK_VALUATION_PERCENTILE_SCHEMA =
    [(''date'', Date32), (''code'', StringT), (''pe_ttm'', Float64), (''pb_mrq'', Float64),
     (''ps_ttm'', Float64), (''pcf_ncf_ttm'', Float64), (''pe_ttm_percentile_1y'', Float64),
     (''pe_ttm_percentile_3y'', Float64), (''pe_ttm_percentile_5y'', Float64),
     (''pe_ttm_percentile_10y'', Float64), (''pe_ttm_percentile_all_history'', Float64),
     (''pb_mrq_percentile_1y'', Float64), (''pb_mrq_percentile_3y'', Float64),
     (''pb_mrq_percentile_5y'', Float64), (''pb_mrq_percentile_10y'', Float64),
     (''pb_mrq_percentile_all_history'', Float64), (''ps_ttm_percentile_1y'', Float64),
     (''ps_ttm_percentile_3y'', Float64), (''ps_ttm_percentile_5y'', Float64),
     (''ps_ttm_percentile_10y'', Float64), (''ps_ttm_percentile_all_history'', Float64),
     (''pcf_ncf_ttm_percentile_1y'', Float64), (''pcf_ncf_ttm_percentile_3y'', Float64),
     (''pcf_ncf_ttm_percentile_5y'', Float64), (''pcf_ncf_ttm_percentile_10y'', Float64),
     (''pcf_ncf_ttm_percentile_all_history'', Float64)]"

definition BAOSTOCK_CN_STOCK_BASIC_SCHEMA :: arrow_schema where
  "BAOSTOCK_CN_STOCK_BASIC_SCHEMA =
    [(''code'', StringT), (''name'', StringT), (''ipo_date'', Date32), (''delist_date'', Date32),
     (''security_type'', StringT), (''listing_status'', StringT)]"

definition BAOSTOCK_CN_TRADING_CALENDAR_SCHEMA :: arrow_schema where
  "BAOSTOCK_CN_TRADING_CALENDAR_SCHEMA =
    [(''calendar_date'', Date32), (''is_trading_day'', StringT)]"

definition BAOSTOCK_CN_STOCK_ADJUSTMENT_FACTOR_SCHEMA :: arrow_schema where
  "BAOSTOCK_CN_STOCK_ADJUSTMENT_FACTOR_SCHEMA =
    [(''code'', StringT), (''dividend_operate_date'', Date32),
     (''forward_adjust_factor'', Float64), (''backward_adjust_factor'', Float64),
     (''adjustment_factor'', Float64)]"

definition AKSHARE_VALUATION_EASTMONEY_SCHEMA :: arrow_schema where
  "AKSHARE_VALUATION_EASTMONEY_SCHEMA =
    [(''date'', Date32), (''code'', StringT), (''close'', Float64), (''pct_change'', Float64),
     (''total_market_cap'', Float64), (''float_market_cap'', Float64),
     (''total_shares'', Float64), (''float_shares'', Float64), (''pe_ttm'', Float64),
     (''pe_static'', Float64), (''pb'', Float64), (''peg'', Float64), (''pcf'', Float64),
     (''ps'', Float64)]"

definition AKSHARE_CAPITAL_STRUCTURE_EM_SCHEMA :: arrow_schema where
  "AKSHARE_CAPITAL_STRUCTURE_EM_SCHEMA =
    [(''change_date'', Date32), (''code'', StringT), (''source_symbol'', StringT),
     (''total_shares'', Float64), (''restricted_shares'', Float64),
     (''other_domestic_restricted_shares'', Float64),
     (''domestic_legal_person_restricted_shares'', Float64),
     (''domestic_natural_person_restricted_shares'', Float64), (''circulated_shares'', Float64),
     (''listed_a_shares'', Float64), (''change_reason'', StringT),
     (''source_endpoint'', StringT), (''fetched_at'', TimestampMs)]"

definition STOCK_INFO_DELIST_SCHEMA :: arrow_schema where
  "STOCK_INFO_DELIST_SCHEMA =
    [(''snapshot_date'', Date32), (''exchange'', StringT), (''market'', StringT),
     (''code'', StringT), (''source_symbol'', StringT), (''name'', StringT),
     (''list_date'', Date32), (''delist_date'', Date32), (''source_endpoint'', StringT),
     (''fetched_at'', TimestampMs)]"

definition AKSHARE_DELIST_SH_SCHEMA :: arrow_schema where
  "AKSHARE_DELIST_SH_SCHEMA = STOCK_INFO_DELIST_SCHEMA"

definition AKSHARE_DELIST_SZ_SCHEMA :: arrow_schema where
  "AKSHARE_DELIST_SZ_SCHEMA = STOCK_INFO_DELIST_SCHEMA"

definition AKSHARE_SPOT_QUOTE_EASTMONEY_SCHEMA :: arrow_schema where
  "AKSHARE_SPOT_QUOTE_EASTMONEY_SCHEMA =
    [(''trade_date'', Date32), (''code'', StringT), (''source_symbol'', StringT),
     (''name'', StringT), (''last_price'', Float64), (''price_change'', Float64),
     (''pct_change'', Float64), (''open'', Float64), (''high'', Float64), (''low'', Float64),
     (''prev_close'', Float64), (''volume'', Float64), (''amount'', Float64),
     (''turnover_rate'', Float64), (''amplitude'', Float64), (''pe_dynamic'', Float64),
     (''pb'', Float64), (''total_market_cap'', Float64), (''float_market_cap'', Float64),
     (''source_endpoint'', StringT), (''fetched_at'', TimestampMs)]"

definition AKSHARE_SPOT_QUOTE_SINA_SCHEMA :: arrow_schema where
  "AKSHARE_SPOT_QUOTE_SINA_SCHEMA =
    [(''trade_date'', Date32), (''code'', StringT), (''source_symbol'', StringT),
     (''name'', StringT), (''last_price'', Float64), (''price_change'', Float64),
     (''pct_change'', Float64), (''bid'', Float64), (''ask'', Float64),
     (''prev_close'', Float64), (''open'', Float64), (''high'', Float64), (''low'', Float64),
     (''volume'', Float64), (''amount'', Float64), (''source_timestamp'', StringT),
     (''source_endpoint'', StringT), (''is_fallback'', BoolT), (''fallback_reason'', StringT),
     (''fetched_at'', TimestampMs)]"

definition AKSHARE_REPORT_DISCLOSURE_SCHEMA :: arrow_schema where
  "AKSHARE_REPORT_DISCLOSURE_SCHEMA =
    [(''report_period'', StringT), (''period_end_date'', Date32), (''market'', StringT),
     (''code'', StringT), (''name'', StringT), (''first_scheduled_date'', Date32),
     (''first_changed_date'', Date32), (''second_changed_date'', Date32),
     (''third_changed_date'', Date32), (''actual_disclosure_date'', Date32),
     (''source_endpoint'', StringT), (''fetched_at'', TimestampMs)]"

definition AKSHARE_YYSJ_EM_SCHEMA :: arrow_schema where
  "AKSHARE_YYSJ_EM_SCHEMA =
    [(''report_period'', StringT), (''period_end_date'', Date32), (''symbol'', StringT),
     (''code'', StringT), (''name'', StringT), (''first_scheduled_date'', Date32),
     (''first_changed_date'', Date32), (''second_changed_date'', Date32),
     (''third_changed_date'', Date32), (''actual_disclosure_date'', Date32),
     (''source_endpoint'', StringT), (''fetched_at'', TimestampMs)]"

definition AKSHARE_YJYG_EM_SCHEMA :: arrow_schema where
  "AKSHARE_YJYG_EM_SCHEMA =
    [(''report_period'', StringT), (''period_end_date'', Date32), (''code'', StringT),
     (''name'', StringT), (''forecast_indicator'', StringT), (''performance_change'', StringT),
     (''forecast_value'', Float64), (''performance_change_pct'', Float64),
     (''performance_change_reason'', StringT), (''forecast_type'', StringT),
     (''prior_period_value'', Float64), (''announcement_date'', Date32),
     (''source_endpoint'', StringT), (''fetched_at'', TimestampMs)]"

definition AKSHARE_FINANCIAL_REPORT_SINA_SCHEMA :: arrow_schema where
  "AKSHARE_FINANCIAL_REPORT_SINA_SCHEMA =
    [(''code'', StringT), (''source_symbol'', StringT), (''report_type'', StringT),
     (''report_date'', Date32), (''period_end_date'', Date32), (''item_name'', StringT),
     (''item_value'', Float64), (''item_value_text'', StringT), (''data_source'', StringT),
     (''is_audit'', StringT), (''publish_date'', Date32), (''currency'', StringT),
     (''report_kind'', StringT), (''source_update_time'', TimestampMs),
     (''source_endpoint'', StringT), (''fetched_at'', TimestampMs)]"

definition AKSHARE_DAILY_BAR_SCHEMA :: arrow_schema where
  "AKSHARE_DAILY_BAR_SCHEMA =
    [(''date'', Date32), (''code'', StringT), (''source_symbol'', StringT), (''open'', Float64),
     (''high'', Float64), (''low'', Float64), (''close'', Float64), (''volume'', Int64),
     (''amount'', Float64), (''amplitude'', Float64), (''pct_change'', Float64),
     (''price_change'', Float64), (''turnover_rate'', Float64), (''adjustment'', StringT),
     (''source_endpoint'', StringT), (''quality_status'', StringT), (''fetched_at'', TimestampMs)]"

definition AKSHARE_STOCK_INSTITUTION_HOLDING_SCHEMA :: arrow_schema where
  "AKSHARE_STOCK_INSTITUTION_HOLDING_SCHEMA =
    [(''report_period'', StringT), (''period_end_date'', Date32), (''code'', StringT),
     (''name'', StringT), (''institution_count'', Int64), (''institution_count_change'', Int64),
     (''holding_ratio'', Float64), (''holding_ratio_change'', Float64),
     (''float_holding_ratio'', Float64), (''float_holding_ratio_change'', Float64)]"

definition QLIB_CN_CALENDAR_DAY_SCHEMA :: arrow_schema where
  "QLIB_CN_CALENDAR_DAY_SCHEMA =
    [(''calendar_date'', Date32)]"

definition QLIB_CN_INSTRUMENT_MEMBERSHIP_SCHEMA :: arrow_schema where
  "QLIB_CN_INSTRUMENT_MEMBERSHIP_SCHEMA =
    [(''universe'', StringT), (''qlib_symbol'', StringT), (''exchange'', StringT),
     (''code'', StringT), (''start_date'', Date32), (''end_date'', Date32)]"

definition QLIB_CN_STOCK_FEATURES_DAY_SCHEMA :: arrow_schema where
  "QLIB_CN_STOCK_FEATURES_DAY_SCHEMA =
    [(''date'', Date32), (''qlib_symbol'', StringT), (''exchange'', StringT),
     (''code'', StringT), (''open'', Float64), (''high'', Float64), (''low'', Float64),
     (''close'', Float64), (''volume'', Float64), (''amount'', Float64), (''factor'', Float64),
     (''change'', Float64), (''vwap'', Float64), (''adjclose'', Float64)]"

definition CN_SECURITY_MASTER_SCHEMA :: arrow_schema where
  "CN_SECURITY_MASTER_SCHEMA =
    [(''security_id'', StringT), (''code'', StringT), (''exchange'', StringT),
     (''name'', StringT), (''security_type'', StringT), (''board'', StringT),
     (''baostock_code'', StringT), (''akshare_code'', StringT), (''qlib_symbol'', StringT),
     (''ipo_date'', Date32), (''delist_date'', Date32), (''listing_status'', StringT),
     (''is_active'', BoolT), (''source_priority'', StringT), (''latest_source_date'', Date32),
     (''updated_at'', TimestampMs)]"

definition CN_STOCK_DAILY_BAR_SCHEMA :: arrow_schema where
  "CN_STOCK_DAILY_BAR_SCHEMA =
    [(''date'', Date32), (''security_id'', StringT), (''code'', StringT),
     (''exchange'', StringT), (''name'', StringT), (''adjustment'', StringT),
     (''open'', Float64), (''high'', Float64), (''low'', Float64), (''close'', Float64),
     (''prev_close'', Float64), (''volume'', Float64), (''amount'', Float64),
     (''turnover_rate'', Float64), (''pct_change'', Float64), (''trade_status'', StringT),
     (''is_st'', StringT), (''is_active'', BoolT), (''source_dataset'', StringT),
     (''source_endpoint'', StringT), (''quality_status'', StringT), (''updated_at'', TimestampMs)]"

definition CN_STOCK_VALUATION_SCHEMA :: arrow_schema where
  "CN_STOCK_VALUATION_SCHEMA =
    [(''date'', Date32), (''security_id'', StringT), (''code'', StringT),
     (''exchange'', StringT), (''name'', StringT), (''close'', Float64),
     (''total_market_cap'', Float64), (''float_market_cap'', Float64),
     (''total_shares'', Float64), (''float_shares'', Float64), (''pe_ttm'', Float64),
     (''pe_static'', Float64), (''pb'', Float64), (''ps'', Float64), (''pcf'', Float64),
     (''pe_ttm_percentile_1y'', Float64), (''pe_ttm_percentile_3y'', Float64),
     (''pe_ttm_percentile_5y'', Float64), (''pe_ttm_percentile_10y'', Float64),
     (''pe_ttm_percentile_all_history'', Float64), (''pb_percentile_1y'', Float64),
     (''pb_percentile_3y'', Float64), (''pb_percentile_5y'', Float64),
     (''pb_percentile_10y'', Float64), (''pb_percentile_all_history'', Float64),
     (''ps_percentile_1y'', Float64), (''ps_percentile_3y'', Float64),
     (''ps_percentile_5y'', Float64), (''ps_percentile_10y'', Float64),
     (''ps_percentile_all_history'', Float64), (''pcf_percentile_1y'', Float64),
     (''pcf_percentile_3y'', Float64), (''pcf_percentile_5y'', Float64),
     (''pcf_percentile_10y'', Float64), (''pcf_percentile_all_history'', Float64),
     (''source_dataset'', StringT), (''updated_at'', TimestampMs)]"

definition PIPELINE_RUNS_SCHEMA :: arrow_schema where
  "PIPELINE_RUNS_SCHEMA =
    [(''task_id'', StringT), (''dataset'', StringT), (''code'', StringT), (''status'', StringT),
     (''start_date'', Date32), (''end_date'', Date32), (''start_time'', TimestampMs),
     (''end_time'', TimestampMs), (''row_count'', Int64), (''error_stack'', StringT)]"

definition DATASET_UPDATE_STATUS_SCHEMA :: arrow_schema where
  "DATASET_UPDATE_STATUS_SCHEMA =
    [(''dataset'', StringT), (''code'', StringT), (''last_success_date'', Date32),
     (''row_count'', Int64), (''status'', StringT), (''updated_at'', TimestampMs),
     (''error_stack'', StringT)]"

definition PIPELINE_CHECKPOINTS_SCHEMA :: arrow_schema where
  "PIPELINE_CHECKPOINTS_SCHEMA =
    [(''pipeline'', StringT), (''dataset'', StringT), (''code'', StringT),
     (''start_date'', Date32), (''end_date'', Date32), (''status'', StringT),
     (''row_count'', Int64), (''output_path'', StringT), (''updated_at'', TimestampMs),
     (''error_stack'', StringT)]"

definition DATASET_PARTITION_MANIFEST_SCHEMA :: arrow_schema where
  "DATASET_PARTITION_MANIFEST_SCHEMA =
    [(''dataset'', StringT), (''partition_column'', StringT), (''partition_value'', StringT),
     (''output_path'', StringT), (''row_count'', Int64), (''min_date'', StringT),
     (''max_date'', StringT), (''content_hash'', StringT), (''semantic_hash'', StringT),
     (''schema_hash'', StringT), (''source_signature'', StringT), (''master_row_hash'', StringT),
     (''file_size_bytes'', Int64), (''file_mtime'', TimestampMs), (''run_id'', StringT),
     (''writer_pid'', Int64), (''writer_thread'', StringT), (''updated_at'', TimestampMs)]"

lemmas schema_defs =
  DAILY_BAR_SCHEMA_def BAOSTOCK_VALUATION_PERCENTILE_SCHEMA_def
  BAOSTOCK_CN_STOCK_BASIC_SCHEMA_def BAOSTOCK_CN_TRADING_CALENDAR_SCHEMA_def
  BAOSTOCK_CN_STOCK_ADJUSTMENT_FACTOR_SCHEMA_def AKSHARE_VALUATION_EASTMONEY_SCHEMA_def
  AKSHARE_CAPITAL_STRUCTURE_EM_SCHEMA_def STOCK_INFO_DELIST_SCHEMA_def
  AKSHARE_DELIST_SH_SCHEMA_def AKSHARE_DELIST_SZ_SCHEMA_def
  AKSHARE_SPOT_QUOTE_EASTMONEY_SCHEMA_def AKSHARE_SPOT_QUOTE_SINA_SCHEMA_def
  AKSHARE_REPORT_DISCLOSURE_SCHEMA_def AKSHARE_YYSJ_EM_SCHEMA_def AKSHARE_YJYG_EM_SCHEMA_def
  AKSHARE_FINANCIAL_REPORT_SINA_SCHEMA_def AKSHARE_DAILY_BAR_SCHEMA_def
  AKSHARE_STOCK_INSTITUTION_HOLDING_SCHEMA_def QLIB_CN_CALENDAR_DAY_SCHEMA_def
  QLIB_CN_INSTRUMENT_MEMBERSHIP_SCHEMA_def QLIB_CN_STOCK_FEATURES_DAY_SCHEMA_def
  CN_SECURITY_MASTER_SCHEMA_def CN_STOCK_DAILY_BAR_SCHEMA_def CN_STOCK_VALUATION_SCHEMA_def
  PIPELINE_RUNS_SCHEMA_def DATASET_UPDATE_STATUS_SCHEMA_def PIPELINE_CHECKPOINTS_SCHEMA_def
  DATASET_PARTITION_MANIFEST_SCHEMA_def

section \<open>Schemas by dataset\<close>

definition METADATA_SCHEMAS :: "arrow_schema dict" where
  "METADATA_SCHEMAS =
    [(''pipeline_runs'', PIPELINE_RUNS_SCHEMA),
     (''dataset_update_status'', DATASET_UPDATE_STATUS_SCHEMA),
     (''pipeline_checkpoints'', PIPELINE_CHECKPOINTS_SCHEMA),
     (''dataset_partition_manifest'', DATASET_PARTITION_MANIFEST_SCHEMA)]"

definition DATASET_SCHEMAS :: "arrow_schema dict" where
  "DATASET_SCHEMAS =
    [(''baostock_cn_stock_daily_bar_unadjusted'', DAILY_BAR_SCHEMA),
     (''baostock_cn_stock_daily_bar_qfq'', DAILY_BAR_SCHEMA),
     (''baostock_cn_stock_daily_bar_hfq'', DAILY_BAR_SCHEMA),
     (''baostock_cn_stock_valuation_percentile'', BAOSTOCK_VALUATION_PERCENTILE_SCHEMA),
     (''baostock_cn_stock_basic'', BAOSTOCK_CN_STOCK_BASIC_SCHEMA),
     (''baostock_cn_trading_calendar'', BAOSTOCK_CN_TRADING_CALENDAR_SCHEMA),
     (''baostock_cn_stock_adjustment_factor'', BAOSTOCK_CN_STOCK_ADJUSTMENT_FACTOR_SCHEMA),
     (''akshare_cn_stock_valuation_eastmoney'', AKSHARE_VALUATION_EASTMONEY_SCHEMA),
     (''akshare_cn_stock_capital_structure_em'', AKSHARE_CAPITAL_STRUCTURE_EM_SCHEMA),
     (''akshare_cn_stock_delist_sh'', AKSHARE_DELIST_SH_SCHEMA),
     (''akshare_cn_stock_delist_sz'', AKSHARE_DELIST_SZ_SCHEMA),
     (''akshare_cn_stock_spot_quote_eastmoney'', AKSHARE_SPOT_QUOTE_EASTMONEY_SCHEMA),
     (''akshare_cn_stock_spot_quote_sina'', AKSHARE_SPOT_QUOTE_SINA_SCHEMA),
     (''akshare_cn_stock_report_disclosure'', AKSHARE_REPORT_DISCLOSURE_SCHEMA),
     (''akshare_cn_stock_yysj_em'', AKSHARE_YYSJ_EM_SCHEMA),
     (''akshare_cn_stock_yjyg_em'', AKSHARE_YJYG_EM_SCHEMA),
     (''akshare_cn_stock_financial_report_sina'', AKSHARE_FINANCIAL_REPORT_SINA_SCHEMA),
     (''akshare_cn_stock_daily_bar_unadjusted'', AKSHARE_DAILY_BAR_SCHEMA),
     (''akshare_cn_stock_daily_bar_qfq'', AKSHARE_DAILY_BAR_SCHEMA),
     (''akshare_cn_stock_daily_bar_hfq'', AKSHARE_DAILY_BAR_SCHEMA),
     (''akshare_cn_stock_institution_holding'', AKSHARE_STOCK_INSTITUTION_HOLDING_SCHEMA),
     (''qlib_cn_calendar_day'', QLIB_CN_CALENDAR_DAY_SCHEMA),
     (''qlib_cn_instrument_membership'', QLIB_CN_INSTRUMENT_MEMBERSHIP_SCHEMA),
     (''qlib_cn_stock_features_day'', QLIB_CN_STOCK_FEATURES_DAY_SCHEMA),
     (''cn_security_master'', CN_SECURITY_MASTER_SCHEMA),
     (''cn_stock_daily_bar'', CN_STOCK_DAILY_BAR_SCHEMA),
     (''cn_stock_valuation'', CN_STOCK_VALUATION_SCHEMA)] @ METADATA_SCHEMAS"

datatype schema_error = UnknownDatasetSchema string

definition schema_for_dataset :: "string \<Rightarrow> schema_error + arrow_schema" where
  "schema_for_dataset dataset =
     (case dict_get DATASET_SCHEMAS dataset of
        None \<Rightarrow> Inl (UnknownDatasetSchema dataset)
      | Some schema \<Rightarrow> Inr schema)"

end
