(* ===== verification/Dataset_Catalog.thy ===== *)
theory Dataset_Catalog imports Schema begin

text \<open>
  \<open>src/storage/dataset_catalog.py\<close>: the storage rules of every dataset and the functions that expand
  and look up dataset names. A validator is named by the function of \<open>src/quality/validators.py\<close> the
  definition refers to.
\<close>

datatype write_mode = Replace | Merge | Upsert

record dataset_definition =
  ds_id :: string
  ds_logical_name :: string
  ds_source :: string
  ds_endpoint :: "string option"
  ds_code_format :: string
  ds_schema :: arrow_schema
  ds_validator :: string
  ds_view_name :: "string option"
  ds_partitioned_by_code :: bool
  ds_partition_column :: "string option"
  ds_lifecycle :: string
  ds_sort_columns :: "string list"
  ds_unique_columns :: "string list"
  ds_default_write_mode :: write_mode
  ds_fixed_column_values :: "(string \<times> string) list"
  ds_legacy_partition_prefixes :: "string list"

datatype catalog_error =
    UnsupportedDataset string
  | UnsupportedDailyBarDataset string
  | UnsupportedAkshareDataset string
  | UnsupportedAdjustment string
  | UnsupportedAkshareAdjustment string

section \<open>The definitions\<close>

definition BAOSTOCK_DAILY_BAR_DATASET_IDS :: "string list" where
  "BAOSTOCK_DAILY_BAR_DATASET_IDS =
     [''baostock_cn_stock_daily_bar_unadjusted''] @ [''baostock_cn_stock_daily_bar_qfq''] @
     [''baostock_cn_stock_daily_bar_hfq'']"

definition DAILY_BAR_DATASETS :: "dataset_definition list" where
  "DAILY_BAR_DATASETS =
     map (\<lambda>dataset_id.
     \<lparr>ds_id = dataset_id, ds_logical_name = ''cn_stock_daily_bar'', ds_source = ''baostock'',
       ds_endpoint = Some ''query_history_k_data_plus'', ds_code_format = ''baostock_prefixed'',
       ds_schema = DAILY_BAR_SCHEMA, ds_validator = ''validate_daily_bar'',
       ds_view_name = Some (''v_'' @ dataset_id), ds_partitioned_by_code = True,
       ds_partition_column = Some ''code'', ds_lifecycle = ''managed'',
       ds_sort_columns = [''code'', ''date''], ds_unique_columns = [''code'', ''date''],
       ds_default_write_mode = Replace, ds_fixed_column_values = [],
       ds_legacy_partition_prefixes = []\<rparr>)
     BAOSTOCK_DAILY_BAR_DATASET_IDS"

definition BAOSTOCK_CN_STOCK_BASIC_DATASET :: dataset_definition where
  "BAOSTOCK_CN_STOCK_BASIC_DATASET =
     \<lparr>ds_id = ''baostock_cn_stock_basic'', ds_logical_name = ''cn_stock_basic'',
       ds_source = ''baostock'', ds_endpoint = Some ''query_stock_basic'',
       ds_code_format = ''baostock_prefixed'', ds_schema = BAOSTOCK_CN_STOCK_BASIC_SCHEMA,
       ds_validator = ''validate_baostock_cn_stock_basic'',
       ds_view_name = Some ''v_baostock_cn_stock_basic'', ds_partitioned_by_code = False,
       ds_partition_column = None, ds_lifecycle = ''managed'', ds_sort_columns = [''code''],
       ds_unique_columns = [''code''], ds_default_write_mode = Replace,
       ds_fixed_column_values = [], ds_legacy_partition_prefixes = [''snapshot_date='']\<rparr>"

definition BAOSTOCK_CN_TRADING_CALENDAR_DATASET :: dataset_definition where
  "BAOSTOCK_CN_TRADING_CALENDAR_DATASET =
     \<lparr>ds_id = ''baostock_cn_trading_calendar'', ds_logical_name = ''cn_trading_calendar'',
       ds_source = ''baostock'', ds_endpoint = Some ''query_trade_dates'',
       ds_code_format = ''none'', ds_schema = BAOSTOCK_CN_TRADING_CALENDAR_SCHEMA,
       ds_validator = ''validate_baostock_cn_trading_calendar'',
       ds_view_name = Some ''v_baostock_cn_trading_calendar'', ds_partitioned_by_code = False,
       ds_partition_column = None, ds_lifecycle = ''managed'',
       ds_sort_columns = [''calendar_date''], ds_unique_columns = [''calendar_date''],
       ds_default_write_mode = Merge, ds_fixed_column_values = [],
       ds_legacy_partition_prefixes = []\<rparr>"

definition BAOSTOCK_CN_STOCK_ADJUSTMENT_FACTOR_DATASET :: dataset_definition where
  "BAOSTOCK_CN_STOCK_ADJUSTMENT_FACTOR_DATASET =
     \<lparr>ds_id = ''baostock_cn_stock_adjustment_factor'',
       ds_logical_name = ''cn_stock_adjustment_factor'', ds_source = ''baostock'',
       ds_endpoint = Some ''query_adjust_factor'', ds_code_format = ''baostock_prefixed'',
       ds_schema = BAOSTOCK_CN_STOCK_ADJUSTMENT_FACTOR_SCHEMA,
       ds_validator = ''validate_baostock_cn_stock_adjustment_factor'',
       ds_view_name = Some ''v_baostock_cn_stock_adjustment_factor'',
       ds_partitioned_by_code = True, ds_partition_column = Some ''code'',
       ds_lifecycle = ''managed'', ds_sort_columns = [''code'', ''dividend_operate_date''],
       ds_unique_columns = [''code'', ''dividend_operate_date''],
       ds_default_write_mode = Replace, ds_fixed_column_values = [],
       ds_legacy_partition_prefixes = []\<rparr>"

definition BAOSTOCK_CN_STOCK_VALUATION_PERCENTILE_DATASET :: dataset_definition where
  "BAOSTOCK_CN_STOCK_VALUATION_PERCENTILE_DATASET =
     \<lparr>ds_id = ''baostock_cn_stock_valuation_percentile'',
       ds_logical_name = ''cn_stock_valuation_percentile'', ds_source = ''baostock'',
       ds_endpoint = None, ds_code_format = ''baostock_prefixed'',
       ds_schema = BAOSTOCK_VALUATION_PERCENTILE_SCHEMA,
       ds_validator = ''validate_baostock_cn_stock_valuation_percentile'',
       ds_view_name = Some ''v_baostock_cn_stock_valuation_percentile'',
       ds_partitioned_by_code = True, ds_partition_column = Some ''code'',
       ds_lifecycle = ''managed'', ds_sort_columns = [''code'', ''date''],
       ds_unique_columns = [''code'', ''date''], ds_default_write_mode = Replace,
       ds_fixed_column_values = [], ds_legacy_partition_prefixes = []\<rparr>"

definition AKSHARE_VALUATION_EASTMONEY_DATASET :: dataset_definition where
  "AKSHARE_VALUATION_EASTMONEY_DATASET =
     \<lparr>ds_id = ''akshare_cn_stock_valuation_eastmoney'',
       ds_logical_name = ''cn_stock_valuation'', ds_source = ''akshare'',
       ds_endpoint = Some ''stock_value_em'', ds_code_format = ''six_digit'',
       ds_schema = AKSHARE_VALUATION_EASTMONEY_SCHEMA,
       ds_validator = ''validate_akshare_cn_stock_valuation_eastmoney'',
       ds_view_name = Some ''v_akshare_cn_stock_valuation_eastmoney'',
       ds_partitioned_by_code = True, ds_partition_column = Some ''code'',
       ds_lifecycle = ''managed'', ds_sort_columns = [''code'', ''date''],
       ds_unique_columns = [''code'', ''date''], ds_default_write_mode = Replace,
       ds_fixed_column_values = [], ds_legacy_partition_prefixes = []\<rparr>"

definition AKSHARE_CAPITAL_STRUCTURE_EM_DATASET :: dataset_definition where
  "AKSHARE_CAPITAL_STRUCTURE_EM_DATASET =
     \<lparr>ds_id = ''akshare_cn_stock_capital_structure_em'',
       ds_logical_name = ''cn_stock_capital_structure'', ds_source = ''akshare'',
       ds_endpoint = Some ''stock_zh_a_gbjg_em'', ds_code_format = ''six_digit'',
       ds_schema = AKSHARE_CAPITAL_STRUCTURE_EM_SCHEMA,
       ds_validator = ''validate_akshare_cn_stock_capital_structure_em'',
       ds_view_name = Some ''v_akshare_cn_stock_capital_structure_em'',
       ds_partitioned_by_code = True, ds_partition_column = Some ''code'',
       ds_lifecycle = ''managed'',
       ds_sort_columns = [''code'', ''change_date'', ''change_reason''],
       ds_unique_columns = [''code'', ''change_date'', ''change_reason''],
       ds_default_write_mode = Replace, ds_fixed_column_values = [],
       ds_legacy_partition_prefixes = []\<rparr>"

definition AKSHARE_DELIST_SH_DATASET :: dataset_definition where
  "AKSHARE_DELIST_SH_DATASET =
     \<lparr>ds_id = ''akshare_cn_stock_delist_sh'', ds_logical_name = ''cn_stock_delist'',
       ds_source = ''akshare'', ds_endpoint = Some ''stock_info_sh_delist'',
       ds_code_format = ''six_digit'', ds_schema = AKSHARE_DELIST_SH_SCHEMA,
       ds_validator = ''validate_akshare_cn_stock_delist_sh'',
       ds_view_name = Some ''v_akshare_cn_stock_delist_sh'', ds_partitioned_by_code = False,
       ds_partition_column = Some ''snapshot_date'', ds_lifecycle = ''managed'',
       ds_sort_columns = [''market'', ''code''],
       ds_unique_columns = [''snapshot_date'', ''exchange'', ''code''],
       ds_default_write_mode = Replace, ds_fixed_column_values = [],
       ds_legacy_partition_prefixes = []\<rparr>"

definition AKSHARE_DELIST_SZ_DATASET :: dataset_definition where
  "AKSHARE_DELIST_SZ_DATASET =
     \<lparr>ds_id = ''akshare_cn_stock_delist_sz'', ds_logical_name = ''cn_stock_delist'',
       ds_source = ''akshare'', ds_endpoint = Some ''stock_info_sz_delist'',
       ds_code_format = ''six_digit'', ds_schema = AKSHARE_DELIST_SZ_SCHEMA,
       ds_validator = ''validate_akshare_cn_stock_delist_sz'',
       ds_view_name = Some ''v_akshare_cn_stock_delist_sz'', ds_partitioned_by_code = False,
       ds_partition_column = Some ''snapshot_date'', ds_lifecycle = ''managed'',
       ds_sort_columns = [''market'', ''code''],
       ds_unique_columns = [''snapshot_date'', ''exchange'', ''code''],
       ds_default_write_mode = Replace, ds_fixed_column_values = [],
       ds_legacy_partition_prefixes = []\<rparr>"

definition AKSHARE_SPOT_QUOTE_EASTMONEY_DATASET :: dataset_definition where
  "AKSHARE_SPOT_QUOTE_EASTMONEY_DATASET =
     \<lparr>ds_id = ''akshare_cn_stock_spot_quote_eastmoney'',
       ds_logical_name = ''cn_stock_spot_quote'', ds_source = ''akshare'',
       ds_endpoint = Some ''stock_zh_a_spot_em'', ds_code_format = ''six_digit'',
       ds_schema = AKSHARE_SPOT_QUOTE_EASTMONEY_SCHEMA,
       ds_validator = ''validate_akshare_cn_stock_spot_quote_eastmoney'',
       ds_view_name = Some ''v_akshare_cn_stock_spot_quote_eastmoney'',
       ds_partitioned_by_code = False, ds_partition_column = Some ''trade_date'',
       ds_lifecycle = ''managed'', ds_sort_columns = [''code''],
       ds_unique_columns = [''trade_date'', ''code''], ds_default_write_mode = Replace,
       ds_fixed_column_values = [], ds_legacy_partition_prefixes = []\<rparr>"

definition AKSHARE_SPOT_QUOTE_SINA_DATASET :: dataset_definition where
  "AKSHARE_SPOT_QUOTE_SINA_DATASET =
     \<lparr>ds_id = ''akshare_cn_stock_spot_quote_sina'', ds_logical_name = ''cn_stock_spot_quote'',
       ds_source = ''akshare'', ds_endpoint = Some ''stock_zh_a_spot'',
       ds_code_format = ''six_digit'', ds_schema = AKSHARE_SPOT_QUOTE_SINA_SCHEMA,
       ds_validator = ''validate_akshare_cn_stock_spot_quote_sina'',
       ds_view_name = Some ''v_akshare_cn_stock_spot_quote_sina'',
       ds_partitioned_by_code = False, ds_partition_column = Some ''trade_date'',
       ds_lifecycle = ''managed'', ds_sort_columns = [''code''],
       ds_unique_columns = [''trade_date'', ''code''], ds_default_write_mode = Replace,
       ds_fixed_column_values = [], ds_legacy_partition_prefixes = []\<rparr>"

definition AKSHARE_REPORT_DISCLOSURE_DATASET :: dataset_definition where
  "AKSHARE_REPORT_DISCLOSURE_DATASET =
     \<lparr>ds_id = ''akshare_cn_stock_report_disclosure'',
       ds_logical_name = ''cn_stock_report_disclosure'', ds_source = ''akshare'',
       ds_endpoint = Some ''stock_report_disclosure'', ds_code_format = ''six_digit'',
       ds_schema = AKSHARE_REPORT_DISCLOSURE_SCHEMA,
       ds_validator = ''validate_akshare_cn_stock_report_disclosure'',
       ds_view_name = Some ''v_akshare_cn_stock_report_disclosure'',
       ds_partitioned_by_code = False, ds_partition_column = Some ''report_period'',
       ds_lifecycle = ''managed'', ds_sort_columns = [''report_period'', ''code''],
       ds_unique_columns = [''report_period'', ''code''], ds_default_write_mode = Replace,
       ds_fixed_column_values = [], ds_legacy_partition_prefixes = []\<rparr>"

definition AKSHARE_YYSJ_EM_DATASET :: dataset_definition where
  "AKSHARE_YYSJ_EM_DATASET =
     \<lparr>ds_id = ''akshare_cn_stock_yysj_em'', ds_logical_name = ''cn_stock_report_disclosure'',
       ds_source = ''akshare'', ds_endpoint = Some ''stock_yysj_em'',
       ds_code_format = ''six_digit'', ds_schema = AKSHARE_YYSJ_EM_SCHEMA,
       ds_validator = ''validate_akshare_cn_stock_yysj_em'',
       ds_view_name = Some ''v_akshare_cn_stock_yysj_em'', ds_partitioned_by_code = False,
       ds_partition_column = Some ''report_period'', ds_lifecycle = ''managed'',
       ds_sort_columns = [''report_period'', ''symbol'', ''code''],
       ds_unique_columns = [''report_period'', ''symbol'', ''code''],
       ds_default_write_mode = Replace, ds_fixed_column_values = [],
       ds_legacy_partition_prefixes = []\<rparr>"

definition AKSHARE_YJYG_EM_DATASET :: dataset_definition where
  "AKSHARE_YJYG_EM_DATASET =
     \<lparr>ds_id = ''akshare_cn_stock_yjyg_em'', ds_logical_name = ''cn_stock_earnings_forecast'',
       ds_source = ''akshare'', ds_endpoint = Some ''stock_yjyg_em'',
       ds_code_format = ''six_digit'', ds_schema = AKSHARE_YJYG_EM_SCHEMA,
       ds_validator = ''validate_akshare_cn_stock_yjyg_em'',
       ds_view_name = Some ''v_akshare_cn_stock_yjyg_em'', ds_partitioned_by_code = False,
       ds_partition_column = Some ''report_period'', ds_lifecycle = ''managed'',
       ds_sort_columns = [''report_period'', ''code'', ''announcement_date'',
       ''forecast_indicator'', ''forecast_type'', ''performance_change'', ''forecast_value''],
       ds_unique_columns = [''report_period'', ''code'', ''name'', ''announcement_date'',
       ''forecast_indicator'', ''forecast_type'', ''performance_change'', ''forecast_value'',
       ''performance_change_pct'', ''performance_change_reason'', ''prior_period_value''],
       ds_default_write_mode = Replace, ds_fixed_column_values = [],
       ds_legacy_partition_prefixes = []\<rparr>"

definition AKSHARE_FINANCIAL_REPORT_SINA_DATASET :: dataset_definition where
  "AKSHARE_FINANCIAL_REPORT_SINA_DATASET =
     \<lparr>ds_id = ''akshare_cn_stock_financial_report_sina'',
       ds_logical_name = ''cn_stock_financial_report'', ds_source = ''akshare'',
       ds_endpoint = Some ''stock_financial_report_sina'', ds_code_format = ''six_digit'',
       ds_schema = AKSHARE_FINANCIAL_REPORT_SINA_SCHEMA,
       ds_validator = ''validate_akshare_cn_stock_financial_report_sina'',
       ds_view_name = Some ''v_akshare_cn_stock_financial_report_sina'',
       ds_partitioned_by_code = True, ds_partition_column = Some ''code'',
       ds_lifecycle = ''managed'',
       ds_sort_columns = [''code'', ''report_type'', ''report_date'', ''item_name''],
       ds_unique_columns = [''code'', ''report_type'', ''report_date'', ''item_name''],
       ds_default_write_mode = Replace, ds_fixed_column_values = [],
       ds_legacy_partition_prefixes = []\<rparr>"

definition AKSHARE_DAILY_BAR_ADJUSTMENTS :: "string list" where
  "AKSHARE_DAILY_BAR_ADJUSTMENTS =
     [''unadjusted''] @ [''qfq''] @ [''hfq'']"

definition AKSHARE_DAILY_BAR_DATASETS :: "dataset_definition list" where
  "AKSHARE_DAILY_BAR_DATASETS =
     map (\<lambda>adjustment.
     \<lparr>ds_id = ''akshare_cn_stock_daily_bar_'' @ adjustment,
       ds_logical_name = ''cn_stock_daily_bar'', ds_source = ''akshare'',
       ds_endpoint = Some ''stock_zh_a_hist'', ds_code_format = ''six_digit'',
       ds_schema = AKSHARE_DAILY_BAR_SCHEMA,
       ds_validator = ''validate_akshare_cn_stock_daily_bar'',
       ds_view_name = Some (''v_akshare_cn_stock_daily_bar_'' @ adjustment),
       ds_partitioned_by_code = True, ds_partition_column = Some ''code'',
       ds_lifecycle = ''managed'', ds_sort_columns = [''code'', ''adjustment'', ''date''],
       ds_unique_columns = [''code'', ''date'', ''adjustment''],
       ds_default_write_mode = Replace, ds_fixed_column_values = [(''adjustment'', adjustment)],
       ds_legacy_partition_prefixes = []\<rparr>)
     AKSHARE_DAILY_BAR_ADJUSTMENTS"

definition AKSHARE_STOCK_INSTITUTION_HOLDING_DATASET :: dataset_definition where
  "AKSHARE_STOCK_INSTITUTION_HOLDING_DATASET =
     \<lparr>ds_id = ''akshare_cn_stock_institution_holding'',
       ds_logical_name = ''cn_stock_institution_holding'', ds_source = ''akshare'',
       ds_endpoint = None, ds_code_format = ''six_digit'',
       ds_schema = AKSHARE_STOCK_INSTITUTION_HOLDING_SCHEMA,
       ds_validator = ''validate_akshare_cn_stock_institution_holding'',
       ds_view_name = Some ''v_akshare_cn_stock_institution_holding'',
       ds_partitioned_by_code = False, ds_partition_column = Some ''report_period'',
       ds_lifecycle = ''legacy_unmanaged'', ds_sort_columns = [''code'', ''report_period''],
       ds_unique_columns = [''report_period'', ''code''], ds_default_write_mode = Replace,
       ds_fixed_column_values = [], ds_legacy_partition_prefixes = []\<rparr>"

definition QLIB_CN_CALENDAR_DAY_DATASET :: dataset_definition where
  "QLIB_CN_CALENDAR_DAY_DATASET =
     \<lparr>ds_id = ''qlib_cn_calendar_day'', ds_logical_name = ''cn_calendar_day'',
       ds_source = ''qlib'', ds_endpoint = Some ''qlib_bin'', ds_code_format = ''none'',
       ds_schema = QLIB_CN_CALENDAR_DAY_SCHEMA,
       ds_validator = ''validate_qlib_cn_calendar_day'',
       ds_view_name = Some ''v_qlib_cn_calendar_day'', ds_partitioned_by_code = False,
       ds_partition_column = None, ds_lifecycle = ''managed'',
       ds_sort_columns = [''calendar_date''], ds_unique_columns = [''calendar_date''],
       ds_default_write_mode = Replace, ds_fixed_column_values = [],
       ds_legacy_partition_prefixes = []\<rparr>"

definition QLIB_CN_INSTRUMENT_MEMBERSHIP_DATASET :: dataset_definition where
  "QLIB_CN_INSTRUMENT_MEMBERSHIP_DATASET =
     \<lparr>ds_id = ''qlib_cn_instrument_membership'',
       ds_logical_name = ''cn_instrument_membership'', ds_source = ''qlib'',
       ds_endpoint = Some ''qlib_bin'', ds_code_format = ''qlib_symbol'',
       ds_schema = QLIB_CN_INSTRUMENT_MEMBERSHIP_SCHEMA,
       ds_validator = ''validate_qlib_cn_instrument_membership'',
       ds_view_name = Some ''v_qlib_cn_instrument_membership'', ds_partitioned_by_code = False,
       ds_partition_column = None, ds_lifecycle = ''managed'',
       ds_sort_columns = [''universe'', ''qlib_symbol'', ''start_date'', ''end_date''],
       ds_unique_columns = [''universe'', ''qlib_symbol'', ''start_date'', ''end_date''],
       ds_default_write_mode = Replace, ds_fixed_column_values = [],
       ds_legacy_partition_prefixes = []\<rparr>"

definition QLIB_CN_STOCK_FEATURES_DAY_DATASET :: dataset_definition where
  "QLIB_CN_STOCK_FEATURES_DAY_DATASET =
     \<lparr>ds_id = ''qlib_cn_stock_features_day'', ds_logical_name = ''cn_stock_features_day'',
       ds_source = ''qlib'', ds_endpoint = Some ''qlib_bin'', ds_code_format = ''qlib_symbol'',
       ds_schema = QLIB_CN_STOCK_FEATURES_DAY_SCHEMA,
       ds_validator = ''validate_qlib_cn_stock_features_day'',
       ds_view_name = Some ''v_qlib_cn_stock_features_day'', ds_partitioned_by_code = True,
       ds_partition_column = Some ''qlib_symbol'', ds_lifecycle = ''managed'',
       ds_sort_columns = [''qlib_symbol'', ''date''],
       ds_unique_columns = [''qlib_symbol'', ''date''], ds_default_write_mode = Replace,
       ds_fixed_column_values = [], ds_legacy_partition_prefixes = []\<rparr>"

definition CN_SECURITY_MASTER_DATASET :: dataset_definition where
  "CN_SECURITY_MASTER_DATASET =
     \<lparr>ds_id = ''cn_security_master'', ds_logical_name = ''cn_security_master'',
       ds_source = ''derived'', ds_endpoint = None, ds_code_format = ''canonical_security_id'',
       ds_schema = CN_SECURITY_MASTER_SCHEMA, ds_validator = ''validate_cn_security_master'',
       ds_view_name = Some ''v_cn_security_master'', ds_partitioned_by_code = False,
       ds_partition_column = None, ds_lifecycle = ''managed'',
       ds_sort_columns = [''exchange'', ''code''], ds_unique_columns = [''security_id''],
       ds_default_write_mode = Replace, ds_fixed_column_values = [],
       ds_legacy_partition_prefixes = []\<rparr>"

definition CN_STOCK_DAILY_BAR_DATASET :: dataset_definition where
  "CN_STOCK_DAILY_BAR_DATASET =
     \<lparr>ds_id = ''cn_stock_daily_bar'', ds_logical_name = ''cn_stock_daily_bar'',
       ds_source = ''derived'', ds_endpoint = None, ds_code_format = ''canonical_security_id'',
       ds_schema = CN_STOCK_DAILY_BAR_SCHEMA, ds_validator = ''validate_cn_stock_daily_bar'',
       ds_view_name = Some ''v_cn_stock_daily_bar'', ds_partitioned_by_code = True,
       ds_partition_column = Some ''security_id'', ds_lifecycle = ''managed'',
       ds_sort_columns = [''security_id'', ''adjustment'', ''date''],
       ds_unique_columns = [''date'', ''security_id'', ''adjustment''],
       ds_default_write_mode = Upsert, ds_fixed_column_values = [],
       ds_legacy_partition_prefixes = []\<rparr>"

definition CN_STOCK_VALUATION_DATASET :: dataset_definition where
  "CN_STOCK_VALUATION_DATASET =
     \<lparr>ds_id = ''cn_stock_valuation'', ds_logical_name = ''cn_stock_valuation'',
       ds_source = ''derived'', ds_endpoint = None, ds_code_format = ''canonical_security_id'',
       ds_schema = CN_STOCK_VALUATION_SCHEMA, ds_validator = ''validate_cn_stock_valuation'',
       ds_view_name = Some ''v_cn_stock_valuation'', ds_partitioned_by_code = True,
       ds_partition_column = Some ''security_id'', ds_lifecycle = ''managed'',
       ds_sort_columns = [''security_id'', ''date''],
       ds_unique_columns = [''date'', ''security_id''], ds_default_write_mode = Upsert,
       ds_fixed_column_values = [], ds_legacy_partition_prefixes = []\<rparr>"

definition AKSHARE_DATASET_NAMES :: "string list" where
  "AKSHARE_DATASET_NAMES =
     [ds_id AKSHARE_VALUATION_EASTMONEY_DATASET] @ [ds_id AKSHARE_CAPITAL_STRUCTURE_EM_DATASET]"

definition AKSHARE_A_STOCK_DATASET_NAMES :: "string list" where
  "AKSHARE_A_STOCK_DATASET_NAMES =
     [ds_id AKSHARE_CAPITAL_STRUCTURE_EM_DATASET] @ [ds_id AKSHARE_DELIST_SH_DATASET] @ [ds_id
     AKSHARE_DELIST_SZ_DATASET] @ [ds_id AKSHARE_SPOT_QUOTE_EASTMONEY_DATASET] @ [ds_id
     AKSHARE_SPOT_QUOTE_SINA_DATASET] @ [ds_id AKSHARE_REPORT_DISCLOSURE_DATASET] @ [ds_id
     AKSHARE_YYSJ_EM_DATASET] @ [ds_id AKSHARE_YJYG_EM_DATASET] @ [ds_id
     AKSHARE_FINANCIAL_REPORT_SINA_DATASET] @ map ds_id AKSHARE_DAILY_BAR_DATASETS @ [ds_id
     AKSHARE_STOCK_INSTITUTION_HOLDING_DATASET]"

definition catalog_definitions :: "dataset_definition list" where
  "catalog_definitions =
     DAILY_BAR_DATASETS @ [BAOSTOCK_CN_STOCK_BASIC_DATASET] @
     [BAOSTOCK_CN_TRADING_CALENDAR_DATASET] @ [BAOSTOCK_CN_STOCK_ADJUSTMENT_FACTOR_DATASET] @
     [BAOSTOCK_CN_STOCK_VALUATION_PERCENTILE_DATASET] @ [AKSHARE_VALUATION_EASTMONEY_DATASET] @
     [AKSHARE_CAPITAL_STRUCTURE_EM_DATASET] @ [AKSHARE_DELIST_SH_DATASET] @
     [AKSHARE_DELIST_SZ_DATASET] @ [AKSHARE_SPOT_QUOTE_EASTMONEY_DATASET] @
     [AKSHARE_SPOT_QUOTE_SINA_DATASET] @ [AKSHARE_REPORT_DISCLOSURE_DATASET] @
     [AKSHARE_YYSJ_EM_DATASET] @ [AKSHARE_YJYG_EM_DATASET] @
     [AKSHARE_FINANCIAL_REPORT_SINA_DATASET] @ AKSHARE_DAILY_BAR_DATASETS @
     [AKSHARE_STOCK_INSTITUTION_HOLDING_DATASET] @ [QLIB_CN_CALENDAR_DAY_DATASET] @
     [QLIB_CN_INSTRUMENT_MEMBERSHIP_DATASET] @ [QLIB_CN_STOCK_FEATURES_DAY_DATASET] @
     [CN_SECURITY_MASTER_DATASET] @ [CN_STOCK_DAILY_BAR_DATASET] @ [CN_STOCK_VALUATION_DATASET]"

definition DATASET_CATALOG :: "dataset_definition dict" where
  "DATASET_CATALOG = map (\<lambda>definition. (ds_id definition, definition)) catalog_definitions"

lemmas catalog_defs =
  BAOSTOCK_DAILY_BAR_DATASET_IDS_def DAILY_BAR_DATASETS_def BAOSTOCK_CN_STOCK_BASIC_DATASET_def
  BAOSTOCK_CN_TRADING_CALENDAR_DATASET_def BAOSTOCK_CN_STOCK_ADJUSTMENT_FACTOR_DATASET_def
  BAOSTOCK_CN_STOCK_VALUATION_PERCENTILE_DATASET_def AKSHARE_VALUATION_EASTMONEY_DATASET_def
  AKSHARE_CAPITAL_STRUCTURE_EM_DATASET_def AKSHARE_DELIST_SH_DATASET_def
  AKSHARE_DELIST_SZ_DATASET_def AKSHARE_SPOT_QUOTE_EASTMONEY_DATASET_def
  AKSHARE_SPOT_QUOTE_SINA_DATASET_def AKSHARE_REPORT_DISCLOSURE_DATASET_def
  AKSHARE_YYSJ_EM_DATASET_def AKSHARE_YJYG_EM_DATASET_def
  AKSHARE_FINANCIAL_REPORT_SINA_DATASET_def AKSHARE_DAILY_BAR_ADJUSTMENTS_def
  AKSHARE_DAILY_BAR_DATASETS_def AKSHARE_STOCK_INSTITUTION_HOLDING_DATASET_def
  QLIB_CN_CALENDAR_DAY_DATASET_def QLIB_CN_INSTRUMENT_MEMBERSHIP_DATASET_def
  QLIB_CN_STOCK_FEATURES_DAY_DATASET_def CN_SECURITY_MASTER_DATASET_def
  CN_STOCK_DAILY_BAR_DATASET_def CN_STOCK_VALUATION_DATASET_def AKSHARE_DATASET_NAMES_def
  AKSHARE_A_STOCK_DATASET_NAMES_def catalog_definitions_def DATASET_CATALOG_def

section \<open>Selections\<close>

definition daily_bar_dataset_names :: "string list" where
  "daily_bar_dataset_names = BAOSTOCK_DAILY_BAR_DATASET_IDS"

definition daily_bar_definitions :: "dataset_definition list" where
  "daily_bar_definitions = DAILY_BAR_DATASETS"

definition is_daily_bar_dataset :: "string \<Rightarrow> bool" where
  "is_daily_bar_dataset dataset \<longleftrightarrow> dataset \<in> set BAOSTOCK_DAILY_BAR_DATASET_IDS"

text \<open>\<open>DATASET_CATALOG[dataset]\<close> after the membership test; a missing key is the same error.\<close>

definition daily_bar_definition :: "string \<Rightarrow> catalog_error + dataset_definition" where
  "daily_bar_definition dataset =
     (if \<not> is_daily_bar_dataset dataset then Inl (UnsupportedDailyBarDataset dataset)
      else case dict_get DATASET_CATALOG dataset of
             None \<Rightarrow> Inl (UnsupportedDataset dataset)
           | Some definition \<Rightarrow> Inr definition)"

definition dataset_definition_of :: "string \<Rightarrow> catalog_error + dataset_definition" where
  "dataset_definition_of dataset =
     (case dict_get DATASET_CATALOG dataset of
        None \<Rightarrow> Inl (UnsupportedDataset dataset)
      | Some definition \<Rightarrow> Inr definition)"

definition expand_daily_bar_selection :: "string \<Rightarrow> catalog_error + string list" where
  "expand_daily_bar_selection dataset =
     (if dataset = ''all'' then Inr BAOSTOCK_DAILY_BAR_DATASET_IDS
      else if \<not> is_daily_bar_dataset dataset then Inl (UnsupportedDailyBarDataset dataset)
      else Inr [dataset])"

definition akshare_dataset_names :: "string list" where
  "akshare_dataset_names = AKSHARE_DATASET_NAMES"

definition akshare_a_stock_dataset_names :: "string list" where
  "akshare_a_stock_dataset_names = AKSHARE_A_STOCK_DATASET_NAMES"

definition akshare_a_stock_definitions :: "dataset_definition list" where
  "akshare_a_stock_definitions =
     [AKSHARE_CAPITAL_STRUCTURE_EM_DATASET] @ [AKSHARE_DELIST_SH_DATASET] @
     [AKSHARE_DELIST_SZ_DATASET] @ [AKSHARE_SPOT_QUOTE_EASTMONEY_DATASET] @
     [AKSHARE_SPOT_QUOTE_SINA_DATASET] @ [AKSHARE_REPORT_DISCLOSURE_DATASET] @
     [AKSHARE_YYSJ_EM_DATASET] @ [AKSHARE_YJYG_EM_DATASET] @
     [AKSHARE_FINANCIAL_REPORT_SINA_DATASET] @ AKSHARE_DAILY_BAR_DATASETS @
     [AKSHARE_STOCK_INSTITUTION_HOLDING_DATASET]"

definition akshare_daily_bar_adjustments :: "string list" where
  "akshare_daily_bar_adjustments = AKSHARE_DAILY_BAR_ADJUSTMENTS"

definition qlib_definitions :: "dataset_definition list" where
  "qlib_definitions =
     [QLIB_CN_CALENDAR_DAY_DATASET] @ [QLIB_CN_INSTRUMENT_MEMBERSHIP_DATASET] @
     [QLIB_CN_STOCK_FEATURES_DAY_DATASET]"

definition derived_definitions :: "dataset_definition list" where
  "derived_definitions =
     [CN_SECURITY_MASTER_DATASET] @ [CN_STOCK_DAILY_BAR_DATASET] @ [CN_STOCK_VALUATION_DATASET]"

text \<open>The UTF-8 bytes of the Chinese word the source accepts for an unadjusted bar.\<close>

definition unadjusted_word :: string where
  "unadjusted_word =
     [CHR 0xE4, CHR 0xB8, CHR 0x8D, CHR 0xE5, CHR 0xA4, CHR 0x8D, CHR 0xE6, CHR 0x9D, CHR 0x83]"

definition normalize_adjustment :: "string \<Rightarrow> catalog_error + string" where
  "normalize_adjustment adjustment =
     (let normalized = py_lower (py_strip adjustment)
      in if normalized \<in> {[], ''none'', ''unadjusted'', unadjusted_word} then Inr ''unadjusted''
         else if normalized \<in> {''qfq'', ''hfq''} then Inr normalized
         else Inl (UnsupportedAdjustment adjustment))"

definition akshare_daily_bar_dataset_id :: "string \<Rightarrow> catalog_error + string" where
  "akshare_daily_bar_dataset_id adjustment =
     bind_res (normalize_adjustment adjustment) (\<lambda>normalized.
       if normalized \<notin> set AKSHARE_DAILY_BAR_ADJUSTMENTS
       then Inl (UnsupportedAkshareAdjustment adjustment)
       else Inr (''akshare_cn_stock_daily_bar_'' @ normalized))"

definition is_akshare_dataset :: "string \<Rightarrow> bool" where
  "is_akshare_dataset dataset \<longleftrightarrow> dataset \<in> set AKSHARE_DATASET_NAMES"

definition expand_akshare_selection :: "string \<Rightarrow> catalog_error + string list" where
  "expand_akshare_selection dataset =
     (if dataset = ''all'' then Inr AKSHARE_DATASET_NAMES
      else if \<not> is_akshare_dataset dataset then Inl (UnsupportedAkshareDataset dataset)
      else Inr [dataset])"

section \<open>Checks over the whole catalog\<close>

text \<open>The column rules a definition states, against its own schema.\<close>

definition columns_ok :: "dataset_definition \<Rightarrow> bool" where
  "columns_ok d \<longleftrightarrow>
     (let names = field_names (ds_schema d)
      in distinct names \<and> ds_unique_columns d \<noteq> [] \<and>
         list_all (\<lambda>c. c \<in> set names) (ds_unique_columns d) \<and>
         list_all (\<lambda>c. c \<in> set names) (ds_sort_columns d) \<and>
         list_all (\<lambda>c. c \<in> set names) (map fst (ds_fixed_column_values d)) \<and>
         (case ds_partition_column d of None \<Rightarrow> True | Some c \<Rightarrow> c \<in> set (ds_unique_columns d)))"

definition registered_ok :: "dataset_definition \<Rightarrow> bool" where
  "registered_ok d \<longleftrightarrow>
     dict_get DATASET_SCHEMAS (ds_id d) = Some (ds_schema d) \<and>
     ds_view_name d = Some (''v_'' @ ds_id d) \<and>
     (ds_partitioned_by_code d \<longrightarrow> ds_partition_column d \<in> Some ` {''code'', ''qlib_symbol'', ''security_id''})"

lemma catalog_columns_ok: "list_all columns_ok catalog_definitions"
  by code_simp

lemma catalog_registered_ok: "list_all registered_ok catalog_definitions"
  by code_simp

lemma catalog_ids_distinct: "distinct (map ds_id catalog_definitions)"
  by code_simp

lemma catalog_get:
  "dict_get DATASET_CATALOG k = Some d \<longleftrightarrow> d \<in> set catalog_definitions \<and> ds_id d = k"
proof -
  have "distinct (map fst DATASET_CATALOG)"
    using catalog_ids_distinct by (simp add: DATASET_CATALOG_def comp_def)
  then show ?thesis by (auto simp: map_of_eq_Some_iff DATASET_CATALOG_def)
qed

lemma daily_bar_ids_in_catalog:
  "list_all (\<lambda>k. dict_get DATASET_CATALOG k \<noteq> None) (BAOSTOCK_DAILY_BAR_DATASET_IDS @ AKSHARE_DATASET_NAMES)"
  by code_simp

lemma listed_ids_ok:
  "k \<in> set BAOSTOCK_DAILY_BAR_DATASET_IDS \<union> set AKSHARE_DATASET_NAMES \<Longrightarrow> is_ok (dataset_definition_of k)"
  using daily_bar_ids_in_catalog
  by (auto simp only: list_all_iff set_append dataset_definition_of_def split: option.split) auto

lemma listed_ids_nonempty: "BAOSTOCK_DAILY_BAR_DATASET_IDS \<noteq> []" "AKSHARE_DATASET_NAMES \<noteq> []"
  by (simp_all add: BAOSTOCK_DAILY_BAR_DATASET_IDS_def AKSHARE_DATASET_NAMES_def)

lemma akshare_bar_in_catalog:
  "list_all (\<lambda>a. case dict_get DATASET_CATALOG (''akshare_cn_stock_daily_bar_'' @ a) of
       None \<Rightarrow> False
     | Some d \<Rightarrow> ds_fixed_column_values d = [(''adjustment'', a)] \<and> ds_schema d = AKSHARE_DAILY_BAR_SCHEMA)
     [''unadjusted'', ''qfq'', ''hfq'']"
  by code_simp

lemma normalize_adjustment_Inr:
  "normalize_adjustment a = Inr n \<Longrightarrow> n \<in> {''unadjusted'', ''qfq'', ''hfq''}"
  by (auto simp: normalize_adjustment_def Let_def split: if_splits)

section \<open>Properties\<close>

text \<open>
  every dataset definition is consistent with its schema. Column names are distinct; the unique,
  sort and fixed columns exist in the schema; there is at least one unique column; and a partition
  column is one of the unique columns, so no two partitions can hold rows with the same key.
\<close>

theorem catalog_consistent:
  "dict_get DATASET_CATALOG k = Some d \<Longrightarrow>
     distinct (field_names (ds_schema d)) \<and> ds_unique_columns d \<noteq> [] \<and>
     set (ds_unique_columns d) \<union> set (ds_sort_columns d) \<union> fst ` set (ds_fixed_column_values d)
       \<subseteq> set (field_names (ds_schema d)) \<and>
     (\<forall>c. ds_partition_column d = Some c \<longrightarrow> c \<in> set (ds_unique_columns d))"
  using catalog_columns_ok
  by (auto simp: catalog_get list_all_iff columns_ok_def Let_def split: option.splits)

theorem catalog_consistent_witness:
  "set (ds_unique_columns CN_STOCK_VALUATION_DATASET) \<subseteq> set (field_names CN_STOCK_VALUATION_SCHEMA)"
proof -
  have "dict_get DATASET_CATALOG ''cn_stock_valuation'' = Some CN_STOCK_VALUATION_DATASET"
    by code_simp
  from catalog_consistent [OF this] show ?thesis
    by (simp add: CN_STOCK_VALUATION_DATASET_def)
qed

text \<open>
  the two registries agree. The schema table of the schema module and the catalog name the same
  datasets with the same schemas (the table adds only the four metadata tables), and the view of
  every dataset is named after it.
\<close>

theorem registries_agree:
  "(dict_get DATASET_CATALOG k = Some d \<longrightarrow>
      schema_for_dataset k = Inr (ds_schema d) \<and> ds_view_name d = Some (''v_'' @ k)) \<and>
   (k \<in> fst ` set DATASET_SCHEMAS \<longleftrightarrow> dict_get DATASET_CATALOG k \<noteq> None \<or> k \<in> fst ` set METADATA_SCHEMAS)"
proof -
  have "list_all (\<lambda>k. dict_get DATASET_CATALOG k \<noteq> None \<or> k \<in> set (map fst METADATA_SCHEMAS)) (map fst DATASET_SCHEMAS)"
    and "list_all (\<lambda>k. k \<in> set (map fst DATASET_SCHEMAS)) (map ds_id catalog_definitions @ map fst METADATA_SCHEMAS)"
    by code_simp+
  then have keys: "k \<in> fst ` set DATASET_SCHEMAS \<longleftrightarrow>
      dict_get DATASET_CATALOG k \<noteq> None \<or> k \<in> fst ` set METADATA_SCHEMAS"
    by (auto simp: list_all_iff catalog_get)
  moreover have "schema_for_dataset k = Inr (ds_schema d) \<and> ds_view_name d = Some (''v_'' @ k)"
    if "dict_get DATASET_CATALOG k = Some d"
    using that catalog_registered_ok
    by (auto simp: catalog_get list_all_iff registered_ok_def schema_for_dataset_def)
  ultimately show ?thesis by blast
qed

theorem registries_agree_witness:
  "schema_for_dataset ''cn_security_master'' = Inr CN_SECURITY_MASTER_SCHEMA"
proof -
  have "dict_get DATASET_CATALOG ''cn_security_master'' = Some CN_SECURITY_MASTER_DATASET"
    by code_simp
  with registries_agree [of "''cn_security_master''" CN_SECURITY_MASTER_DATASET] show ?thesis
    by (simp add: CN_SECURITY_MASTER_DATASET_def)
qed

text \<open>
  an adjustment name that is accepted leads to a catalogued daily-bar dataset whose fixed
  adjustment column is the normalised name, and normalising is idempotent.
\<close>

theorem akshare_daily_bar_dataset_id_ok:
  assumes "akshare_daily_bar_dataset_id a = Inr k"
  shows "\<exists>n d. normalize_adjustment a = Inr n \<and> normalize_adjustment n = Inr n \<and>
    dict_get DATASET_CATALOG k = Some d \<and> ds_fixed_column_values d = [(''adjustment'', n)]"
proof -
  from assms obtain n where n: "normalize_adjustment a = Inr n" and k: "k = ''akshare_cn_stock_daily_bar_'' @ n"
    by (auto simp: akshare_daily_bar_dataset_id_def split: if_splits)
  have idem: "list_all (\<lambda>n. normalize_adjustment n = Inr n) [''unadjusted'', ''qfq'', ''hfq'']"
    by code_simp
  have "n \<in> set [''unadjusted'', ''qfq'', ''hfq'']" using normalize_adjustment_Inr [OF n] by simp
  then have "normalize_adjustment n = Inr n"
    and "case dict_get DATASET_CATALOG k of None \<Rightarrow> False
      | Some d \<Rightarrow> ds_fixed_column_values d = [(''adjustment'', n)] \<and> ds_schema d = AKSHARE_DAILY_BAR_SCHEMA"
    using idem akshare_bar_in_catalog unfolding list_all_iff k by blast+
  then show ?thesis using n by (auto split: option.splits)
qed

theorem akshare_daily_bar_dataset_id_ok_witness:
  "\<exists>d. dict_get DATASET_CATALOG ''akshare_cn_stock_daily_bar_qfq'' = Some d \<and>
       ds_fixed_column_values d = [(''adjustment'', ''qfq'')]"
proof -
  have id: "akshare_daily_bar_dataset_id '' QFQ '' = Inr ''akshare_cn_stock_daily_bar_qfq''"
    and n: "normalize_adjustment '' QFQ '' = Inr ''qfq''"
    by code_simp+
  from akshare_daily_bar_dataset_id_ok [OF id] n show ?thesis by auto
qed

text \<open>
  a dataset selection expands to catalogued datasets or is rejected: the word \<open>all\<close> and the
  members of the selection are accepted, everything else is an error that names the input.
\<close>

theorem selections_expand_into_catalog:
  "(case expand_daily_bar_selection s of
      Inl e \<Rightarrow> e = UnsupportedDailyBarDataset s \<and> s \<noteq> ''all'' \<and> s \<notin> set BAOSTOCK_DAILY_BAR_DATASET_IDS
    | Inr ks \<Rightarrow> ks \<noteq> [] \<and> (\<forall>k \<in> set ks. is_ok (dataset_definition_of k))) \<and>
   (case expand_akshare_selection s of
      Inl e \<Rightarrow> e = UnsupportedAkshareDataset s \<and> s \<noteq> ''all'' \<and> s \<notin> set AKSHARE_DATASET_NAMES
    | Inr ks \<Rightarrow> ks \<noteq> [] \<and> (\<forall>k \<in> set ks. is_ok (dataset_definition_of k)))"
  using listed_ids_ok listed_ids_nonempty
  by (simp add: expand_daily_bar_selection_def expand_akshare_selection_def is_daily_bar_dataset_def
      is_akshare_dataset_def)

theorem selections_expand_into_catalog_witness:
  "is_ok (dataset_definition_of ''baostock_cn_stock_daily_bar_hfq'')"
  using selections_expand_into_catalog [of "''baostock_cn_stock_daily_bar_hfq''"]
  by (simp add: expand_daily_bar_selection_def is_daily_bar_dataset_def BAOSTOCK_DAILY_BAR_DATASET_IDS_def)

end
