(* ===== verification/Config_Manager.thy ===== *)
theory Config_Manager imports Dataset_Catalog begin

text \<open>
  \<open>src/utils/config_mgr.py\<close>: the settings file, already read by the YAML library, and the lookups
  the pipelines make in it. A YAML file is missing, not YAML, or the value the library loads.
\<close>

datatype yaml_file = NoFile | NotYaml | Yaml pyval

datatype config_error =
    ConfigNotFound
  | YamlError
  | ConfigRootNotMapping
  | MissingPathSetting string
  | MissingFields string
  | UnsupportedDailyBar string
  | ConfigTypeError

text \<open>\<open>ConfigError\<close> is the class of every constructor but the parser's own error and a type error.\<close>

definition is_ConfigError :: "config_error \<Rightarrow> bool" where
  "is_ConfigError e \<longleftrightarrow> e \<notin> {YamlError, ConfigTypeError}"

definition load_yaml :: "yaml_file \<Rightarrow> config_error + pyval dict" where
  "load_yaml f =
     (case f of
        NoFile \<Rightarrow> Inl ConfigNotFound
      | NotYaml \<Rightarrow> Inl YamlError
      | Yaml v \<Rightarrow>
          (case (if truthy v then v else PDict []) of
             PDict d \<Rightarrow> Inr d
           | _ \<Rightarrow> Inl ConfigRootNotMapping))"

text \<open>\<open>s.split(c)\<close>.\<close>

fun split_all :: "char \<Rightarrow> string \<Rightarrow> string list" where
  "split_all c [] = [[]]"
| "split_all c (x # xs) =
     (if x = c then [] # split_all c xs
      else case split_all c xs of [] \<Rightarrow> [[x]] | p # ps \<Rightarrow> (x # p) # ps)"

fun get_parts :: "pyval \<Rightarrow> string list \<Rightarrow> pyval option" where
  "get_parts v [] = Some v"
| "get_parts (PDict d) (p # ps) = (case dict_get d p of None \<Rightarrow> None | Some w \<Rightarrow> get_parts w ps)"
| "get_parts v (p # ps) = None"

text \<open>\<open>ConfigManager.get\<close>; the settings are loaded on first use, so a bad file is this call's error.\<close>

definition config_get :: "yaml_file \<Rightarrow> string \<Rightarrow> pyval \<Rightarrow> config_error + pyval" where
  "config_get f dotted_key dflt =
     bind_res (load_yaml f) (\<lambda>settings.
       Inr (case get_parts (PDict settings) (split_all (CHR ''.'') dotted_key) of None \<Rightarrow> dflt | Some v \<Rightarrow> v))"

text \<open>\<open>paths.resolve_path\<close> joins the setting to the root; the path library is a parameter.\<close>

definition config_path :: "(pyval \<Rightarrow> 'path) \<Rightarrow> yaml_file \<Rightarrow> string \<Rightarrow> pyval \<Rightarrow> config_error + 'path" where
  "config_path resolve_path f dotted_key dflt =
     bind_res (config_get f dotted_key dflt) (\<lambda>value.
       if value = PNone then Inl (MissingPathSetting dotted_key) else Inr (resolve_path value))"

definition daily_bar_fields :: "yaml_file \<Rightarrow> config_error + string" where
  "daily_bar_fields f =
     bind_res (config_get f ''datasets.daily_bar.fields'' PNone) (\<lambda>fields.
       if truthy fields then Inr (py_str fields) else Inl (MissingFields ''datasets.daily_bar.fields''))"

definition baostock_cn_stock_basic_fields :: "yaml_file \<Rightarrow> config_error + string" where
  "baostock_cn_stock_basic_fields f =
     bind_res (config_get f ''datasets.baostock_cn_stock_basic.fields'' PNone) (\<lambda>fields.
       if truthy fields then Inr (py_str fields)
       else Inl (MissingFields ''datasets.baostock_cn_stock_basic.fields''))"

definition adjust_flag_for_dataset :: "yaml_file \<Rightarrow> string \<Rightarrow> config_error + string" where
  "adjust_flag_for_dataset f dataset =
     (let prefix = ''baostock_cn_stock_daily_bar_''
      in if \<not> starts_with prefix dataset then Inl (UnsupportedDailyBar dataset)
         else
           bind_res (config_get f ''api.baostock.adjust_flag_map'' (PDict [])) (\<lambda>mapping.
             case mapping of
               PDict d \<Rightarrow>
                 (case dict_get d (drop (length prefix) dataset) of
                    None \<Rightarrow> Inl (UnsupportedDailyBar dataset)
                  | Some v \<Rightarrow> Inr (py_str v))
             | _ \<Rightarrow> Inl ConfigTypeError))"

lemma split_all_join:
  "c \<notin> set p \<Longrightarrow> split_all c (p @ c # s) = p # split_all c s"
  by (induction p) auto

lemma split_all_single: "c \<notin> set p \<Longrightarrow> split_all c p = [p]"
  by (induction p) auto

text \<open>
  A dotted key reads what was written under its parts: for parts without dots, looking their
  dotted join up in the settings follows the parts one by one through nested mappings, and gives
  the default exactly when that walk leaves a mapping or misses a key.
\<close>

theorem config_get_dotted:
  assumes "parts \<noteq> []" and "\<forall>p \<in> set parts. CHR ''.'' \<notin> set p" and "load_yaml f = Inr settings"
  shows "config_get f (join_with ''.'' parts) dflt =
    Inr (case get_parts (PDict settings) parts of None \<Rightarrow> dflt | Some v \<Rightarrow> v)"
proof -
  have "split_all (CHR ''.'') (join_with ''.'' parts) = parts"
    using assms(1,2)
    by (induction "''.''" parts rule: join_with.induct) (auto simp: split_all_join split_all_single)
  then show ?thesis by (simp add: config_get_def assms(3))
qed

definition sample_settings :: yaml_file where
  "sample_settings =
     Yaml (PDict [(''project'', PDict [(''timezone'', PStr ''Asia/Shanghai'')]),
       (''api'', PDict [(''baostock'', PDict [(''adjust_flag_map'',
          PDict [(''unadjusted'', PStr ''3''), (''qfq'', PStr ''1''), (''hfq'', PStr ''2'')])])])])"

theorem config_get_dotted_witness:
  "config_get sample_settings (join_with ''.'' [''project'', ''timezone'']) PNone = Inr (PStr ''Asia/Shanghai'')"
  using config_get_dotted [of "[''project'', ''timezone'']" sample_settings _ PNone]
  by (simp add: sample_settings_def load_yaml_def)

text \<open>
  When the settings map holds the three adjustments, every BaoStock daily-bar dataset of the
  catalog gets the flag of its adjustment, and a dataset outside the family is refused without
  reading the settings.
\<close>

theorem adjust_flag_covers_catalog:
  assumes "config_get f ''api.baostock.adjust_flag_map'' (PDict []) = Inr (PDict m)"
    and "{''unadjusted'', ''qfq'', ''hfq''} \<subseteq> dom (map_of m)"
  shows "(\<forall>dataset \<in> set daily_bar_dataset_names. \<exists>suffix v.
            dataset = ''baostock_cn_stock_daily_bar_'' @ suffix \<and> map_of m suffix = Some v \<and>
            adjust_flag_for_dataset f dataset = Inr (py_str v)) \<and>
         (\<forall>dataset. \<not> starts_with ''baostock_cn_stock_daily_bar_'' dataset \<longrightarrow>
            adjust_flag_for_dataset f dataset = Inl (UnsupportedDailyBar dataset))"
proof -
  have flag: "adjust_flag_for_dataset f (''baostock_cn_stock_daily_bar_'' @ suffix) = Inr (py_str v)"
    if "map_of m suffix = Some v" for suffix v
    using that assms(1) by (simp add: adjust_flag_for_dataset_def starts_with_def)
  have names: "set daily_bar_dataset_names =
      (\<lambda>s. ''baostock_cn_stock_daily_bar_'' @ s) ` {''unadjusted'', ''qfq'', ''hfq''}"
    by (simp add: daily_bar_dataset_names_def BAOSTOCK_DAILY_BAR_DATASET_IDS_def)
  show ?thesis
  proof (intro conjI ballI)
    fix dataset assume "dataset \<in> set daily_bar_dataset_names"
    then obtain suffix where d: "dataset = ''baostock_cn_stock_daily_bar_'' @ suffix"
      and s: "suffix \<in> {''unadjusted'', ''qfq'', ''hfq''}" unfolding names by blast
    from s assms(2) have "suffix \<in> dom (map_of m)" by blast
    then obtain v where "map_of m suffix = Some v" by blast
    with d flag show "\<exists>suffix v. dataset = ''baostock_cn_stock_daily_bar_'' @ suffix \<and>
        map_of m suffix = Some v \<and> adjust_flag_for_dataset f dataset = Inr (py_str v)" by blast
  qed (simp add: adjust_flag_for_dataset_def)
qed

theorem adjust_flag_covers_catalog_witness:
  "adjust_flag_for_dataset sample_settings ''akshare_x'' = Inl (UnsupportedDailyBar ''akshare_x'')"
proof -
  have "config_get sample_settings ''api.baostock.adjust_flag_map'' (PDict []) =
      Inr (PDict [(''unadjusted'', PStr ''3''), (''qfq'', PStr ''1''), (''hfq'', PStr ''2'')])"
    by (simp add: sample_settings_def config_get_def load_yaml_def)
  from adjust_flag_covers_catalog [OF this] show ?thesis by (simp add: starts_with_def)
qed

end
