(* ===== verification/Workflow_Config.thy ===== *)
theory Workflow_Config imports Calendar_Date Network_Policy Config_Manager begin

text \<open>
  The configuration part of \<open>src/tools/run_update_daily.py\<close>: the daily workflow file, already
  parsed by the YAML library into a value, becomes the list of steps scheduled for a run.

  Every \<open>DailyWorkflowConfigError\<close> is a constructor of \<open>workflow_error\<close>, with the step or field
  its message names.
\<close>

section \<open>Dates, dependencies and steps\<close>

record daily_effective_dates =
  natural_date :: date
  candidate_date :: date
  market_date :: date
  hist_start :: date
  market_date_overridden :: bool

record daily_dependency =
  dep_step_id :: string
  dep_state_key_policy :: "string option"
  dep_soft :: bool

datatype dependency = DepName string | Dep daily_dependency

record daily_step =
  step_id :: string
  step_name :: string
  step_command :: "string list"
  step_optional :: bool
  step_timeout_seconds :: "int option"
  step_depends_on :: "dependency list"
  step_schedule_policy :: string
  step_state_key_policy :: string
  step_resume_policy :: string
  step_data_freshness_policy :: string
  step_network_profile :: string

definition command_text :: "daily_step \<Rightarrow> string" where
  "command_text s = join_with '' '' (step_command s)"

definition SCHEDULE_POLICIES :: "string list" where
  "SCHEDULE_POLICIES = [''daily'', ''market_window'', ''legacy_when'']"

definition STATE_KEY_POLICIES :: "string list" where
  "STATE_KEY_POLICIES = [''natural_date'', ''market_date'', ''run_instance'']"

definition RESUME_POLICIES :: "string list" where
  "RESUME_POLICIES = [''skip_if_success'', ''always_run'']"

definition DATA_FRESHNESS_POLICIES :: "string list" where
  "DATA_FRESHNESS_POLICIES = [''market_session'', ''natural_daily'', ''disclosure_calendar'', ''maintenance'']"

fun dependency_step_id :: "dependency \<Rightarrow> string" where
  "dependency_step_id (DepName s) = s"
| "dependency_step_id (Dep d) = dep_step_id d"

datatype format_error =
    UnbalancedBrace
  | PositionalField
  | UnknownField string
  | FieldWithSpec string

datatype workflow_error =
    ConfigMissing
  | InvalidYaml
  | RootNotMapping
  | StepsNotList
  | StepNotMapping nat
  | MissingStringField nat string
  | InvalidEnum string string
  | InvalidTimeout string
  | TimeoutNotPositive string
  | DependsOnType string
  | EmptyDependency string
  | DependencyWithoutStep string
  | DependencyPolicyInvalid string string
  | DependencySoftInvalid string string
  | DependsOnItemType string
  | NotStringList string
  | NotOnlyStrings string
  | CommandMissing string
  | CommandNotStrings string
  | CommandEmpty string
  | UnsupportedSchedulePolicy string
  | TemplateError format_error

section \<open>Templates\<close>

text \<open>
  \<open>value.format(**context)\<close>: doubled braces stand for themselves, \<open>{name}\<close> is looked up. A field
  that is empty or a number is positional and there are no positional arguments. A field with a
  conversion, a format specification, an attribute or an index is outside what the workflow files
  use and is reported as \<open>FieldWithSpec\<close>.
\<close>

definition format_field :: "string dict \<Rightarrow> string \<Rightarrow> format_error + string" where
  "format_field ctx f =
     (if list_ex (\<lambda>c. c \<in> {CHR ''!'', CHR '':'', CHR ''.'', CHR ''['', CHR ''{''}) f then Inl (FieldWithSpec f)
      else if list_all is_digit f then Inl PositionalField
      else case dict_get ctx f of None \<Rightarrow> Inl (UnknownField f) | Some v \<Rightarrow> Inr v)"

function py_format :: "string dict \<Rightarrow> string \<Rightarrow> format_error + string" where
  "py_format ctx [] = Inr []"
| "py_format ctx (c # cs) =
     (if c = CHR ''{'' then
        (case cs of
           [] \<Rightarrow> Inl UnbalancedBrace
         | d # ds \<Rightarrow>
             if d = CHR ''{'' then bind_res (py_format ctx ds) (\<lambda>r. Inr (CHR ''{'' # r))
             else if CHR ''}'' \<notin> set cs then Inl UnbalancedBrace
             else bind_res (format_field ctx (fst (split_first (CHR ''}'') cs))) (\<lambda>v.
                  bind_res (py_format ctx (snd (split_first (CHR ''}'') cs))) (\<lambda>r. Inr (v @ r))))
      else if c = CHR ''}'' then
        (case cs of
           [] \<Rightarrow> Inl UnbalancedBrace
         | d # ds \<Rightarrow>
             if d = CHR ''}'' then bind_res (py_format ctx ds) (\<lambda>r. Inr (CHR ''}'' # r))
             else Inl UnbalancedBrace)
      else bind_res (py_format ctx cs) (\<lambda>r. Inr (c # r)))"
  by pat_completeness auto
termination
proof (relation "measure (\<lambda>(ctx, s). length s)", simp, simp)
  fix ctx :: "string dict" and c d :: char and cs ds :: string and v :: string
  have "length (snd (split_first (CHR ''}'') cs)) \<le> length cs"
    by (simp add: split_first_def le_trans [OF diff_le_self length_dropWhile_le])
  then show "((ctx, snd (split_first (CHR ''}'') cs)), ctx, c # cs) \<in> measure (\<lambda>(ctx, s). length s)"
    by simp
qed simp_all

definition render_text :: "string \<Rightarrow> string dict \<Rightarrow> workflow_error + string" where
  "render_text value context =
     (case py_format context value of Inl e \<Rightarrow> Inl (TemplateError e) | Inr s \<Rightarrow> Inr s)"

text \<open>\<open>sys.executable\<close> is a parameter.\<close>

definition cli :: "string \<Rightarrow> string list" where
  "cli executable = [executable, ''-m'', ''src.cli'']"

definition workflow_context :: "string \<Rightarrow> daily_effective_dates \<Rightarrow> string dict" where
  "workflow_context executable ed =
     [(''python'', executable),
      (''today'', isoformat (natural_date ed)),
      (''natural_date'', isoformat (natural_date ed)),
      (''candidate_date'', isoformat (candidate_date ed)),
      (''market_date'', isoformat (market_date ed)),
      (''hist_start'', isoformat (hist_start ed))]"

definition render_command_item ::
  "string \<Rightarrow> string dict \<Rightarrow> string \<Rightarrow> pyval \<Rightarrow> workflow_error + string list" where
  "render_command_item executable context sid item =
     (case item of
        PStr s \<Rightarrow>
          if s = ''{qdc}'' then Inr (cli executable)
          else bind_res (render_text s context) (\<lambda>r. Inr [r])
      | _ \<Rightarrow> Inl (CommandNotStrings sid))"

definition render_command ::
  "string \<Rightarrow> pyval option \<Rightarrow> string dict \<Rightarrow> string \<Rightarrow> workflow_error + string list" where
  "render_command executable command context sid =
     bind_res
       (case command of
          Some (PStr s) \<Rightarrow> Inr [PStr s]
        | Some (PList xs) \<Rightarrow> Inr xs
        | _ \<Rightarrow> Inl (CommandMissing sid))
       (\<lambda>items. bind_res (traverse (render_command_item executable context sid) items) (\<lambda>parts.
          let rendered = concat parts
          in if rendered = [] then Inl (CommandEmpty sid) else Inr rendered))"

section \<open>Fields of a step\<close>

definition required_string :: "pyval dict \<Rightarrow> string \<Rightarrow> nat \<Rightarrow> workflow_error + string" where
  "required_string raw_step field index =
     (case dict_get raw_step field of
        Some (PStr value) \<Rightarrow>
          if py_strip value = [] then Inl (MissingStringField (index + 1) field) else Inr (py_strip value)
      | _ \<Rightarrow> Inl (MissingStringField (index + 1) field))"

definition optional_timeout :: "pyval option \<Rightarrow> string \<Rightarrow> workflow_error + int option" where
  "optional_timeout value sid =
     (case value of
        None \<Rightarrow> Inr None
      | Some PNone \<Rightarrow> Inr None
      | Some v \<Rightarrow>
          (case v of
             PList _ \<Rightarrow> Inl (InvalidTimeout sid)
           | PDict _ \<Rightarrow> Inl (InvalidTimeout sid)
           | POther _ _ _ \<Rightarrow> Inl (InvalidTimeout sid)
           | _ \<Rightarrow>
               (case py_int v of
                  None \<Rightarrow> Inl (InvalidTimeout sid)
                | Some timeout \<Rightarrow>
                    if timeout \<le> 0 then Inl (TimeoutNotPositive sid) else Inr (Some timeout))))"

definition enum_value ::
  "pyval dict \<Rightarrow> string \<Rightarrow> string \<Rightarrow> string list \<Rightarrow> nat \<Rightarrow> workflow_error + string" where
  "enum_value raw_step field dflt allowed index =
     (let value = dict_get_default raw_step field (PStr dflt);
          step_label = py_str (dict_get_default raw_step ''id'' (PStr (CHR ''#'' # show_nat (index + 1))))
      in case value of
           PStr s \<Rightarrow> if py_strip s \<in> set allowed then Inr (py_strip s) else Inl (InvalidEnum step_label field)
         | _ \<Rightarrow> Inl (InvalidEnum step_label field))"

definition dependency_of_mapping :: "string \<Rightarrow> pyval dict \<Rightarrow> workflow_error + daily_dependency" where
  "dependency_of_mapping sid item =
     (case dict_get item ''step'' of
        Some (PStr raw_dependency_step) \<Rightarrow>
          if py_strip raw_dependency_step = [] then Inl (DependencyWithoutStep sid)
          else
            bind_res
              (case dict_get_default item ''state_key_policy'' PNone of
                 PNone \<Rightarrow> Inr None
               | PStr raw_policy \<Rightarrow>
                   if py_strip raw_policy \<in> set STATE_KEY_POLICIES then Inr (Some (py_strip raw_policy))
                   else Inl (DependencyPolicyInvalid sid raw_dependency_step)
               | _ \<Rightarrow> Inl (DependencyPolicyInvalid sid raw_dependency_step))
              (\<lambda>policy.
            bind_res
              (case dict_get_default item ''soft'' PNone of
                 PNone \<Rightarrow> Inr False
               | PBool raw_soft \<Rightarrow> Inr raw_soft
               | _ \<Rightarrow> Inl (DependencySoftInvalid sid raw_dependency_step))
              (\<lambda>soft.
            Inr \<lparr>dep_step_id = py_strip raw_dependency_step, dep_state_key_policy = policy, dep_soft = soft\<rparr>))
      | _ \<Rightarrow> Inl (DependencyWithoutStep sid))"

definition dependency_of_item :: "string \<Rightarrow> pyval \<Rightarrow> workflow_error + daily_dependency" where
  "dependency_of_item sid item =
     (case item of
        PStr s \<Rightarrow>
          if py_strip s = [] then Inl (EmptyDependency sid)
          else Inr \<lparr>dep_step_id = py_strip s, dep_state_key_policy = None, dep_soft = False\<rparr>
      | PDict d \<Rightarrow> dependency_of_mapping sid d
      | _ \<Rightarrow> Inl (DependsOnItemType sid))"

definition dependencies :: "pyval \<Rightarrow> string \<Rightarrow> workflow_error + daily_dependency list" where
  "dependencies value sid =
     (case value of
        PNone \<Rightarrow> Inr []
      | PStr s \<Rightarrow> Inr [\<lparr>dep_step_id = py_strip s, dep_state_key_policy = None, dep_soft = False\<rparr>]
      | PList items \<Rightarrow> traverse (dependency_of_item sid) items
      | _ \<Rightarrow> Inl (DependsOnType sid))"

definition string_list :: "pyval \<Rightarrow> string \<Rightarrow> workflow_error + string list" where
  "string_list value field_name =
     (case value of
        PNone \<Rightarrow> Inr []
      | PStr s \<Rightarrow> Inr [s]
      | PList items \<Rightarrow>
          traverse (\<lambda>item. case item of
             PStr s \<Rightarrow> if py_strip s = [] then Inl (NotOnlyStrings field_name) else Inr (py_strip s)
           | _ \<Rightarrow> Inl (NotOnlyStrings field_name)) items
      | _ \<Rightarrow> Inl (NotStringList field_name))"

section \<open>Schedules\<close>

definition day_rule_matches :: "pyval \<Rightarrow> date \<Rightarrow> workflow_error + bool" where
  "day_rule_matches raw_rules today =
     bind_res (string_list raw_rules ''when'') (\<lambda>rules.
       if rules = [] \<or> ''all'' \<in> set rules then Inr True
       else
         (let wd = weekday today
          in Inr (list_ex (\<lambda>rule.
               let normalized = py_lower (py_strip rule)
               in normalized = ''weekday'' \<and> wd < 5 \<or>
                  normalized = ''weekend'' \<and> wd \<in> {5, 6} \<or>
                  normalized \<in> {''friday_to_sunday'', ''weekend_window''} \<and> wd \<in> {4, 5, 6} \<or>
                  normalized = day_name today) rules)))"

definition schedule_policy_matches ::
  "string \<Rightarrow> pyval \<Rightarrow> daily_effective_dates \<Rightarrow> workflow_error + bool" where
  "schedule_policy_matches policy raw_rules ed =
     (if policy = ''daily'' then Inr True
      else if policy = ''market_window'' then
        Inr (weekday (natural_date ed) \<in> {4, 5, 6} \<or> candidate_date ed \<noteq> market_date ed \<or>
             market_date_overridden ed)
      else if policy = ''legacy_when'' then day_rule_matches raw_rules (natural_date ed)
      else Inl (UnsupportedSchedulePolicy policy))"

section \<open>Steps\<close>

definition default_schedule_policy :: "pyval dict \<Rightarrow> string" where
  "default_schedule_policy raw_step =
     (if dict_get raw_step ''when'' \<noteq> None then ''legacy_when'' else ''daily'')"

definition daily_step_from_config ::
  "string \<Rightarrow> pyval dict \<Rightarrow> string dict \<Rightarrow> nat \<Rightarrow> workflow_error + daily_step" where
  "daily_step_from_config executable raw_step context index =
     bind_res (required_string raw_step ''id'' index) (\<lambda>sid.
     bind_res (render_text (py_str (dict_get_default raw_step ''name'' (PStr sid))) context) (\<lambda>nm.
     bind_res (render_command executable (dict_get raw_step ''command'') context sid) (\<lambda>command.
     let optional = truthy (dict_get_default raw_step ''optional'' (PBool False)) in
     bind_res (optional_timeout (dict_get raw_step ''timeout_seconds'') sid) (\<lambda>timeout_seconds.
     bind_res (dependencies (dict_get_default raw_step ''depends_on'' (PList [])) sid) (\<lambda>depends_on.
     bind_res (enum_value raw_step ''schedule_policy'' (default_schedule_policy raw_step) SCHEDULE_POLICIES index)
       (\<lambda>schedule_policy.
     bind_res (enum_value raw_step ''state_key_policy'' ''natural_date'' STATE_KEY_POLICIES index)
       (\<lambda>state_key_policy.
     bind_res (enum_value raw_step ''resume_policy'' ''skip_if_success'' RESUME_POLICIES index)
       (\<lambda>resume_policy.
     bind_res (enum_value raw_step ''data_freshness_policy'' ''natural_daily'' DATA_FRESHNESS_POLICIES index)
       (\<lambda>data_freshness_policy.
     bind_res (enum_value raw_step ''network_profile'' NETWORK_PROFILE_DIRECT NETWORK_PROFILES index)
       (\<lambda>network_profile.
     Inr \<lparr>step_id = sid, step_name = nm, step_command = command, step_optional = optional,
          step_timeout_seconds = timeout_seconds, step_depends_on = map Dep depends_on,
          step_schedule_policy = schedule_policy, step_state_key_policy = state_key_policy,
          step_resume_policy = resume_policy, step_data_freshness_policy = data_freshness_policy,
          step_network_profile = network_profile\<rparr>))))))))))"

text \<open>One entry of the \<open>steps\<close> list: \<open>None\<close> when it is disabled or not scheduled.\<close>

definition scheduled_step ::
  "string \<Rightarrow> daily_effective_dates \<Rightarrow> nat \<times> pyval \<Rightarrow> workflow_error + daily_step option" where
  "scheduled_step executable ed entry =
     (case snd entry of
        PDict raw_step \<Rightarrow>
          if \<not> truthy (dict_get_default raw_step ''enabled'' (PBool True)) then Inr None
          else
            bind_res (enum_value raw_step ''schedule_policy'' (default_schedule_policy raw_step)
                        SCHEDULE_POLICIES (fst entry)) (\<lambda>policy.
            bind_res (schedule_policy_matches policy (dict_get_default raw_step ''when'' (PList [PStr ''all''])) ed)
              (\<lambda>due.
            if \<not> due then Inr None
            else bind_res (daily_step_from_config executable raw_step (workflow_context executable ed) (fst entry))
                   (\<lambda>step. Inr (Some step))))
      | _ \<Rightarrow> Inl (StepNotMapping (fst entry + 1)))"

text \<open>Dependencies on steps that are not part of this run are dropped.\<close>

definition restrict_dependencies :: "string set \<Rightarrow> daily_step \<Rightarrow> daily_step" where
  "restrict_dependencies ids step =
     step\<lparr>step_depends_on := filter (\<lambda>d. dependency_step_id d \<in> ids) (step_depends_on step)\<rparr>"

definition steps_from_workflow_config ::
  "string \<Rightarrow> pyval dict \<Rightarrow> daily_effective_dates \<Rightarrow> workflow_error + daily_step list" where
  "steps_from_workflow_config executable config ed =
     (case dict_get config ''steps'' of
        Some (PList raw_steps) \<Rightarrow>
          bind_res (traverse (scheduled_step executable ed) (enumerate 0 raw_steps)) (\<lambda>entries.
            let steps = List.map_filter id entries;
                step_ids = set (map step_id steps)
            in Inr (map (restrict_dependencies step_ids) steps))
      | _ \<Rightarrow> Inl StepsNotList)"

definition load_daily_workflow_config :: "yaml_file \<Rightarrow> workflow_error + pyval dict" where
  "load_daily_workflow_config f =
     (case f of
        NoFile \<Rightarrow> Inl ConfigMissing
      | NotYaml \<Rightarrow> Inl InvalidYaml
      | Yaml v \<Rightarrow>
          (case (if truthy v then v else PDict []) of
             PDict d \<Rightarrow> Inr d
           | _ \<Rightarrow> Inl RootNotMapping))"

definition daily_steps ::
  "string \<Rightarrow> yaml_file \<Rightarrow> daily_effective_dates \<Rightarrow> workflow_error + daily_step list" where
  "daily_steps executable f ed =
     bind_res (load_daily_workflow_config f) (\<lambda>config. steps_from_workflow_config executable config ed)"


section \<open>What the loader guarantees\<close>

text \<open>A step every later stage may rely on: the ranges of all its fields.\<close>

definition wf_dependency :: "dependency \<Rightarrow> bool" where
  "wf_dependency d =
     (case d of
        DepName s \<Rightarrow> False
      | Dep r \<Rightarrow> case dep_state_key_policy r of None \<Rightarrow> True | Some p \<Rightarrow> p \<in> set STATE_KEY_POLICIES)"

definition wf_step :: "daily_step \<Rightarrow> bool" where
  "wf_step s \<longleftrightarrow>
     step_id s \<noteq> [] \<and> py_strip (step_id s) = step_id s \<and> step_command s \<noteq> [] \<and>
     (case step_timeout_seconds s of None \<Rightarrow> True | Some t \<Rightarrow> 0 < t) \<and>
     list_all wf_dependency (step_depends_on s) \<and>
     step_schedule_policy s \<in> set SCHEDULE_POLICIES \<and>
     step_state_key_policy s \<in> set STATE_KEY_POLICIES \<and>
     step_resume_policy s \<in> set RESUME_POLICIES \<and>
     step_data_freshness_policy s \<in> set DATA_FRESHNESS_POLICIES \<and>
     step_network_profile s \<in> set NETWORK_PROFILES"

lemma required_string_Inr:
  "required_string raw f i = Inr v \<longleftrightarrow>
   (\<exists>s. dict_get raw f = Some (PStr s) \<and> py_strip s \<noteq> [] \<and> v = py_strip s)"
  by (auto simp: required_string_def split: option.splits pyval.splits if_splits)

lemma enum_value_Inr: "enum_value raw f d allowed i = Inr v \<Longrightarrow> v \<in> set allowed"
  by (auto simp: enum_value_def Let_def split: pyval.splits if_splits)

lemma optional_timeout_pos: "optional_timeout v sid = Inr (Some t) \<Longrightarrow> 0 < t"
  by (auto simp: optional_timeout_def split: option.splits pyval.splits if_splits)

lemma render_command_nonempty: "render_command e c ctx sid = Inr cmd \<Longrightarrow> cmd \<noteq> []"
  by (auto simp: render_command_def Let_def split: if_splits)

lemma dependency_of_item_wf: "dependency_of_item sid item = Inr d \<Longrightarrow> wf_dependency (Dep d)"
  by (auto simp: dependency_of_item_def dependency_of_mapping_def wf_dependency_def
           split: pyval.splits if_splits option.splits)

lemma dependencies_wf: "dependencies v sid = Inr ds \<Longrightarrow> d \<in> set ds \<Longrightarrow> wf_dependency (Dep d)"
proof -
  assume ds: "dependencies v sid = Inr ds" and d: "d \<in> set ds"
  show "wf_dependency (Dep d)"
  proof (cases "\<exists>items. v = PList items")
    case True
    with ds d show ?thesis
      by (auto simp: dependencies_def dest!: traverse_Inr_mem dependency_of_item_wf)
  next
    case False
    with ds d show ?thesis
      by (auto simp: dependencies_def wf_dependency_def split: pyval.splits)
  qed
qed

lemma daily_step_from_config_id:
  "daily_step_from_config e raw ctx i = Inr s \<Longrightarrow> required_string raw ''id'' i = Inr (step_id s)"
  unfolding daily_step_from_config_def by auto

lemma daily_step_from_config_wf:
  assumes "daily_step_from_config e raw ctx i = Inr s"
  shows "wf_step s"
  using assms unfolding daily_step_from_config_def Let_def
  by (auto simp: wf_step_def required_string_Inr list_all_iff
      dest!: enum_value_Inr render_command_nonempty
      intro: optional_timeout_pos dependencies_wf split: option.split)

lemma scheduled_step_wf: "scheduled_step e ed entry = Inr (Some s) \<Longrightarrow> wf_step s"
  by (auto simp: scheduled_step_def split: pyval.splits if_splits intro: daily_step_from_config_wf)

lemma restrict_dependencies_wf: "wf_step s \<Longrightarrow> wf_step (restrict_dependencies ids s)"
  by (auto simp: wf_step_def restrict_dependencies_def list_all_iff)

lemma restrict_dependencies_id [simp]: "step_id (restrict_dependencies ids s) = step_id s"
  by (simp add: restrict_dependencies_def)

lemma step_id_restrict [simp]: "step_id \<circ> restrict_dependencies ids = step_id"
  by (simp add: fun_eq_iff)

lemma steps_from_workflow_config_Inr:
  assumes "steps_from_workflow_config e config ed = Inr steps"
  obtains raw entries where "dict_get config ''steps'' = Some (PList raw)"
    and "traverse (scheduled_step e ed) (enumerate 0 raw) = Inr entries"
    and "steps = map (restrict_dependencies (set (map step_id (List.map_filter id entries)))) (List.map_filter id entries)"
  using assms unfolding steps_from_workflow_config_def Let_def
  by (auto split: option.splits pyval.splits)

text \<open>
  C40: Every step the loader returns is well formed: a stripped non-empty id, a non-empty command, a
  positive timeout if any, and every policy and profile among the allowed ones; and the result is
  closed, every dependency of a step naming a step of the same run.
\<close>

lemma configured_steps_well_formed:
  assumes "steps_from_workflow_config executable config ed = Inr steps" and "s \<in> set steps"
  shows "wf_step s \<and> (\<forall>d \<in> set (step_depends_on s). dependency_step_id d \<in> set (map step_id steps))"
proof -
  from assms(1) obtain raw entries where
    tr: "traverse (scheduled_step executable ed) (enumerate 0 raw) = Inr entries" and
    st: "steps = map (restrict_dependencies (set (map step_id (List.map_filter id entries)))) (List.map_filter id entries)"
    by (rule steps_from_workflow_config_Inr)
  from assms(2) st obtain s0 where s0: "s0 \<in> set (List.map_filter id entries)"
    and s: "s = restrict_dependencies (set (map step_id (List.map_filter id entries))) s0" by auto
  from s0 have "Some s0 \<in> set entries" by (auto simp: List.map_filter_def)
  with tr obtain x where "scheduled_step executable ed x = Inr (Some s0)"
    by (blast dest: traverse_Inr_mem)
  then have "wf_step s" by (simp add: s scheduled_step_wf restrict_dependencies_wf)
  moreover have "map step_id steps = map step_id (List.map_filter id entries)" by (simp add: st)
  ultimately show ?thesis by (auto simp: s restrict_dependencies_def)
qed

text \<open>When an entry of the file is due, in plain words: enabled, and its schedule admits the dates.\<close>

fun entry_due :: "daily_effective_dates \<Rightarrow> nat \<times> pyval \<Rightarrow> bool" where
  "entry_due ed (i, PDict raw) =
     (truthy (dict_get_default raw ''enabled'' (PBool True)) \<and>
      (\<exists>policy. enum_value raw ''schedule_policy'' (default_schedule_policy raw) SCHEDULE_POLICIES i = Inr policy \<and>
         schedule_policy_matches policy (dict_get_default raw ''when'' (PList [PStr ''all''])) ed = Inr True))"
| "entry_due ed _ = False"

fun entry_id :: "nat \<times> pyval \<Rightarrow> string" where
  "entry_id (i, PDict raw) = (case dict_get raw ''id'' of Some (PStr s) \<Rightarrow> py_strip s | _ \<Rightarrow> [])"
| "entry_id _ = []"

lemma scheduled_step_due:
  "scheduled_step e ed x = Inr r \<Longrightarrow>
   (case r of None \<Rightarrow> \<not> entry_due ed x | Some s \<Rightarrow> entry_due ed x \<and> step_id s = entry_id x)"
  by (cases x; cases "snd x")
    (auto simp: scheduled_step_def required_string_Inr dest!: daily_step_from_config_id split: if_splits)

lemma traverse_due:
  "traverse (scheduled_step e ed) xs = Inr rs \<Longrightarrow>
   map step_id (List.map_filter id rs) = map entry_id (filter (entry_due ed) xs)"
proof (induction xs arbitrary: rs)
  case Nil
  then show ?case by (simp add: List.map_filter_def)
next
  case (Cons x xs)
  from Cons.prems obtain r rs' where
    r: "scheduled_step e ed x = Inr r" and rs: "traverse (scheduled_step e ed) xs = Inr rs'" "rs = r # rs'"
    by auto
  from scheduled_step_due [OF r] Cons.IH [OF rs(1)] show ?case
    by (cases r) (simp_all add: rs(2) List.map_filter_simps)
qed

text \<open>
  The steps of a run are exactly the entries of the file that are enabled and due, each once, in
  the order of the file, under their stripped ids: nothing that is due is lost and nothing that is
  not due runs.
\<close>

lemma configured_steps_are_due_entries:
  assumes "dict_get config ''steps'' = Some (PList raw_steps)"
    and "steps_from_workflow_config executable config ed = Inr steps"
  shows "map step_id steps = map entry_id (filter (entry_due ed) (enumerate 0 raw_steps))"
proof -
  from assms(2) obtain raw entries where raw: "dict_get config ''steps'' = Some (PList raw)"
    and tr: "traverse (scheduled_step executable ed) (enumerate 0 raw) = Inr entries"
    and st: "steps = map (restrict_dependencies (set (map step_id (List.map_filter id entries)))) (List.map_filter id entries)"
    by (rule steps_from_workflow_config_Inr)
  from raw assms(1) have "raw = raw_steps" by simp
  then show ?thesis using traverse_due [OF tr] by (simp add: st)
qed

text \<open>A step on the \<open>market_window\<close> schedule and one that waits for it, as the workflow files write them.\<close>

definition sample_workflow :: "pyval dict" where
  "sample_workflow =
     [(''steps'', PList
        [PDict [(''id'', PStr '' cleanup ''), (''command'', PList [PStr ''{python}'', PStr ''-m'']), (''optional'', PBool True)],
         PDict [(''id'', PStr ''off''), (''enabled'', PBool False)],
         PDict [(''id'', PStr ''session''), (''schedule_policy'', PStr ''market_window''),
                (''command'', PList [PStr ''{qdc}'', PStr ''--end'', PStr ''{market_date}'']),
                (''timeout_seconds'', PInt 900),
                (''depends_on'', PList [PStr ''cleanup'', PDict [(''step'', PStr ''gone''), (''soft'', PBool True)]])]])]"

text \<open>The sample dates lie in year 1: the evaluations below count days in unary.\<close>

definition sample_dates :: daily_effective_dates where
  "sample_dates = \<lparr>natural_date = Date 1 1 5, candidate_date = Date 1 1 5, market_date = Date 1 1 2,
                   hist_start = Date 1 1 1, market_date_overridden = False\<rparr>"


definition sample_steps :: "daily_step list" where
  "sample_steps =
     [\<lparr>step_id = ''cleanup'', step_name = ''cleanup'', step_command = [''py'', ''-m''], step_optional = True,
       step_timeout_seconds = None, step_depends_on = [], step_schedule_policy = ''daily'',
       step_state_key_policy = ''natural_date'', step_resume_policy = ''skip_if_success'',
       step_data_freshness_policy = ''natural_daily'', step_network_profile = ''direct''\<rparr>,
      \<lparr>step_id = ''session'', step_name = ''session'',
       step_command = [''py'', ''-m'', ''src.cli'', ''--end'', ''0001-01-02''], step_optional = False,
       step_timeout_seconds = Some 900,
       step_depends_on = [Dep \<lparr>dep_step_id = ''cleanup'', dep_state_key_policy = None, dep_soft = False\<rparr>],
       step_schedule_policy = ''market_window'', step_state_key_policy = ''natural_date'',
       step_resume_policy = ''skip_if_success'', step_data_freshness_policy = ''natural_daily'',
       step_network_profile = ''direct''\<rparr>]"

lemma sample_steps_load: "steps_from_workflow_config ''py'' sample_workflow sample_dates = Inr sample_steps"
  by code_simp

lemma configured_steps_well_formed_witness:
  "wf_step (sample_steps ! 1) \<and>
   list_all (\<lambda>d. dependency_step_id d \<in> set (map step_id sample_steps)) (step_depends_on (sample_steps ! 1))"
  unfolding list_all_iff
  by (rule configured_steps_well_formed [OF sample_steps_load]) (simp add: sample_steps_def)

lemma configured_steps_are_due_entries_witness:
  "map step_id sample_steps =
   map entry_id (filter (entry_due sample_dates)
     (enumerate 0 (case dict_get sample_workflow ''steps'' of Some (PList xs) \<Rightarrow> xs | _ \<Rightarrow> [])))"
  by (rule configured_steps_are_due_entries [OF _ sample_steps_load]) (simp add: sample_workflow_def)

text \<open>
  A step on the \<open>market_window\<close> schedule is skipped exactly on the days when nothing can be
  missing: Monday to Thursday, with the candidate date itself a market date and no override.
\<close>

lemma market_window_rest_days:
  "schedule_policy_matches ''market_window'' rules ed = Inr False \<longleftrightarrow>
   weekday (natural_date ed) \<le> 3 \<and> market_date ed = candidate_date ed \<and> \<not> market_date_overridden ed"
proof -
  have "weekday (natural_date ed) < 7" by (simp add: weekday_def)
  then have "weekday (natural_date ed) \<in> {4, 5, 6} \<longleftrightarrow> \<not> weekday (natural_date ed) \<le> 3" by auto
  then show ?thesis by (auto simp: schedule_policy_matches_def)
qed

section \<open>Templates read back\<close>

text \<open>Doubling the braces quotes a text: rendering it gives the text back, whatever the context.\<close>

definition quote_braces :: "string \<Rightarrow> string" where
  "quote_braces s = concat (map (\<lambda>c. if c = CHR ''{'' \<or> c = CHR ''}'' then [c, c] else [c]) s)"

text \<open>
  Rendering a quoted text gives the text back in every context, so a command argument without
  braces is passed on as written and one with braces can always be written.
\<close>

lemma render_quoted: "render_text (quote_braces s) context = Inr s"
proof -
  have "py_format context (quote_braces s) = Inr s"
  proof (induction s)
    case (Cons c s)
    then show ?case
      by (cases "c = CHR ''{''"; cases "c = CHR ''}''") (simp_all add: quote_braces_def)
  qed (simp add: quote_braces_def)
  then show ?thesis by (simp add: render_text_def)
qed

end
