(* ===== verification/Process_Lock.thy ===== *)
theory Process_Lock imports QDC_Prelude begin

text \<open>
  \<open>src/utils/process_lock.py\<close>: a directory is the lock, \<open>owner.json\<close> inside it names the holder,
  and a lock whose owner is stale is removed and taken over.

  The operating system and the clock are parameters: the record \<open>host\<close> holds what
  \<open>os.getpid\<close>, \<open>socket.gethostname\<close>, \<open>datetime.now\<close>, \<open>datetime.fromisoformat\<close> and the
  liveness probe answer to one process. Times are seconds.
\<close>

section \<open>Is a process alive\<close>

datatype kill_result = Signalled | ProcessLookupError | PermissionError

definition is_pid_alive_posix :: "(int \<Rightarrow> kill_result) \<Rightarrow> int \<Rightarrow> bool" where
  "is_pid_alive_posix kill pid =
     (case kill pid of ProcessLookupError \<Rightarrow> False | PermissionError \<Rightarrow> True | Signalled \<Rightarrow> True)"

text \<open>\<open>OpenProcess\<close> gives no handle, or a handle whose exit code may not be readable.\<close>

datatype win_process = NoHandle | Handle "nat option"

definition is_pid_alive_windows :: "(int \<Rightarrow> win_process) \<Rightarrow> int \<Rightarrow> bool" where
  "is_pid_alive_windows open_process pid =
     (case open_process pid of
        NoHandle \<Rightarrow> False
      | Handle None \<Rightarrow> False
      | Handle (Some exit_code) \<Rightarrow> exit_code = 259)"

definition is_pid_alive ::
  "bool \<Rightarrow> (int \<Rightarrow> kill_result) \<Rightarrow> (int \<Rightarrow> win_process) \<Rightarrow> int \<Rightarrow> bool" where
  "is_pid_alive nt kill open_process pid =
     (if pid \<le> 0 then False
      else if nt then is_pid_alive_windows open_process pid
      else is_pid_alive_posix kill pid)"

section \<open>Owners\<close>

record host =
  h_pid :: int
  h_name :: string
  h_now :: int
  h_now_text :: string
  h_fromiso :: "string \<Rightarrow> int option"
  h_alive :: "int \<Rightarrow> bool"

datatype owner_file = OwnerMissing | OwnerCorrupt | OwnerJson pyval

fun read_lock_owner :: "owner_file \<Rightarrow> pyval dict option" where
  "read_lock_owner OwnerMissing = None"
| "read_lock_owner OwnerCorrupt = None"
| "read_lock_owner (OwnerJson v) = as_dict v"

definition owner :: "host \<Rightarrow> string \<Rightarrow> string \<Rightarrow> nat \<Rightarrow> pyval dict \<Rightarrow> pyval dict" where
  "owner h lock_name purpose stale_after_seconds extra_owner =
     (let own =
        [(''pid'', PInt (h_pid h)),
         (''hostname'', PStr (h_name h)),
         (''started_at'', PStr (h_now_text h)),
         (''lock_name'', PStr lock_name),
         (''purpose'', PStr purpose),
         (''command'', PStr purpose),
         (''stale_after_seconds'', PInt (int stale_after_seconds))]
      in fold (\<lambda>kv d. dict_set d (fst kv) (snd kv)) extra_owner own)"

fun parse_started_at :: "host \<Rightarrow> pyval option \<Rightarrow> int option" where
  "parse_started_at h (Some (PStr s)) = h_fromiso h s"
| "parse_started_at h _ = None"

definition owner_pid :: "pyval dict \<Rightarrow> int option" where
  "owner_pid own =
     (case dict_get own ''pid'' of
        None \<Rightarrow> None
      | Some raw \<Rightarrow>
          (case py_int raw of None \<Rightarrow> None | Some pid \<Rightarrow> if 0 < pid then Some pid else None))"

text \<open>The owner found, whether the lock counts as stale, and the warning logged.\<close>

definition inspect_existing_lock ::
  "host \<Rightarrow> nat \<Rightarrow> owner_file \<Rightarrow> pyval dict \<times> bool \<times> string option" where
  "inspect_existing_lock h stale_after_seconds f =
     (case read_lock_owner f of
        None \<Rightarrow> ([], True, Some ''owner.json missing, invalid, or corrupt'')
      | Some own \<Rightarrow>
          (case parse_started_at h (dict_get own ''started_at'') of
             None \<Rightarrow> (own, True, Some ''owner.json missing valid started_at'')
           | Some started_at \<Rightarrow>
               if h_now h - started_at > int stale_after_seconds
               then (own, True, Some ''owner exceeded stale_after_seconds'')
               else
                 (let raw = dict_get_default own ''hostname'' PNone;
                      hostname = (if truthy raw then py_str raw else [])
                  in if hostname \<noteq> [] \<and> hostname \<noteq> h_name h then (own, False, None)
                     else
                       (case owner_pid own of
                          None \<Rightarrow> (own, True, Some ''owner.json missing valid pid'')
                        | Some pid \<Rightarrow>
                            if \<not> h_alive h pid then (own, True, Some ''owner pid is not alive'')
                            else (own, False, None)))))"

definition lock_is_stale :: "host \<Rightarrow> nat \<Rightarrow> owner_file \<Rightarrow> bool" where
  "lock_is_stale h stale_after_seconds f = fst (snd (inspect_existing_lock h stale_after_seconds f))"

section \<open>The acquire loop of one process, uninterrupted\<close>

datatype lock_dir = NoDir | LockDir owner_file

datatype lock_error = ProcessLockError "pyval dict"

text \<open>
  One removal of a stale lock: \<open>rename\<close> moves the directory away; when the rename fails the
  directory is deleted in place with errors ignored. \<open>works\<close> says whether either got rid of it.
\<close>

fun remove_stale_lock :: "bool \<Rightarrow> lock_dir \<Rightarrow> lock_dir" where
  "remove_stale_lock works NoDir = NoDir"
| "remove_stale_lock works (LockDir f) = (if works then NoDir else LockDir f)"

text \<open>
  The \<open>while True\<close> loop, one unit of fuel per iteration; \<open>works i\<close> is the outcome of the
  removal in the iteration with \<open>i\<close> units left. \<open>None\<close>: the fuel ran out. A success leaves the
  directory with this process's \<open>owner.json\<close>.
\<close>

fun acquire_process_lock ::
  "nat \<Rightarrow> host \<Rightarrow> nat \<Rightarrow> pyval dict \<Rightarrow> (nat \<Rightarrow> bool) \<Rightarrow> lock_dir \<Rightarrow> (lock_error + lock_dir) option" where
  "acquire_process_lock 0 h stale_after own works d = None"
| "acquire_process_lock (Suc fuel) h stale_after own works NoDir =
     Some (Inr (LockDir (OwnerJson (PDict own))))"
| "acquire_process_lock (Suc fuel) h stale_after own works (LockDir f) =
     (case inspect_existing_lock h stale_after f of
        (existing, stale, _) \<Rightarrow>
          if \<not> stale then Some (Inl (ProcessLockError existing))
          else acquire_process_lock fuel h stale_after own works
                 (remove_stale_lock (works fuel) (LockDir f)))"

text \<open>Leaving the context: the directory is removed, whatever the body did.\<close>

definition release_process_lock :: "lock_dir \<Rightarrow> lock_dir" where
  "release_process_lock d = NoDir"

section \<open>Several processes\<close>

text \<open>
  The same operations as atomic file-system steps of processes numbered by \<open>nat\<close>: \<open>mkdir\<close>,
  reading the owner, removing a directory, writing \<open>owner.json\<close>, deleting the directory on exit.
  The flag of a step says whether it takes a lock for stale.
\<close>

datatype lock_pc = Trying | Removing | Created | Holding | Refused | Finished

record lock_sys =
  ls_dir :: lock_dir
  ls_pc :: "nat \<Rightarrow> lock_pc"

definition set_pc :: "nat \<Rightarrow> lock_pc \<Rightarrow> lock_sys \<Rightarrow> lock_sys" where
  "set_pc p c s = s\<lparr>ls_pc := (ls_pc s)(p := c)\<rparr>"

definition init_lock_sys :: lock_sys where
  "init_lock_sys = \<lparr>ls_dir = NoDir, ls_pc = (\<lambda>_. Trying)\<rparr>"

inductive lock_step ::
  "(nat \<Rightarrow> host) \<Rightarrow> (nat \<Rightarrow> pyval dict) \<Rightarrow> nat \<Rightarrow> bool \<Rightarrow> lock_sys \<Rightarrow> lock_sys \<Rightarrow> bool"
  for hosts owners stale_after where
  mkdir_free:
    "ls_pc s p = Trying \<Longrightarrow> ls_dir s = NoDir \<Longrightarrow>
     lock_step hosts owners stale_after False s (set_pc p Created (s\<lparr>ls_dir := LockDir OwnerMissing\<rparr>))"
| mkdir_held:
    "ls_pc s p = Trying \<Longrightarrow> ls_dir s = LockDir f \<Longrightarrow> \<not> lock_is_stale (hosts p) stale_after f \<Longrightarrow>
     lock_step hosts owners stale_after False s (set_pc p Refused s)"
| mkdir_stale:
    "ls_pc s p = Trying \<Longrightarrow> ls_dir s = LockDir f \<Longrightarrow> lock_is_stale (hosts p) stale_after f \<Longrightarrow>
     lock_step hosts owners stale_after True s (set_pc p Removing s)"
| remove:
    "ls_pc s p = Removing \<Longrightarrow>
     lock_step hosts owners stale_after False s (set_pc p Trying (s\<lparr>ls_dir := remove_stale_lock True (ls_dir s)\<rparr>))"
| write_owner:
    "ls_pc s p = Created \<Longrightarrow> ls_dir s = LockDir f \<Longrightarrow>
     lock_step hosts owners stale_after False s
       (set_pc p Holding (s\<lparr>ls_dir := LockDir (OwnerJson (PDict (owners p)))\<rparr>))"
| write_owner_gone:
    "ls_pc s p = Created \<Longrightarrow> ls_dir s = NoDir \<Longrightarrow>
     lock_step hosts owners stale_after False s (set_pc p Finished s)"
| release:
    "ls_pc s p = Holding \<Longrightarrow>
     lock_step hosts owners stale_after False s
       (set_pc p Finished (s\<lparr>ls_dir := release_process_lock (ls_dir s)\<rparr>))"

text \<open>Runs; \<open>lock_reachable hosts owners n r s\<close> with \<open>r\<close> true once some step took a lock for stale.\<close>

inductive lock_reachable ::
  "(nat \<Rightarrow> host) \<Rightarrow> (nat \<Rightarrow> pyval dict) \<Rightarrow> nat \<Rightarrow> bool \<Rightarrow> lock_sys \<Rightarrow> bool"
  for hosts owners stale_after where
  start: "lock_reachable hosts owners stale_after False init_lock_sys"
| step: "lock_reachable hosts owners stale_after r s \<Longrightarrow> lock_step hosts owners stale_after q s t \<Longrightarrow>
     lock_reachable hosts owners stale_after (r \<or> q) t"

inductive_cases lock_step_recovery: "lock_step hosts owners stale_after True s t"

lemmas lock_reachable_step = lock_reachable.step [where q = False, simplified]
lemmas lock_reachable_recovery = lock_reachable.step [where q = True, simplified]

section \<open>The invariant without stale recovery\<close>

definition inside :: "lock_pc \<Rightarrow> bool" where
  "inside c \<longleftrightarrow> c = Created \<or> c = Holding"

definition lock_inv :: "lock_sys \<Rightarrow> bool" where
  "lock_inv s \<longleftrightarrow>
     (\<forall>p. ls_pc s p \<noteq> Removing) \<and>
     (ls_dir s = NoDir \<longrightarrow> (\<forall>p. \<not> inside (ls_pc s p))) \<and>
     (\<forall>p q. inside (ls_pc s p) \<longrightarrow> inside (ls_pc s q) \<longrightarrow> p = q)"

lemma lock_inv_init: "lock_inv init_lock_sys"
  by (simp add: lock_inv_def init_lock_sys_def inside_def)

lemma lock_inv_step:
  "lock_step hosts owners stale_after q s t \<Longrightarrow> \<not> q \<Longrightarrow> lock_inv s \<Longrightarrow> lock_inv t"
proof (induction rule: lock_step.induct)
  case (release s p)
  then have "\<And>q. inside (ls_pc s q) \<Longrightarrow> q = p" unfolding lock_inv_def inside_def by blast
  with release show ?case by (auto simp: lock_inv_def set_pc_def inside_def release_process_lock_def)
qed (auto simp: lock_inv_def set_pc_def inside_def)

lemma lock_reachable_inv: "lock_reachable hosts owners stale_after r s \<Longrightarrow> \<not> r \<Longrightarrow> lock_inv s"
  by (induction rule: lock_reachable.induct) (auto simp: lock_inv_init intro: lock_inv_step)

section \<open>The uninterrupted loop\<close>

lemma acquire_free:
  "acquire_process_lock (Suc fuel) h stale_after own works NoDir = Some (Inr (LockDir (OwnerJson (PDict own))))"
  by simp

lemma acquire_held:
  "\<not> lock_is_stale h stale_after f \<Longrightarrow>
   acquire_process_lock (Suc fuel) h stale_after own works (LockDir f) =
     Some (Inl (ProcessLockError (fst (inspect_existing_lock h stale_after f))))"
  by (cases "inspect_existing_lock h stale_after f") (auto simp: lock_is_stale_def)

lemma acquire_stale:
  "lock_is_stale h stale_after f \<Longrightarrow>
   acquire_process_lock (Suc fuel) h stale_after own works (LockDir f) =
     acquire_process_lock fuel h stale_after own works (remove_stale_lock (works fuel) (LockDir f))"
  by (cases "inspect_existing_lock h stale_after f") (auto simp: lock_is_stale_def)

text \<open>A lock no removal can get rid of keeps the loop going for ever.\<close>

lemma acquire_spins:
  "lock_is_stale h stale_after f \<Longrightarrow> (\<And>i. \<not> works i) \<Longrightarrow>
   acquire_process_lock fuel h stale_after own works (LockDir f) = None"
  by (induction fuel) (simp_all add: acquire_stale del: acquire_process_lock.simps(3))

lemma owner_get:
  assumes "k \<notin> fst ` set extra"
  shows "dict_get (owner h nm purpose n extra) k =
    map_of [(''pid'', PInt (h_pid h)), (''hostname'', PStr (h_name h)), (''started_at'', PStr (h_now_text h)),
      (''lock_name'', PStr nm), (''purpose'', PStr purpose), (''command'', PStr purpose),
      (''stale_after_seconds'', PInt (int n))] k"
  using dict_store.get_put_all_frame [OF assms]
  by (simp add: owner_def Let_def dict_store.put_all_def)

lemma fresh_owner_not_stale:
  assumes extra: "fst ` set extra \<inter> {''pid'', ''hostname'', ''started_at''} = {}"
    and clock: "h_fromiso other (h_now_text h) = Some (h_now h)"
    and young: "h_now other - h_now h \<le> int n"
    and alive: "0 < h_pid h" "h_alive other (h_pid h)"
  shows "inspect_existing_lock other n (OwnerJson (PDict (owner h nm purpose m extra))) =
    (owner h nm purpose m extra, False, None)"
proof -
  have "''pid'' \<notin> fst ` set extra" "''hostname'' \<notin> fst ` set extra" "''started_at'' \<notin> fst ` set extra"
    using extra by auto
  then have "dict_get (owner h nm purpose m extra) ''pid'' = Some (PInt (h_pid h))"
    "dict_get (owner h nm purpose m extra) ''hostname'' = Some (PStr (h_name h))"
    "dict_get (owner h nm purpose m extra) ''started_at'' = Some (PStr (h_now_text h))"
    by (simp_all add: owner_get)
  then show ?thesis
    using clock young alive
    by (simp add: inspect_existing_lock_def Let_def owner_pid_def dict_get_default_def)
qed

section \<open>Properties\<close>


text \<open>
  a held lock is respected. While the holder is alive and within its allowance, another
  process that can read the holder's clock text is refused, and is told the holder's record.
\<close>

theorem second_acquire_refused:
  assumes "fst ` set extra \<inter> {''pid'', ''hostname'', ''started_at''} = {}"
    and "h_fromiso other (h_now_text h) = Some (h_now h)"
    and "h_now other - h_now h \<le> int stale_after"
    and "0 < h_pid h" and "h_alive other (h_pid h)"
    and "acquire_process_lock n h stale_after (owner h nm purpose stale_after extra) works d = Some (Inr d')"
  shows "acquire_process_lock (Suc m) other stale_after own' works' d' =
    Some (Inl (ProcessLockError (owner h nm purpose stale_after extra)))"
proof -
  have "d' = LockDir (OwnerJson (PDict (owner h nm purpose stale_after extra)))"
    using assms(6)
    by (induction n h stale_after "owner h nm purpose stale_after extra" works d rule: acquire_process_lock.induct)
      (auto split: if_splits prod.splits)
  then show ?thesis using fresh_owner_not_stale [OF assms(1-5)] by simp
qed

definition demo_host :: "int \<Rightarrow> host" where
  "demo_host pid = \<lparr>h_pid = pid, h_name = ''pc'', h_now = 100, h_now_text = ''t'',
     h_fromiso = (\<lambda>_. Some 100), h_alive = (\<lambda>_. True)\<rparr>"

theorem second_acquire_refused_witness:
  "acquire_process_lock 1 (demo_host 8) 60 [] (\<lambda>_. True)
     (LockDir (OwnerJson (PDict (owner (demo_host 7) ''n'' ''p'' 60 [])))) =
   Some (Inl (ProcessLockError (owner (demo_host 7) ''n'' ''p'' 60 [])))"
proof -
  have "acquire_process_lock (Suc 0) (demo_host 8) 60 [] (\<lambda>_. True)
     (LockDir (OwnerJson (PDict (owner (demo_host 7) ''n'' ''p'' 60 [])))) =
   Some (Inl (ProcessLockError (owner (demo_host 7) ''n'' ''p'' 60 [])))"
    by (rule second_acquire_refused [where n = 1 and works = "\<lambda>_. True" and d = NoDir])
      (simp_all add: demo_host_def)
  then show ?thesis by simp
qed

text \<open>
  C4: mutual exclusion holds along every run in which no process takes a lock for stale: two
  processes that are past \<open>mkdir\<close> and not yet released are the same process.
\<close>

theorem lock_mutual_exclusion:
  assumes "lock_reachable hosts owners stale_after False s"
    and "inside (ls_pc s p)" and "inside (ls_pc s q)"
  shows "p = q"
  using lock_reachable_inv [OF assms(1)] assms(2,3) by (auto simp: lock_inv_def)

theorem lock_mutual_exclusion_witness:
  "\<exists>s. lock_reachable (\<lambda>_. demo_host 1) (\<lambda>_. []) 60 False s \<and> inside (ls_pc s 3) \<and> (\<forall>q. inside (ls_pc s q) \<longrightarrow> q = 3)"
proof -
  let ?s = "set_pc 3 Created (init_lock_sys\<lparr>ls_dir := LockDir OwnerMissing\<rparr>)"
  have r: "lock_reachable (\<lambda>_. demo_host 1) (\<lambda>_. []) 60 False ?s"
    by (rule lock_reachable_step [OF lock_reachable.start lock_step.mkdir_free])
      (simp_all add: init_lock_sys_def)
  moreover have "inside (ls_pc ?s 3)" by (simp add: set_pc_def inside_def)
  ultimately show ?thesis using lock_mutual_exclusion [OF r] by blast
qed

text \<open>
  C5: stale recovery breaks mutual exclusion. Between one process's \<open>mkdir\<close> and its write of
  \<open>owner.json\<close> the directory has no owner, so another process takes the fresh lock for stale,
  removes it and acquires it; both end up holding the lock. This needs no crash and no clock
  skew: it holds for any hosts, owners and allowance.
\<close>

theorem lock_recovery_race:
  "\<exists>s. lock_reachable hosts owners stale_after True s \<and> ls_pc s 0 = Holding \<and> ls_pc s 1 = Holding"
proof -
  define s1 where "s1 = set_pc 0 Created (init_lock_sys\<lparr>ls_dir := LockDir OwnerMissing\<rparr>)"
  define s2 where "s2 = set_pc 1 Removing s1"
  define s3 where "s3 = set_pc 1 Trying (s2\<lparr>ls_dir := remove_stale_lock True (ls_dir s2)\<rparr>)"
  define s4 where "s4 = set_pc 1 Created (s3\<lparr>ls_dir := LockDir OwnerMissing\<rparr>)"
  define s5 where "s5 = set_pc 1 Holding (s4\<lparr>ls_dir := LockDir (OwnerJson (PDict (owners 1)))\<rparr>)"
  define s6 where "s6 = set_pc 0 Holding (s5\<lparr>ls_dir := LockDir (OwnerJson (PDict (owners 0)))\<rparr>)"
  note defs = s1_def s2_def s3_def s4_def s5_def s6_def set_pc_def init_lock_sys_def
  let ?R = "lock_reachable hosts owners stale_after"
  have "?R False s1" unfolding s1_def
    by (rule lock_reachable_step [OF lock_reachable.start lock_step.mkdir_free]) (simp_all add: defs)
  then have "?R True s2" unfolding s2_def
    by (rule lock_reachable_recovery [OF _ lock_step.mkdir_stale [where f = OwnerMissing]])
      (simp_all add: defs lock_is_stale_def inspect_existing_lock_def)
  then have "?R True s3" unfolding s3_def
    by (rule lock_reachable_step [OF _ lock_step.remove]) (simp add: defs)
  then have "?R True s4" unfolding s4_def
    by (rule lock_reachable_step [OF _ lock_step.mkdir_free]) (simp_all add: defs)
  then have "?R True s5" unfolding s5_def
    by (rule lock_reachable_step [OF _ lock_step.write_owner [where f = OwnerMissing]]) (simp_all add: defs)
  then have "?R True s6" unfolding s6_def
    by (rule lock_reachable_step [OF _ lock_step.write_owner]) (simp_all add: defs)
  then show ?thesis by (intro exI [of _ s6]) (simp add: defs)
qed

end
