(* ===== verification/Run_State.thy ===== *)
theory Run_State imports Workflow_Config Process_Lock begin

text \<open>
  The state file of \<open>src/tools/run_update_daily.py\<close>: a JSON mapping \<open>runs\<close> from a state key to a
  run, whose \<open>steps\<close> map a step id to its row. The functions keep the code's shape, on the JSON
  value itself: a run or a row of the wrong type is what the source makes of it, and a read that
  adds a missing \<open>steps\<close> mapping (\<open>setdefault\<close>) returns the state with it.

  \<open>row_at\<close> is the abstract view of a state, a partial map from state key and step id to rows; the
  lemmas state every operation as its effect on that view.
\<close>

datatype run_error =
    StateCorrupt
  | StateInvalid
  | RunsNotMapping
  | UnsupportedStateKeyPolicy string
  | RowNotMapping string
  | AwareTimestamp
  | ExitCodeNotInt
  | UnknownStart string
  | AlreadyRunning
  | RunnerRaised

type_synonym state = "pyval dict"

section \<open>Reading and writing the file\<close>

datatype json_file = JsonMissing | JsonCorrupt | Json pyval

definition empty_state :: state where
  "empty_state = [(''version'', PInt 2), (''runs'', PDict [])]"

definition read_state :: "json_file \<Rightarrow> run_error + state" where
  "read_state f =
     (case f of
        JsonMissing \<Rightarrow> Inr empty_state
      | JsonCorrupt \<Rightarrow> Inl StateCorrupt
      | Json (PDict state) \<Rightarrow>
          (case dict_get_default state ''runs'' (PDict []) of PDict _ \<Rightarrow> Inr state | _ \<Rightarrow> Inl StateInvalid)
      | Json _ \<Rightarrow> Inl StateInvalid)"

definition read_state_for_run :: "json_file \<Rightarrow> bool \<Rightarrow> run_error + state" where
  "read_state_for_run f reset_if_corrupt =
     (case read_state f of
        Inr state \<Rightarrow> Inr state
      | Inl e \<Rightarrow> if reset_if_corrupt then Inr empty_state else Inl e)"

text \<open>The state as written: \<open>version\<close> is set, the text goes to a temporary file that replaces the old one.\<close>

definition stamp_version :: "state \<Rightarrow> state" where
  "stamp_version state = dict_set state ''version'' (PInt 2)"

definition write_state :: "state \<Rightarrow> json_file" where
  "write_state state = Json (PDict (stamp_version state))"

section \<open>State keys and runs\<close>

definition state_key_for_policy :: "string \<Rightarrow> daily_effective_dates \<Rightarrow> string \<Rightarrow> run_error + string" where
  "state_key_for_policy policy ed run_instance_key =
     (if policy = ''natural_date'' then Inr (''natural_date:'' @ isoformat (natural_date ed))
      else if policy = ''market_date'' then Inr (''market_date:'' @ isoformat (market_date ed))
      else if policy = ''run_instance'' then Inr run_instance_key
      else Inl (UnsupportedStateKeyPolicy policy))"

definition state_key_for_step :: "daily_step \<Rightarrow> daily_effective_dates \<Rightarrow> string \<Rightarrow> run_error + string" where
  "state_key_for_step step ed run_instance_key = state_key_for_policy (step_state_key_policy step) ed run_instance_key"

text \<open>\<open>d.get(k)\<close> where a JSON null counts as absent.\<close>

definition get_some :: "pyval dict \<Rightarrow> string \<Rightarrow> pyval option" where
  "get_some d k = (case dict_get d k of None \<Rightarrow> None | Some v \<Rightarrow> if v = PNone then None else Some v)"

definition fresh_run :: "pyval dict" where
  "fresh_run = [(''steps'', PDict [])]"

definition put_run :: "state \<Rightarrow> pyval dict \<Rightarrow> string \<Rightarrow> pyval dict \<Rightarrow> state" where
  "put_run state runs key run = dict_set state ''runs'' (PDict (dict_set runs key (PDict run)))"

text \<open>Which key the run is found under, and what is there.\<close>

definition found_run :: "pyval dict \<Rightarrow> string \<Rightarrow> bool \<Rightarrow> string \<times> pyval option" where
  "found_run runs key create =
     (if get_some runs key = None \<and> \<not> create \<and> starts_with ''natural_date:'' key
      then (let legacy = snd (split_first (CHR '':'') key) in (legacy, get_some runs legacy))
      else (key, get_some runs key))"

definition run_state_for_key :: "state \<Rightarrow> string \<Rightarrow> bool \<Rightarrow> run_error + pyval dict \<times> state" where
  "run_state_for_key state state_key create =
     (case dict_get_default state ''runs'' (PDict []) of
        PDict runs \<Rightarrow>
          (let state0 = dict_set state ''runs'' (PDict runs);
               fresh = (fresh_run, if create then put_run state0 runs state_key fresh_run else state0)
           in case found_run runs state_key create of
                (key, Some (PDict run)) \<Rightarrow>
                  (case dict_get_default run ''steps'' (PDict []) of
                     PDict steps \<Rightarrow>
                       (let run' = dict_set run ''steps'' (PDict steps)
                        in Inr (run', put_run state0 runs key run'))
                   | _ \<Rightarrow>
                       if \<not> create then Inr (fresh_run, state0)
                       else (let run' = dict_set run ''steps'' (PDict [])
                             in Inr (run', put_run state0 runs key run')))
              | _ \<Rightarrow> Inr fresh)
      | _ \<Rightarrow> Inl RunsNotMapping)"

definition dict_field :: "pyval dict \<Rightarrow> string \<Rightarrow> pyval dict" where
  "dict_field d k = (case dict_get d k of Some (PDict x) \<Rightarrow> x | _ \<Rightarrow> [])"

text \<open>\<open>_step_state_for_step\<close>: the key whose \<open>steps\<close> mapping the step's rows go to, now present.\<close>

definition step_state_for_step ::
  "state \<Rightarrow> daily_step \<Rightarrow> daily_effective_dates \<Rightarrow> string \<Rightarrow> run_error + string \<times> state" where
  "step_state_for_step state step ed run_instance_key =
     bind_res (state_key_for_step step ed run_instance_key) (\<lambda>key.
     bind_res (run_state_for_key state key True) (\<lambda>(run, state'). Inr (key, state')))"

definition step_row_for_policy ::
  "state \<Rightarrow> string \<Rightarrow> string \<Rightarrow> daily_effective_dates \<Rightarrow> string \<Rightarrow> run_error + pyval dict \<times> state" where
  "step_row_for_policy state sid policy ed run_instance_key =
     bind_res (state_key_for_policy policy ed run_instance_key) (\<lambda>key.
     bind_res (run_state_for_key state key False) (\<lambda>(run, state1).
       case dict_field (dict_field run ''steps'') sid of
         kv # row \<Rightarrow> Inr (kv # row, state1)
       | [] \<Rightarrow>
           if policy = ''natural_date'' then
             bind_res (run_state_for_key state1 (isoformat (natural_date ed)) False) (\<lambda>(legacy_run, state2).
               Inr (dict_field (dict_field legacy_run ''steps'') sid, state2))
           else Inr ([], state1)))"

section \<open>Rows\<close>

text \<open>The \<open>steps\<close> mapping under a key, and the rows in it: the abstract view of a state.\<close>

definition run_at :: "state \<Rightarrow> string \<Rightarrow> pyval dict" where
  "run_at state key = dict_field (dict_field state ''runs'') key"

definition steps_at :: "state \<Rightarrow> string \<Rightarrow> pyval dict" where
  "steps_at state key = dict_field (run_at state key) ''steps''"

definition row_at :: "state \<Rightarrow> string \<Rightarrow> string \<Rightarrow> pyval option" where
  "row_at state key sid = dict_get (steps_at state key) sid"

definition put_row :: "string \<times> string \<Rightarrow> pyval \<Rightarrow> state \<Rightarrow> state" where
  "put_row loc row state =
     put_run state (dict_field state ''runs'') (fst loc)
       (dict_set (run_at state (fst loc)) ''steps'' (PDict (dict_set (steps_at state (fst loc)) (snd loc) row)))"

definition step_row ::
  "daily_step \<Rightarrow> string \<Rightarrow> int option \<Rightarrow> pyval \<Rightarrow> string \<Rightarrow> int \<Rightarrow> string \<Rightarrow> string list option \<Rightarrow>
   string option \<Rightarrow> pyval dict" where
  "step_row step status exit_code started_at timestamp pid log_path blocked_by reason =
     [(''status'', PStr status),
      (''command'', PStr (command_text step)),
      (''network_profile'', PStr (step_network_profile step)),
      (''started_at'', started_at),
      (''updated_at'', PStr timestamp),
      (''ended_at'', if status = ''running'' then PNone else PStr timestamp),
      (''exit_code'', case exit_code of None \<Rightarrow> PNone | Some c \<Rightarrow> PInt c),
      (''log_path'', PStr log_path)] @
     (if status = ''running'' then [(''pid'', PInt pid), (''orchestrator_pid'', PInt pid)] else []) @
     (case blocked_by of None \<Rightarrow> [] | Some b \<Rightarrow> [(''blocked_by'', PList (map PStr b))]) @
     (case reason of None \<Rightarrow> [] | Some r \<Rightarrow> [(''reason'', PStr r)])"

text \<open>The time stamp is read from the clock by the caller; \<open>pid\<close> is \<open>os.getpid()\<close>.\<close>

definition record_step ::
  "string \<Rightarrow> daily_step \<Rightarrow> string \<Rightarrow> int option \<Rightarrow> string \<Rightarrow> int \<Rightarrow> string \<Rightarrow> string list option \<Rightarrow>
   string option \<Rightarrow> state \<Rightarrow> run_error + state" where
  "record_step key step status exit_code timestamp pid log_path blocked_by reason state =
     bind_res
       (if status = ''running'' then Inr (PStr timestamp)
        else (case dict_get_default (steps_at state key) (step_id step) (PDict []) of
                PDict previous \<Rightarrow> Inr (dict_get_default previous ''started_at'' PNone)
              | _ \<Rightarrow> Inl (RowNotMapping (step_id step))))
       (\<lambda>started_at.
          Inr (put_row (key, step_id step)
                 (PDict (step_row step status exit_code started_at timestamp pid log_path blocked_by reason)) state))"

section \<open>Operations as effects on the rows\<close>

lemma dict_field_set [simp]:
  "dict_field (dict_set d k (PDict v)) k' = (if k' = k then v else dict_field d k')"
  by (simp add: dict_field_def)

lemma dict_field_PDict: "dict_get_default d k (PDict []) = PDict x \<Longrightarrow> dict_field d k = x"
  by (auto simp: dict_get_default_def dict_field_def split: option.splits)

lemma dict_field_not_PDict: "\<forall>x. dict_get_default d k (PDict []) \<noteq> PDict x \<Longrightarrow> dict_field d k = []"
  by (simp add: dict_get_default_def dict_field_def split: option.splits pyval.splits)

lemma steps_at_put_run [simp]:
  "steps_at (put_run state runs key run) k =
     (if k = key then dict_field run ''steps'' else dict_field (dict_field runs k) ''steps'')"
  by (simp add: steps_at_def run_at_def put_run_def)

interpretation run_store: keyed_store "\<lambda>s loc. row_at s (fst loc) (snd loc)" put_row
proof
  fix loc v s
  show "row_at (put_row loc v s) (fst loc) (snd loc) = Some v"
    by (simp add: put_row_def row_at_def)
next
  fix loc loc' v s
  assume "loc' \<noteq> (loc :: string \<times> string)"
  moreover have "steps_at s (fst loc') = dict_field (dict_field (dict_field s ''runs'') (fst loc')) ''steps''"
    by (simp add: steps_at_def run_at_def)
  ultimately show "row_at (put_row loc v s) (fst loc') (snd loc') = row_at s (fst loc') (snd loc')"
    by (auto simp: put_row_def row_at_def prod_eq_iff)
qed

lemma row_at_put_row:
  "row_at (put_row (key, sid) v s) k i = (if k = key \<and> i = sid then Some v else row_at s k i)"
  using run_store.get_put [of "(key, sid)" v s "(k, i)"] by simp

text \<open>The step ids of a run and its rows do not change when only \<open>setdefault\<close> has run.\<close>

definition same_rows :: "state \<Rightarrow> state \<Rightarrow> bool" where
  "same_rows s s' \<longleftrightarrow> (\<forall>k. steps_at s' k = steps_at s k)"

lemma same_rows_refl [simp]: "same_rows s s" by (simp add: same_rows_def)
lemma same_rows_trans: "same_rows s t \<Longrightarrow> same_rows t u \<Longrightarrow> same_rows s u" by (simp add: same_rows_def)
lemma same_rows_row_at: "same_rows s s' \<Longrightarrow> row_at s' k i = row_at s k i"
  by (simp add: same_rows_def row_at_def)

definition has_runs :: "state \<Rightarrow> bool" where
  "has_runs s \<longleftrightarrow> (\<exists>runs. dict_get_default s ''runs'' (PDict []) = PDict runs)"

lemma has_runs_put_run [simp]: "has_runs (put_run s runs k r)"
  by (simp add: has_runs_def put_run_def)

lemma has_runs_put_row [simp]: "has_runs (put_row loc v s)"
  by (simp add: put_row_def)

lemma run_state_for_key_Inl: "has_runs s \<Longrightarrow> run_state_for_key s key create \<noteq> Inl e"
  by (auto simp: has_runs_def run_state_for_key_def Let_def split: prod.split option.split pyval.split)

lemma get_some_None: "get_some runs key = None \<Longrightarrow> dict_field runs key = []"
  by (auto simp: get_some_def dict_field_def split: option.splits if_splits)

lemma get_some_Some: "get_some runs key = Some v \<Longrightarrow> dict_get runs key = Some v"
  by (auto simp: get_some_def split: option.splits if_splits)

lemma found_run_key: "found_run runs key create = (k, v) \<Longrightarrow> v = get_some runs k"
  by (auto simp: found_run_def Let_def split: if_splits)

lemma dict_field_Nil [simp]: "dict_field [] k = []"
  by (simp add: dict_field_def)

lemma dict_field_fresh_run [simp]: "dict_field fresh_run ''steps'' = []"
  by (simp add: fresh_run_def dict_field_def)

lemma run_state_for_key_effect:
  assumes "run_state_for_key s key create = Inr (run, s')"
  shows "same_rows s s' \<and> has_runs s' \<and>
    dict_field run ''steps'' = steps_at s (fst (found_run (dict_field s ''runs'') key create))"
proof -
  obtain runs where runs: "dict_get_default s ''runs'' (PDict []) = PDict runs"
    using assms by (auto simp: run_state_for_key_def split: pyval.splits)
  then have df: "dict_field s ''runs'' = runs" by (rule dict_field_PDict)
  obtain k v where f: "found_run runs key create = (k, v)" by (cases "found_run runs key create")
  note v = found_run_key [OF f]
  define s0 where "s0 = dict_set s ''runs'' (PDict runs)"
  have s0: "same_rows s s0" "has_runs s0"
    by (simp_all add: same_rows_def has_runs_def steps_at_def run_at_def s0_def df)
  have key: "k = key" if create using that f by (simp add: found_run_def)
  consider (run) r where "v = Some (PDict r)" | (other) "\<forall>r. v \<noteq> Some (PDict r)" by blast
  then show ?thesis
  proof cases
    case run
    then have r: "dict_field runs k = r" using v get_some_Some [of runs k] by (simp add: dict_field_def)
    show ?thesis
      using assms run f r s0 runs df
      by (auto simp: run_state_for_key_def s0_def [symmetric] Let_def same_rows_def steps_at_def run_at_def
          put_run_def has_runs_def dict_field_PDict dict_field_not_PDict
          split: pyval.splits if_splits)
  next
    case other
    then have r: "dict_field runs k = []"
      using other unfolding v get_some_def dict_field_def
      by (cases "dict_get runs k") (auto split: pyval.split)
    have "Inr (run, s') = Inr (fresh_run, if create then put_run s0 runs key fresh_run else s0)"
      using assms other f runs
      by (auto simp: run_state_for_key_def s0_def Let_def split: option.splits pyval.splits)
    then show ?thesis
      using s0 r f df key
      by (auto simp: same_rows_def steps_at_def run_at_def put_run_def has_runs_def)
  qed
qed

text \<open>What a lookup under a policy sees, over the rows alone.\<close>

definition row_dict :: "state \<Rightarrow> string \<Rightarrow> string \<Rightarrow> pyval dict" where
  "row_dict s key sid = dict_field (steps_at s key) sid"

definition lookup_row :: "state \<Rightarrow> string \<Rightarrow> string \<Rightarrow> daily_effective_dates \<Rightarrow> string \<Rightarrow> pyval dict" where
  "lookup_row s sid policy ed rk =
     (case state_key_for_policy policy ed rk of
        Inl e \<Rightarrow> []
      | Inr key \<Rightarrow>
          if row_dict s key sid \<noteq> [] then row_dict s key sid
          else if policy = ''natural_date'' then row_dict s (isoformat (natural_date ed)) sid else [])"

lemma isoformat_not_natural: "\<not> starts_with ''natural_date:'' (isoformat d)"
proof -
  have "list_all is_digit (pad_nat 4 (dt_year d))"
    by (simp add: pad_nat_def Let_def show_nat_digits is_digit_def list_all_iff)
       (use show_nat_digits [of "dt_year d"] in \<open>auto simp: list_all_iff is_digit_def Let_def\<close>)
  moreover have "pad_nat 4 (dt_year d) \<noteq> []"
    by (simp add: pad_nat_def Let_def) (metis list.size(3) append_is_Nil_conv list.distinct(1) show_nat.simps)
  ultimately obtain c cs where "pad_nat 4 (dt_year d) = c # cs" "is_digit c"
    by (cases "pad_nat 4 (dt_year d)") auto
  then have "isoformat d = c # cs @ ''-'' @ pad_nat 2 (dt_month d) @ ''-'' @ pad_nat 2 (dt_day d)" "c \<noteq> CHR ''n''"
    by (auto simp: isoformat_def is_digit_def)
  then show ?thesis by (auto simp: starts_with_iff)
qed

lemma found_run_natural:
  "fst (found_run runs (''natural_date:'' @ x) False) =
     (if get_some runs (''natural_date:'' @ x) = None then x else ''natural_date:'' @ x)"
proof -
  have "starts_with ''natural_date:'' (''natural_date:'' @ x)" by (rule starts_with_append)
  moreover have "snd (split_first (CHR '':'') (''natural_date:'' @ x)) = x" by (simp add: split_first_def)
  ultimately show ?thesis by (auto simp only: found_run_def Let_def split: if_splits prod.split) auto
qed

lemma found_run_other: "\<not> starts_with ''natural_date:'' key \<Longrightarrow> fst (found_run runs key False) = key"
  by (simp add: found_run_def)

lemma steps_at_get_some_None: "get_some (dict_field s ''runs'') key = None \<Longrightarrow> steps_at s key = []"
  by (simp add: steps_at_def run_at_def get_some_None)

lemma step_row_for_policy_reads:
  assumes "step_row_for_policy s sid policy ed rk = Inr (row, s')"
    and "\<not> starts_with ''natural_date:'' rk"
  shows "row = lookup_row s sid policy ed rk \<and> same_rows s s' \<and> has_runs s'"
proof -
  from assms(1) obtain key run s1 where key: "state_key_for_policy policy ed rk = Inr key"
    and run: "run_state_for_key s key False = Inr (run, s1)"
    and rest: "(case dict_field (dict_field run ''steps'') sid of
         kv # row \<Rightarrow> Inr (kv # row, s1)
       | [] \<Rightarrow>
           if policy = ''natural_date'' then
             bind_res (run_state_for_key s1 (isoformat (natural_date ed)) False) (\<lambda>(legacy_run, s2).
               Inr (dict_field (dict_field legacy_run ''steps'') sid, s2))
           else Inr ([], s1)) = Inr (row, s')"
    by (auto simp: step_row_for_policy_def)
  note eff = run_state_for_key_effect [OF run]
  define iso where "iso = isoformat (natural_date ed)"
  let ?found = "fst (found_run (dict_field s ''runs'') key False)"
  have natural_key: "policy = ''natural_date'' \<Longrightarrow> key = ''natural_date:'' @ iso"
    using key by (simp add: state_key_for_policy_def iso_def)
  have other_key: "policy \<noteq> ''natural_date'' \<Longrightarrow> ?found = key"
    using key assms(2)
    by (intro found_run_other) (auto simp: state_key_for_policy_def starts_with_def split: if_splits)
  show ?thesis
  proof (cases "policy = ''natural_date''")
    case False
    then show ?thesis
      using rest eff other_key key
      by (auto simp: lookup_row_def row_dict_def split: list.splits)
  next
    case True
    have lr: "dict_field r2 ''steps'' = steps_at s1 iso \<and> same_rows s1 s2 \<and> has_runs s2"
      if "run_state_for_key s1 iso False = Inr (r2, s2)" for r2 s2
      using run_state_for_key_effect [OF that] found_run_other [OF isoformat_not_natural]
      by (simp add: iso_def)
    have found: "?found = (if get_some (dict_field s ''runs'') key = None then iso else key)"
      using natural_key [OF True] found_run_natural by simp
    have same1: "steps_at s1 iso = steps_at s iso" using eff by (simp add: same_rows_def)
    show ?thesis
    proof (cases "dict_field (steps_at s ?found) sid")
      case Nil
      with rest eff True obtain r2 where "run_state_for_key s1 iso False = Inr (r2, s')"
        and row: "row = dict_field (dict_field r2 ''steps'') sid"
        by (auto simp: iso_def)
      with lr same1 have "row = dict_field (steps_at s iso) sid" "same_rows s1 s'" "has_runs s'" by auto
      moreover have "dict_field (steps_at s key) sid = []"
        using Nil found steps_at_get_some_None [of s key] by (auto split: if_splits)
      ultimately show ?thesis
        using eff key True by (auto simp: lookup_row_def row_dict_def iso_def intro: same_rows_trans)
    next
      case (Cons kv r)
      with rest eff have "row = kv # r" "s' = s1" by auto
      moreover have "lookup_row s sid policy ed rk = kv # r"
        using Cons found steps_at_get_some_None [of s key] key True
        by (auto simp: lookup_row_def row_dict_def iso_def split: if_splits)
      ultimately show ?thesis using eff by simp
    qed
  qed
qed

text \<open>
  Reading a step's row under a policy sees exactly the rows of the state: the row under the
  policy's key or, for \<open>natural_date\<close>, the row an earlier version stored under the bare date; and
  reading changes no row.
\<close>

theorem step_row_for_policy_sees:
  assumes "step_row_for_policy s sid policy ed rk = Inr (row, s')"
    and "\<not> starts_with ''natural_date:'' rk"
  shows "row = lookup_row s sid policy ed rk \<and> same_rows s s' \<and> has_runs s'"
  using assms by (rule step_row_for_policy_reads)

text \<open>
  A recorded row is what the next read of that step finds, with the status given and, unless
  the step starts running, the start time of the row before; and recording touches no other row.
\<close>

theorem record_step_effect:
  assumes "record_step key step status exit_code timestamp pid log_path blocked_by reason s = Inr s'"
  shows "has_runs s' \<and>
    (\<exists>started_at. row_at s' key (step_id step) =
        Some (PDict (step_row step status exit_code started_at timestamp pid log_path blocked_by reason)) \<and>
      (status \<noteq> ''running'' \<longrightarrow> started_at = dict_get_default (row_dict s key (step_id step)) ''started_at'' PNone)) \<and>
    (\<forall>k i. (k, i) \<noteq> (key, step_id step) \<longrightarrow> row_at s' k i = row_at s k i)"
proof -
  from assms obtain started where s': "s' = put_row (key, step_id step)
      (PDict (step_row step status exit_code started timestamp pid log_path blocked_by reason)) s"
    and st: "status \<noteq> ''running'' \<Longrightarrow>
      \<exists>prev. dict_get_default (steps_at s key) (step_id step) (PDict []) = PDict prev \<and>
        started = dict_get_default prev ''started_at'' PNone"
    unfolding record_step_def by (auto split: if_splits pyval.splits)
  have "status \<noteq> ''running'' \<Longrightarrow> started = dict_get_default (row_dict s key (step_id step)) ''started_at'' PNone"
    using st dict_field_PDict by (fastforce simp: row_dict_def)
  then show ?thesis by (auto simp: s' row_at_put_row)
qed

lemma record_step_row_dict:
  assumes "record_step key step status exit_code timestamp pid log_path blocked_by reason s = Inr s'"
  shows "dict_get_default (row_dict s' key (step_id step)) ''status'' v = PStr status"
    and "row_dict s' key (step_id step) \<noteq> []"
    and "(k, i) \<noteq> (key, step_id step) \<Longrightarrow> row_dict s' k i = row_dict s k i"
    and "has_runs s'"
proof -
  from assms obtain started where s': "s' = put_row (key, step_id step)
      (PDict (step_row step status exit_code started timestamp pid log_path blocked_by reason)) s"
    unfolding record_step_def by (auto split: if_splits pyval.splits)
  have rd: "row_dict s' k i = (if (k, i) = (key, step_id step)
      then step_row step status exit_code started timestamp pid log_path blocked_by reason else row_dict s k i)" for k i
    using row_at_put_row [of key "step_id step" _ s k i]
    by (auto simp: s' row_dict_def dict_field_def row_at_def)
  show "dict_get_default (row_dict s' key (step_id step)) ''status'' v = PStr status"
    and "row_dict s' key (step_id step) \<noteq> []"
    and "(k, i) \<noteq> (key, step_id step) \<Longrightarrow> row_dict s' k i = row_dict s k i"
    and "has_runs s'"
    by (auto simp: rd step_row_def dict_get_default_def) (simp add: s')
qed


section \<open>Abandoned steps\<close>

datatype py_timestamp = NaiveTime int | AwareTime

text \<open>
  What the sweep asks of its surroundings: the process table, \<open>datetime.fromisoformat\<close> (\<open>None\<close> is
  \<open>ValueError\<close>) and the naive local time, in seconds. Subtracting a time with a zone from a naive one
  is a \<open>TypeError\<close>.
\<close>

record run_host =
  rh_alive :: "int \<Rightarrow> bool"
  rh_fromiso :: "string \<Rightarrow> py_timestamp option"
  rh_now :: int

definition RUNNING_ABANDONED_AFTER_SECONDS :: int where
  "RUNNING_ABANDONED_AFTER_SECONDS = 24 * 60 * 60"

definition int_or_none :: "pyval option \<Rightarrow> int option" where
  "int_or_none value =
     (case value of
        None \<Rightarrow> None
      | Some v \<Rightarrow>
          (case v of
             PNone \<Rightarrow> None | PList _ \<Rightarrow> None | PDict _ \<Rightarrow> None | POther _ _ _ \<Rightarrow> None
           | _ \<Rightarrow> (case py_int v of None \<Rightarrow> None | Some n \<Rightarrow> if 0 < n then Some n else None)))"

definition parse_timestamp :: "run_host \<Rightarrow> pyval option \<Rightarrow> py_timestamp option" where
  "parse_timestamp h value = (case value of Some (PStr s) \<Rightarrow> rh_fromiso h s | _ \<Rightarrow> None)"

definition running_abandoned_reason ::
  "run_host \<Rightarrow> pyval dict \<Rightarrow> pyval dict \<Rightarrow> run_error + string option" where
  "running_abandoned_reason h row active_lock_owner =
     (case int_or_none (case dict_get row ''orchestrator_pid'' of None \<Rightarrow> dict_get row ''pid'' | Some v \<Rightarrow> Some v) of
        None \<Rightarrow> Inr (Some ''running step has no orchestrator pid'')
      | Some pid \<Rightarrow>
          if int_or_none (dict_get active_lock_owner ''pid'') = Some pid then Inr None
          else if \<not> rh_alive h pid then Inr (Some (''orchestrator pid '' @ show_int pid @ '' is not alive''))
          else
            (case parse_timestamp h (dict_get row ''started_at'') of
               None \<Rightarrow> Inr (Some ''running step has no valid started_at'')
             | Some AwareTime \<Rightarrow> Inl AwareTimestamp
             | Some (NaiveTime started_at) \<Rightarrow>
                 if rh_now h - started_at \<le> RUNNING_ABANDONED_AFTER_SECONDS then Inr None
                 else Inr (Some (''running step exceeded '' @ show_int RUNNING_ABANDONED_AFTER_SECONDS @ '' seconds''))))"

definition mark_running_row_abandoned :: "string \<Rightarrow> string \<Rightarrow> pyval dict \<Rightarrow> pyval dict" where
  "mark_running_row_abandoned timestamp reason row =
     dict_set (dict_set (dict_set (dict_set (dict_set row
       ''status'' (PStr ''abandoned'')) ''updated_at'' (PStr timestamp)) ''ended_at'' (PStr timestamp))
       ''exit_code'' (PInt 1)) ''reason'' (PStr reason)"

definition row_status :: "pyval dict \<Rightarrow> string" where
  "row_status row = py_str (dict_get_default row ''status'' (PStr ''pending''))"

definition is_running :: "pyval dict \<Rightarrow> bool" where
  "is_running row \<longleftrightarrow> py_str (dict_get_default row ''status'' PNone) = ''running''"

definition mark_row :: "run_host \<Rightarrow> pyval dict \<Rightarrow> string \<Rightarrow> pyval \<Rightarrow> run_error + pyval \<times> bool" where
  "mark_row h active_lock_owner timestamp current =
     (case current of
        PDict row \<Rightarrow>
          if \<not> is_running row then Inr (current, False)
          else bind_res (running_abandoned_reason h row active_lock_owner) (\<lambda>reason.
            case reason of
              None \<Rightarrow> Inr (current, False)
            | Some r \<Rightarrow> Inr (PDict (mark_running_row_abandoned timestamp r row), True))
      | _ \<Rightarrow> Inr (current, False))"

text \<open>\<open>stamp\<close> gives what the clock shows when a row, named by its two keys, is marked.\<close>

definition mark_run ::
  "run_host \<Rightarrow> pyval dict \<Rightarrow> (string \<Rightarrow> string \<Rightarrow> string) \<Rightarrow> string \<Rightarrow> pyval \<Rightarrow> run_error + pyval \<times> bool" where
  "mark_run h active_lock_owner stamp key run_state =
     (case run_state of
        PDict run \<Rightarrow>
          (case dict_get_default run ''steps'' (PDict []) of
             PDict steps \<Rightarrow>
               bind_res (traverse_vals (\<lambda>sid. mark_row h active_lock_owner (stamp key sid)) steps) (\<lambda>marked.
                 if \<exists>m \<in> set marked. snd (snd m)
                 then Inr (PDict (dict_set run ''steps'' (PDict (map (\<lambda>m. (fst m, fst (snd m))) marked))), True)
                 else Inr (run_state, False))
           | _ \<Rightarrow> Inr (run_state, False))
      | _ \<Rightarrow> Inr (run_state, False))"

definition mark_abandoned_running_steps_in_state ::
  "run_host \<Rightarrow> pyval dict \<Rightarrow> (string \<Rightarrow> string \<Rightarrow> string) \<Rightarrow> state \<Rightarrow> run_error + state \<times> bool" where
  "mark_abandoned_running_steps_in_state h active_lock_owner stamp s =
     (case dict_get_default s ''runs'' (PDict []) of
        PDict runs \<Rightarrow>
          bind_res (traverse_vals (mark_run h active_lock_owner stamp) runs) (\<lambda>marked.
            if \<exists>m \<in> set marked. snd (snd m)
            then Inr (dict_set s ''runs'' (PDict (map (\<lambda>m. (fst m, fst (snd m))) marked)), True)
            else Inr (s, False))
      | _ \<Rightarrow> Inr (s, False))"

text \<open>What the sweep makes of one row.\<close>

definition swept :: "run_host \<Rightarrow> pyval dict \<Rightarrow> string \<Rightarrow> pyval \<Rightarrow> pyval" where
  "swept h active_lock_owner timestamp v =
     (case mark_row h active_lock_owner timestamp v of Inl e \<Rightarrow> v | Inr (w, b) \<Rightarrow> w)"

definition steps_of :: "pyval \<Rightarrow> pyval dict" where
  "steps_of v = (case v of PDict run \<Rightarrow> dict_field run ''steps'' | _ \<Rightarrow> [])"

lemma mark_row_unchanged: "mark_row h a t v = Inr (w, False) \<Longrightarrow> w = v"
  by (auto simp: mark_row_def split: pyval.splits if_splits option.splits)

lemma traverse_marked:
  assumes "traverse_vals f xs = Inr ms"
  shows "map_of (map (\<lambda>m. (fst m, fst (snd m))) ms) k =
     map_option (\<lambda>v. case f k v of Inl e \<Rightarrow> v | Inr (w, b) \<Rightarrow> w) (map_of xs k)"
  using assms by (induction xs arbitrary: ms) auto

lemma traverse_unmarked:
  assumes "traverse_vals f xs = Inr ms" and "\<not> (\<exists>m \<in> set ms. snd (snd m))"
    and "\<And>k v w. f k v = Inr (w, False) \<Longrightarrow> w = v"
  shows "map_option (\<lambda>v. case f k v of Inl e \<Rightarrow> v | Inr (w, b) \<Rightarrow> w) (map_of xs k) = map_of xs k"
  using assms(1,2)
proof (induction xs arbitrary: ms)
  case (Cons x xs)
  then obtain w ms' where "f (fst x) (snd x) = Inr (w, False)" "traverse_vals f xs = Inr ms'"
    "\<not> (\<exists>m \<in> set ms'. snd (snd m))"
    by auto
  with Cons.IH assms(3) show ?case by auto
qed simp

lemma dict_get_steps_of_run:
  "dict_get (steps_of (PDict (dict_set run ''steps'' (PDict x)))) i = dict_get x i"
  by (simp add: steps_of_def)

lemma mark_run_steps:
  assumes "mark_run h a stamp key v = Inr (v', b)"
  shows "dict_get (steps_of v') i = map_option (swept h a (stamp key i)) (dict_get (steps_of v) i)"
    and "\<not> b \<Longrightarrow> v' = v"
proof -
  have *: "dict_get (steps_of v') i = map_option (swept h a (stamp key i)) (dict_get (steps_of v) i) \<and>
    (\<not> b \<longrightarrow> v' = v)"
  proof (cases "\<exists>run steps. v = PDict run \<and> dict_get_default run ''steps'' (PDict []) = PDict steps")
    case True
    then obtain run steps where v: "v = PDict run" and st: "dict_get_default run ''steps'' (PDict []) = PDict steps"
      by blast
    have steps: "steps_of v = steps" using dict_field_PDict [OF st] by (simp add: v steps_of_def)
    from assms obtain ms where ms: "traverse_vals (\<lambda>sid. mark_row h a (stamp key sid)) steps = Inr ms"
      and v': "(if \<exists>m \<in> set ms. snd (snd m)
         then Inr (PDict (dict_set run ''steps'' (PDict (map (\<lambda>m. (fst m, fst (snd m))) ms))), True)
         else Inr (PDict run, False)) = (Inr (v', b) :: run_error + pyval \<times> bool)"
      by (auto simp: mark_run_def v st)
    show ?thesis
    proof (cases "\<exists>m \<in> set ms. snd (snd m)")
      case True
      then show ?thesis
        using v' traverse_marked [OF ms, of i] by (auto simp: dict_get_steps_of_run steps swept_def [abs_def])
    next
      case False
      show ?thesis
      proof -
        have "map_option (swept h a (stamp key i)) (map_of steps i) = map_of steps i"
          unfolding swept_def [abs_def] by (rule traverse_unmarked [OF ms False]) (rule mark_row_unchanged)
        moreover from v' False have "\<not> b" "v' = v" by (auto simp: v)
        ultimately show ?thesis by (simp add: steps)
      qed
    qed
  next
    case False
    then have "v' = v" using assms by (auto simp: mark_run_def split: pyval.splits)
    moreover have "steps_of v = []"
      using False by (auto simp: steps_of_def dict_field_def dict_get_default_def split: pyval.splits option.splits)
    ultimately show ?thesis by simp
  qed
  then show "dict_get (steps_of v') i = map_option (swept h a (stamp key i)) (dict_get (steps_of v) i)"
    and "\<not> b \<Longrightarrow> v' = v" by auto
qed

lemma dict_field_as_option: "dict_field d k = (case dict_get d k of None \<Rightarrow> [] | Some v \<Rightarrow> (case v of PDict x \<Rightarrow> x | _ \<Rightarrow> []))"
  by (auto simp: dict_field_def split: option.split pyval.split)

lemma steps_at_alt: "steps_at s k = (case dict_get (dict_field s ''runs'') k of None \<Rightarrow> [] | Some v \<Rightarrow> steps_of v)"
  by (auto simp: steps_at_def run_at_def dict_field_as_option [of _ k] steps_of_def split: option.split pyval.split)

lemma sweep_rows:
  assumes "mark_abandoned_running_steps_in_state h a stamp s = Inr (s', changed)"
  shows "row_at s' k i = map_option (swept h a (stamp k i)) (row_at s k i) \<and> (\<not> changed \<longrightarrow> s' = s)
    \<and> (has_runs s \<longrightarrow> has_runs s')"
proof (cases "\<exists>runs. dict_get_default s ''runs'' (PDict []) = PDict runs")
  case True
  then obtain runs where r: "dict_get_default s ''runs'' (PDict []) = PDict runs" by blast
  have runs: "dict_field s ''runs'' = runs" using r by (rule dict_field_PDict)
  from assms obtain ms where ms: "traverse_vals (mark_run h a stamp) runs = Inr ms"
    and s': "(if \<exists>m \<in> set ms. snd (snd m)
       then Inr (dict_set s ''runs'' (PDict (map (\<lambda>m. (fst m, fst (snd m))) ms)), True)
       else Inr (s, False)) = (Inr (s', changed) :: run_error + state \<times> bool)"
    by (auto simp: mark_abandoned_running_steps_in_state_def r)
  have one: "dict_get (steps_of (case mark_run h a stamp k v of Inl e \<Rightarrow> v | Inr (w, b) \<Rightarrow> w)) i =
      map_option (swept h a (stamp k i)) (dict_get (steps_of v) i)" if "map_of runs k = Some v" for v
    using map_of_traverse_vals [OF ms, of k] that mark_run_steps(1) [of h a stamp k v _ _ i] by auto
  have "map_of (dict_field s' ''runs'') k =
      map_option (\<lambda>v. case mark_run h a stamp k v of Inl e \<Rightarrow> v | Inr (w, b) \<Rightarrow> w) (map_of runs k)"
  proof (cases "\<exists>m \<in> set ms. snd (snd m)")
    case True
    then show ?thesis using s' traverse_marked [OF ms, of k] by auto
  next
    case False
    have "map_option (\<lambda>v. case mark_run h a stamp k v of Inl e \<Rightarrow> v | Inr (w, b) \<Rightarrow> w) (map_of runs k) = map_of runs k"
      by (rule traverse_unmarked [OF ms False]) (simp add: mark_run_steps(2))
    moreover from s' False have "s' = s" by auto
    ultimately show ?thesis by (simp add: runs)
  qed
  then have "row_at s' k i = map_option (swept h a (stamp k i)) (row_at s k i)"
    using one by (cases "map_of runs k") (auto simp: row_at_def steps_at_alt runs)
  then show ?thesis using s' by (auto simp: has_runs_def split: if_splits)
next
  case False
  then have "s' = s" using assms by (auto simp: mark_abandoned_running_steps_in_state_def split: pyval.splits)
  moreover have "row_at s k i = None"
    using False dict_field_not_PDict [of s "''runs''"] by (simp add: row_at_def steps_at_alt)
  ultimately show ?thesis by simp
qed

lemma mark_run_total:
  assumes "mark_run h a stamp key v = Inr r" and "dict_get (steps_of v) i = Some row"
  shows "\<exists>q. mark_row h a (stamp key i) row = Inr q"
proof -
  from assms(2) obtain run steps where v: "v = PDict run" "dict_get_default run ''steps'' (PDict []) = PDict steps"
    by (auto simp: steps_of_def dict_field_def dict_get_default_def split: pyval.splits option.splits)
  then have "steps_of v = steps" by (simp add: steps_of_def dict_field_PDict)
  moreover from assms(1) v obtain ms where "traverse_vals (\<lambda>sid. mark_row h a (stamp key sid)) steps = Inr ms"
    by (auto simp: mark_run_def)
  ultimately show ?thesis
    using map_of_traverse_vals [of "\<lambda>sid. mark_row h a (stamp key sid)" steps ms i] assms(2) by auto
qed

lemma sweep_total:
  assumes "mark_abandoned_running_steps_in_state h a stamp s = Inr (s', changed)" and "row_at s k i = Some v"
  shows "\<exists>q. mark_row h a (stamp k i) v = Inr q"
proof -
  from assms(2) obtain run where run: "dict_get (dict_field s ''runs'') k = Some run" "dict_get (steps_of run) i = Some v"
    by (auto simp: row_at_def steps_at_alt split: option.splits)
  then obtain runs where r: "dict_get_default s ''runs'' (PDict []) = PDict runs"
    by (auto simp: dict_field_def dict_get_default_def split: option.splits pyval.splits)
  with assms(1) obtain ms where "traverse_vals (mark_run h a stamp) runs = Inr ms"
    by (auto simp: mark_abandoned_running_steps_in_state_def)
  with run(1) dict_field_PDict [OF r] obtain q where "mark_run h a stamp k run = Inr q"
    using map_of_traverse_vals [of "mark_run h a stamp" runs ms k] by auto
  with run(2) show ?thesis using mark_run_total by blast
qed

lemma swept_running:
  assumes "mark_row h a t v = Inr q" and "swept h a t v = PDict row" and "is_running row"
  shows "v = PDict row \<and> running_abandoned_reason h row a = Inr None"
  using assms
  by (auto simp: swept_def mark_row_def is_running_def mark_running_row_abandoned_def
      split: pyval.splits if_splits option.splits)

text \<open>The process that a row names.\<close>

definition row_pid :: "pyval dict \<Rightarrow> int option" where
  "row_pid row = int_or_none (case dict_get row ''orchestrator_pid'' of None \<Rightarrow> dict_get row ''pid'' | Some v \<Rightarrow> Some v)"

lemma not_abandoned:
  assumes "running_abandoned_reason h row own = Inr None"
  shows "\<exists>pid. row_pid row = Some pid \<and> (int_or_none (dict_get own ''pid'') = Some pid \<or>
      rh_alive h pid \<and> (\<exists>t. parse_timestamp h (dict_get row ''started_at'') = Some (NaiveTime t) \<and>
        rh_now h - t \<le> 24 * 60 * 60))"
proof (cases "row_pid row")
  case (Some pid)
  with assms show ?thesis
    by (simp add: running_abandoned_reason_def row_pid_def RUNNING_ABANDONED_AFTER_SECONDS_def
        split: if_splits option.splits py_timestamp.splits)
qed (use assms in \<open>simp add: running_abandoned_reason_def row_pid_def\<close>)

text \<open>
  C38: After the sweep at the start of a run, every row still marked running belongs to the process
  that holds the lock or to a live process that started the step within the last 24 hours; every
  row that was not running, and every one of those, is exactly as before; and the state is reported
  unchanged only if it is.
\<close>

theorem sweep_leaves_live_rows:
  assumes "mark_abandoned_running_steps_in_state h active_lock_owner stamp s = Inr (s', changed)"
  shows "(\<forall>k i row. row_at s' k i = Some (PDict row) \<longrightarrow> is_running row \<longrightarrow>
            row_at s k i = Some (PDict row) \<and>
            (\<exists>pid. row_pid row = Some pid \<and>
              (int_or_none (dict_get active_lock_owner ''pid'') = Some pid \<or>
               rh_alive h pid \<and> (\<exists>t. parse_timestamp h (dict_get row ''started_at'') = Some (NaiveTime t) \<and>
                                     rh_now h - t \<le> 24 * 60 * 60)))) \<and>
         (\<forall>k i. (\<forall>row. row_at s k i = Some (PDict row) \<longrightarrow> \<not> is_running row) \<longrightarrow> row_at s' k i = row_at s k i) \<and>
         (\<not> changed \<longrightarrow> s' = s)"
proof (intro conjI allI impI)
  fix k i row assume "row_at s' k i = Some (PDict row)" and run: "is_running row"
  then obtain v where v: "row_at s k i = Some v" "swept h active_lock_owner (stamp k i) v = PDict row"
    using sweep_rows [OF assms, of k i] by auto
  obtain q where "mark_row h active_lock_owner (stamp k i) v = Inr q" using sweep_total [OF assms v(1)] by blast
  from swept_running [OF this v(2) run] v(1)
  show "row_at s k i = Some (PDict row)"
    and "\<exists>pid. row_pid row = Some pid \<and> (int_or_none (dict_get active_lock_owner ''pid'') = Some pid \<or>
      rh_alive h pid \<and> (\<exists>t. parse_timestamp h (dict_get row ''started_at'') = Some (NaiveTime t) \<and>
        rh_now h - t \<le> 24 * 60 * 60))"
    by (auto dest: not_abandoned)
next
  fix k i assume nr: "\<forall>row. row_at s k i = Some (PDict row) \<longrightarrow> \<not> is_running row"
  then have "map_option (swept h active_lock_owner (stamp k i)) (row_at s k i) = row_at s k i"
    by (cases "row_at s k i") (auto simp: swept_def mark_row_def split: pyval.split)
  then show "row_at s' k i = row_at s k i" using sweep_rows [OF assms, of k i] by simp
next
  assume "\<not> changed" then show "s' = s" using sweep_rows [OF assms] by blast
qed

section \<open>Instances\<close>

text \<open>A file with a legacy row, a running row of a dead process, and one that is done.\<close>

definition demo_state :: state where
  "demo_state =
     [(''version'', PInt 2),
      (''runs'', PDict
        [(''0001-01-05'', PDict [(''steps'', PDict [(''cleanup'', PDict [(''status'', PStr ''success'')])])]),
         (''natural_date:0001-01-05'', PDict [(''steps'', PDict
            [(''calendar'', PDict [(''status'', PStr ''running''), (''pid'', PInt 7)]),
             (''basic'', PDict [(''status'', PStr ''success''), (''started_at'', PStr ''t0'')])])])])]"

definition demo_run_host :: run_host where
  "demo_run_host = \<lparr>rh_alive = (\<lambda>p. p = 1), rh_fromiso = (\<lambda>s. Some (NaiveTime 0)), rh_now = 100\<rparr>"

definition demo_sweep :: "state \<times> bool" where
  "demo_sweep = (case mark_abandoned_running_steps_in_state demo_run_host [(''pid'', PInt 1)] (\<lambda>k i. ''t1'') demo_state of
     Inr r \<Rightarrow> r | Inl e \<Rightarrow> (demo_state, False))"

theorem step_row_for_policy_sees_witness:
  "lookup_row demo_state ''cleanup'' ''natural_date'' sample_dates ''run_instance:x'' = [(''status'', PStr ''success'')]"
proof -
  have "bind_res (step_row_for_policy demo_state ''cleanup'' ''natural_date'' sample_dates ''run_instance:x'') (\<lambda>r. Inr (fst r)) =
      Inr [(''status'', PStr ''success'')]"
    by code_simp
  then obtain s' where "step_row_for_policy demo_state ''cleanup'' ''natural_date'' sample_dates ''run_instance:x'' =
      Inr ([(''status'', PStr ''success'')], s')"
    by auto
  from step_row_for_policy_sees [OF this] show ?thesis by (simp add: starts_with_def)
qed

theorem record_step_effect_witness:
  "\<exists>s' row. record_step ''natural_date:0001-01-05'' (sample_steps ! 0) ''success'' (Some 0) ''t2'' 1 ''log'' None None
      demo_state = Inr s' \<and> row_at s' ''natural_date:0001-01-05'' ''cleanup'' = Some (PDict row)"
proof -
  obtain s' where s': "record_step ''natural_date:0001-01-05'' (sample_steps ! 0) ''success'' (Some 0) ''t2'' 1 ''log'' None None
      demo_state = Inr s'"
    by (simp add: record_step_def demo_state_def sample_steps_def steps_at_def run_at_def dict_field_def
        dict_get_default_def)
  from record_step_effect [OF this] s' show ?thesis by (auto simp: sample_steps_def)
qed


theorem sweep_leaves_live_rows_witness:
  "\<nexists>k i row. row_at (fst demo_sweep) k i = Some (PDict row) \<and> is_running row \<and> row_pid row = Some 7"
proof -
  have "\<exists>r. mark_abandoned_running_steps_in_state demo_run_host [(''pid'', PInt 1)] (\<lambda>k i. ''t1'') demo_state = Inr r"
    unfolding is_ok_iff [symmetric] by code_simp
  then have "mark_abandoned_running_steps_in_state demo_run_host [(''pid'', PInt 1)] (\<lambda>k i. ''t1'') demo_state =
      Inr (fst demo_sweep, snd demo_sweep)"
    by (auto simp: demo_sweep_def)
  note live = sweep_leaves_live_rows [OF this, THEN conjunct1, rule_format]
  have "int_or_none (dict_get [(''pid'', PInt 1)] ''pid'') \<noteq> Some 7" "\<not> rh_alive demo_run_host 7"
    by (simp_all add: int_or_none_def demo_run_host_def)
  with live show ?thesis by (metis option.inject)
qed

end
