(* ===== verification/Step_Dependencies.thy ===== *)
theory Step_Dependencies imports Run_State begin

text \<open>
  What \<open>src/tools/run_update_daily.py\<close> decides from the rows of other steps: which hard
  dependencies block a step, which soft ones degrade it, how a degraded derived build is run, and
  the exit code of the whole run. Reads thread the state through, since reading may add a missing
  \<open>steps\<close> mapping; the lemmas show that they see, and leave, the rows of the state.
\<close>

definition FAILED_DEPENDENCY_STATUSES :: "string list" where
  "FAILED_DEPENDENCY_STATUSES =
     [''failed'', ''failed_resource_locked'', ''failed_timeout_cleanup'', ''blocked'', ''abandoned'']"

definition SATISFIED_DEPENDENCY_STATUSES :: "string list" where
  "SATISFIED_DEPENDENCY_STATUSES = [''success'', ''success_degraded'', ''skipped'', ''skipped_checkpoint'']"

definition steps_by_id :: "daily_step list \<Rightarrow> string \<Rightarrow> daily_step option" where
  "steps_by_id steps = map_of (rev (map (\<lambda>s. (step_id s, s)) steps))"

text \<open>The arguments every dependency check takes: the steps of the run, its dates and its key.\<close>

record run_context =
  rc_steps :: "daily_step list"
  rc_dates :: daily_effective_dates
  rc_key :: string

section \<open>The status of a dependency\<close>

definition dependency_policy :: "run_context \<Rightarrow> dependency \<Rightarrow> string" where
  "dependency_policy rc dependency =
     (let of_step = (case steps_by_id (rc_steps rc) (dependency_step_id dependency) of
                       None \<Rightarrow> ''natural_date'' | Some s \<Rightarrow> step_state_key_policy s)
      in case dependency of
           DepName _ \<Rightarrow> of_step
         | Dep d \<Rightarrow> (case dep_state_key_policy d of None \<Rightarrow> of_step | Some p \<Rightarrow> p))"

definition resolved_dependency_status ::
  "run_context \<Rightarrow> dependency \<Rightarrow> state \<Rightarrow> run_error + (string \<times> string \<times> string) \<times> state" where
  "resolved_dependency_status rc dependency s =
     bind_res (step_row_for_policy s (dependency_step_id dependency) (dependency_policy rc dependency)
                 (rc_dates rc) (rc_key rc)) (\<lambda>(row, s').
     bind_res (state_key_for_policy (dependency_policy rc dependency) (rc_dates rc) (rc_key rc)) (\<lambda>key.
       Inr ((dependency_step_id dependency, row_status row, key), s')))"

definition is_soft :: "dependency \<Rightarrow> bool" where
  "is_soft d = (case d of DepName _ \<Rightarrow> False | Dep r \<Rightarrow> dep_soft r)"

definition blocking_status :: "string \<Rightarrow> bool" where
  "blocking_status st \<longleftrightarrow> st \<in> set FAILED_DEPENDENCY_STATUSES \<or> st \<notin> set SATISFIED_DEPENDENCY_STATUSES"

fun blocked_among :: "run_context \<Rightarrow> dependency list \<Rightarrow> state \<Rightarrow> run_error + string list \<times> state" where
  "blocked_among rc [] s = Inr ([], s)"
| "blocked_among rc (d # ds) s =
     bind_res (resolved_dependency_status rc d s) (\<lambda>((i, st, key), s1).
     bind_res (blocked_among rc ds s1) (\<lambda>(blocked, s2).
       Inr (if blocking_status st \<and> \<not> is_soft d then dependency_step_id d # blocked else blocked, s2)))"

definition blocked_dependencies :: "run_context \<Rightarrow> daily_step \<Rightarrow> state \<Rightarrow> run_error + string list \<times> state" where
  "blocked_dependencies rc step s = blocked_among rc (step_depends_on step) s"

fun upstream_degraded :: "run_context \<Rightarrow> dependency list \<Rightarrow> state \<Rightarrow> run_error + string option \<times> state" where
  "upstream_degraded rc [] s = Inr (None, s)"
| "upstream_degraded rc (d # ds) s =
     bind_res (resolved_dependency_status rc d s) (\<lambda>((i, st, key), s1).
       if st = ''success_degraded''
       then Inr (Some (''degraded: upstream dependency '' @ i @ '' completed with success_degraded''), s1)
       else upstream_degraded rc ds s1)"

definition upstream_degraded_success_reason ::
  "run_context \<Rightarrow> daily_step \<Rightarrow> state \<Rightarrow> run_error + string option \<times> state" where
  "upstream_degraded_success_reason rc step s = upstream_degraded rc (step_depends_on step) s"

section \<open>Degraded builds\<close>

fun requested_targets :: "string list \<Rightarrow> string list" where
  "requested_targets [] = []"
| "requested_targets [arg] =
     (if starts_with ''--target='' arg then [snd (split_first (CHR ''='') arg)] else [])"
| "requested_targets (arg # x # rest) =
     (if arg = ''--target'' then x # requested_targets rest
      else (if starts_with ''--target='' arg then [snd (split_first (CHR ''='') arg)] else []) @
           requested_targets (x # rest))"

definition build_derived_requested_targets :: "string list \<Rightarrow> string list" where
  "build_derived_requested_targets command =
     (if requested_targets command = [] then [''all''] else requested_targets command)"

fun build_derived_command_excludes_daily_bar :: "string list \<Rightarrow> bool" where
  "build_derived_command_excludes_daily_bar [] = False"
| "build_derived_command_excludes_daily_bar (arg # rest) =
     (arg = ''--exclude-target'' \<and> rest \<noteq> [] \<and> hd rest = ''daily_bar'' \<or>
      arg = ''--exclude-target=daily_bar'' \<or>
      build_derived_command_excludes_daily_bar rest)"

definition append_build_derived_exclude_daily_bar :: "string list \<Rightarrow> string list" where
  "append_build_derived_exclude_daily_bar command =
     (let addition = [''--exclude-target'', ''daily_bar''];
          before = takeWhile (\<lambda>a. a \<noteq> ''--no-build-duckdb-views'') command
      in before @ addition @ drop (length before) command)"

datatype degraded_step = NotDegraded | DegradedBlocked | Degraded daily_step

definition degraded_build_derived_step_for_akshare_daily_bar :: "daily_step \<Rightarrow> string \<Rightarrow> degraded_step" where
  "degraded_build_derived_step_for_akshare_daily_bar step dependency_id =
     (if step_id step \<notin> {''build-derived'', ''build-derived-daily-bar''} \<or> dependency_id \<noteq> ''akshare-daily-bar''
      then NotDegraded
      else if step_id step = ''build-derived-daily-bar'' then DegradedBlocked
      else
        (let requested = build_derived_requested_targets (step_command step)
         in if ''all'' \<notin> set requested \<and> ''daily_bar'' \<notin> set requested then NotDegraded
            else if build_derived_command_excludes_daily_bar (step_command step) then Degraded step
            else if ''daily_bar'' \<in> set requested \<and> ''all'' \<notin> set requested then DegradedBlocked
            else Degraded (step\<lparr>step_command := append_build_derived_exclude_daily_bar (step_command step)\<rparr>)))"

section \<open>Soft dependencies of a step\<close>

text \<open>
  The loop over the soft dependencies: the step as it will run, why its success would count as
  degraded, and why it cannot run at all.
\<close>

record soft_outcome =
  so_step :: daily_step
  so_degraded :: "string option"
  so_blocked :: "string option"

definition soft_dependency_status ::
  "daily_step \<Rightarrow> string \<Rightarrow> string \<Rightarrow> string \<Rightarrow> soft_outcome \<Rightarrow> soft_outcome" where
  "soft_dependency_status step dep_id dep_status key so =
     (if dep_status \<in> set SATISFIED_DEPENDENCY_STATUSES then so
      else
        (let status_text = dep_id @ '' status='' @ dep_status @ '' for '' @ key
         in case degraded_build_derived_step_for_akshare_daily_bar step dep_id of
              DegradedBlocked \<Rightarrow>
                so\<lparr>so_blocked := Some (''degraded: cannot build target=daily_bar because '' @ status_text)\<rparr>
            | Degraded step' \<Rightarrow>
                so\<lparr>so_step := step',
                   so_degraded := Some (''degraded: excluded target=daily_bar because '' @ status_text)\<rparr>
            | NotDegraded \<Rightarrow>
                so\<lparr>so_degraded := (case so_degraded so of
                     None \<Rightarrow> Some (''degraded: soft dependency '' @ status_text) | Some r \<Rightarrow> Some r)\<rparr>))"

fun soft_dependencies ::
  "run_context \<Rightarrow> daily_step \<Rightarrow> dependency list \<Rightarrow> soft_outcome \<Rightarrow> state \<Rightarrow> run_error + soft_outcome \<times> state" where
  "soft_dependencies rc step [] so s = Inr (so, s)"
| "soft_dependencies rc step (d # ds) so s =
     (if \<not> is_soft d then soft_dependencies rc step ds so s
      else
        bind_res (resolved_dependency_status rc d s) (\<lambda>((i, st, key), s1).
          soft_dependencies rc step ds (soft_dependency_status step i st key so) s1))"

section \<open>The exit code of a run\<close>

definition FAILED_STEP_STATUSES :: "string list" where
  "FAILED_STEP_STATUSES = [''failed'', ''failed_resource_locked'', ''failed_timeout_cleanup'', ''abandoned'']"

definition status_text :: "pyval dict \<Rightarrow> string" where
  "status_text row = py_str (dict_get_default row ''status'' PNone)"

definition final_exit_code :: "daily_step list \<Rightarrow> (string \<Rightarrow> pyval dict) \<Rightarrow> int option \<Rightarrow> run_error + int" where
  "final_exit_code steps rows failed_exit_code =
     (case failed_exit_code of
        Some code \<Rightarrow> Inr code
      | None \<Rightarrow>
          (case List.find (\<lambda>st. status_text (rows (step_id st)) \<in> set FAILED_STEP_STATUSES) steps of
             Some st \<Rightarrow>
               (case dict_get_default (rows (step_id st)) ''exit_code'' PNone of
                  PNone \<Rightarrow> Inr 1
                | raw \<Rightarrow> (case py_int raw of None \<Rightarrow> Inl ExitCodeNotInt | Some c \<Rightarrow> Inr c))
           | None \<Rightarrow>
               if list_ex (\<lambda>st. status_text (rows (step_id st)) = ''blocked'') steps then Inr 1 else Inr 0))"

fun rows_of_steps ::
  "run_context \<Rightarrow> daily_step list \<Rightarrow> state \<Rightarrow> run_error + (string \<Rightarrow> pyval dict) \<times> state" where
  "rows_of_steps rc [] s = Inr ((\<lambda>i. []), s)"
| "rows_of_steps rc (st # sts) s =
     bind_res (step_row_for_policy s (step_id st) (step_state_key_policy st) (rc_dates rc) (rc_key rc)) (\<lambda>(row, s1).
     bind_res (rows_of_steps rc sts s1) (\<lambda>(rows, s2).
       Inr (if step_id st \<in> set (map step_id sts) then rows else rows(step_id st := row), s2)))"

definition final_exit_code_for_state ::
  "run_context \<Rightarrow> int option \<Rightarrow> state \<Rightarrow> run_error + int \<times> state" where
  "final_exit_code_for_state rc failed_exit_code s =
     bind_res (rows_of_steps rc (rc_steps rc) s) (\<lambda>(rows, s').
     bind_res (final_exit_code (rc_steps rc) rows failed_exit_code) (\<lambda>code. Inr (code, s')))"

section \<open>The decisions as functions of the rows\<close>

definition view_row :: "run_context \<Rightarrow> state \<Rightarrow> string \<Rightarrow> string \<Rightarrow> pyval dict" where
  "view_row rc s sid policy = lookup_row s sid policy (rc_dates rc) (rc_key rc)"

definition dependency_view :: "run_context \<Rightarrow> state \<Rightarrow> dependency \<Rightarrow> string" where
  "dependency_view rc s d = row_status (view_row rc s (dependency_step_id d) (dependency_policy rc d))"

text \<open>A run's own key never looks like a natural date.\<close>

definition proper_key :: "run_context \<Rightarrow> bool" where
  "proper_key rc \<longleftrightarrow> \<not> starts_with ''natural_date:'' (rc_key rc)"

lemma same_rows_view_row: "same_rows s s' \<Longrightarrow> view_row rc s' sid p = view_row rc s sid p"
proof -
  assume "same_rows s s'"
  then have "row_dict s' = row_dict s" by (simp add: fun_eq_iff row_dict_def same_rows_def)
  then show ?thesis by (simp add: view_row_def lookup_row_def split: sum.split)
qed

lemma same_rows_dependency_view: "same_rows s s' \<Longrightarrow> dependency_view rc s' d = dependency_view rc s d"
  by (simp add: dependency_view_def same_rows_view_row)

lemma step_row_for_policy_view:
  assumes "step_row_for_policy s sid p (rc_dates rc) (rc_key rc) = Inr (row, s')" and "proper_key rc"
  shows "row = view_row rc s sid p \<and> same_rows s s' \<and> has_runs s'"
  using step_row_for_policy_reads [OF assms(1)] assms(2) by (simp add: view_row_def proper_key_def)

lemma resolved_dependency_status_view:
  assumes "resolved_dependency_status rc d s = Inr ((i, st, key), s')" and "proper_key rc"
  shows "i = dependency_step_id d \<and> st = dependency_view rc s d \<and> same_rows s s' \<and> has_runs s'"
  using assms step_row_for_policy_view [OF _ assms(2)]
  by (auto simp: resolved_dependency_status_def dependency_view_def)

lemma blocking_status_iff: "blocking_status st \<longleftrightarrow> st \<notin> set SATISFIED_DEPENDENCY_STATUSES"
  by (auto simp: blocking_status_def FAILED_DEPENDENCY_STATUSES_def SATISFIED_DEPENDENCY_STATUSES_def)

lemma blocked_among_view:
  assumes "blocked_among rc ds s = Inr (bs, s')" and "proper_key rc"
  shows "bs = map dependency_step_id
      (filter (\<lambda>d. \<not> is_soft d \<and> dependency_view rc s d \<notin> set SATISFIED_DEPENDENCY_STATUSES) ds)
    \<and> same_rows s s'"
  using assms(1)
proof (induction ds arbitrary: s bs s')
  case (Cons d ds)
  from Cons.prems obtain i st key s1 bs1 where
    r: "resolved_dependency_status rc d s = Inr ((i, st, key), s1)" and
    b: "blocked_among rc ds s1 = Inr (bs1, s')" and
    bs: "bs = (if blocking_status st \<and> \<not> is_soft d then dependency_step_id d # bs1 else bs1)"
    by auto
  note v = resolved_dependency_status_view [OF r assms(2)]
  from v Cons.IH [OF b] show ?case
    by (auto simp: bs blocking_status_iff same_rows_dependency_view intro: same_rows_trans)
qed simp

text \<open>
  A step is blocked by exactly its hard dependencies whose row, under the key their policy
  names, is not satisfied; soft dependencies never block, and looking changes no row.
\<close>

theorem blocked_dependencies_spec:
  assumes "blocked_dependencies rc step s = Inr (blocked, s')" and "proper_key rc"
  shows "blocked = map dependency_step_id
      (filter (\<lambda>d. \<not> is_soft d \<and> dependency_view rc s d \<notin> set SATISFIED_DEPENDENCY_STATUSES) (step_depends_on step))
    \<and> same_rows s s'"
  using blocked_among_view assms by (simp add: blocked_dependencies_def)

lemma upstream_degraded_view:
  assumes "upstream_degraded rc ds s = Inr (r, s')" and "proper_key rc"
  shows "(r = None \<longleftrightarrow> (\<forall>d \<in> set ds. dependency_view rc s d \<noteq> ''success_degraded'')) \<and> same_rows s s'"
  using assms(1)
proof (induction ds arbitrary: s)
  case (Cons d ds)
  from Cons.prems obtain i st key s1 where
    d: "resolved_dependency_status rc d s = Inr ((i, st, key), s1)" and
    r: "(if st = ''success_degraded''
       then Inr (Some (''degraded: upstream dependency '' @ i @ '' completed with success_degraded''), s1)
       else upstream_degraded rc ds s1) = Inr (r, s')"
    by auto
  note v = resolved_dependency_status_view [OF d assms(2)]
  show ?case
  proof (cases "st = ''success_degraded''")
    case False
    with r have "upstream_degraded rc ds s1 = Inr (r, s')" by simp
    from Cons.IH [OF this] v False show ?thesis
      by (auto simp: same_rows_dependency_view intro: same_rows_trans)
  next
    case True
    with r v show ?thesis by auto
  qed
qed simp

lemma soft_dependency_status_satisfied:
  "st \<in> set SATISFIED_DEPENDENCY_STATUSES \<Longrightarrow> soft_dependency_status step i st key so = so"
  by (simp add: soft_dependency_status_def)

lemma soft_dependency_status_unsatisfied:
  "st \<notin> set SATISFIED_DEPENDENCY_STATUSES \<Longrightarrow>
   so_degraded (soft_dependency_status step i st key so) \<noteq> None \<or> so_blocked (soft_dependency_status step i st key so) \<noteq> None"
  by (simp add: soft_dependency_status_def Let_def split: degraded_step.split option.split)

lemma soft_dependency_status_keeps:
  "so_degraded so \<noteq> None \<or> so_blocked so \<noteq> None \<Longrightarrow>
   so_degraded (soft_dependency_status step i st key so) \<noteq> None \<or> so_blocked (soft_dependency_status step i st key so) \<noteq> None"
  by (auto simp: soft_dependency_status_def Let_def split: degraded_step.split option.split)

lemma soft_dependencies_keeps:
  assumes "soft_dependencies rc step ds so s = Inr (so', s')" and "so_degraded so \<noteq> None \<or> so_blocked so \<noteq> None"
  shows "so_degraded so' \<noteq> None \<or> so_blocked so' \<noteq> None"
  using assms
proof (induction ds arbitrary: so s)
  case (Cons d ds)
  show ?case
  proof (cases "is_soft d")
    case True
    with Cons.prems(1) obtain i st key s1 where
      "soft_dependencies rc step ds (soft_dependency_status step i st key so) s1 = Inr (so', s')"
      by auto
    from Cons.IH [OF this soft_dependency_status_keeps [OF Cons.prems(2)]] show ?thesis .
  qed (use Cons in auto)
qed simp

lemma soft_dependencies_view:
  assumes "soft_dependencies rc step ds so s = Inr (so', s')" and "proper_key rc"
  shows "same_rows s s' \<and>
    ((so_degraded so' = None \<and> so_blocked so' = None) \<longrightarrow>
       so' = so \<and> (\<forall>d \<in> set ds. is_soft d \<longrightarrow> dependency_view rc s d \<in> set SATISFIED_DEPENDENCY_STATUSES)) \<and>
    ((\<forall>d \<in> set ds. is_soft d \<longrightarrow> dependency_view rc s d \<in> set SATISFIED_DEPENDENCY_STATUSES) \<longrightarrow> so' = so)"
  using assms(1)
proof (induction ds arbitrary: so s)
  case (Cons d ds)
  show ?case
  proof (cases "is_soft d")
    case False
    with Cons show ?thesis by simp
  next
    case True
    with Cons.prems obtain i st key s1 where
      r: "resolved_dependency_status rc d s = Inr ((i, st, key), s1)" and
      rest: "soft_dependencies rc step ds (soft_dependency_status step i st key so) s1 = Inr (so', s')"
      by auto
    note v = resolved_dependency_status_view [OF r assms(2)]
    note IH = Cons.IH [OF rest]
    show ?thesis
    proof (cases "st \<in> set SATISFIED_DEPENDENCY_STATUSES")
      case sat: True
      have same: "same_rows s s'" using IH v same_rows_trans by blast
      have "dependency_view rc s1 = dependency_view rc s"
        using v by (simp add: fun_eq_iff same_rows_dependency_view)
      note IH' = IH [unfolded this soft_dependency_status_satisfied [OF sat]]
      have "dependency_view rc s d \<in> set SATISFIED_DEPENDENCY_STATUSES" using v sat by simp
      then have eq: "(\<forall>x \<in> set (d # ds). is_soft x \<longrightarrow> dependency_view rc s x \<in> set SATISFIED_DEPENDENCY_STATUSES) \<longleftrightarrow>
        (\<forall>x \<in> set ds. is_soft x \<longrightarrow> dependency_view rc s x \<in> set SATISFIED_DEPENDENCY_STATUSES)"
        by (simp only: list.set ball_simps simp_thms)
      show ?thesis unfolding eq by (rule conjI [OF same conjunct2 [OF IH']])
    next
      case False
      note ne = soft_dependencies_keeps [OF rest soft_dependency_status_unsatisfied [OF False]]
      from False v have "dependency_view rc s d \<notin> set SATISFIED_DEPENDENCY_STATUSES" by simp
      then have "\<not> (\<forall>d \<in> set (d # ds). is_soft d \<longrightarrow> dependency_view rc s d \<in> set SATISFIED_DEPENDENCY_STATUSES)"
        using \<open>is_soft d\<close> by simp
      moreover have "same_rows s s'" using IH v same_rows_trans by blast
      ultimately show ?thesis using ne by (intro conjI impI) (simp_all only: simp_thms)
    qed
  qed
qed simp

section \<open>Degraded builds leave the daily bar out\<close>

lemma excludes_inserted:
  "build_derived_command_excludes_daily_bar (xs @ ''--exclude-target'' # ''daily_bar'' # ys)"
  by (induction xs) simp_all

lemma append_excludes: "build_derived_command_excludes_daily_bar (append_build_derived_exclude_daily_bar command)"
  by (simp add: append_build_derived_exclude_daily_bar_def Let_def excludes_inserted)

lemma requested_targets_append:
  "xs = [] \<or> last xs \<noteq> ''--target'' \<Longrightarrow>
   requested_targets (xs @ zs) = requested_targets xs @ requested_targets zs"
proof (induction xs rule: requested_targets.induct)
  case (2 arg)
  then show ?case by (cases zs) simp_all
next
  case (3 arg x rest)
  then show ?case by (cases "rest = []") auto
qed simp

lemma requested_targets_excluding:
  assumes "takeWhile (\<lambda>a. a \<noteq> ''--no-build-duckdb-views'') command = [] \<or>
    last (takeWhile (\<lambda>a. a \<noteq> ''--no-build-duckdb-views'') command) \<noteq> ''--target''"
  shows "requested_targets (append_build_derived_exclude_daily_bar command) = requested_targets command"
proof -
  define xs where "xs = takeWhile (\<lambda>a. a \<noteq> ''--no-build-duckdb-views'') command"
  define ys where "ys = drop (length xs) command"
  have cmd: "command = xs @ ys" by (simp add: xs_def ys_def dropWhile_eq_drop [symmetric])
  have "requested_targets (''--exclude-target'' # ''daily_bar'' # ys) = requested_targets ys"
    by (cases ys) (simp_all add: starts_with_def)
  moreover have "append_build_derived_exclude_daily_bar command = xs @ ''--exclude-target'' # ''daily_bar'' # ys"
    by (simp add: append_build_derived_exclude_daily_bar_def xs_def ys_def Let_def)
  ultimately show ?thesis
    using assms unfolding xs_def [symmetric]
    by (simp only: cmd requested_targets_append)
qed

text \<open>
  When the AkShare daily bars are missing, a derived build is either refused or runs with a
  command that excludes the daily bar, and is otherwise the step it was; if no \<open>--target\<close> option is
  left without its argument, it asks for the same targets as before.
\<close>

theorem degraded_build_excludes_daily_bar:
  assumes "degraded_build_derived_step_for_akshare_daily_bar step dep_id = Degraded step'"
  shows "build_derived_command_excludes_daily_bar (step_command step') \<and>
    step' = step\<lparr>step_command := step_command step'\<rparr> \<and>
    (takeWhile (\<lambda>a. a \<noteq> ''--no-build-duckdb-views'') (step_command step) = [] \<or>
     last (takeWhile (\<lambda>a. a \<noteq> ''--no-build-duckdb-views'') (step_command step)) \<noteq> ''--target'' \<longrightarrow>
     build_derived_requested_targets (step_command step') = build_derived_requested_targets (step_command step))"
proof -
  from assms consider "step' = step" "build_derived_command_excludes_daily_bar (step_command step)"
    | "step' = step\<lparr>step_command := append_build_derived_exclude_daily_bar (step_command step)\<rparr>"
    by (auto simp: degraded_build_derived_step_for_akshare_daily_bar_def Let_def split: if_splits)
  then show ?thesis
    by cases (auto simp: append_excludes build_derived_requested_targets_def requested_targets_excluding)
qed

definition demo_build_step :: daily_step where
  "demo_build_step = (sample_steps ! 0)\<lparr>step_id := ''build-derived'',
     step_command := [''py'', ''build-derived'', ''--target'', ''all'', ''--no-build-duckdb-views'']\<rparr>"

theorem degraded_build_excludes_daily_bar_witness:
  "build_derived_requested_targets (append_build_derived_exclude_daily_bar (step_command demo_build_step)) = [''all'']"
proof -
  have "degraded_build_derived_step_for_akshare_daily_bar demo_build_step ''akshare-daily-bar'' =
      Degraded (demo_build_step\<lparr>step_command := append_build_derived_exclude_daily_bar (step_command demo_build_step)\<rparr>)"
    by (simp add: degraded_build_derived_step_for_akshare_daily_bar_def demo_build_step_def
        build_derived_requested_targets_def starts_with_def)
  from degraded_build_excludes_daily_bar [OF this] show ?thesis
    by (simp add: demo_build_step_def build_derived_requested_targets_def starts_with_def)
qed

section \<open>The exit code\<close>

lemma rows_of_steps_view:
  assumes "rows_of_steps rc sts s = Inr (rows, s')" and "proper_key rc" and "distinct (map step_id sts)"
  shows "same_rows s s' \<and> (\<forall>st \<in> set sts. rows (step_id st) = view_row rc s (step_id st) (step_state_key_policy st))"
  using assms(1,3)
proof (induction sts arbitrary: s rows)
  case (Cons st sts)
  from Cons.prems obtain row s1 rows1 where
    r: "step_row_for_policy s (step_id st) (step_state_key_policy st) (rc_dates rc) (rc_key rc) = Inr (row, s1)" and
    rest: "rows_of_steps rc sts s1 = Inr (rows1, s')" and
    rows: "rows = rows1(step_id st := row)"
    by auto
  note v = step_row_for_policy_view [OF r assms(2)]
  from Cons.prems(2) have d: "distinct (map step_id sts)" and "\<forall>x \<in> set sts. step_id x \<noteq> step_id st"
    by (simp_all add: image_iff) metis
  with v Cons.IH [OF rest d] show ?case
    by (auto simp: rows same_rows_view_row intro: same_rows_trans)
qed simp

definition failing :: "pyval dict \<Rightarrow> bool" where
  "failing row \<longleftrightarrow> status_text row \<in> set FAILED_STEP_STATUSES"

text \<open>
  With no failure seen in the loop, the exit code is zero exactly when no step of the run is
  recorded as failed, abandoned or blocked, provided that failed rows carry a non-zero exit code,
  as the rows written by a run do.
\<close>

theorem exit_code_zero_iff_clean:
  assumes "final_exit_code_for_state rc None s = Inr (code, s')" and "proper_key rc"
    and "distinct (map step_id (rc_steps rc))"
    and "\<forall>st \<in> set (rc_steps rc). failing (view_row rc s (step_id st) (step_state_key_policy st)) \<longrightarrow>
      py_int (dict_get_default (view_row rc s (step_id st) (step_state_key_policy st)) ''exit_code'' PNone) \<noteq> Some 0"
  shows "code = 0 \<longleftrightarrow> (\<forall>st \<in> set (rc_steps rc).
      status_text (view_row rc s (step_id st) (step_state_key_policy st)) \<notin> set FAILED_STEP_STATUSES \<union> {''blocked''})"
proof -
  let ?row = "\<lambda>st. view_row rc s (step_id st) (step_state_key_policy st)"
  from assms(1) obtain rows where rows: "rows_of_steps rc (rc_steps rc) s = Inr (rows, s')"
    and code: "final_exit_code (rc_steps rc) rows None = Inr code"
    by (auto simp: final_exit_code_for_state_def)
  have v: "rows (step_id st) = ?row st" if "st \<in> set (rc_steps rc)" for st
    using rows_of_steps_view [OF rows assms(2,3)] that by blast
  show ?thesis
  proof (cases "List.find (\<lambda>st. status_text (rows (step_id st)) \<in> set FAILED_STEP_STATUSES) (rc_steps rc)")
    case None
    then have "\<forall>st \<in> set (rc_steps rc). status_text (?row st) \<notin> set FAILED_STEP_STATUSES"
      using v by (auto simp: find_None_iff)
    moreover have "code = (if list_ex (\<lambda>st. status_text (rows (step_id st)) = ''blocked'') (rc_steps rc) then 1 else 0)"
      using code None by (auto simp: final_exit_code_def)
    ultimately show ?thesis using v by (auto simp: list_ex_iff)
  next
    case (Some st)
    then have st: "st \<in> set (rc_steps rc)" "status_text (?row st) \<in> set FAILED_STEP_STATUSES"
      using v by (auto simp: find_Some_iff)
    then have "py_int (dict_get_default (rows (step_id st)) ''exit_code'' PNone) \<noteq> Some 0"
      using assms(4) v by (simp add: failing_def)
    with code Some have "code \<noteq> 0"
      by (auto simp: final_exit_code_def split: pyval.splits option.splits)
    with st show ?thesis by blast
  qed
qed

section \<open>Instances\<close>

definition demo_context :: run_context where
  "demo_context = \<lparr>rc_steps = sample_steps, rc_dates = sample_dates, rc_key = ''run_instance:x''\<rparr>"

lemma demo_context_proper: "proper_key demo_context"
  by (simp add: proper_key_def demo_context_def starts_with_def)

theorem blocked_dependencies_spec_witness:
  "filter (\<lambda>d. \<not> is_soft d \<and> dependency_view demo_context empty_state d \<notin> set SATISFIED_DEPENDENCY_STATUSES)
     (step_depends_on (sample_steps ! 1)) = step_depends_on (sample_steps ! 1)"
proof -
  have "bind_res (blocked_dependencies demo_context (sample_steps ! 1) empty_state) (\<lambda>r. Inr (fst r)) = Inr [''cleanup'']"
    by code_simp
  then obtain s' where "blocked_dependencies demo_context (sample_steps ! 1) empty_state = Inr ([''cleanup''], s')"
    by auto
  from blocked_dependencies_spec [OF this demo_context_proper] show ?thesis
    by (simp add: sample_steps_def split: if_splits)
qed

theorem exit_code_zero_iff_clean_witness:
  "list_all (\<lambda>st. status_text (view_row demo_context demo_state (step_id st) (step_state_key_policy st)) \<noteq> ''failed'')
     sample_steps"
proof -
  have "bind_res (final_exit_code_for_state demo_context None demo_state) (\<lambda>r. Inr (fst r)) = Inr 0"
    by code_simp
  then obtain s' where e: "final_exit_code_for_state demo_context None demo_state = Inr (0, s')"
    by auto
  have steps: "rc_steps demo_context = sample_steps" by (simp add: demo_context_def)
  have d: "distinct (map step_id (rc_steps demo_context))" by (simp add: steps sample_steps_def)
  have nf: "list_all (\<lambda>st. \<not> failing (view_row demo_context demo_state (step_id st) (step_state_key_policy st))) sample_steps"
    by code_simp
  have "\<forall>st \<in> set (rc_steps demo_context). status_text (view_row demo_context demo_state (step_id st)
      (step_state_key_policy st)) \<notin> set FAILED_STEP_STATUSES \<union> {''blocked''}"
    using exit_code_zero_iff_clean [OF e demo_context_proper d] nf by (simp add: list_all_iff steps)
  then show ?thesis by (simp add: list_all_iff steps FAILED_STEP_STATUSES_def)
qed

end
