(* ===== verification/Run_Update_Daily.thy ===== *)
theory Run_Update_Daily imports Step_Dependencies begin

text \<open>
  \<open>run_daily_update\<close> of \<open>src/tools/run_update_daily.py\<close>: the loop over the steps of a day, with
  the state file written before and after every command.

  The record \<open>run_env\<close> holds what the loop asks of its surroundings: the runner's exit code at its
  \<open>n\<close>-th call (\<open>None\<close> when it raises), whether DuckDB comes free after that call, and the text the
  clock shows at the \<open>n\<close>-th stamp. The trace lists the writes of the state file and the calls of the
  runner, in order; log lines are left out.
\<close>

datatype event = Wrote json_file | Ran daily_step "int option"

datatype control = Go | Break | Raised run_error

record run_env =
  re_context :: run_context
  re_start_at :: "string option"
  re_force :: bool
  re_ignore_state :: bool
  re_runner :: "nat \<Rightarrow> daily_step \<Rightarrow> int option"
  re_duckdb_free :: "nat \<Rightarrow> bool"
  re_clock :: "nat \<Rightarrow> string"
  re_pid :: int
  re_log :: string

record run_state =
  rs_state :: state
  rs_start_seen :: bool
  rs_failed :: "int option"
  rs_ticks :: nat
  rs_calls :: nat
  rs_control :: control
  rs_trace :: "event list"

definition TIMEOUT_EXIT_CODE :: int where "TIMEOUT_EXIT_CODE = 124"
definition TIMEOUT_CLEANUP_FAILED_EXIT_CODE :: int where "TIMEOUT_CLEANUP_FAILED_EXIT_CODE = 125"

definition LEGACY_START_AT_ALIASES :: "string dict" where
  "LEGACY_START_AT_ALIASES = [(''build-derived'', ''build-derived-security-master'')]"

section \<open>Effects of the loop\<close>

definition attempt :: "run_state \<Rightarrow> run_error + 'a \<Rightarrow> ('a \<Rightarrow> run_state) \<Rightarrow> run_state" where
  "attempt rs r k = (case r of Inl e \<Rightarrow> rs\<lparr>rs_control := Raised e\<rparr> | Inr x \<Rightarrow> k x)"

definition write_in :: "run_state \<Rightarrow> run_state" where
  "write_in rs = rs\<lparr>rs_state := stamp_version (rs_state rs),
                    rs_trace := rs_trace rs @ [Wrote (write_state (rs_state rs))]\<rparr>"

definition record_in ::
  "run_env \<Rightarrow> string \<Rightarrow> daily_step \<Rightarrow> string \<Rightarrow> int option \<Rightarrow> string list option \<Rightarrow> string option \<Rightarrow>
   run_state \<Rightarrow> (run_state \<Rightarrow> run_state) \<Rightarrow> run_state" where
  "record_in env key step status exit_code blocked_by reason rs k =
     attempt rs
       (record_step key step status exit_code (re_clock env (rs_ticks rs)) (re_pid env) (re_log env)
          blocked_by reason (rs_state rs))
       (\<lambda>s. k (rs\<lparr>rs_state := s, rs_ticks := Suc (rs_ticks rs)\<rparr>))"

section \<open>After a command\<close>

definition timed_out :: "daily_step \<Rightarrow> int \<Rightarrow> bool" where
  "timed_out step exit_code \<longleftrightarrow> exit_code = TIMEOUT_EXIT_CODE \<and> step_timeout_seconds step \<noteq> None"

definition timeout_cleanup_failed :: "daily_step \<Rightarrow> int \<Rightarrow> bool" where
  "timeout_cleanup_failed step exit_code \<longleftrightarrow>
     exit_code = TIMEOUT_CLEANUP_FAILED_EXIT_CODE \<and> step_timeout_seconds step \<noteq> None"

text \<open>\<open>failed_exit_code or exit_code\<close>.\<close>

definition failed_or :: "int option \<Rightarrow> int \<Rightarrow> int option" where
  "failed_or failed_exit_code exit_code =
     (case failed_exit_code of Some c \<Rightarrow> if c \<noteq> 0 then Some c else Some exit_code | None \<Rightarrow> Some exit_code)"

definition finish_failed_step ::
  "run_env \<Rightarrow> string \<Rightarrow> daily_step \<Rightarrow> daily_step \<Rightarrow> int \<Rightarrow> bool \<Rightarrow> run_state \<Rightarrow> run_state" where
  "finish_failed_step env key step effective_step exit_code duckdb_free rs =
     (let stop = (\<lambda>rs'. (write_in rs')\<lparr>rs_failed := failed_or (rs_failed rs) exit_code, rs_control := Break\<rparr>)
      in if timeout_cleanup_failed step exit_code then
           record_in env key effective_step
             (if step_optional step then ''failed_timeout_cleanup'' else ''failed'') (Some exit_code) None None rs stop
         else if timed_out step exit_code \<and> \<not> duckdb_free then
           record_in env key effective_step
             (if step_optional step then ''failed_resource_locked'' else ''failed'') (Some exit_code) None None rs stop
         else if step_optional step then
           record_in env key effective_step
             (if timed_out step exit_code then ''skipped_timeout'' else ''skipped'') (Some exit_code) None None rs write_in
         else
           record_in env key effective_step ''failed'' (Some exit_code) None None rs
             (\<lambda>rs'. (write_in rs')\<lparr>rs_failed := (case rs_failed rs of None \<Rightarrow> Some exit_code | Some c \<Rightarrow> Some c)\<rparr>))"

definition finish_successful_step ::
  "run_env \<Rightarrow> string \<Rightarrow> soft_outcome \<Rightarrow> string option \<Rightarrow> run_state \<Rightarrow> run_state" where
  "finish_successful_step env key so upstream_reason rs =
     (case so_degraded so of
        Some reason \<Rightarrow> record_in env key (so_step so) ''success_degraded'' (Some 0) None (Some reason) rs write_in
      | None \<Rightarrow>
          (case upstream_reason of
             Some reason \<Rightarrow> record_in env key (so_step so) ''success_degraded'' (Some 0) None (Some reason) rs write_in
           | None \<Rightarrow> record_in env key (so_step so) ''success'' (Some 0) None None rs write_in))"

definition call_runner ::
  "run_env \<Rightarrow> daily_step \<Rightarrow> run_state \<Rightarrow> (int \<Rightarrow> bool \<Rightarrow> run_state \<Rightarrow> run_state) \<Rightarrow> run_state" where
  "call_runner env step rs k =
     (let code = re_runner env (rs_calls rs) step;
          rs' = rs\<lparr>rs_calls := Suc (rs_calls rs), rs_trace := rs_trace rs @ [Ran step code]\<rparr>
      in case code of
           None \<Rightarrow> rs'\<lparr>rs_control := Raised RunnerRaised\<rparr>
         | Some c \<Rightarrow> k c (re_duckdb_free env (rs_calls rs)) rs')"

section \<open>One step\<close>

text \<open>The step after its soft dependencies are known: refused, or recorded as running and run.\<close>

definition launch_step ::
  "run_env \<Rightarrow> string \<Rightarrow> daily_step \<Rightarrow> string option \<Rightarrow> soft_outcome \<Rightarrow> run_state \<Rightarrow> run_state" where
  "launch_step env key step upstream_reason so rs =
     (case so_blocked so of
        Some reason \<Rightarrow> record_in env key (so_step so) ''blocked'' (Some 1) None (Some reason) rs write_in
      | None \<Rightarrow>
          record_in env key (so_step so) ''running'' None None None rs (\<lambda>rs'.
            call_runner env (so_step so) (write_in rs') (\<lambda>exit_code duckdb_free rs''.
              if exit_code \<noteq> 0 then finish_failed_step env key step (so_step so) exit_code duckdb_free rs''
              else finish_successful_step env key so upstream_reason rs'')))"

definition execute_step :: "run_env \<Rightarrow> string \<Rightarrow> daily_step \<Rightarrow> run_state \<Rightarrow> run_state" where
  "execute_step env key step rs =
     attempt rs (upstream_degraded_success_reason (re_context env) step (rs_state rs)) (\<lambda>(upstream_reason, s1).
     attempt rs (soft_dependencies (re_context env) step (step_depends_on step)
                   \<lparr>so_step = step, so_degraded = None, so_blocked = None\<rparr> s1) (\<lambda>(so, s2).
       launch_step env key step upstream_reason so (rs\<lparr>rs_state := s2\<rparr>)))"

definition should_skip_success :: "run_env \<Rightarrow> daily_step \<Rightarrow> string \<Rightarrow> bool" where
  "should_skip_success env step current_status \<longleftrightarrow>
     re_start_at env = None \<and> \<not> re_force env \<and> \<not> re_ignore_state env \<and>
     step_resume_policy step = ''skip_if_success'' \<and> current_status = ''success''"

text \<open>A step that is due: blocked by its hard dependencies, or executed.\<close>

definition dispatch_step :: "run_env \<Rightarrow> string \<Rightarrow> daily_step \<Rightarrow> run_state \<Rightarrow> run_state" where
  "dispatch_step env key step rs =
     attempt rs (blocked_dependencies (re_context env) step (rs_state rs)) (\<lambda>(blocked_by, s).
       let rs' = rs\<lparr>rs_state := s\<rparr> in
       if blocked_by \<noteq> [] then
         record_in env key step ''blocked'' (Some 1) (Some blocked_by) None rs' write_in
       else execute_step env key step rs')"

definition start_step :: "run_env \<Rightarrow> string \<Rightarrow> daily_step \<Rightarrow> run_state \<Rightarrow> run_state" where
  "start_step env key step rs =
     attempt rs (step_row_for_policy (rs_state rs) (step_id step) (step_state_key_policy step)
                   (rc_dates (re_context env)) (rc_key (re_context env)))
       (\<lambda>(row, s).
         let rs' = rs\<lparr>rs_state := s\<rparr> in
         if should_skip_success env step (row_status row) then rs' else dispatch_step env key step rs')"

definition run_step :: "run_env \<Rightarrow> daily_step \<Rightarrow> run_state \<Rightarrow> run_state" where
  "run_step env step rs =
     (case rs_control rs of
        Go \<Rightarrow>
          attempt rs (step_state_for_step (rs_state rs) step (rc_dates (re_context env)) (rc_key (re_context env)))
            (\<lambda>(key, s1).
            let rs1 = rs\<lparr>rs_state := s1\<rparr> in
            if \<not> rs_start_seen rs \<and> re_start_at env \<noteq> Some (step_id step) then
              record_in env key step ''skipped'' (Some 0) None None rs1 id
            else start_step env key step (rs1\<lparr>rs_start_seen := True\<rparr>))
      | _ \<Rightarrow> rs)"

definition run_steps :: "run_env \<Rightarrow> daily_step list \<Rightarrow> run_state \<Rightarrow> run_state" where
  "run_steps env steps rs = fold (run_step env) steps rs"

section \<open>A run\<close>

definition resolve_start_at :: "daily_step list \<Rightarrow> string option \<Rightarrow> run_error + string option" where
  "resolve_start_at steps start_at =
     (case start_at of
        None \<Rightarrow> Inr None
      | Some a \<Rightarrow>
          (let ids = set (map step_id steps)
           in if a \<in> ids then Inr (Some a)
              else case dict_get LEGACY_START_AT_ALIASES a of
                     Some m \<Rightarrow> if m \<in> ids then Inr (Some m) else Inl (UnknownStart a)
                   | None \<Rightarrow> Inl (UnknownStart a)))"

definition initial_run :: "run_env \<Rightarrow> state \<Rightarrow> event list \<Rightarrow> run_state" where
  "initial_run env s trace =
     \<lparr>rs_state = s, rs_start_seen = (re_start_at env = None), rs_failed = None, rs_ticks = 0, rs_calls = 0,
      rs_control = Go, rs_trace = trace\<rparr>"

text \<open>After the loop: the exit code, and a last write when the file had no current version.\<close>

definition finish_run :: "run_env \<Rightarrow> bool \<Rightarrow> run_state \<Rightarrow> (run_error + int) \<times> event list" where
  "finish_run env state_needs_write rs =
     (case rs_control rs of
        Raised e \<Rightarrow> (Inl e, rs_trace rs)
      | _ \<Rightarrow>
          (case final_exit_code_for_state (re_context env) (rs_failed rs) (rs_state rs) of
             Inl e \<Rightarrow> (Inl e, rs_trace rs)
           | Inr (code, s) \<Rightarrow>
               (Inr code, rs_trace rs @ (if state_needs_write then [Wrote (write_state s)] else []))))"

text \<open>The run once the lock is held: what it returns and the events up to then.\<close>

definition run_locked ::
  "run_env \<Rightarrow> run_host \<Rightarrow> pyval dict \<Rightarrow> (string \<Rightarrow> string \<Rightarrow> string) \<Rightarrow> json_file \<Rightarrow> (run_error + int) \<times> event list" where
  "run_locked env h active_lock_owner stamp file =
     (case read_state_for_run file (re_force env) of
        Inl e \<Rightarrow> (Inl e, [])
      | Inr state \<Rightarrow>
          (let needs_write = (dict_get state ''version'' \<noteq> Some (PInt 2));
               s0 = stamp_version state;
               s1 = (case dict_get s0 ''runs'' of None \<Rightarrow> dict_set s0 ''runs'' (PDict []) | Some _ \<Rightarrow> s0)
           in case mark_abandoned_running_steps_in_state h active_lock_owner stamp s1 of
                Inl e \<Rightarrow> (Inl e, [])
              | Inr (s2, changed) \<Rightarrow>
                  finish_run env (needs_write \<and> \<not> changed)
                    (run_steps env (rc_steps (re_context env))
                       (initial_run env s2 (if changed then [Wrote (write_state s2)] else [])))))"

text \<open>
  The whole run: the start step is resolved first, the lock taken, and released whatever happens.
  \<open>lock\<close> is the outcome of acquiring it; the result is paired with the lock directory left behind.
\<close>

definition run_daily_update ::
  "run_env \<Rightarrow> run_host \<Rightarrow> pyval dict \<Rightarrow> (string \<Rightarrow> string \<Rightarrow> string) \<Rightarrow> lock_error + lock_dir \<Rightarrow> json_file \<Rightarrow>
   (run_error + int) \<times> event list \<times> lock_dir option" where
  "run_daily_update env h own stamp lock file =
     (case resolve_start_at (rc_steps (re_context env)) (re_start_at env) of
        Inl e \<Rightarrow> (Inl e, [], None)
      | Inr start_at \<Rightarrow>
          (case lock of
             Inl held \<Rightarrow> (Inl AlreadyRunning, [], None)
           | Inr d \<Rightarrow>
               (let (r, trace) = run_locked (env\<lparr>re_start_at := start_at\<rparr>) h own stamp file
                in (r, trace, Some (release_process_lock d)))))"

section \<open>What a command may rely on\<close>

text \<open>
  The state in which a command may start: the step's own row says running, under its key, and every
  hard dependency (other than the step itself) is satisfied.
\<close>

definition run_guard :: "run_context \<Rightarrow> daily_step \<Rightarrow> state \<Rightarrow> bool" where
  "run_guard rc step s \<longleftrightarrow>
     (\<exists>key. state_key_for_step step (rc_dates rc) (rc_key rc) = Inr key \<and>
        row_status (row_dict s key (step_id step)) = ''running'') \<and>
     (\<forall>d \<in> set (step_depends_on step). \<not> is_soft d \<longrightarrow> dependency_step_id d \<noteq> step_id step \<longrightarrow>
        dependency_view rc s d \<in> set SATISFIED_DEPENDENCY_STATUSES)"

definition guarded_trace :: "run_context \<Rightarrow> event list \<Rightarrow> bool" where
  "guarded_trace rc trace \<longleftrightarrow>
     (\<forall>before step code after. trace = before @ Ran step code # after \<longrightarrow>
        (\<exists>earlier s. before = earlier @ [Wrote (write_state s)] \<and> run_guard rc step s))"

lemma guarded_Nil [simp]: "guarded_trace rc []"
  by (simp add: guarded_trace_def)

lemma guarded_snoc_Wrote [simp]: "guarded_trace rc (t @ [Wrote f]) \<longleftrightarrow> guarded_trace rc t"
proof
  assume g: "guarded_trace rc t"
  show "guarded_trace rc (t @ [Wrote f])"
    unfolding guarded_trace_def
  proof (intro allI impI)
    fix before step code after assume eq: "t @ [Wrote f] = before @ Ran step code # after"
    then obtain after' where "after = after' @ [Wrote f]" by (cases after rule: rev_cases) auto
    with eq have "t = before @ Ran step code # after'" by simp
    with g show "\<exists>earlier s. before = earlier @ [Wrote (write_state s)] \<and> run_guard rc step s"
      by (auto simp: guarded_trace_def)
  qed
next
  assume g: "guarded_trace rc (t @ [Wrote f])"
  show "guarded_trace rc t"
    unfolding guarded_trace_def
  proof (intro allI impI)
    fix before step code after assume "t = before @ Ran step code # after"
    then have "t @ [Wrote f] = before @ Ran step code # (after @ [Wrote f])" by simp
    with g show "\<exists>earlier s. before = earlier @ [Wrote (write_state s)] \<and> run_guard rc step s"
      unfolding guarded_trace_def by blast
  qed
qed

lemma guarded_snoc_Ran:
  assumes "guarded_trace rc t" and "run_guard rc step s"
  shows "guarded_trace rc (t @ [Wrote (write_state s), Ran step code])"
  unfolding guarded_trace_def
proof (intro allI impI)
  fix before st c after assume eq: "t @ [Wrote (write_state s), Ran step code] = before @ Ran st c # after"
  show "\<exists>earlier s. before = earlier @ [Wrote (write_state s)] \<and> run_guard rc st s"
  proof (cases after rule: rev_cases)
    case Nil
    then show ?thesis using eq assms(2) by (auto intro: exI [of _ t])
  next
    case (snoc after' e)
    with eq have "t @ [Wrote (write_state s)] = before @ Ran st c # after'" by simp
    moreover from assms(1) have "guarded_trace rc (t @ [Wrote (write_state s)])" by simp
    ultimately show ?thesis unfolding guarded_trace_def by blast
  qed
qed

text \<open>The trace an effect leaves, by cases on whether it raised.\<close>

lemma attempt_trace:
  assumes "P (rs_trace rs)" and "\<And>x. r = Inr x \<Longrightarrow> P (rs_trace (k x))"
  shows "P (rs_trace (attempt rs r k))"
  using assms by (cases r) (auto simp: attempt_def)

lemma record_in_trace:
  assumes "P (rs_trace rs)"
    and "\<And>s' ts. record_step key step st c ts (re_pid env) (re_log env) b r (rs_state rs) = Inr s' \<Longrightarrow>
      P (rs_trace (k (rs\<lparr>rs_state := s', rs_ticks := Suc (rs_ticks rs)\<rparr>)))"
  shows "P (rs_trace (record_in env key step st c b r rs k))"
  unfolding record_in_def by (rule attempt_trace) (use assms in auto)

lemma write_in_trace [simp]: "rs_trace (write_in rs) = rs_trace rs @ [Wrote (write_state (rs_state rs))]"
  by (simp add: write_in_def)

lemma guarded_finish_failed:
  "guarded_trace rc (rs_trace rs) \<Longrightarrow> guarded_trace rc (rs_trace (finish_failed_step env key step es c free rs))"
  unfolding finish_failed_step_def Let_def
  by (auto split: if_splits option.splits intro!: record_in_trace [where P = "guarded_trace rc"])

lemma guarded_finish_successful:
  "guarded_trace rc (rs_trace rs) \<Longrightarrow> guarded_trace rc (rs_trace (finish_successful_step env key so up rs))"
  unfolding finish_successful_step_def
  by (auto split: option.splits intro!: record_in_trace [where P = "guarded_trace rc"])

lemma degraded_step_shape:
  "degraded_build_derived_step_for_akshare_daily_bar step i = Degraded step' \<Longrightarrow>
   step' = step\<lparr>step_command := step_command step'\<rparr>"
  by (auto simp: degraded_build_derived_step_for_akshare_daily_bar_def Let_def split: if_splits)

lemma soft_dependencies_step:
  assumes "soft_dependencies rc step ds so s = Inr (so', s')" and "so_step so = step\<lparr>step_command := cmd\<rparr>"
  shows "\<exists>cmd'. so_step so' = step\<lparr>step_command := cmd'\<rparr>"
  using assms
proof (induction ds arbitrary: so s cmd)
  case (Cons d ds)
  show ?case
  proof (cases "is_soft d")
    case True
    with Cons.prems(1) obtain i st key s1 where
      rest: "soft_dependencies rc step ds (soft_dependency_status step i st key so) s1 = Inr (so', s')"
      by auto
    have "\<exists>cmd''. so_step (soft_dependency_status step i st key so) = step\<lparr>step_command := cmd''\<rparr>"
      using Cons.prems(2) degraded_step_shape [of step i]
      by (auto simp: soft_dependency_status_def Let_def split: degraded_step.split)
    then obtain cmd'' where "so_step (soft_dependency_status step i st key so) = step\<lparr>step_command := cmd''\<rparr>" ..
    from Cons.IH [OF rest this] show ?thesis .
  next
    case False
    with Cons.prems(1) have "soft_dependencies rc step ds so s = Inr (so', s')" by simp
    from Cons.IH [OF this Cons.prems(2)] show ?thesis .
  qed
qed auto

lemma soft_step_command: "\<exists>cmd. step = step\<lparr>step_command := cmd\<rparr>"
  by (rule exI [of _ "step_command step"]) simp

lemma view_row_other_id:
  assumes "\<And>k i. i \<noteq> sid \<Longrightarrow> row_dict s' k i = row_dict s k i" and "i \<noteq> sid"
  shows "view_row rc s' i p = view_row rc s i p"
  using assms by (simp add: view_row_def lookup_row_def split: sum.split)

lemma run_guard_running:
  assumes rec: "record_step key es ''running'' c ts pid log b r s = Inr s'"
    and es: "es = step\<lparr>step_command := cmd\<rparr>"
    and key: "state_key_for_step step (rc_dates rc) (rc_key rc) = Inr key"
    and sat: "\<forall>d \<in> set (step_depends_on step). \<not> is_soft d \<longrightarrow> dependency_view rc s d \<in> set SATISFIED_DEPENDENCY_STATUSES"
  shows "run_guard rc es s'"
proof -
  have other: "row_dict s' k i = row_dict s k i" if "i \<noteq> step_id step" for k i
    using record_step_row_dict(3) [OF rec, of k i] that by (simp add: es)
  have "dependency_view rc s' d = dependency_view rc s d" if "dependency_step_id d \<noteq> step_id step" for d
    unfolding dependency_view_def using view_row_other_id [OF other that] by simp
  moreover have "row_status (row_dict s' key (step_id step)) = ''running''"
    using record_step_row_dict(1) [OF rec] by (simp add: row_status_def es)
  moreover have "state_key_for_step es (rc_dates rc) (rc_key rc) = Inr key"
    using key by (simp add: state_key_for_step_def es)
  ultimately show ?thesis using sat by (auto simp: run_guard_def es)
qed

lemma guarded_call_runner:
  assumes "guarded_trace rc (rs_trace rs)" and "run_guard rc st (rs_state rs)"
    and "\<And>c free rs'. guarded_trace rc (rs_trace rs') \<Longrightarrow> guarded_trace rc (rs_trace (k c free rs'))"
  shows "guarded_trace rc (rs_trace (call_runner env st (write_in rs) k))"
  using guarded_snoc_Ran [OF assms(1,2)] assms(3)
  by (auto simp: call_runner_def Let_def split: option.split)

lemma guarded_launch_step:
  assumes "guarded_trace (re_context env) (rs_trace rs)" and "so_step so = step\<lparr>step_command := cmd\<rparr>"
    and "state_key_for_step step (rc_dates (re_context env)) (rc_key (re_context env)) = Inr key"
    and "\<forall>d \<in> set (step_depends_on step). \<not> is_soft d \<longrightarrow>
      dependency_view (re_context env) (rs_state rs) d \<in> set SATISFIED_DEPENDENCY_STATUSES"
  shows "guarded_trace (re_context env) (rs_trace (launch_step env key step up so rs))"
proof (cases "so_blocked so")
  case (Some r)
  then show ?thesis
    using assms(1) by (auto simp: launch_step_def intro!: record_in_trace [where P = "guarded_trace (re_context env)"])
next
  case None
  show ?thesis
    unfolding launch_step_def None option.case
  proof (rule record_in_trace [where P = "guarded_trace (re_context env)", OF assms(1)])
    fix s' ts
    assume "record_step key (so_step so) ''running'' None ts (re_pid env) (re_log env) None None (rs_state rs) = Inr s'"
    then have "run_guard (re_context env) (so_step so) s'" by (rule run_guard_running) (use assms in auto)
    then show "guarded_trace (re_context env) (rs_trace (call_runner env (so_step so)
        (write_in (rs\<lparr>rs_state := s', rs_ticks := Suc (rs_ticks rs)\<rparr>)) (\<lambda>exit_code duckdb_free rs''.
          if exit_code \<noteq> 0 then finish_failed_step env key step (so_step so) exit_code duckdb_free rs''
          else finish_successful_step env key so up rs'')))"
      by (intro guarded_call_runner) (simp_all add: assms(1) guarded_finish_failed guarded_finish_successful)
  qed
qed

lemma attempt_inv:
  assumes "\<And>e. P (rs\<lparr>rs_control := Raised e\<rparr>)" and "\<And>x. r = Inr x \<Longrightarrow> P (k x)"
  shows "P (attempt rs r k)"
  using assms by (cases r) (auto simp: attempt_def)

text \<open>What is known when a step is launched, in terms of the rows at that moment.\<close>

definition launch_facts :: "run_context \<Rightarrow> daily_step \<Rightarrow> state \<Rightarrow> string option \<Rightarrow> soft_outcome \<Rightarrow> bool" where
  "launch_facts rc step s up so \<longleftrightarrow>
     (\<exists>cmd. so_step so = step\<lparr>step_command := cmd\<rparr>) \<and>
     (up = None \<longrightarrow> (\<forall>d \<in> set (step_depends_on step). dependency_view rc s d \<noteq> ''success_degraded'')) \<and>
     (so_degraded so = None \<longrightarrow> so_blocked so = None \<longrightarrow>
        (\<forall>d \<in> set (step_depends_on step). is_soft d \<longrightarrow> dependency_view rc s d \<in> set SATISFIED_DEPENDENCY_STATUSES))"

lemma execute_step_inv:
  assumes "\<And>e. P (rs\<lparr>rs_control := Raised e\<rparr>)" and "proper_key (re_context env)"
    and "\<And>up so s'. same_rows (rs_state rs) s' \<Longrightarrow> launch_facts (re_context env) step (rs_state rs) up so \<Longrightarrow>
      P (launch_step env key step up so (rs\<lparr>rs_state := s'\<rparr>))"
  shows "P (execute_step env key step rs)"
  unfolding execute_step_def
proof (rule attempt_inv [where P = P, OF assms(1)])
  fix x assume "upstream_degraded_success_reason (re_context env) step (rs_state rs) = Inr x"
  moreover obtain up s1 where x: "x = (up, s1)" by (cases x)
  ultimately have s1: "same_rows (rs_state rs) s1"
    and up: "up = None \<longleftrightarrow> (\<forall>d \<in> set (step_depends_on step). dependency_view (re_context env) (rs_state rs) d \<noteq> ''success_degraded'')"
    using upstream_degraded_view assms(2) by (auto simp: upstream_degraded_success_reason_def)
  show "P (case x of (up, s1) \<Rightarrow> attempt rs (soft_dependencies (re_context env) step (step_depends_on step)
      \<lparr>so_step = step, so_degraded = None, so_blocked = None\<rparr> s1) (\<lambda>(so, s2).
        launch_step env key step up so (rs\<lparr>rs_state := s2\<rparr>)))"
    unfolding x prod.case
  proof (rule attempt_inv [where P = P, OF assms(1)])
    fix y assume y: "soft_dependencies (re_context env) step (step_depends_on step)
      \<lparr>so_step = step, so_degraded = None, so_blocked = None\<rparr> s1 = Inr y"
    obtain so s2 where yy: "y = (so, s2)" by (cases y)
    note view = soft_dependencies_view [OF y [unfolded yy] assms(2)]
    then have s2: "same_rows (rs_state rs) s2" using s1 same_rows_trans by blast
    obtain cmd where "so_step so = step\<lparr>step_command := cmd\<rparr>"
      using soft_dependencies_step y yy soft_step_command by (metis soft_outcome.select_convs(1))
    moreover have "dependency_view (re_context env) s1 = dependency_view (re_context env) (rs_state rs)"
      using s1 by (simp add: fun_eq_iff same_rows_dependency_view)
    ultimately have "launch_facts (re_context env) step (rs_state rs) up so"
      using up view unfolding launch_facts_def by metis
    with s2 show "P (case y of (so, s2) \<Rightarrow> launch_step env key step up so (rs\<lparr>rs_state := s2\<rparr>))"
      unfolding yy prod.case by (rule assms(3))
  qed
qed

lemma guarded_dispatch_step:
  assumes t: "guarded_trace (re_context env) (rs_trace rs)" and pk: "proper_key (re_context env)"
    and key: "state_key_for_step step (rc_dates (re_context env)) (rc_key (re_context env)) = Inr key"
  shows "guarded_trace (re_context env) (rs_trace (dispatch_step env key step rs))"
  unfolding dispatch_step_def
proof (rule attempt_trace [where P = "guarded_trace (re_context env)", OF t])
  let ?rc = "re_context env" and ?P = "guarded_trace (re_context env)"
  fix x assume x: "blocked_dependencies ?rc step (rs_state rs) = Inr x"
  obtain b s where bs: "x = (b, s)" by (cases x)
  have "?P (rs_trace (record_in env key step ''blocked'' (Some 1) (Some b) None (rs\<lparr>rs_state := s\<rparr>) write_in))"
    by (rule record_in_trace [where P = ?P]) (simp_all add: t)
  moreover have "?P (rs_trace (execute_step env key step (rs\<lparr>rs_state := s\<rparr>)))" if "b = []"
  proof (rule execute_step_inv [where P = "\<lambda>rs. ?P (rs_trace rs)"])
    fix up so s3
    assume s3: "same_rows (rs_state (rs\<lparr>rs_state := s\<rparr>)) s3"
      and "launch_facts ?rc step (rs_state (rs\<lparr>rs_state := s\<rparr>)) up so"
    then obtain cmd where so: "so_step so = step\<lparr>step_command := cmd\<rparr>" by (auto simp: launch_facts_def)
    have "same_rows (rs_state rs) s" "\<forall>d \<in> set (step_depends_on step). \<not> is_soft d \<longrightarrow>
        dependency_view ?rc (rs_state rs) d \<in> set SATISFIED_DEPENDENCY_STATUSES"
      using blocked_among_view [OF x [unfolded bs blocked_dependencies_def] pk] \<open>b = []\<close>
      by (auto simp: filter_empty_conv)
    then have "\<forall>d \<in> set (step_depends_on step). \<not> is_soft d \<longrightarrow>
        dependency_view ?rc s3 d \<in> set SATISFIED_DEPENDENCY_STATUSES"
      using s3 by (simp add: same_rows_dependency_view)
    then show "?P (rs_trace (launch_step env key step up so (rs\<lparr>rs_state := s, rs_state := s3\<rparr>)))"
      by (intro guarded_launch_step [OF _ so key]) (simp_all add: t)
  qed (simp_all add: t pk)
  ultimately show "?P (rs_trace (case x of (blocked_by, s) \<Rightarrow>
      let rs' = rs\<lparr>rs_state := s\<rparr> in
      if blocked_by \<noteq> [] then record_in env key step ''blocked'' (Some 1) (Some blocked_by) None rs' write_in
      else execute_step env key step rs'))"
    by (simp add: bs Let_def)
qed

lemma step_state_for_step_key:
  assumes "step_state_for_step s step ed rk = Inr (key, s')"
  shows "state_key_for_step step ed rk = Inr key \<and> same_rows s s'"
  using assms run_state_for_key_effect by (fastforce simp: step_state_for_step_def)

lemma guarded_start_step:
  assumes "guarded_trace (re_context env) (rs_trace rs)" and "proper_key (re_context env)"
    and "state_key_for_step step (rc_dates (re_context env)) (rc_key (re_context env)) = Inr key"
  shows "guarded_trace (re_context env) (rs_trace (start_step env key step rs))"
  unfolding start_step_def
  by (rule attempt_trace [where P = "guarded_trace (re_context env)", OF assms(1)])
    (auto simp: assms Let_def intro!: guarded_dispatch_step)

lemma guarded_run_step:
  assumes "guarded_trace (re_context env) (rs_trace rs)" and "proper_key (re_context env)"
  shows "guarded_trace (re_context env) (rs_trace (run_step env step rs))"
proof -
  let ?P = "guarded_trace (re_context env)"
  have "?P (rs_trace (attempt rs
      (step_state_for_step (rs_state rs) step (rc_dates (re_context env)) (rc_key (re_context env)))
      (\<lambda>(key, s1). let rs1 = rs\<lparr>rs_state := s1\<rparr> in
        if \<not> rs_start_seen rs \<and> re_start_at env \<noteq> Some (step_id step)
        then record_in env key step ''skipped'' (Some 0) None None rs1 id
        else start_step env key step (rs1\<lparr>rs_start_seen := True\<rparr>))))"
    by (rule attempt_trace [where P = ?P, OF assms(1)])
      (auto simp: assms Let_def dest!: step_state_for_step_key
        intro!: guarded_start_step record_in_trace [where P = ?P])
  then show ?thesis by (simp add: run_step_def assms split: control.split)
qed

lemma guarded_run_steps:
  "proper_key (re_context env) \<Longrightarrow> guarded_trace (re_context env) (rs_trace rs) \<Longrightarrow>
   guarded_trace (re_context env) (rs_trace (run_steps env steps rs))"
  unfolding run_steps_def by (induction steps arbitrary: rs) (simp_all add: guarded_run_step)

text \<open>
  C1: No command ever starts unguarded. Whatever the steps, the state file, the exit codes and the
  errors, every call of the runner in a run comes right after a write of the state file, and in the
  state written the step is marked running and all its hard dependencies are satisfied. So a crash
  during a command always leaves a file that says which command was running.
\<close>

theorem every_command_is_guarded:
  assumes "proper_key (re_context env)" and "run_locked env h own stamp file = (r, trace)"
    and "trace = before @ Ran step code # after"
  shows "\<exists>earlier s. before = earlier @ [Wrote (write_state s)] \<and> run_guard (re_context env) step s"
proof -
  have steps: "guarded_trace (re_context env) (rs_trace (run_steps env sts (initial_run env s t)))"
    if "guarded_trace (re_context env) t" for sts s t
    using guarded_run_steps [OF assms(1)] that by (simp add: initial_run_def)
  have one: "guarded_trace rc [Wrote f]" for rc f using guarded_snoc_Wrote [of rc "[]" f] by simp
  from assms(2) have "guarded_trace (re_context env) trace"
    unfolding run_locked_def finish_run_def Let_def
    by (auto split: sum.splits prod.splits control.splits if_splits simp: steps one)
  then show ?thesis using assms(3) unfolding guarded_trace_def by blast
qed

section \<open>Completed steps are not run again\<close>

lemma row_dict_stamp_version [simp]: "row_dict (stamp_version s) k i = row_dict s k i"
  by (simp add: row_dict_def steps_at_def run_at_def stamp_version_def dict_field_def)

lemma run_state_for_key_total:
  assumes "has_runs s"
  obtains r s' where "run_state_for_key s key create = Inr (r, s')"
  using run_state_for_key_Inl [OF assms] by (cases "run_state_for_key s key create") auto

lemma step_row_for_policy_total:
  assumes "has_runs s" and "state_key_for_policy p ed rk = Inr key"
  shows "\<exists>row s'. step_row_for_policy s sid p ed rk = Inr (row, s')"
proof -
  obtain run s1 where r1: "run_state_for_key s key False = Inr (run, s1)"
    using run_state_for_key_total [OF assms(1)] by blast
  then have "has_runs s1" using run_state_for_key_effect by blast
  then obtain run2 s2 where "run_state_for_key s1 (isoformat (natural_date ed)) False = Inr (run2, s2)"
    using run_state_for_key_total by blast
  with r1 assms(2) show ?thesis by (auto simp: step_row_for_policy_def split: list.split)
qed

lemma step_state_for_step_total:
  assumes "has_runs s" and "state_key_for_step step ed rk = Inr key"
  shows "\<exists>s'. step_state_for_step s step ed rk = Inr (key, s') \<and> same_rows s s' \<and> has_runs s'"
proof -
  obtain run s1 where r1: "run_state_for_key s key True = Inr (run, s1)"
    using run_state_for_key_total [OF assms(1)] by blast
  then show ?thesis using run_state_for_key_effect [OF r1] assms(2) by (auto simp: step_state_for_step_def)
qed

definition done_step :: "run_context \<Rightarrow> state \<Rightarrow> daily_step \<Rightarrow> bool" where
  "done_step rc s st \<longleftrightarrow>
     step_resume_policy st = ''skip_if_success'' \<and>
     row_status (view_row rc s (step_id st) (step_state_key_policy st)) = ''success'' \<and>
     step_state_key_policy st \<in> set STATE_KEY_POLICIES"

lemma valid_policy_key: "p \<in> set STATE_KEY_POLICIES \<Longrightarrow> \<exists>key. state_key_for_policy p ed rk = Inr key"
  by (auto simp: STATE_KEY_POLICIES_def state_key_for_policy_def)

lemma same_rows_done_step: "same_rows s s' \<Longrightarrow> done_step rc s' st = done_step rc s st"
  by (simp add: done_step_def same_rows_view_row)

lemma run_step_done:
  assumes "rs_control rs = Go" and "rs_start_seen rs" and "re_start_at env = None" and "\<not> re_force env"
    and "\<not> re_ignore_state env" and pk: "proper_key (re_context env)" and hr: "has_runs (rs_state rs)"
    and dn: "done_step (re_context env) (rs_state rs) step"
  shows "\<exists>s'. run_step env step rs = rs\<lparr>rs_state := s'\<rparr> \<and> same_rows (rs_state rs) s' \<and> has_runs s'"
proof -
  let ?rc = "re_context env"
  obtain key where key: "state_key_for_policy (step_state_key_policy step) (rc_dates ?rc) (rc_key ?rc) = Inr key"
    using dn valid_policy_key unfolding done_step_def by blast
  then obtain s1 where s1: "step_state_for_step (rs_state rs) step (rc_dates ?rc) (rc_key ?rc) = Inr (key, s1)"
    "same_rows (rs_state rs) s1" "has_runs s1"
    using step_state_for_step_total [OF hr] unfolding state_key_for_step_def by blast
  obtain row s2 where s2: "step_row_for_policy s1 (step_id step) (step_state_key_policy step) (rc_dates ?rc) (rc_key ?rc) = Inr (row, s2)"
    using step_row_for_policy_total [OF s1(3) key] by blast
  from step_row_for_policy_view [OF s2 pk] s1(2) dn
  have "row_status row = ''success''" "same_rows (rs_state rs) s2" "has_runs s2"
    by (auto simp: done_step_def same_rows_view_row intro: same_rows_trans)
  moreover have "run_step env step rs = rs\<lparr>rs_start_seen := True, rs_state := s2\<rparr>"
    using calculation(1) assms(1-5) s1 s2 dn
    by (simp add: run_step_def attempt_def start_step_def Let_def should_skip_success_def done_step_def)
  moreover have "rs\<lparr>rs_start_seen := True, rs_state := s2\<rparr> = rs\<lparr>rs_state := s2\<rparr>"
    using assms(2) by (cases rs) simp
  ultimately show ?thesis by metis
qed

lemma run_steps_done:
  assumes "re_start_at env = None" and "\<not> re_force env" and "\<not> re_ignore_state env"
    and "proper_key (re_context env)" and "rs_control rs = Go" and "rs_start_seen rs" and "has_runs (rs_state rs)"
    and "\<forall>st \<in> set steps. done_step (re_context env) (rs_state rs) st"
  shows "\<exists>s'. run_steps env steps rs = rs\<lparr>rs_state := s'\<rparr> \<and> same_rows (rs_state rs) s' \<and> has_runs s'"
  using assms(5-)
proof (induction steps arbitrary: rs)
  case Nil
  then show ?case by (auto simp: run_steps_def intro!: exI [of _ "rs_state rs"])
next
  case (Cons st steps)
  from Cons.prems obtain s1 where s1: "run_step env st rs = rs\<lparr>rs_state := s1\<rparr>" "same_rows (rs_state rs) s1" "has_runs s1"
    using run_step_done [of rs env st] assms(1-4) by auto
  let ?rs1 = "rs\<lparr>rs_state := s1\<rparr>"
  have "\<exists>s'. run_steps env steps ?rs1 = ?rs1\<lparr>rs_state := s'\<rparr> \<and> same_rows (rs_state ?rs1) s' \<and> has_runs s'"
    using Cons.prems s1 by (intro Cons.IH) (simp_all add: same_rows_done_step)
  then show ?case using s1 by (auto simp: run_steps_def intro: same_rows_trans)
qed

lemma rows_of_steps_total:
  assumes "has_runs s" and "\<forall>st \<in> set sts. step_state_key_policy st \<in> set STATE_KEY_POLICIES" and "proper_key rc"
  shows "\<exists>rows s'. rows_of_steps rc sts s = Inr (rows, s')"
  using assms(1,2)
proof (induction sts arbitrary: s)
  case (Cons st sts)
  from Cons.prems(2) obtain key where "state_key_for_policy (step_state_key_policy st) (rc_dates rc) (rc_key rc) = Inr key"
    using valid_policy_key by force
  then obtain row s1 where r: "step_row_for_policy s (step_id st) (step_state_key_policy st) (rc_dates rc) (rc_key rc) = Inr (row, s1)"
    using step_row_for_policy_total [OF Cons.prems(1)] by blast
  with step_row_for_policy_view [OF r assms(3)] Cons.IH [of s1] Cons.prems(2) show ?case by auto
qed simp

text \<open>
  Running again after everything succeeded does nothing: with no start step, no force and the
  state honoured, when every step is recorded as successful under its key, the loop calls no
  command, writes no file and changes no row, and the run exits with code 0.
\<close>

theorem rerun_after_success_runs_nothing:
  assumes "re_start_at env = None" and "\<not> re_force env" and "\<not> re_ignore_state env"
    and "proper_key (re_context env)" and "has_runs s" and "distinct (map step_id (rc_steps (re_context env)))"
    and "\<forall>st \<in> set (rc_steps (re_context env)). done_step (re_context env) s st"
  shows "\<exists>s' s''. run_steps env (rc_steps (re_context env)) (initial_run env s trace) = initial_run env s' trace \<and>
    same_rows s s' \<and> final_exit_code_for_state (re_context env) None s' = Inr (0, s'')"
proof -
  let ?rc = "re_context env"
  obtain s' where s': "run_steps env (rc_steps ?rc) (initial_run env s trace) = (initial_run env s trace)\<lparr>rs_state := s'\<rparr>"
    "same_rows s s'" "has_runs s'"
    using run_steps_done [of env "initial_run env s trace" "rc_steps ?rc"] assms by (auto simp: initial_run_def)
  have dn: "\<forall>st \<in> set (rc_steps ?rc). done_step ?rc s' st" using assms(7) same_rows_done_step [OF s'(2)] by simp
  obtain rows s'' where rows: "rows_of_steps ?rc (rc_steps ?rc) s' = Inr (rows, s'')"
    using rows_of_steps_total [OF s'(3) _ assms(4)] dn unfolding done_step_def by blast
  have st: "status_text (rows (step_id st)) = ''success''" if "st \<in> set (rc_steps ?rc)" for st
    using rows_of_steps_view [OF rows assms(4,6)] dn that
    by (auto simp: done_step_def row_status_def status_text_def dict_get_default_def split: option.splits)
  have "List.find (\<lambda>st. status_text (rows (step_id st)) \<in> set FAILED_STEP_STATUSES) (rc_steps ?rc) = None"
    using st by (auto simp: find_None_iff FAILED_STEP_STATUSES_def)
  moreover have "\<not> list_ex (\<lambda>st. status_text (rows (step_id st)) = ''blocked'') (rc_steps ?rc)"
    using st by (auto simp: list_ex_iff)
  ultimately have "final_exit_code (rc_steps ?rc) rows None = Inr 0" by (simp add: final_exit_code_def)
  then show ?thesis using s' rows by (auto simp: final_exit_code_for_state_def initial_run_def)
qed

section \<open>The exit code of a run\<close>

lemma run_locked_finish:
  assumes "run_locked env h own stamp file = (Inr code, trace)"
  shows "\<exists>s t needs. (t = [] \<or> t = [Wrote (write_state s)]) \<and>
    finish_run env needs (run_steps env (rc_steps (re_context env)) (initial_run env s t)) = (Inr code, trace)"
proof -
  obtain state where st: "read_state_for_run file (re_force env) = Inr state"
    using assms by (cases "read_state_for_run file (re_force env)") (auto simp: run_locked_def)
  define s1 where "s1 = (case dict_get (stamp_version state) ''runs'' of
      None \<Rightarrow> dict_set (stamp_version state) ''runs'' (PDict []) | Some _ \<Rightarrow> stamp_version state)"
  obtain s2 changed where sw: "mark_abandoned_running_steps_in_state h own stamp s1 = Inr (s2, changed)"
    using assms st
    by (cases "mark_abandoned_running_steps_in_state h own stamp s1") (auto simp: run_locked_def Let_def s1_def)
  define t where "t = (if changed then [Wrote (write_state s2)] else [])"
  have "\<exists>needs. finish_run env needs (run_steps env (rc_steps (re_context env)) (initial_run env s2 t)) = (Inr code, trace)"
    using assms st sw unfolding run_locked_def Let_def s1_def t_def by auto
  moreover have "t = [] \<or> t = [Wrote (write_state s2)]" by (simp add: t_def)
  ultimately show ?thesis by blast
qed

lemma finish_run_Inr:
  assumes "finish_run env needs rs = (Inr code, trace)"
  shows "(\<forall>e. rs_control rs \<noteq> Raised e) \<and>
    (\<exists>s. final_exit_code_for_state (re_context env) (rs_failed rs) (rs_state rs) = Inr (code, s)) \<and>
    (trace = rs_trace rs \<or> (\<exists>f. trace = rs_trace rs @ [Wrote f]))"
  using assms unfolding finish_run_def
  by (auto split: sum.splits prod.splits control.splits if_splits)

text \<open>
  A command is fatal for the exit code when it fails and its step is not optional, or when a
  timeout leaves processes or a locked database behind.
\<close>

definition fatal :: "run_env \<Rightarrow> nat \<Rightarrow> daily_step \<Rightarrow> int \<Rightarrow> bool" where
  "fatal env n step code \<longleftrightarrow>
     code \<noteq> 0 \<and> (\<not> step_optional step \<or> timeout_cleanup_failed step code \<or>
       timed_out step code \<and> \<not> re_duckdb_free env n)"

text \<open>The first fatal exit code of a trace whose first call is the runner's \<open>n\<close>-th.\<close>

fun first_fatal :: "run_env \<Rightarrow> nat \<Rightarrow> event list \<Rightarrow> int option" where
  "first_fatal env n [] = None"
| "first_fatal env n (Wrote f # t) = first_fatal env n t"
| "first_fatal env n (Ran st None # t) = first_fatal env (Suc n) t"
| "first_fatal env n (Ran st (Some c) # t) = (if fatal env n st c then Some c else first_fatal env (Suc n) t)"

fun calls_in :: "event list \<Rightarrow> nat" where
  "calls_in [] = 0"
| "calls_in (Wrote f # t) = calls_in t"
| "calls_in (Ran st c # t) = Suc (calls_in t)"

lemma calls_in_append [simp]: "calls_in (t @ u) = calls_in t + calls_in u"
  by (induction t rule: calls_in.induct) auto

lemma first_fatal_append:
  "first_fatal env n (t @ u) =
     (case first_fatal env n t of Some c \<Rightarrow> Some c | None \<Rightarrow> first_fatal env (n + calls_in t) u)"
  by (induction env n t rule: first_fatal.induct) (simp_all split: option.split)

lemma first_fatal_nonzero: "first_fatal env n t = Some c \<Longrightarrow> c \<noteq> 0"
  by (induction env n t rule: first_fatal.induct) (auto simp: fatal_def split: if_splits)

text \<open>The failure the loop remembers is the first fatal one of its trace, unless it raised.\<close>

definition failure_inv :: "run_env \<Rightarrow> run_state \<Rightarrow> bool" where
  "failure_inv env rs \<longleftrightarrow>
     (\<exists>e. rs_control rs = Raised e) \<or>
     rs_calls rs = calls_in (rs_trace rs) \<and> rs_failed rs = first_fatal env 0 (rs_trace rs)"

lemma failure_inv_attempt:
  "(\<And>x. r = Inr x \<Longrightarrow> failure_inv env (k x)) \<Longrightarrow> failure_inv env (attempt rs r k)"
  by (rule attempt_inv [where P = "failure_inv env"]) (auto simp: failure_inv_def)

lemma failure_inv_record:
  "(\<And>s t. failure_inv env (k (rs\<lparr>rs_state := s, rs_ticks := t\<rparr>))) \<Longrightarrow>
   failure_inv env (record_in env' key step st c b r rs k)"
  unfolding record_in_def by (rule failure_inv_attempt) blast

lemma failure_inv_write [simp]: "failure_inv env (write_in rs) = failure_inv env rs"
  by (auto simp: failure_inv_def write_in_def first_fatal_append split: option.split)

lemma failure_inv_state [simp]:
  "failure_inv env (rs\<lparr>rs_state := s\<rparr>) = failure_inv env rs"
  "failure_inv env (rs\<lparr>rs_start_seen := b\<rparr>) = failure_inv env rs"
  "failure_inv env (rs\<lparr>rs_ticks := n\<rparr>) = failure_inv env rs"
  by (auto simp: failure_inv_def)

lemma failed_or_first:
  "first_fatal env 0 t = f \<Longrightarrow> failed_or f c = (case f of Some d \<Rightarrow> Some d | None \<Rightarrow> Some c)"
  using first_fatal_nonzero by (auto simp: failed_or_def split: option.split)

text \<open>After a call: the trace ends with it, the rest satisfies the invariant.\<close>

definition just_ran :: "run_env \<Rightarrow> daily_step \<Rightarrow> int \<Rightarrow> bool \<Rightarrow> run_state \<Rightarrow> bool" where
  "just_ran env step c free rs \<longleftrightarrow>
     (\<exists>t. rs_trace rs = t @ [Ran step (Some c)] \<and> rs_calls rs = Suc (calls_in t) \<and>
        rs_failed rs = first_fatal env 0 t \<and> free = re_duckdb_free env (calls_in t))"

lemma just_ran_state [simp]:
  "just_ran env step c free (rs\<lparr>rs_state := s\<rparr>) = just_ran env step c free rs"
  "just_ran env step c free (rs\<lparr>rs_ticks := n\<rparr>) = just_ran env step c free rs"
  by (auto simp: just_ran_def)

lemma fatal_command [simp]: "fatal env n (step\<lparr>step_command := cmd\<rparr>) c = fatal env n step c"
  by (simp add: fatal_def timed_out_def timeout_cleanup_failed_def)

lemma just_ran_keep:
  assumes "just_ran env es c free rs" and "es = step\<lparr>step_command := cmd\<rparr>"
    and "\<not> (c \<noteq> 0 \<and> (\<not> step_optional step \<or> timeout_cleanup_failed step c \<or> timed_out step c \<and> \<not> free))"
  shows "failure_inv env rs"
  using assms by (auto simp: just_ran_def failure_inv_def first_fatal_append fatal_def timed_out_def
      timeout_cleanup_failed_def split: option.split)

lemma just_ran_stop:
  assumes "just_ran env es c free rs" and "es = step\<lparr>step_command := cmd\<rparr>"
    and "c \<noteq> 0 \<and> (\<not> step_optional step \<or> timeout_cleanup_failed step c \<or> timed_out step c \<and> \<not> free)"
  shows "failure_inv env ((write_in rs)\<lparr>rs_failed := failed_or (rs_failed rs) c, rs_control := ctl\<rparr>)"
    and "failure_inv env ((write_in rs)\<lparr>rs_failed := (case rs_failed rs of None \<Rightarrow> Some c | Some d \<Rightarrow> Some d)\<rparr>)"
proof -
  from assms(1) obtain t where t: "rs_trace rs = t @ [Ran es (Some c)]" "rs_calls rs = Suc (calls_in t)"
    "rs_failed rs = first_fatal env 0 t" "free = re_duckdb_free env (calls_in t)"
    by (auto simp: just_ran_def)
  have f: "fatal env (calls_in t) es c" using assms(2,3) t(4) by (simp add: fatal_def timed_out_def timeout_cleanup_failed_def)
  have ff: "first_fatal env 0 (rs_trace rs @ [Wrote w]) = (case rs_failed rs of Some d \<Rightarrow> Some d | None \<Rightarrow> Some c)" for w
    using f by (auto simp: t first_fatal_append split: option.split)
  have "failed_or (rs_failed rs) c = (case rs_failed rs of Some d \<Rightarrow> Some d | None \<Rightarrow> Some c)"
    using failed_or_first [OF t(3) [symmetric]] .
  then show "failure_inv env ((write_in rs)\<lparr>rs_failed := failed_or (rs_failed rs) c, rs_control := ctl\<rparr>)"
    and "failure_inv env ((write_in rs)\<lparr>rs_failed := (case rs_failed rs of None \<Rightarrow> Some c | Some d \<Rightarrow> Some d)\<rparr>)"
    using ff t by (auto simp: failure_inv_def write_in_def split: option.split)
qed

lemma failure_inv_finish_failed:
  assumes jr: "just_ran env es c free rs" and es: "es = step\<lparr>step_command := cmd\<rparr>" and c: "c \<noteq> 0"
  shows "failure_inv env (finish_failed_step env' key step es c free rs)"
proof -
  have jr': "just_ran env es c free (rs\<lparr>rs_state := s, rs_ticks := t\<rparr>)" for s t using jr by simp
  note stop = just_ran_stop [OF jr' es]
  note keep = just_ran_keep [OF jr' es]
  show ?thesis
    unfolding finish_failed_step_def Let_def
    using stop keep c
    by (auto intro!: failure_inv_record)
qed

lemma failure_inv_finish_successful:
  assumes "just_ran env es 0 free rs" and "es = step\<lparr>step_command := cmd\<rparr>"
  shows "failure_inv env (finish_successful_step env' key so up rs)"
  using just_ran_keep [OF assms] unfolding finish_successful_step_def
  by (auto intro!: failure_inv_record split: option.split)

lemma failure_inv_launch_step:
  assumes "failure_inv env rs" and "rs_control rs = Go" and es: "so_step so = step\<lparr>step_command := cmd\<rparr>"
  shows "failure_inv env (launch_step env key step up so rs)"
proof -
  have jr: "just_ran env (so_step so) c (re_duckdb_free env (rs_calls rs))
      ((write_in (rs\<lparr>rs_state := s, rs_ticks := t\<rparr>))\<lparr>rs_calls := n, rs_trace := tr\<rparr>)"
    if "n = Suc (rs_calls rs)" "tr = rs_trace (write_in (rs\<lparr>rs_state := s, rs_ticks := t\<rparr>)) @ [Ran (so_step so) (Some c)]"
    for s t c n tr
    using assms(1,2) that
    by (auto simp: just_ran_def failure_inv_def write_in_def first_fatal_append split: option.split)
  have "failure_inv env (call_runner env (so_step so) (write_in (rs\<lparr>rs_state := s, rs_ticks := t\<rparr>))
      (\<lambda>c free rs''. if c \<noteq> 0 then finish_failed_step env key step (so_step so) c free rs''
         else finish_successful_step env key so up rs''))" for s t
    using failure_inv_finish_failed [OF jr es] failure_inv_finish_successful [OF jr es]
    by (auto simp: call_runner_def Let_def failure_inv_def [of _ "rs_control_update _ _"] write_in_def split: option.split)
  then show ?thesis
    using assms(1) unfolding launch_step_def
    by (auto split: option.split intro!: failure_inv_record)
qed

lemma failure_inv_raised [simp]: "failure_inv env (rs\<lparr>rs_control := Raised e\<rparr>)"
  by (simp add: failure_inv_def)

lemma failure_inv_dispatch_step:
  assumes "failure_inv env rs" and "rs_control rs = Go" and "proper_key (re_context env)"
  shows "failure_inv env (dispatch_step env key step rs)"
proof -
  have "failure_inv env (execute_step env key step (rs\<lparr>rs_state := s\<rparr>))" for s
    by (rule execute_step_inv [where P = "failure_inv env"])
      (use assms in \<open>auto simp: launch_facts_def intro: failure_inv_launch_step\<close>)
  then show ?thesis
    using assms(1) unfolding dispatch_step_def
    by (intro failure_inv_attempt) (auto simp: Let_def intro!: failure_inv_record split: prod.split)
qed

lemma failure_inv_run_step:
  assumes "failure_inv env rs" and "proper_key (re_context env)"
  shows "failure_inv env (run_step env step rs)"
proof (cases "rs_control rs")
  case Go
  have "failure_inv env (start_step env key step (rs\<lparr>rs_state := s, rs_start_seen := True\<rparr>))" for key s
    unfolding start_step_def
    by (intro failure_inv_attempt) (use assms Go in \<open>auto simp: Let_def intro!: failure_inv_dispatch_step split: prod.split\<close>)
  then show ?thesis
    using assms(1) Go unfolding run_step_def
    by (auto simp: Let_def intro!: failure_inv_attempt failure_inv_record split: prod.split)
qed (simp_all add: run_step_def assms)

lemma failure_inv_run_steps:
  "failure_inv env rs \<Longrightarrow> proper_key (re_context env) \<Longrightarrow> failure_inv env (run_steps env steps rs)"
  unfolding run_steps_def by (induction steps arbitrary: rs) (simp_all add: failure_inv_run_step)

text \<open>
  C3: The exit code of a run that returns is the exit code of the first fatal command: the first
  that failed without being optional, or timed out and left processes or a locked database. So a
  run never reports success after such a failure.
\<close>

theorem exit_code_is_first_fatal:
  assumes "run_locked env h own stamp file = (Inr code, trace)" and "proper_key (re_context env)"
    and "first_fatal env 0 trace = Some c"
  shows "code = c \<and> code \<noteq> 0"
proof -
  from run_locked_finish [OF assms(1)] obtain s2 t needs where
    t: "t = [] \<or> t = [Wrote (write_state s2)]" and
    fin: "finish_run env needs (run_steps env (rc_steps (re_context env)) (initial_run env s2 t)) = (Inr code, trace)"
    by blast
  define rs where "rs = run_steps env (rc_steps (re_context env)) (initial_run env s2 t)"
  from finish_run_Inr [OF fin] obtain s3 where ctl: "\<And>e. rs_control rs \<noteq> Raised e"
    and code: "final_exit_code_for_state (re_context env) (rs_failed rs) (rs_state rs) = Inr (code, s3)"
    and trace: "trace = rs_trace rs \<or> (\<exists>f. trace = rs_trace rs @ [Wrote f])"
    unfolding rs_def by blast
  have "failure_inv env (initial_run env s2 t)"
    using t by (auto simp: failure_inv_def initial_run_def)
  then have "failure_inv env rs" unfolding rs_def using assms(2) by (rule failure_inv_run_steps)
  then have "rs_failed rs = first_fatal env 0 (rs_trace rs)" using ctl by (auto simp: failure_inv_def)
  moreover have "first_fatal env 0 (rs_trace rs) = Some c"
    using trace assms(3) by (auto simp: first_fatal_append split: option.splits)
  ultimately have "code = c" using code by (auto simp: final_exit_code_for_state_def final_exit_code_def)
  then show ?thesis using first_fatal_nonzero [OF assms(3)] by simp
qed

section \<open>Clean successes\<close>

lemma record_in_inv:
  assumes "\<And>e. P (rs\<lparr>rs_control := Raised e\<rparr>)"
    and "\<And>s' t. row_status (row_dict s' key (step_id step)) = st \<Longrightarrow> P (k (rs\<lparr>rs_state := s', rs_ticks := t\<rparr>))"
  shows "P (record_in env key step st c b r rs k)"
  unfolding record_in_def
proof (rule attempt_inv [where P = P, OF assms(1)])
  fix s' assume "record_step key step st c (re_clock env (rs_ticks rs)) (re_pid env) (re_log env) b r (rs_state rs) = Inr s'"
  then have "row_status (row_dict s' key (step_id step)) = st"
    using record_step_row_dict(1) by (fastforce simp: row_status_def)
  then show "P (k (rs\<lparr>rs_state := s', rs_ticks := Suc (rs_ticks rs)\<rparr>))" by (rule assms(2))
qed

lemma write_in_rows [simp]: "row_dict (rs_state (write_in rs)) k i = row_dict (rs_state rs) k i"
  by (simp add: write_in_def)

text \<open>A run state in which the step just ran to an undegraded success.\<close>

definition clean_success :: "nat \<Rightarrow> string \<Rightarrow> string \<Rightarrow> run_state \<Rightarrow> bool" where
  "clean_success calls key sid rs \<longleftrightarrow>
     rs_control rs = Go \<and> rs_calls rs \<noteq> calls \<and> row_status (row_dict (rs_state rs) key sid) = ''success''"

lemma clean_success_raised [simp]: "\<not> clean_success n key sid (rs\<lparr>rs_control := Raised e\<rparr>)"
  by (simp add: clean_success_def)

lemma no_clean_record:
  assumes "st \<noteq> ''success''"
    and "\<And>x. row_dict (rs_state (k x)) key (step_id es) = row_dict (rs_state x) key (step_id es)"
  shows "\<not> clean_success n key (step_id es) (record_in env key es st c b r rs k)"
  by (rule record_in_inv [where P = "\<lambda>x. \<not> clean_success n key (step_id es) x"])
    (use assms in \<open>auto simp: clean_success_def\<close>)

lemma clean_finish_failed: "\<not> clean_success n key (step_id es) (finish_failed_step env key step es c free rs)"
  unfolding finish_failed_step_def Let_def by (simp add: no_clean_record)

lemma clean_finish_successful:
  "clean_success n key (step_id (so_step so)) (finish_successful_step env key so up rs) \<Longrightarrow>
   so_degraded so = None \<and> up = None"
proof -
  have no: "\<not> clean_success n key (step_id es) (record_in env key es ''success_degraded'' c b r rs write_in)" for es c b r
    by (simp add: no_clean_record)
  assume "clean_success n key (step_id (so_step so)) (finish_successful_step env key so up rs)"
  then show ?thesis by (auto simp: finish_successful_step_def no split: option.splits)
qed

lemma clean_launch_step:
  assumes "clean_success (rs_calls rs) key (step_id (so_step so)) (launch_step env key step up so rs)"
  shows "so_blocked so = None \<and> so_degraded so = None \<and> up = None"
proof -
  let ?clean = "clean_success (rs_calls rs) key (step_id (so_step so))"
  have blocked: "\<not> ?clean (record_in env key (so_step so) st c b r rs write_in)" for st c b r
    by (rule record_in_inv [where P = "\<lambda>x. \<not> ?clean x"]) (auto simp: clean_success_def write_in_def)
  have run: "?clean (call_runner env (so_step so) rs' (\<lambda>exit_code duckdb_free rs''.
      if exit_code \<noteq> 0 then finish_failed_step env key step (so_step so) exit_code duckdb_free rs''
      else finish_successful_step env key so up rs'')) \<Longrightarrow> so_degraded so = None \<and> up = None" for rs'
    using clean_finish_successful
    by (auto simp: call_runner_def Let_def clean_finish_failed split: option.splits if_splits)
  have "?clean (record_in env key (so_step so) ''running'' None None None rs (\<lambda>rs'.
      call_runner env (so_step so) (write_in rs') (\<lambda>exit_code duckdb_free rs''.
        if exit_code \<noteq> 0 then finish_failed_step env key step (so_step so) exit_code duckdb_free rs''
        else finish_successful_step env key so up rs''))) \<longrightarrow> so_degraded so = None \<and> up = None"
    by (rule record_in_inv [where P = "\<lambda>x. ?clean x \<longrightarrow> so_degraded so = None \<and> up = None"]) (use run in auto)
  then show ?thesis using assms blocked by (auto simp: launch_step_def split: option.splits)
qed

text \<open>
  C2: A success is recorded as clean only when its inputs were: if in one turn of the loop a step's
  command ran and the step ends up recorded \<open>success\<close>, then at the start of the turn every
  dependency, hard or soft, was satisfied and none was a degraded success. So degradation is never
  lost along a chain of dependencies.
\<close>

theorem success_needs_clean_inputs:
  assumes "rs_control rs = Go" and "proper_key (re_context env)"
    and "clean_success (rs_calls rs) key (step_id step) (run_step env step rs)"
    and "state_key_for_step step (rc_dates (re_context env)) (rc_key (re_context env)) = Inr key"
    and "d \<in> set (step_depends_on step)"
  shows "dependency_view (re_context env) (rs_state rs) d \<in> set SATISFIED_DEPENDENCY_STATUSES - {''success_degraded''}"
proof -
  let ?rc = "re_context env"
  let ?goal = "\<lambda>s. dependency_view ?rc s d \<in> set SATISFIED_DEPENDENCY_STATUSES - {''success_degraded''}"
  let ?clean = "clean_success (rs_calls rs) key (step_id step)"
  have execute: "?clean (execute_step env key step rs') \<longrightarrow>
      (\<forall>d \<in> set (step_depends_on step). \<not> is_soft d \<longrightarrow> dependency_view ?rc (rs_state rs') d \<in> set SATISFIED_DEPENDENCY_STATUSES) \<longrightarrow>
      ?goal (rs_state rs')" if "rs_calls rs' = rs_calls rs" for rs'
  proof (rule execute_step_inv [where P = "\<lambda>x. ?clean x \<longrightarrow> (\<forall>d \<in> set (step_depends_on step). \<not> is_soft d \<longrightarrow>
      dependency_view ?rc (rs_state rs') d \<in> set SATISFIED_DEPENDENCY_STATUSES) \<longrightarrow> ?goal (rs_state rs')"], simp, rule assms(2), intro impI)
    fix up so s'
    assume facts: "launch_facts ?rc step (rs_state rs') up so"
      and cl: "?clean (launch_step env key step up so (rs'\<lparr>rs_state := s'\<rparr>))"
      and hard: "\<forall>d \<in> set (step_depends_on step). \<not> is_soft d \<longrightarrow>
        dependency_view ?rc (rs_state rs') d \<in> set SATISFIED_DEPENDENCY_STATUSES"
    have "step_id (so_step so) = step_id step" using facts by (auto simp: launch_facts_def)
    with cl clean_launch_step [of "rs'\<lparr>rs_state := s'\<rparr>" key so env step up] that
    have "so_blocked so = None" "so_degraded so = None" "up = None" by auto
    with facts hard assms(5) show "?goal (rs_state rs')" by (cases "is_soft d") (auto simp: launch_facts_def)
  qed
  have dispatch: "?clean (dispatch_step env key step rs') \<longrightarrow> ?goal (rs_state rs')"
    if same_calls: "rs_calls rs' = rs_calls rs" for rs'
    unfolding dispatch_step_def
  proof (rule attempt_inv [where P = "\<lambda>x. ?clean x \<longrightarrow> ?goal (rs_state rs')"], simp)
    fix x assume x: "blocked_dependencies ?rc step (rs_state rs') = Inr x"
    obtain b s where bs: "x = (b, s)" by (cases x)
    from blocked_among_view [OF x [unfolded bs blocked_dependencies_def] assms(2)]
    have same: "same_rows (rs_state rs') s" and b: "b = [] \<Longrightarrow> \<forall>d \<in> set (step_depends_on step). \<not> is_soft d \<longrightarrow>
        dependency_view ?rc (rs_state rs') d \<in> set SATISFIED_DEPENDENCY_STATUSES"
      by (auto simp: filter_empty_conv)
    show "?clean (case x of (blocked_by, s) \<Rightarrow> let rs'' = rs'\<lparr>rs_state := s\<rparr> in
        if blocked_by \<noteq> [] then record_in env key step ''blocked'' (Some 1) (Some blocked_by) None rs'' write_in
        else execute_step env key step rs'') \<longrightarrow> ?goal (rs_state rs')"
      using execute [of "rs'\<lparr>rs_state := s\<rparr>"] same_calls b same_rows_dependency_view [OF same]
      by (auto simp: bs Let_def no_clean_record)
  qed
  have start: "?clean (start_step env key step (rs\<lparr>rs_state := s1, rs_start_seen := True\<rparr>)) \<longrightarrow> ?goal (rs_state rs)"
    if s1: "same_rows (rs_state rs) s1" for s1
    unfolding start_step_def
  proof (rule attempt_inv [where P = "\<lambda>x. ?clean x \<longrightarrow> ?goal (rs_state rs)"], simp)
    fix x assume x: "step_row_for_policy (rs_state (rs\<lparr>rs_state := s1, rs_start_seen := True\<rparr>)) (step_id step)
        (step_state_key_policy step) (rc_dates ?rc) (rc_key ?rc) = Inr x"
    obtain row s where xs: "x = (row, s)" by (cases x)
    with x have "step_row_for_policy s1 (step_id step) (step_state_key_policy step) (rc_dates ?rc) (rc_key ?rc) = Inr (row, s)"
      by simp
    from step_row_for_policy_view [OF this assms(2)] s1 have same: "same_rows (rs_state rs) s"
      using same_rows_trans by blast
    have "?clean (dispatch_step env key step (rs\<lparr>rs_start_seen := True, rs_state := s\<rparr>)) \<longrightarrow> ?goal (rs_state rs)"
      using dispatch [of "rs\<lparr>rs_start_seen := True, rs_state := s\<rparr>"] same_rows_dependency_view [OF same] by auto
    moreover have "\<not> ?clean (rs\<lparr>rs_start_seen := True, rs_state := s\<rparr>)" by (simp add: clean_success_def)
    ultimately show "?clean (case x of (row, s) \<Rightarrow> let rs' = rs\<lparr>rs_state := s1, rs_start_seen := True\<rparr>\<lparr>rs_state := s\<rparr> in
        if should_skip_success env step (row_status row) then rs' else dispatch_step env key step rs') \<longrightarrow> ?goal (rs_state rs)"
      by (simp add: xs Let_def)
  qed
  have "?clean (run_step env step rs) \<longrightarrow> ?goal (rs_state rs)"
    unfolding run_step_def assms(1) control.case
  proof (rule attempt_inv [where P = "\<lambda>x. ?clean x \<longrightarrow> ?goal (rs_state rs)"], simp)
    fix x assume "step_state_for_step (rs_state rs) step (rc_dates ?rc) (rc_key ?rc) = Inr x"
    moreover obtain key' s1 where xs: "x = (key', s1)" by (cases x)
    ultimately have "key' = key" and s1: "same_rows (rs_state rs) s1"
      using step_state_for_step_key assms(4) by auto
    have "\<not> ?clean (record_in env key step ''skipped'' (Some 0) None None (rs\<lparr>rs_state := s1\<rparr>) id)"
      by (simp add: no_clean_record)
    with start [OF s1] show "?clean (case x of (key, s1) \<Rightarrow> let rs1 = rs\<lparr>rs_state := s1\<rparr> in
        if \<not> rs_start_seen rs \<and> re_start_at env \<noteq> Some (step_id step)
        then record_in env key step ''skipped'' (Some 0) None None rs1 id
        else start_step env key step (rs1\<lparr>rs_start_seen := True\<rparr>)) \<longrightarrow> ?goal (rs_state rs)"
      by (simp add: xs \<open>key' = key\<close> Let_def)
  qed
  then show ?thesis using assms(3) by blast
qed

section \<open>The file tells the whole story\<close>

definition file_steps :: "json_file \<Rightarrow> string \<Rightarrow> pyval dict" where
  "file_steps f key = (case f of Json (PDict s) \<Rightarrow> steps_at s key | _ \<Rightarrow> [])"

fun last_file :: "json_file \<Rightarrow> event list \<Rightarrow> json_file" where
  "last_file f [] = f"
| "last_file f (Wrote g # t) = last_file g t"
| "last_file f (Ran st c # t) = last_file f t"

lemma last_file_append [simp]: "last_file f (t @ u) = last_file (last_file f t) u"
  by (induction f t rule: last_file.induct) auto

lemma steps_at_stamp_version [simp]: "steps_at (stamp_version s) k = steps_at s k"
  by (simp add: steps_at_def run_at_def stamp_version_def dict_field_def)

lemma file_steps_write [simp]: "file_steps (write_state s) = steps_at s"
  by (simp add: fun_eq_iff file_steps_def write_state_def)

text \<open>In step with the file: the loop raised, or the rows in memory are those of the last file.\<close>

definition persisted :: "json_file \<Rightarrow> run_state \<Rightarrow> bool" where
  "persisted f rs \<longleftrightarrow> (\<exists>e. rs_control rs = Raised e) \<or> file_steps (last_file f (rs_trace rs)) = steps_at (rs_state rs)"

lemma persisted_raised [simp]: "persisted f (rs\<lparr>rs_control := Raised e\<rparr>)"
  by (simp add: persisted_def)

lemma persisted_write [simp]:
  "persisted f (write_in rs)"
  "persisted f ((write_in rs)\<lparr>rs_failed := c\<rparr>)"
  "persisted f ((write_in rs)\<lparr>rs_failed := c, rs_control := ctl\<rparr>)"
  by (auto simp: persisted_def write_in_def fun_eq_iff)

lemma persisted_record:
  "(\<And>x. persisted f (k x)) \<Longrightarrow> persisted f (record_in env key step st c b r rs k)"
  by (rule record_in_inv [where P = "persisted f"]) auto

lemma persisted_finish:
  "persisted f (finish_failed_step env key step es c free rs)"
  "persisted f (finish_successful_step env key so up rs)"
  by (auto simp: finish_failed_step_def finish_successful_step_def Let_def intro!: persisted_record split: option.split)

lemma persisted_launch_step: "persisted f (launch_step env key step up so rs)"
proof -
  have "persisted f (call_runner env es x (\<lambda>exit_code duckdb_free rs''.
      if exit_code \<noteq> 0 then finish_failed_step env key step es exit_code duckdb_free rs''
      else finish_successful_step env key so up rs''))" for es x
    by (auto simp: call_runner_def Let_def persisted_finish split: option.split)
  then show ?thesis by (auto simp: launch_step_def intro!: persisted_record split: option.split)
qed

lemma persisted_same_rows:
  "persisted f rs \<Longrightarrow> same_rows (rs_state rs) s \<Longrightarrow> persisted f (rs\<lparr>rs_state := s\<rparr>)"
  "persisted f rs \<Longrightarrow> same_rows (rs_state rs) s \<Longrightarrow> persisted f (rs\<lparr>rs_state := s, rs_start_seen := w\<rparr>)"
  by (auto simp: persisted_def same_rows_def fun_eq_iff)

lemma persisted_dispatch_step:
  assumes "persisted f rs" and "proper_key (re_context env)"
  shows "persisted f (dispatch_step env key step rs)"
proof -
  have "persisted f (execute_step env key step x)" for x
    by (rule execute_step_inv [where P = "persisted f"]) (simp_all add: assms(2) persisted_launch_step)
  then show ?thesis
    unfolding dispatch_step_def
    by (intro attempt_inv [where P = "persisted f"]) (auto simp: Let_def intro!: persisted_record split: prod.split)
qed

lemma persisted_run_step:
  assumes "persisted f rs" and "proper_key (re_context env)" and "rs_start_seen rs \<or> re_start_at env = Some (step_id step)"
  shows "persisted f (run_step env step rs)"
proof -
  have start: "persisted f (start_step env key step x)" if x: "persisted f x" for key x
    unfolding start_step_def
  proof (rule attempt_inv [where P = "persisted f"], simp)
    fix y assume y: "step_row_for_policy (rs_state x) (step_id step) (step_state_key_policy step)
      (rc_dates (re_context env)) (rc_key (re_context env)) = Inr y"
    obtain row s where ys: "y = (row, s)" by (cases y)
    from step_row_for_policy_view [OF y [unfolded ys] assms(2)]
    have "persisted f (x\<lparr>rs_state := s\<rparr>)" using persisted_same_rows(1) [OF x] by blast
    then show "persisted f (case y of (row, s) \<Rightarrow> let rs' = x\<lparr>rs_state := s\<rparr> in
        if should_skip_success env step (row_status row) then rs' else dispatch_step env key step rs')"
      by (simp add: ys Let_def persisted_dispatch_step assms(2))
  qed
  show ?thesis
  proof (cases "rs_control rs")
    case Go
    show ?thesis
      unfolding run_step_def Go control.case
    proof (rule attempt_inv [where P = "persisted f"], simp)
      fix x assume "step_state_for_step (rs_state rs) step (rc_dates (re_context env)) (rc_key (re_context env)) = Inr x"
      moreover obtain key s1 where xs: "x = (key, s1)" by (cases x)
      ultimately have "same_rows (rs_state rs) s1" using step_state_for_step_key by blast
      then have "persisted f (start_step env key step (rs\<lparr>rs_state := s1, rs_start_seen := True\<rparr>))"
        using start persisted_same_rows(2) [OF assms(1)] by blast
      then show "persisted f (case x of (key, s1) \<Rightarrow> let rs1 = rs\<lparr>rs_state := s1\<rparr> in
          if \<not> rs_start_seen rs \<and> re_start_at env \<noteq> Some (step_id step)
          then record_in env key step ''skipped'' (Some 0) None None rs1 id
          else start_step env key step (rs1\<lparr>rs_start_seen := True\<rparr>))"
        using assms(3) by (auto simp: xs Let_def)
    qed
  qed (simp_all add: run_step_def assms)
qed

text \<open>Nothing in the loop takes \<open>start_seen\<close> back.\<close>

lemma seen_record: "(\<And>x. rs_start_seen x \<Longrightarrow> rs_start_seen (k x)) \<Longrightarrow> rs_start_seen rs \<Longrightarrow>
  rs_start_seen (record_in env key step st c b r rs k)"
  by (rule record_in_inv [where P = rs_start_seen]) auto

lemma seen_write [simp]: "rs_start_seen (write_in rs) = rs_start_seen rs"
  by (simp add: write_in_def)

lemma seen_finish:
  "rs_start_seen rs \<Longrightarrow> rs_start_seen (finish_failed_step env key step es c free rs)"
  "rs_start_seen rs \<Longrightarrow> rs_start_seen (finish_successful_step env key so up rs)"
  by (auto simp: finish_failed_step_def finish_successful_step_def Let_def intro!: seen_record split: option.split)

lemma seen_launch_step: "rs_start_seen rs \<Longrightarrow> rs_start_seen (launch_step env key step up so rs)"
  by (auto simp: launch_step_def call_runner_def Let_def seen_finish intro!: seen_record split: option.split)

lemma seen_run_step:
  assumes "rs_start_seen rs" and "proper_key (re_context env)"
  shows "rs_start_seen (run_step env step rs)"
proof -
  have execute: "rs_start_seen (execute_step env key step x)" if "rs_start_seen x" for key x
    by (rule execute_step_inv [where P = rs_start_seen]) (use that assms(2) in \<open>simp_all add: seen_launch_step\<close>)
  have dispatch: "rs_start_seen (dispatch_step env key step x)" if "rs_start_seen x" for key x
    unfolding dispatch_step_def
    by (rule attempt_inv [where P = rs_start_seen])
      (use that execute in \<open>auto simp: Let_def intro!: seen_record split: prod.split\<close>)
  have "rs_start_seen (start_step env key step x)" if "rs_start_seen x" for key x
    unfolding start_step_def
    by (rule attempt_inv [where P = rs_start_seen]) (use that dispatch in \<open>auto simp: Let_def split: prod.split\<close>)
  then show ?thesis
    using assms(1) unfolding run_step_def
    by (auto simp: Let_def intro!: attempt_inv [where P = rs_start_seen] split: control.split prod.split)
qed

lemma persisted_run_steps:
  assumes "persisted f rs" and "proper_key (re_context env)" and "rs_start_seen rs"
  shows "persisted f (run_steps env steps rs)"
  using assms(1,3) unfolding run_steps_def
  by (induction steps arbitrary: rs) (simp_all add: persisted_run_step seen_run_step assms(2))

lemma rows_of_steps_same:
  "rows_of_steps rc sts s = Inr (rows, s') \<Longrightarrow> proper_key rc \<Longrightarrow> same_rows s s'"
proof (induction sts arbitrary: s rows)
  case (Cons st sts)
  then obtain row s1 rows1 where
    "step_row_for_policy s (step_id st) (step_state_key_policy st) (rc_dates rc) (rc_key rc) = Inr (row, s1)"
    "rows_of_steps rc sts s1 = Inr (rows1, s')"
    by auto
  with Cons.IH Cons.prems(2) show ?case using step_row_for_policy_view same_rows_trans by blast
qed simp

lemma finish_run_file:
  assumes "finish_run env needs rs = (Inr code, trace)" and "proper_key (re_context env)"
  shows "trace = rs_trace rs \<or> file_steps (last_file f trace) = steps_at (rs_state rs)"
proof -
  from assms(1) obtain s where "final_exit_code_for_state (re_context env) (rs_failed rs) (rs_state rs) = Inr (code, s)"
    and t: "trace = rs_trace rs @ (if needs then [Wrote (write_state s)] else [])"
    unfolding finish_run_def by (auto split: sum.splits prod.splits control.splits)
  then have "same_rows (rs_state rs) s"
    using rows_of_steps_same assms(2) by (fastforce simp: final_exit_code_for_state_def)
  then show ?thesis by (simp add: t fun_eq_iff same_rows_def)
qed

text \<open>
  The exit code never disagrees with the file: when a run without a start step returns, the
  exit code is the one computed from the rows that the state file then holds, so nothing the run
  reports is missing from the file the next run reads.
\<close>

theorem exit_code_from_file:
  assumes "run_locked env h own stamp file = (Inr code, trace)" and "proper_key (re_context env)"
    and "re_start_at env = None" and "read_state file = Inr state0"
  shows "\<exists>failed s s'. file_steps (last_file file trace) = steps_at s \<and>
    final_exit_code_for_state (re_context env) failed s = Inr (code, s')"
proof -
  have read: "read_state_for_run file (re_force env) = Inr state0" using assms(4) by (simp add: read_state_for_run_def)
  define s1 where "s1 = (case dict_get (stamp_version state0) ''runs'' of
      None \<Rightarrow> dict_set (stamp_version state0) ''runs'' (PDict []) | Some _ \<Rightarrow> stamp_version state0)"
  obtain s2 changed where sw: "mark_abandoned_running_steps_in_state h own stamp s1 = Inr (s2, changed)"
    using assms(1) read
    by (cases "mark_abandoned_running_steps_in_state h own stamp s1") (auto simp: run_locked_def Let_def s1_def)
  define t where "t = (if changed then [Wrote (write_state s2)] else [])"
  define rs where "rs = run_steps env (rc_steps (re_context env)) (initial_run env s2 t)"
  define needs where "needs = (dict_get state0 ''version'' \<noteq> Some (PInt 2) \<and> \<not> changed)"
  have fin: "finish_run env needs rs = (Inr code, trace)"
    using assms(1) read sw unfolding run_locked_def Let_def s1_def t_def rs_def needs_def by simp
  have "steps_at s1 = steps_at state0"
    by (auto simp: fun_eq_iff s1_def stamp_version_def steps_at_def run_at_def dict_field_def split: option.split)
  moreover have "file_steps file = steps_at state0"
    using assms(4) by (auto simp: read_state_def file_steps_def empty_state_def fun_eq_iff steps_at_def run_at_def
        dict_field_def split: json_file.splits pyval.splits)
  ultimately have "persisted file (initial_run env s2 t)"
    using sweep_rows [OF sw] by (auto simp: persisted_def initial_run_def t_def fun_eq_iff)
  moreover have "rs_start_seen (initial_run env s2 t)" by (simp add: initial_run_def assms(3))
  ultimately have p: "persisted file rs" unfolding rs_def using assms(2) by (intro persisted_run_steps)
  from finish_run_Inr [OF fin] obtain s' where ctl: "\<forall>e. rs_control rs \<noteq> Raised e"
    and code: "final_exit_code_for_state (re_context env) (rs_failed rs) (rs_state rs) = Inr (code, s')" by blast
  have "file_steps (last_file file (rs_trace rs)) = steps_at (rs_state rs)" using p ctl by (simp add: persisted_def)
  with finish_run_file [OF fin assms(2), where f = "file"] have "file_steps (last_file file trace) = steps_at (rs_state rs)"
    by auto
  then show ?thesis using code by blast
qed

section \<open>An instance\<close>

definition demo_env :: run_env where
  "demo_env = \<lparr>re_context = demo_context, re_start_at = None, re_force = False, re_ignore_state = False,
     re_runner = (\<lambda>n step. Some (if n = 1 then 3 else 0)), re_duckdb_free = (\<lambda>n. True),
     re_clock = (\<lambda>n. ''t''), re_pid = 1, re_log = ''log''\<rparr>"

fun event_kind :: "event \<Rightarrow> (string \<times> int option) option" where
  "event_kind (Wrote f) = None"
| "event_kind (Ran st c) = Some (step_id st, c)"

definition demo_run :: "(run_error + int) \<times> event list" where
  "demo_run = run_locked demo_env demo_run_host [(''pid'', PInt 1)] (\<lambda>k i. ''t'') JsonMissing"

lemma demo_run_result:
  "fst demo_run = Inr 3"
  "map event_kind (snd demo_run) =
     [None, Some (''cleanup'', Some 0), None, None, Some (''session'', Some 3), None]"
  by code_simp+

lemma demo_env_proper: "proper_key (re_context demo_env)"
  by (simp add: demo_env_def demo_context_proper)

lemma demo_run_is: "run_locked demo_env demo_run_host [(''pid'', PInt 1)] (\<lambda>k i. ''t'') JsonMissing = (Inr 3, snd demo_run)"
  using demo_run_result(1) by (metis demo_run_def prod.collapse)

theorem every_command_is_guarded_witness:
  "\<exists>before step after s. snd demo_run = before @ Ran step (Some 3) # after \<and> step_id step = ''session'' \<and>
     run_guard demo_context step s"
proof -
  from demo_run_result(2) obtain a b c d st f where
    t: "snd demo_run = [a, b, c, d, Ran st (Some 3), f]" "step_id st = ''session''"
    by (auto simp: map_eq_Cons_conv elim!: event_kind.elims)
  then have split: "snd demo_run = [a, b, c, d] @ Ran st (Some 3) # [f]" by simp
  from every_command_is_guarded [OF demo_env_proper demo_run_is split] obtain s where "run_guard demo_context st s"
    by (auto simp: demo_env_def)
  with t(2) split show ?thesis by blast
qed

theorem exit_code_is_first_fatal_witness:
  "first_fatal demo_env 0 (snd demo_run) = Some 3 \<and> (3 :: int) \<noteq> 0"
proof -
  have "first_fatal demo_env 0 (snd demo_run) = Some 3" by code_simp
  with exit_code_is_first_fatal [OF demo_run_is demo_env_proper this] show ?thesis by simp
qed

theorem exit_code_from_file_witness:
  "\<exists>failed s s'. file_steps (last_file JsonMissing (snd demo_run)) = steps_at s \<and>
    final_exit_code_for_state demo_context failed s = Inr (3, s')"
  using exit_code_from_file [OF demo_run_is demo_env_proper] by (auto simp: demo_env_def read_state_def)

definition done_state :: state where
  "done_state = [(''runs'', PDict [(''natural_date:0001-01-05'', PDict [(''steps'', PDict
     [(''cleanup'', PDict [(''status'', PStr ''success'')]), (''session'', PDict [(''status'', PStr ''success'')])])])])]"

theorem rerun_after_success_runs_nothing_witness:
  "\<exists>s'. rs_trace (run_steps demo_env sample_steps (initial_run demo_env done_state [])) = [] \<and>
    rs_calls (run_steps demo_env sample_steps (initial_run demo_env done_state [])) = 0 \<and>
    same_rows done_state s'"
proof -
  have steps: "rc_steps (re_context demo_env) = sample_steps" by (simp add: demo_env_def demo_context_def)
  have "list_all (done_step demo_context done_state) sample_steps" by code_simp
  then have dn: "\<forall>st \<in> set (rc_steps (re_context demo_env)). done_step (re_context demo_env) done_state st"
    unfolding steps by (simp add: list_all_iff demo_env_def)
  have "has_runs done_state" by (simp add: has_runs_def done_state_def dict_get_default_def)
  from rerun_after_success_runs_nothing [OF _ _ _ demo_env_proper this _ dn, of "[]"] show ?thesis
    by (auto simp: demo_env_def demo_context_def sample_steps_def initial_run_def)
qed

theorem success_needs_clean_inputs_witness:
  "list_all (\<lambda>d. dependency_view demo_context demo_state d \<in> set SATISFIED_DEPENDENCY_STATUSES - {''success_degraded''})
     (step_depends_on (sample_steps ! 1))"
proof -
  let ?rs = "initial_run demo_env demo_state []"
  have c: "clean_success (rs_calls ?rs) ''natural_date:0001-01-05'' (step_id (sample_steps ! 1))
      (run_step demo_env (sample_steps ! 1) ?rs)"
    by code_simp
  have k: "state_key_for_step (sample_steps ! 1) (rc_dates (re_context demo_env)) (rc_key (re_context demo_env)) =
      Inr ''natural_date:0001-01-05''"
    by code_simp
  have "rs_control ?rs = Go" by (simp add: initial_run_def)
  from success_needs_clean_inputs [OF this demo_env_proper c k] show ?thesis
    by (simp add: list_all_iff initial_run_def demo_env_def)
qed

end
