(* ===== verification/Trading_Calendar.thy ===== *)
theory Trading_Calendar imports Calendar_Date begin

text \<open>
  The date part of \<open>src/pipeline/common.py\<close>: the candidate date of a run and the resolution of
  trading days against the stored calendar.

  A calendar frame is the list of its rows, each the \<open>calendar_date\<close> after the coercion the
  storage schema applies (\<open>None\<close> for a null) and the \<open>is_trading_day\<close> text. A frame without a
  \<open>calendar_date\<close> column is a frame whose dates are all null, and a frame without an
  \<open>is_trading_day\<close> column has the empty text there. A function whose source returns
  \<open>date.isoformat()\<close> returns the date.
\<close>

definition FULL_HISTORY_START_DATE :: date where
  "FULL_HISTORY_START_DATE = Date 1990 1 1"

text \<open>\<open>time(18, 0)\<close> in seconds.\<close>

definition MARKET_DATE_CUTOFF :: nat where
  "MARKET_DATE_CUTOFF = 18 * 60 * 60"

datatype calendar_error =
    NoCalendarRows
  | NoTradingDayOnOrBefore date
  | NoTradingDayOnOrAfter date
  | NegativeLookback
  | NoTradingDaysBetween date date
  | DateOverflow

section \<open>Candidate dates\<close>

text \<open>The local time of the run is in the project's time zone already.\<close>

definition default_candidate_date :: "local_datetime \<Rightarrow> calendar_error + date" where
  "default_candidate_date local_now =
     (if ldt_seconds local_now < MARKET_DATE_CUTOFF
      then (case sub_days 1 (ldt_date local_now) of None \<Rightarrow> Inl DateOverflow | Some d \<Rightarrow> Inr d)
      else Inr (ldt_date local_now))"

definition subtract_days :: "date \<Rightarrow> nat \<Rightarrow> calendar_error + date" where
  "subtract_days value days =
     (case sub_days days value of None \<Rightarrow> Inl DateOverflow | Some d \<Rightarrow> Inr d)"

definition trading_calendar_fetch_start :: "date \<Rightarrow> int \<Rightarrow> calendar_error + date" where
  "trading_calendar_fetch_start candidate_date lookback_days =
     subtract_days candidate_date (nat (max (lookback_days * 3 + 14) 90))"

section \<open>The calendar frame\<close>

type_synonym calendar_frame = "(date option \<times> string option) list"

fun trading_flag :: "string option \<Rightarrow> bool" where
  "trading_flag None = False"
| "trading_flag (Some s) = (py_lower (py_strip s) \<in> {''1'', ''true'', ''t'', ''yes''})"

fun calendar_with_keys :: "calendar_frame \<Rightarrow> (date \<times> bool) list" where
  "calendar_with_keys [] = []"
| "calendar_with_keys ((None, s) # rows) = calendar_with_keys rows"
| "calendar_with_keys ((Some d, s) # rows) = (d, trading_flag s) # calendar_with_keys rows"

definition is_trading_day :: "calendar_frame \<Rightarrow> date \<Rightarrow> bool" where
  "is_trading_day cal value =
     (let work = calendar_with_keys cal;
          matches = map snd (filter (\<lambda>r. fst r = value) work)
      in work \<noteq> [] \<and> matches \<noteq> [] \<and> last matches)"

definition calendar_covers_range :: "calendar_frame \<Rightarrow> date \<Rightarrow> date \<Rightarrow> bool" where
  "calendar_covers_range cal start_date end_date =
     (let work = calendar_with_keys cal; dates = map fst work
      in work \<noteq> [] \<and> foldr min dates (hd dates) \<le> start_date \<and> end_date \<le> foldr max dates (hd dates))"

definition latest_trading_day_on_or_before :: "calendar_frame \<Rightarrow> date \<Rightarrow> calendar_error + date" where
  "latest_trading_day_on_or_before cal target =
     (let work = calendar_with_keys cal;
          matches = filter (\<lambda>r. fst r \<le> target \<and> snd r) work
      in if work = [] then Inl NoCalendarRows
         else if matches = [] then Inl (NoTradingDayOnOrBefore target)
         else Inr (last (sort (map fst matches))))"

definition first_trading_day_on_or_after :: "calendar_frame \<Rightarrow> date \<Rightarrow> calendar_error + date" where
  "first_trading_day_on_or_after cal target =
     (let work = calendar_with_keys cal;
          matches = filter (\<lambda>r. target \<le> fst r \<and> snd r) work
      in if work = [] then Inl NoCalendarRows
         else if matches = [] then Inl (NoTradingDayOnOrAfter target)
         else Inr (hd (sort (map fst matches))))"

definition trading_day_lookback_start :: "calendar_frame \<Rightarrow> date \<Rightarrow> int \<Rightarrow> calendar_error + date" where
  "trading_day_lookback_start cal end_date lookback_days =
     (if lookback_days < 0 then Inl NegativeLookback
      else
        (let work = calendar_with_keys cal
         in if work = [] then Inl NoCalendarRows
            else bind_res (latest_trading_day_on_or_before cal end_date) (\<lambda>resolved_end.
              let trading_days = sort (dedup_first (map fst (filter (\<lambda>r. fst r \<le> resolved_end \<and> snd r) work)))
              in if trading_days = [] then Inl (NoTradingDayOnOrBefore resolved_end)
                 else
                   (let index = max (int (length trading_days) - 1 - lookback_days) 0
                    in Inr (trading_days ! nat index)))))"

definition trading_range_bounds :: "calendar_frame \<Rightarrow> date \<Rightarrow> date \<Rightarrow> calendar_error + date \<times> date" where
  "trading_range_bounds cal start_date end_date =
     bind_res (first_trading_day_on_or_after cal start_date) (\<lambda>resolved_start.
     bind_res (latest_trading_day_on_or_before cal end_date) (\<lambda>resolved_end.
       if resolved_end < resolved_start then Inl (NoTradingDaysBetween start_date end_date)
       else Inr (resolved_start, resolved_end)))"

section \<open>The trading days of a frame\<close>

text \<open>The abstract view of a frame: the set of days some row marks as trading days.\<close>

definition trading_days :: "calendar_frame \<Rightarrow> date set" where
  "trading_days cal = fst ` {r \<in> set (calendar_with_keys cal). snd r}"

lemma trading_days_filter:
  "set (map fst (filter (\<lambda>r. P (fst r) \<and> snd r) (calendar_with_keys cal))) = {d \<in> trading_days cal. P d}"
  by (auto simp: trading_days_def)

lemma finite_trading_days [simp]: "finite (trading_days cal)"
  by (simp add: trading_days_def)

lemma last_sort_Max: "xs \<noteq> [] \<Longrightarrow> last (sort xs) = Max (set xs)"
proof -
  assume "xs \<noteq> []"
  then obtain ys y where s: "sort xs = ys @ [y]"
    by (metis rev_exhaust set_empty set_sort)
  have "sorted (ys @ [y])" by (metis s sorted_sort)
  then have "Max (set (ys @ [y])) = y" by (auto simp: sorted_append intro: Max_eqI)
  moreover have "set (ys @ [y]) = set xs" by (metis s set_sort)
  ultimately show ?thesis using s by simp
qed

lemma hd_sort_Min: "xs \<noteq> [] \<Longrightarrow> hd (sort xs) = Min (set xs)"
proof -
  assume "xs \<noteq> []"
  then obtain y ys where s: "sort xs = y # ys"
    by (metis neq_Nil_conv set_empty set_sort)
  have "sorted (y # ys)" by (metis s sorted_sort)
  then have "Min (set (y # ys)) = y" by (auto intro: Min_eqI)
  moreover have "set (y # ys) = set xs" by (metis s set_sort)
  ultimately show ?thesis using s by simp
qed

lemma calendar_rows_nonempty: "d \<in> trading_days cal \<Longrightarrow> calendar_with_keys cal \<noteq> []"
  by (auto simp: trading_days_def)

lemma latest_Inr:
  "latest_trading_day_on_or_before cal t = Inr r \<longleftrightarrow>
     r \<in> trading_days cal \<and> r \<le> t \<and> (\<forall>d \<in> trading_days cal. d \<le> t \<longrightarrow> d \<le> r)"
proof -
  define ms where "ms = map fst (filter (\<lambda>r. fst r \<le> t \<and> snd r) (calendar_with_keys cal))"
  have set_ms: "set ms = {d \<in> trading_days cal. d \<le> t}"
    unfolding ms_def by (rule trading_days_filter)
  have "latest_trading_day_on_or_before cal t = Inr r \<longleftrightarrow>
      calendar_with_keys cal \<noteq> [] \<and> ms \<noteq> [] \<and> last (sort ms) = r"
    by (auto simp: latest_trading_day_on_or_before_def Let_def ms_def)
  also have "\<dots> \<longleftrightarrow> ms \<noteq> [] \<and> Max (set ms) = r"
    by (cases "ms = []") (auto simp: last_sort_Max ms_def)
  also have "\<dots> \<longleftrightarrow> r \<in> set ms \<and> (\<forall>d \<in> set ms. d \<le> r)"
    by (metis List.finite_set Max_eq_iff empty_iff set_empty)
  finally show ?thesis by (auto simp: set_ms)
qed

lemma first_Inr:
  "first_trading_day_on_or_after cal t = Inr r \<longleftrightarrow>
     r \<in> trading_days cal \<and> t \<le> r \<and> (\<forall>d \<in> trading_days cal. t \<le> d \<longrightarrow> r \<le> d)"
proof -
  define ms where "ms = map fst (filter (\<lambda>r. t \<le> fst r \<and> snd r) (calendar_with_keys cal))"
  have set_ms: "set ms = {d \<in> trading_days cal. t \<le> d}"
    unfolding ms_def by (rule trading_days_filter)
  have "first_trading_day_on_or_after cal t = Inr r \<longleftrightarrow>
      calendar_with_keys cal \<noteq> [] \<and> ms \<noteq> [] \<and> hd (sort ms) = r"
    by (auto simp: first_trading_day_on_or_after_def Let_def ms_def)
  also have "\<dots> \<longleftrightarrow> ms \<noteq> [] \<and> Min (set ms) = r"
    by (cases "ms = []") (auto simp: hd_sort_Min ms_def)
  also have "\<dots> \<longleftrightarrow> r \<in> set ms \<and> (\<forall>d \<in> set ms. r \<le> d)"
    by (metis List.finite_set Min_eq_iff empty_iff set_empty)
  finally show ?thesis by (auto simp: set_ms)
qed

lemma sorted_distinct_suffix:
  assumes "sorted xs" and "distinct xs" and "i < length xs"
  shows "{d \<in> set xs. xs ! i \<le> d} = set (drop i xs)"
proof
  show "{d \<in> set xs. xs ! i \<le> d} \<subseteq> set (drop i xs)"
  proof
    fix d assume "d \<in> {d \<in> set xs. xs ! i \<le> d}"
    then obtain j where j: "j < length xs" "d = xs ! j" "xs ! i \<le> xs ! j"
      by (auto simp: in_set_conv_nth)
    have "i \<le> j"
    proof (rule ccontr)
      assume "\<not> i \<le> j"
      then have "xs ! j \<le> xs ! i" using assms(1,3) by (simp add: sorted_iff_nth_mono)
      with j assms(2,3) \<open>\<not> i \<le> j\<close> show False by (auto simp: nth_eq_iff_index_eq)
    qed
    with j show "d \<in> set (drop i xs)"
      by (auto simp: in_set_conv_nth intro: exI [of _ "j - i"])
  qed
  show "set (drop i xs) \<subseteq> {d \<in> set xs. xs ! i \<le> d}"
    using assms by (auto simp: in_set_conv_nth sorted_iff_nth_mono dest: in_set_dropD)
qed

section \<open>Properties\<close>

text \<open>
  resolving a date gives the latest trading day on or before it, for every calendar: the
  result is a trading day of the calendar, not after the date, and no trading day of the calendar
  lies between it and the date; and there is an answer exactly when such a day exists.
\<close>

theorem latest_trading_day_spec:
  "latest_trading_day_on_or_before cal t =
     (if calendar_with_keys cal = [] then Inl NoCalendarRows
      else if {d \<in> trading_days cal. d \<le> t} = {} then Inl (NoTradingDayOnOrBefore t)
      else Inr (Max {d \<in> trading_days cal. d \<le> t}))"
proof -
  define ms where "ms = map fst (filter (\<lambda>r. fst r \<le> t \<and> snd r) (calendar_with_keys cal))"
  have set_ms: "set ms = {d \<in> trading_days cal. d \<le> t}"
    unfolding ms_def by (rule trading_days_filter)
  have "(filter (\<lambda>r. fst r \<le> t \<and> snd r) (calendar_with_keys cal) = []) = (ms = [])"
    by (simp add: ms_def)
  then show ?thesis
    using last_sort_Max [of ms]
    by (auto simp: latest_trading_day_on_or_before_def Let_def ms_def [symmetric] set_ms [symmetric])
qed

text \<open>
  the lookback window holds exactly the number of trading days asked for. With lookback \<open>n\<close>
  the window from the start returned to the end date has \<open>n + 1\<close> trading days, or all of the
  calendar's trading days up to the end when it has fewer, and starts on one of them.
\<close>

theorem lookback_window_size:
  assumes "trading_day_lookback_start cal end_date n = Inr start"
  shows "start \<in> trading_days cal \<and> start \<le> end_date \<and>
    card {d \<in> trading_days cal. start \<le> d \<and> d \<le> end_date} =
      min (nat n + 1) (card {d \<in> trading_days cal. d \<le> end_date})"
proof -
  from assms obtain r where n: "0 \<le> n" and r: "latest_trading_day_on_or_before cal end_date = Inr r"
    by (auto simp: trading_day_lookback_start_def Let_def split: if_splits)
  define xs where "xs = sort (dedup_first (map fst (filter (\<lambda>q. fst q \<le> r \<and> snd q) (calendar_with_keys cal))))"
  define i where "i = nat (max (int (length xs) - 1 - n) 0)"
  have "set xs = {d \<in> trading_days cal. d \<le> r}"
    using trading_days_filter [of "\<lambda>d. d \<le> r" cal] by (simp add: xs_def)
  also have "\<dots> = {d \<in> trading_days cal. d \<le> end_date}" using r by (auto simp: latest_Inr)
  finally have set_xs: "set xs = {d \<in> trading_days cal. d \<le> end_date}" .
  have so: "sorted xs" "distinct xs" by (simp_all add: xs_def)
  have start: "xs \<noteq> []" "start = xs ! i"
    using assms r n by (auto simp: trading_day_lookback_start_def Let_def xs_def [symmetric] i_def split: if_splits)
  then have i: "i < length xs" using n by (cases xs) (auto simp: i_def)
  have "{d \<in> trading_days cal. start \<le> d \<and> d \<le> end_date} = {d \<in> set xs. xs ! i \<le> d}"
    using set_xs start by auto
  also have "\<dots> = set (drop i xs)" using so i by (rule sorted_distinct_suffix)
  finally have "card {d \<in> trading_days cal. start \<le> d \<and> d \<le> end_date} = length xs - i"
    using so by (simp add: distinct_card)
  moreover have "length xs - i = min (nat n + 1) (length xs)" using i n by (auto simp: i_def)
  moreover have "length xs = card {d \<in> trading_days cal. d \<le> end_date}"
    using distinct_card [OF so(2)] by (simp add: set_xs)
  moreover have "start \<in> set xs" using start i by simp
  ultimately show ?thesis using set_xs by auto
qed

definition demo_calendar :: calendar_frame where
  "demo_calendar = [(Some (Date 2026 6 11), Some ''1''), (Some (Date 2026 6 13), Some ''0''),
     (Some (Date 2026 6 12), Some '' True''), (None, Some ''1''), (Some (Date 2026 6 15), Some ''1'')]"

theorem lookback_window_size_witness:
  "card {d \<in> trading_days demo_calendar. Date 2026 6 11 \<le> d \<and> d \<le> Date 2026 6 14} =
     min 2 (card {d \<in> trading_days demo_calendar. d \<le> Date 2026 6 14})"
proof -
  have "trading_day_lookback_start demo_calendar (Date 2026 6 14) 1 = Inr (Date 2026 6 11)"
    by (simp add: trading_day_lookback_start_def latest_trading_day_on_or_before_def Let_def
        demo_calendar_def py_strip_def py_lower_def lower_char_def char_of_def bit_0 is_space_def)
  from lookback_window_size [OF this] show ?thesis by (simp add: nat_add_distrib)
qed

text \<open>
  the resolved bounds of a range are its first and last trading day: they enclose exactly the
  trading days of the range, and the function fails only when the range or one of its sides has
  none.
\<close>

theorem trading_range_bounds_spec:
  assumes "trading_range_bounds cal s e = Inr (rs, re)"
  shows "rs \<le> re \<and> {rs, re} \<subseteq> trading_days cal \<and>
    {d \<in> trading_days cal. s \<le> d \<and> d \<le> e} = {d \<in> trading_days cal. rs \<le> d \<and> d \<le> re}"
proof -
  from assms have "first_trading_day_on_or_after cal s = Inr rs"
    and "latest_trading_day_on_or_before cal e = Inr re" and "rs \<le> re"
    by (auto simp: trading_range_bounds_def split: if_splits)
  then show ?thesis unfolding first_Inr latest_Inr by (auto intro: order_trans)
qed

theorem trading_range_bounds_spec_witness:
  "{d \<in> trading_days demo_calendar. Date 2026 6 1 \<le> d \<and> d \<le> Date 2026 6 14} =
   {d \<in> trading_days demo_calendar. Date 2026 6 11 \<le> d \<and> d \<le> Date 2026 6 12}"
proof -
  have "trading_range_bounds demo_calendar (Date 2026 6 1) (Date 2026 6 14) = Inr (Date 2026 6 11, Date 2026 6 12)"
    by (simp add: trading_range_bounds_def first_trading_day_on_or_after_def
        latest_trading_day_on_or_before_def Let_def
        demo_calendar_def py_strip_def py_lower_def lower_char_def char_of_def bit_0 is_space_def)
  from trading_range_bounds_spec [OF this] show ?thesis by simp
qed

end
