(* ===== verification/Effective_Dates.thy ===== *)
theory Effective_Dates imports Workflow_Config Trading_Calendar begin

text \<open>
  \<open>resolve_daily_effective_dates\<close> of \<open>src/tools/run_update_daily.py\<close>: which market date a run
  works for. The dates come from the caller, from the settings and the clock, or from the stored
  trading calendar, which is refreshed once when it does not reach the candidate date.

  Parameters: the string parser of the data-frame library (\<open>to_datetime\<close>), the time-zone database
  (\<open>zone_known\<close>), and the calendar update (\<open>refresh\<close>), a pipeline of its own that returns the
  stored calendar afterwards or fails.
\<close>

datatype date_arg = DateText string | DateValue date

datatype effective_error =
    InvalidDate string
  | MarketAfterCandidate date date
  | SettingsError config_error
  | UnknownTimeZone string
  | CalendarNotCovering date
  | CalendarError calendar_error
  | RefreshFailed

fun parse_iso_date :: "(string \<Rightarrow> date option) \<Rightarrow> date_arg \<Rightarrow> string \<Rightarrow> effective_error + date" where
  "parse_iso_date to_datetime (DateText s) field_name =
     (case to_datetime s of None \<Rightarrow> Inl (InvalidDate field_name) | Some d \<Rightarrow> Inr d)"
| "parse_iso_date to_datetime (DateValue d) field_name = Inr d"

definition calendar_result :: "calendar_error + 'a \<Rightarrow> effective_error + 'a" where
  "calendar_result r = (case r of Inl e \<Rightarrow> Inl (CalendarError e) | Inr x \<Rightarrow> Inr x)"

text \<open>
  The candidate date. Reading the time zone needs the settings; when they are missing or are no
  mapping, the source falls back to the natural date.
\<close>

definition candidate_of_settings ::
  "(string \<Rightarrow> bool) \<Rightarrow> yaml_file \<Rightarrow> local_datetime \<Rightarrow> date \<Rightarrow> effective_error + date" where
  "candidate_of_settings zone_known settings local_now natural =
     (case config_get settings ''project.timezone'' (PStr ''Asia/Shanghai'') of
        Inl e \<Rightarrow> if is_ConfigError e then Inr natural else Inl (SettingsError e)
      | Inr tz \<Rightarrow>
          if zone_known (py_str tz) then calendar_result (default_candidate_date local_now)
          else Inl (UnknownTimeZone (py_str tz)))"

definition resolve_candidate ::
  "(string \<Rightarrow> date option) \<Rightarrow> (string \<Rightarrow> bool) \<Rightarrow> yaml_file \<Rightarrow> local_datetime \<Rightarrow> date \<Rightarrow>
   date_arg option \<Rightarrow> effective_error + date" where
  "resolve_candidate to_datetime zone_known settings local_now natural as_of_date =
     (case as_of_date of
        Some v \<Rightarrow> parse_iso_date to_datetime v ''as_of_date''
      | None \<Rightarrow> candidate_of_settings zone_known settings local_now natural)"

definition effective_dates ::
  "date \<Rightarrow> date \<Rightarrow> date \<Rightarrow> bool \<Rightarrow> effective_error + daily_effective_dates" where
  "effective_dates natural candidate market overridden =
     bind_res (calendar_result (subtract_days market 30)) (\<lambda>h.
       Inr \<lparr>natural_date = natural, candidate_date = candidate, market_date = market,
            hist_start = h, market_date_overridden = overridden\<rparr>)"

definition calendar_free_effective_dates :: "date \<Rightarrow> effective_error + daily_effective_dates" where
  "calendar_free_effective_dates today = effective_dates today today today False"

type_synonym calendar_refresh = "calendar_frame \<Rightarrow> date \<Rightarrow> date \<Rightarrow> effective_error + calendar_frame"

definition refresh_trading_calendar ::
  "calendar_refresh \<Rightarrow> calendar_frame \<Rightarrow> date \<Rightarrow> effective_error + calendar_frame" where
  "refresh_trading_calendar refresh cal candidate =
     bind_res (calendar_result (trading_calendar_fetch_start candidate 0)) (\<lambda>start. refresh cal start candidate)"

text \<open>The calendar the market date is read from, and the market date itself.\<close>

definition covering_calendar ::
  "calendar_refresh \<Rightarrow> calendar_frame \<Rightarrow> date \<Rightarrow> effective_error + calendar_frame" where
  "covering_calendar refresh cal candidate =
     bind_res (if calendar_covers_range cal candidate candidate then Inr cal
               else refresh_trading_calendar refresh cal candidate)
       (\<lambda>cal'. if calendar_covers_range cal' candidate candidate then Inr cal'
               else Inl (CalendarNotCovering candidate))"

definition resolve_daily_effective_dates ::
  "(string \<Rightarrow> date option) \<Rightarrow> (string \<Rightarrow> bool) \<Rightarrow> calendar_refresh \<Rightarrow> yaml_file \<Rightarrow> calendar_frame \<Rightarrow>
   local_datetime \<Rightarrow> date \<Rightarrow> date_arg option \<Rightarrow> date_arg option \<Rightarrow> effective_error + daily_effective_dates" where
  "resolve_daily_effective_dates to_datetime zone_known refresh settings cal local_now natural as_of_date market =
     bind_res (resolve_candidate to_datetime zone_known settings local_now natural as_of_date) (\<lambda>candidate.
       case market of
         Some v \<Rightarrow>
           bind_res (parse_iso_date to_datetime v ''market_date'') (\<lambda>resolved_market.
             if candidate < resolved_market then Inl (MarketAfterCandidate resolved_market candidate)
             else effective_dates natural candidate resolved_market True)
       | None \<Rightarrow>
           if settings = NoFile then effective_dates natural candidate candidate False
           else
             bind_res (covering_calendar refresh cal candidate) (\<lambda>cal'.
             bind_res (calendar_result (latest_trading_day_on_or_before cal' candidate)) (\<lambda>resolved_market.
               effective_dates natural candidate resolved_market False)))"

lemma calendar_result_Inr [simp]: "calendar_result r = Inr x \<longleftrightarrow> r = Inr x"
  by (cases r) (auto simp: calendar_result_def)

lemma effective_dates_Inr:
  "effective_dates n c m ov = Inr ed \<longleftrightarrow>
   natural_date ed = n \<and> candidate_date ed = c \<and> market_date ed = m \<and> market_date_overridden ed = ov \<and>
   sub_days 30 m = Some (hist_start ed)"
  by (auto simp: effective_dates_def subtract_days_def split: option.splits)

lemma covering_calendar_covers:
  "covering_calendar refresh cal c = Inr cal' \<Longrightarrow> calendar_covers_range cal' c c"
  by (auto simp: covering_calendar_def split: if_splits)

text \<open>
  However the dates of a run are resolved, the market date is never after the candidate date,
  the history window starts exactly thirty days before the market date, and a market date given by
  the caller is the one used and is marked as an override.
\<close>

theorem effective_dates_ordered:
  assumes "resolve_daily_effective_dates to_datetime zone_known refresh settings cal local_now natural as_of m = Inr ed"
    and "valid_date (market_date ed)"
  shows "natural_date ed = natural \<and> market_date ed \<le> candidate_date ed \<and>
    to_ordinal (hist_start ed) + 30 = to_ordinal (market_date ed) \<and>
    (market_date_overridden ed \<longleftrightarrow> m \<noteq> None)"
proof -
  from assms(1) obtain c d where "market_date ed = d" "d \<le> c" "candidate_date ed = c" "natural_date ed = natural"
    "sub_days 30 d = Some (hist_start ed)" "market_date_overridden ed \<longleftrightarrow> m \<noteq> None"
    by (auto simp: resolve_daily_effective_dates_def effective_dates_Inr latest_Inr not_less
        split: option.splits if_splits)
  moreover from this assms(2) have "to_ordinal (hist_start ed) + 30 = to_ordinal d"
    using to_ordinal_sub_days [of 30 d] by simp
  ultimately show ?thesis by simp
qed

text \<open>
  When no market date is given and the settings exist, the market date comes from a calendar
  that reaches the candidate date (the stored one, or the refreshed one when the stored one does
  not reach it): it is a trading day of that calendar, and no later trading day of it lies on or
  before the candidate date.
\<close>

theorem market_date_from_calendar:
  assumes "resolve_daily_effective_dates to_datetime zone_known refresh settings cal local_now natural as_of None = Inr ed"
    and "settings \<noteq> NoFile"
  shows "\<exists>cal'. (cal' = cal \<or> refresh_trading_calendar refresh cal (candidate_date ed) = Inr cal') \<and>
     calendar_covers_range cal' (candidate_date ed) (candidate_date ed) \<and>
     market_date ed \<in> trading_days cal' \<and>
     (\<forall>d \<in> trading_days cal'. d \<le> candidate_date ed \<longrightarrow> d \<le> market_date ed)"
proof -
  from assms obtain cal' where cov: "covering_calendar refresh cal (candidate_date ed) = Inr cal'"
    and latest: "latest_trading_day_on_or_before cal' (candidate_date ed) = Inr (market_date ed)"
    by (auto simp: resolve_daily_effective_dates_def effective_dates_Inr)
  have "cal' = cal \<or> refresh_trading_calendar refresh cal (candidate_date ed) = Inr cal'"
    using cov by (auto simp: covering_calendar_def split: if_splits)
  with covering_calendar_covers [OF cov] latest show ?thesis unfolding latest_Inr by blast
qed

text \<open>An instance: a Sunday evening, a calendar that ends on the Friday before, and a refresh.\<close>

definition short_calendar :: calendar_frame where
  "short_calendar = [(Some (Date 2026 6 11), Some ''1''), (Some (Date 2026 6 12), Some ''1'')]"

definition demo_refresh :: calendar_refresh where
  "demo_refresh cal start end =
     Inr (cal @ [(Some (Date 2026 6 13), Some ''0''), (Some (Date 2026 6 14), Some ''0'')])"

definition demo_effective :: daily_effective_dates where
  "demo_effective = \<lparr>natural_date = Date 2026 6 14, candidate_date = Date 2026 6 14,
     market_date = Date 2026 6 12, hist_start = Date 2026 5 13, market_date_overridden = False\<rparr>"

lemma demo_effective_resolves:
  "resolve_daily_effective_dates (\<lambda>s. None) (\<lambda>z. True) demo_refresh sample_settings short_calendar
     \<lparr>ldt_date = Date 2026 6 14, ldt_seconds = 72000\<rparr> (Date 2026 6 14) None None = Inr demo_effective"
proof -
  define now :: local_datetime where "now = \<lparr>ldt_date = Date 2026 6 14, ldt_seconds = 72000\<rparr>"
  have s30: "sub_days 30 (Date 2026 6 12) = Some (Date 2026 5 13)" and s90: "sub_days 90 (Date 2026 6 14) \<noteq> None"
    by (simp_all add: numeral_eq_Suc days_in_month_def)
  have "candidate_of_settings (\<lambda>z. True) sample_settings now (Date 2026 6 14) = Inr (Date 2026 6 14)"
    by (simp add: candidate_of_settings_def config_get_def load_yaml_def sample_settings_def
        default_candidate_date_def MARKET_DATE_CUTOFF_def now_def)
  then have cand: "resolve_candidate (\<lambda>s. None) (\<lambda>z. True) sample_settings now (Date 2026 6 14) None =
      Inr (Date 2026 6 14)"
    by (simp add: resolve_candidate_def)
  define cal' where "cal' = short_calendar @ [(Some (Date 2026 6 13), Some ''0''), (Some (Date 2026 6 14), Some ''0'')]"
  have "refresh_trading_calendar demo_refresh short_calendar (Date 2026 6 14) = Inr cal'"
    using s90 by (auto simp: refresh_trading_calendar_def trading_calendar_fetch_start_def subtract_days_def
        demo_refresh_def cal'_def)
  moreover have "\<not> calendar_covers_range short_calendar (Date 2026 6 14) (Date 2026 6 14)"
    by (simp add: calendar_covers_range_def short_calendar_def)
  moreover have "calendar_covers_range cal' (Date 2026 6 14) (Date 2026 6 14)"
    by (simp add: calendar_covers_range_def short_calendar_def cal'_def max_def min_def)
  ultimately have "covering_calendar demo_refresh short_calendar (Date 2026 6 14) = Inr cal'"
    by (simp add: covering_calendar_def)
  moreover have "latest_trading_day_on_or_before cal' (Date 2026 6 14) = Inr (Date 2026 6 12)"
    by (simp add: latest_trading_day_on_or_before_def Let_def short_calendar_def cal'_def py_strip_def
        py_lower_def lower_char_def char_of_def bit_0 is_space_def)
  ultimately show ?thesis
    using cand s30
    by (simp add: resolve_daily_effective_dates_def now_def [symmetric] sample_settings_def
        calendar_result_def effective_dates_def subtract_days_def demo_effective_def)
qed

theorem effective_dates_ordered_witness:
  "market_date demo_effective \<le> candidate_date demo_effective \<and>
   to_ordinal (hist_start demo_effective) + 30 = to_ordinal (market_date demo_effective)"
  using effective_dates_ordered [OF demo_effective_resolves]
  by (simp add: demo_effective_def days_in_month_def)

theorem market_date_from_calendar_witness:
  "\<exists>cal'. market_date demo_effective \<in> trading_days cal' \<and>
     calendar_covers_range cal' (candidate_date demo_effective) (candidate_date demo_effective)"
  using market_date_from_calendar [OF demo_effective_resolves] by (auto simp: sample_settings_def)

end
