(* ===== verification/Step_Process.thy ===== *)
theory Step_Process imports Run_Update_Daily begin

text \<open>
  The commands of \<open>src/tools/run_update_daily.py\<close> as processes: waiting with a timeout, terminating
  the process tree, and waiting for the DuckDB files to come free afterwards.

  What the operating system answers is a record: whether the child has exited when polled or waited
  for, and how the signals and \<open>taskkill\<close> went.
\<close>

section \<open>Terminating a process tree\<close>

datatype signal_result = SignalSent | NoSuchProcess | SignalFailed

datatype taskkill_result = TaskkillMissing | TaskkillExit int

record process_world =
  pw_nt :: bool
  pw_exited :: bool
  pw_taskkill :: taskkill_result
  pw_exited_after_taskkill :: bool
  pw_term :: signal_result
  pw_wait_after_term :: bool
  pw_kill :: signal_result
  pw_wait_after_kill :: bool

datatype cleanup_action = Taskkill | SigTerm | SigKill

text \<open>The part after the first signal: two waits with a kill in between, the second on POSIX only.\<close>

definition await_termination :: "process_world \<Rightarrow> bool \<times> cleanup_action list" where
  "await_termination w =
     (if pw_wait_after_term w then (True, [])
      else if pw_nt w then (False, [])
      else
        (case pw_kill w of
           NoSuchProcess \<Rightarrow> (True, [SigKill])
         | SignalFailed \<Rightarrow> (False, [SigKill])
         | SignalSent \<Rightarrow> (pw_wait_after_kill w, [SigKill])))"

definition terminate_process_tree :: "process_world \<Rightarrow> bool \<times> cleanup_action list" where
  "terminate_process_tree w =
     (if pw_exited w then (True, [])
      else if pw_nt w then
        (case pw_taskkill w of
           TaskkillMissing \<Rightarrow> (False, [Taskkill])
         | TaskkillExit code \<Rightarrow>
             if code \<noteq> 0 \<and> \<not> pw_exited_after_taskkill w then (False, [Taskkill])
             else (let (ok, acts) = await_termination w in (ok, Taskkill # acts)))
      else
        (case pw_term w of
           NoSuchProcess \<Rightarrow> (True, [SigTerm])
         | SignalFailed \<Rightarrow> (False, [SigTerm])
         | SignalSent \<Rightarrow> (let (ok, acts) = await_termination w in (ok, SigTerm # acts))))"

text \<open>The process is known to be gone.\<close>

definition known_gone :: "process_world \<Rightarrow> cleanup_action list \<Rightarrow> bool" where
  "known_gone w acts \<longleftrightarrow>
     pw_exited w \<or> pw_wait_after_term w \<or>
     SigTerm \<in> set acts \<and> pw_term w = NoSuchProcess \<or>
     SigKill \<in> set acts \<and> (pw_kill w = NoSuchProcess \<or> pw_wait_after_kill w)"

text \<open>
  Cleaning up after a timeout reports success only when the process is known to be gone, and
  on POSIX it gives up only after a failed signal or after both \<open>SIGTERM\<close> and \<open>SIGKILL\<close>.
\<close>

theorem terminate_process_tree_sound:
  "(fst (terminate_process_tree w) \<and> known_gone w (snd (terminate_process_tree w))) \<or>
   (\<not> fst (terminate_process_tree w) \<and>
    (pw_nt w \<or> pw_term w = SignalFailed \<or> pw_kill w = SignalFailed \<or>
     snd (terminate_process_tree w) = [SigTerm, SigKill]))"
  by (simp add: terminate_process_tree_def await_termination_def known_gone_def split: signal_result.split
      taskkill_result.split)

section \<open>Running a command\<close>

text \<open>\<open>proc.wait(timeout)\<close>: the exit code, or \<open>TimeoutExpired\<close>; without a timeout it waits for the exit.\<close>

datatype wait_result = Exited int | TimeoutExpired

definition run_subprocess :: "wait_result \<Rightarrow> process_world \<Rightarrow> int" where
  "run_subprocess r w =
     (case r of
        Exited code \<Rightarrow> code
      | TimeoutExpired \<Rightarrow>
          if fst (terminate_process_tree w) then TIMEOUT_EXIT_CODE else TIMEOUT_CLEANUP_FAILED_EXIT_CODE)"

text \<open>The environment of the command: the network profile's, with file logging off.\<close>

definition subprocess_env :: "string \<Rightarrow> environ \<Rightarrow> network_error + environ" where
  "subprocess_env profile parent =
     bind_res (build_network_env parent (Some parent) profile) (\<lambda>env. Inr (dict_set env ''QDC_DISABLE_FILE_LOG'' ''1''))"

text \<open>
  The exit code cannot tell a timeout from a command of the same code: a command with a timeout
  that exits by itself with 124 in time is treated by the loop exactly as one that was killed.
\<close>

theorem own_exit_124_counts_as_timeout:
  "run_subprocess (Exited 124) w = 124 \<and>
   (step_timeout_seconds step = Some t \<longrightarrow> timed_out step (run_subprocess (Exited 124) w))"
  by (simp add: run_subprocess_def timed_out_def TIMEOUT_EXIT_CODE_def)

definition exited_world :: process_world where
  "exited_world = \<lparr>pw_nt = False, pw_exited = True, pw_taskkill = TaskkillMissing, pw_exited_after_taskkill = True,
     pw_term = NoSuchProcess, pw_wait_after_term = True, pw_kill = NoSuchProcess, pw_wait_after_kill = True\<rparr>"

theorem own_exit_124_counts_as_timeout_witness:
  "timed_out (sample_steps ! 1) (run_subprocess (Exited 124) exited_world)"
proof -
  have "step_timeout_seconds (sample_steps ! 1) = Some 900" by (simp add: sample_steps_def)
  then show ?thesis using own_exit_124_counts_as_timeout [of exited_world] by blast
qed

section \<open>Waiting for DuckDB\<close>

text \<open>The files that a connection attempt cannot open.\<close>

definition locked_duckdb_files :: "(string \<Rightarrow> bool) \<Rightarrow> string list \<Rightarrow> string list" where
  "locked_duckdb_files connects paths = filter (\<lambda>p. \<not> connects p) paths"

text \<open>
  The polling loop, one unit of fuel per poll. \<open>connects n\<close> is what connecting gives at the \<open>n\<close>-th
  poll, \<open>clock n\<close> the monotonic clock in half seconds after the \<open>n\<close>-th poll; the result has the
  files still locked.
\<close>

fun poll_duckdb ::
  "nat \<Rightarrow> (nat \<Rightarrow> string \<Rightarrow> bool) \<Rightarrow> (nat \<Rightarrow> int) \<Rightarrow> int \<Rightarrow> string list \<Rightarrow> nat \<Rightarrow> (bool \<times> string list) option" where
  "poll_duckdb 0 connects clock deadline paths n = None"
| "poll_duckdb (Suc fuel) connects clock deadline paths n =
     (let locked = locked_duckdb_files (connects n) paths
      in if locked = [] then Some (True, [])
         else if deadline \<le> clock n then Some (False, locked)
         else poll_duckdb fuel connects clock deadline paths (Suc n))"

definition wait_for_duckdb_available ::
  "nat \<Rightarrow> (string \<Rightarrow> bool) \<Rightarrow> (nat \<Rightarrow> string \<Rightarrow> bool) \<Rightarrow> int \<Rightarrow> (nat \<Rightarrow> int) \<Rightarrow> nat \<Rightarrow> string list \<Rightarrow>
   (bool \<times> string list) option" where
  "wait_for_duckdb_available fuel exists connects start clock timeout_seconds db_paths =
     (let existing_paths = filter exists db_paths
      in if existing_paths = [] then Some (True, [])
         else poll_duckdb fuel connects clock (start + 2 * int timeout_seconds) existing_paths 0)"

lemma poll_duckdb_returns:
  assumes "\<forall>k. start + int k \<le> clock k" and "nat (deadline - start) < fuel + n"
    and "n \<le> nat (deadline - start)"
  shows "\<exists>ok locked m. poll_duckdb fuel connects clock deadline paths n = Some (ok, locked) \<and> n \<le> m \<and>
    locked = locked_duckdb_files (connects m) paths \<and> (ok \<longleftrightarrow> locked = []) \<and>
    (\<forall>k. n \<le> k \<longrightarrow> k < m \<longrightarrow> locked_duckdb_files (connects k) paths \<noteq> [])"
  using assms(2,3)
proof (induction fuel arbitrary: n)
  case (Suc fuel)
  let ?locked = "locked_duckdb_files (connects n) paths"
  show ?case
  proof (cases "?locked = [] \<or> deadline \<le> clock n")
    case True
    then show ?thesis by (intro exI [of _ "?locked = []"] exI [of _ ?locked] exI [of _ n]) (auto simp: Let_def)
  next
    case False
    have "start + int n \<le> clock n" using assms(1) by simp
    with False have "Suc n \<le> nat (deadline - start)" by linarith
    with Suc.prems Suc.IH [of "Suc n"] obtain ok locked m where
      "poll_duckdb fuel connects clock deadline paths (Suc n) = Some (ok, locked)" "Suc n \<le> m"
      "locked = locked_duckdb_files (connects m) paths" "ok \<longleftrightarrow> locked = []"
      "\<forall>k. Suc n \<le> k \<longrightarrow> k < m \<longrightarrow> locked_duckdb_files (connects k) paths \<noteq> []"
      by auto
    moreover from this(5) False have "\<forall>k. n \<le> k \<longrightarrow> k < m \<longrightarrow> locked_duckdb_files (connects k) paths \<noteq> []"
      by (metis Suc_leI le_eq_less_or_eq)
    ultimately show ?thesis
      using False by (intro exI [of _ ok] exI [of _ locked] exI [of _ m]) (auto simp: Let_def)
  qed
qed simp

text \<open>
  Waiting for DuckDB always returns: since each poll but the first is at least half a second after
  the one before, \<open>2 * timeout + 1\<close> polls are enough, and the answer is that of the last poll, free
  exactly when every existing file could be opened.
\<close>

theorem wait_for_duckdb_returns:
  assumes "\<forall>k. start + int k \<le> clock k"
  shows "\<exists>ok locked. wait_for_duckdb_available (2 * timeout_seconds + 1) exists connects start clock timeout_seconds db_paths =
      Some (ok, locked) \<and> (ok \<longleftrightarrow> locked = []) \<and>
      (\<exists>m. locked = locked_duckdb_files (connects m) (filter exists db_paths))"
proof (cases "filter exists db_paths = []")
  case True
  then show ?thesis by (auto simp: wait_for_duckdb_available_def Let_def locked_duckdb_files_def)
next
  case False
  have "nat (start + 2 * int timeout_seconds - start) < 2 * timeout_seconds + 1 + 0"
    and "0 \<le> nat (start + 2 * int timeout_seconds - start)" by simp_all
  from poll_duckdb_returns [OF assms this] obtain ok locked m where "poll_duckdb (2 * timeout_seconds + 1) connects clock (start + 2 * int timeout_seconds)
      (filter exists db_paths) 0 = Some (ok, locked)"
    "locked = locked_duckdb_files (connects m) (filter exists db_paths)" "ok \<longleftrightarrow> locked = []"
    by blast
  with False show ?thesis by (auto simp: wait_for_duckdb_available_def Let_def simp del: poll_duckdb.simps)
qed

theorem wait_for_duckdb_returns_witness:
  "\<exists>locked. wait_for_duckdb_available 5 (\<lambda>p. True) (\<lambda>n p. False) 10 (\<lambda>n. 10 + int n) 2 [''quant.duckdb''] =
     Some (False, locked)"
  using wait_for_duckdb_returns [of 10 "\<lambda>n. 10 + int n" 2 "\<lambda>p. True" "\<lambda>n p. False" "[''quant.duckdb'']"]
  by (auto simp: locked_duckdb_files_def)

end
