(* ===== verification/Metadata_Store.thy ===== *)
theory Metadata_Store imports Calendar_Date begin

text \<open>
  \<open>src/storage/metadata_store.py\<close>: the DuckDB tables that hold runs, dataset statuses, checkpoints
  and partition manifests, and the transactions that change them.

  A table is the list of its rows in insertion order. A row's dates are texts when it comes in and
  coerced dates (\<open>None\<close> for NULL) when it is stored, so the records take the type of their dates as
  a parameter. Parameters of the operations: the date parser of the data-frame library, and a
  \<open>store_world\<close> that says which connection attempts and which SQL statements fail.
\<close>

section \<open>Rows\<close>

record 'd run_record =
  run_task_id :: string
  run_dataset :: string
  run_code :: string
  run_status :: string
  run_start_date :: 'd
  run_end_date :: 'd
  run_start_time :: int
  run_end_time :: int
  run_row_count :: int
  run_error_stack :: string

record 'd status_record =
  st_dataset :: string
  st_code :: string
  st_last_success_date :: 'd
  st_row_count :: int
  st_status :: string
  st_updated_at :: int
  st_error_stack :: string

record 'd checkpoint_record =
  cp_pipeline :: string
  cp_dataset :: string
  cp_code :: string
  cp_start_date :: 'd
  cp_end_date :: 'd
  cp_status :: string
  cp_row_count :: int
  cp_output_path :: string
  cp_updated_at :: int
  cp_error_stack :: string

text \<open>A manifest row: the three key columns and the others.\<close>

record manifest_record =
  mf_dataset :: string
  mf_partition_column :: string
  mf_partition_value :: string
  mf_rest :: "pyval dict"

section \<open>Coercion to the schema\<close>

definition null_like :: "string list" where
  "null_like = ['''', ''None'', ''none'', ''NaN'', ''nan'']"

definition coerce_date :: "(string \<Rightarrow> date option) \<Rightarrow> string option \<Rightarrow> date option" where
  "coerce_date to_date v =
     (case v of None \<Rightarrow> None | Some s \<Rightarrow> if s \<in> set null_like then None else to_date s)"

text \<open>Times are microseconds; \<open>dt.floor("ms")\<close>.\<close>

definition coerce_time :: "int \<Rightarrow> int" where
  "coerce_time t = t div 1000 * 1000"

definition clean_run :: "(string \<Rightarrow> date option) \<Rightarrow> string option run_record \<Rightarrow> date option run_record" where
  "clean_run to_date r =
     \<lparr>run_task_id = run_task_id r, run_dataset = run_dataset r, run_code = run_code r, run_status = run_status r,
      run_start_date = coerce_date to_date (run_start_date r), run_end_date = coerce_date to_date (run_end_date r),
      run_start_time = coerce_time (run_start_time r), run_end_time = coerce_time (run_end_time r),
      run_row_count = run_row_count r, run_error_stack = run_error_stack r\<rparr>"

definition clean_status :: "(string \<Rightarrow> date option) \<Rightarrow> string option status_record \<Rightarrow> date option status_record" where
  "clean_status to_date r =
     \<lparr>st_dataset = st_dataset r, st_code = st_code r,
      st_last_success_date = coerce_date to_date (st_last_success_date r), st_row_count = st_row_count r,
      st_status = st_status r, st_updated_at = coerce_time (st_updated_at r), st_error_stack = st_error_stack r\<rparr>"

definition clean_checkpoint ::
  "(string \<Rightarrow> date option) \<Rightarrow> string option checkpoint_record \<Rightarrow> date option checkpoint_record" where
  "clean_checkpoint to_date r =
     \<lparr>cp_pipeline = cp_pipeline r, cp_dataset = cp_dataset r, cp_code = cp_code r,
      cp_start_date = coerce_date to_date (cp_start_date r), cp_end_date = coerce_date to_date (cp_end_date r),
      cp_status = cp_status r, cp_row_count = cp_row_count r, cp_output_path = cp_output_path r,
      cp_updated_at = coerce_time (cp_updated_at r), cp_error_stack = cp_error_stack r\<rparr>"

section \<open>Tables and keys\<close>

record metadata_db =
  md_runs :: "date option run_record list"
  md_statuses :: "date option status_record list"
  md_checkpoints :: "date option checkpoint_record list"
  md_manifests :: "manifest_record list"

definition empty_metadata_db :: metadata_db where
  "empty_metadata_db = \<lparr>md_runs = [], md_statuses = [], md_checkpoints = [], md_manifests = []\<rparr>"

datatype sql_value = SqlText string | SqlDate date

text \<open>SQL equality on key columns: NULL equals nothing, not even NULL.\<close>

definition sql_match :: "sql_value option list \<Rightarrow> sql_value option list \<Rightarrow> bool" where
  "sql_match ks ls \<longleftrightarrow> list_all2 (\<lambda>a b. a \<noteq> None \<and> a = b) ks ls"

definition status_key :: "'d status_record \<Rightarrow> sql_value option list" where
  "status_key r = [Some (SqlText (st_dataset r)), Some (SqlText (st_code r))]"

definition checkpoint_key :: "date option checkpoint_record \<Rightarrow> sql_value option list" where
  "checkpoint_key r =
     [Some (SqlText (cp_pipeline r)), Some (SqlText (cp_dataset r)), Some (SqlText (cp_code r)),
      map_option SqlDate (cp_start_date r), map_option SqlDate (cp_end_date r)]"

definition manifest_key :: "manifest_record \<Rightarrow> sql_value option list" where
  "manifest_key r =
     [Some (SqlText (mf_dataset r)), Some (SqlText (mf_partition_column r)), Some (SqlText (mf_partition_value r))]"

text \<open>\<open>DELETE ... WHERE EXISTS (SELECT 1 FROM incoming ...)\<close>, then \<open>INSERT ... SELECT\<close>.\<close>

definition delete_matching :: "('r \<Rightarrow> sql_value option list) \<Rightarrow> 'r list \<Rightarrow> 'r list \<Rightarrow> 'r list" where
  "delete_matching key incoming table = filter (\<lambda>r. \<not> list_ex (\<lambda>i. sql_match (key i) (key r)) incoming) table"

definition upsert_rows :: "('r \<Rightarrow> sql_value option list) \<Rightarrow> 'r list \<Rightarrow> 'r list \<Rightarrow> 'r list" where
  "upsert_rows key incoming table = delete_matching key incoming table @ incoming"

section \<open>Connections and transactions\<close>

datatype metadata_error = ConnectFailed | StatementFailed nat

record store_world =
  sw_connects :: "nat \<Rightarrow> bool"
  sw_fails :: "nat \<Rightarrow> bool"

definition DUCKDB_METADATA_CONNECT_MAX_RETRIES :: nat where
  "DUCKDB_METADATA_CONNECT_MAX_RETRIES = 5"

text \<open>The attempts from number \<open>n\<close> on, with \<open>left\<close> of them allowed: which one succeeds, if any.\<close>

fun try_connect :: "(nat \<Rightarrow> bool) \<Rightarrow> nat \<Rightarrow> nat \<Rightarrow> nat option" where
  "try_connect connects n 0 = None"
| "try_connect connects n (Suc left) = (if connects n then Some n else try_connect connects (Suc n) left)"

definition connect :: "store_world \<Rightarrow> nat option" where
  "connect w = try_connect (sw_connects w) 1 DUCKDB_METADATA_CONNECT_MAX_RETRIES"

type_synonym statement = "metadata_db \<Rightarrow> metadata_db"

text \<open>The statements in order, then \<open>COMMIT\<close>; the \<open>n\<close>-th to be executed may fail.\<close>

fun exec_all :: "(nat \<Rightarrow> bool) \<Rightarrow> nat \<Rightarrow> statement list \<Rightarrow> metadata_db \<Rightarrow> metadata_error + metadata_db" where
  "exec_all fails n [] db = (if fails n then Inl (StatementFailed n) else Inr db)"
| "exec_all fails n (st # sts) db =
     (if fails n then Inl (StatementFailed n) else exec_all fails (Suc n) sts (st db))"

text \<open>A transaction rolls back on any failure: the error, if any, and the tables afterwards.\<close>

definition transaction :: "store_world \<Rightarrow> statement list \<Rightarrow> metadata_db \<Rightarrow> metadata_error option \<times> metadata_db" where
  "transaction w sts db =
     (case exec_all (sw_fails w) 0 sts db of Inl e \<Rightarrow> (Some e, db) | Inr db' \<Rightarrow> (None, db'))"

definition with_connection ::
  "store_world \<Rightarrow> (metadata_db \<Rightarrow> metadata_error option \<times> metadata_db) \<Rightarrow> metadata_db \<Rightarrow>
   metadata_error option \<times> metadata_db" where
  "with_connection w body db = (case connect w of None \<Rightarrow> (Some ConnectFailed, db) | Some n \<Rightarrow> body db)"

section \<open>Statements\<close>

definition insert_runs :: "date option run_record list \<Rightarrow> statement" where
  "insert_runs rows db = db\<lparr>md_runs := md_runs db @ rows\<rparr>"

definition delete_statuses :: "date option status_record list \<Rightarrow> statement" where
  "delete_statuses rows db = db\<lparr>md_statuses := delete_matching status_key rows (md_statuses db)\<rparr>"

definition insert_statuses :: "date option status_record list \<Rightarrow> statement" where
  "insert_statuses rows db = db\<lparr>md_statuses := md_statuses db @ rows\<rparr>"

definition delete_checkpoints :: "date option checkpoint_record list \<Rightarrow> statement" where
  "delete_checkpoints rows db = db\<lparr>md_checkpoints := delete_matching checkpoint_key rows (md_checkpoints db)\<rparr>"

definition insert_checkpoints :: "date option checkpoint_record list \<Rightarrow> statement" where
  "insert_checkpoints rows db = db\<lparr>md_checkpoints := md_checkpoints db @ rows\<rparr>"

definition delete_manifests :: "manifest_record list \<Rightarrow> statement" where
  "delete_manifests rows db = db\<lparr>md_manifests := delete_matching manifest_key rows (md_manifests db)\<rparr>"

definition insert_manifests :: "manifest_record list \<Rightarrow> statement" where
  "insert_manifests rows db = db\<lparr>md_manifests := md_manifests db @ rows\<rparr>"

section \<open>Operations\<close>

definition append_pipeline_runs ::
  "(string \<Rightarrow> date option) \<Rightarrow> store_world \<Rightarrow> string option run_record list \<Rightarrow> metadata_db \<Rightarrow>
   metadata_error option \<times> metadata_db" where
  "append_pipeline_runs to_date w rows db =
     (if rows = [] then (None, db)
      else with_connection w (transaction w [insert_runs (map (clean_run to_date) rows)]) db)"

definition upsert_dataset_update_status ::
  "(string \<Rightarrow> date option) \<Rightarrow> store_world \<Rightarrow> string option status_record list \<Rightarrow> metadata_db \<Rightarrow>
   metadata_error option \<times> metadata_db" where
  "upsert_dataset_update_status to_date w rows db =
     (if rows = [] then (None, db)
      else (let incoming = map (clean_status to_date) rows
            in with_connection w (transaction w [delete_statuses incoming, insert_statuses incoming]) db))"

definition upsert_pipeline_checkpoints ::
  "(string \<Rightarrow> date option) \<Rightarrow> store_world \<Rightarrow> string option checkpoint_record list \<Rightarrow> metadata_db \<Rightarrow>
   metadata_error option \<times> metadata_db" where
  "upsert_pipeline_checkpoints to_date w rows db =
     (if rows = [] then (None, db)
      else (let incoming = map (clean_checkpoint to_date) rows
            in with_connection w (transaction w [delete_checkpoints incoming, insert_checkpoints incoming]) db))"

definition upsert_dataset_partition_manifest ::
  "store_world \<Rightarrow> manifest_record list \<Rightarrow> metadata_db \<Rightarrow> metadata_error option \<times> metadata_db" where
  "upsert_dataset_partition_manifest w rows db =
     (if rows = [] then (None, db)
      else with_connection w (transaction w [delete_manifests rows, insert_manifests rows]) db)"

definition delete_dataset_partition_manifest ::
  "store_world \<Rightarrow> string \<Rightarrow> string \<Rightarrow> string \<Rightarrow> metadata_db \<Rightarrow> metadata_error option \<times> metadata_db" where
  "delete_dataset_partition_manifest w dataset partition_column partition_value db =
     with_connection w
       (\<lambda>db. if sw_fails w 0 then (Some (StatementFailed 0), db)
             else (None, db\<lparr>md_manifests := filter (\<lambda>r. \<not> (mf_dataset r = dataset \<and>
                     mf_partition_column r = partition_column \<and> mf_partition_value r = partition_value))
                     (md_manifests db)\<rparr>)) db"

definition read_dataset_partition_manifest :: "string option \<Rightarrow> metadata_db \<Rightarrow> manifest_record list" where
  "read_dataset_partition_manifest dataset db =
     (case dataset of None \<Rightarrow> md_manifests db | Some d \<Rightarrow> filter (\<lambda>r. mf_dataset r = d) (md_manifests db))"

definition persist_statements ::
  "date option run_record list \<Rightarrow> date option status_record list \<Rightarrow> date option checkpoint_record list \<Rightarrow>
   statement list" where
  "persist_statements runs statuses checkpoints =
     (if runs \<noteq> [] then [insert_runs runs] else []) @
     (if statuses \<noteq> [] then [delete_statuses statuses, insert_statuses statuses] else []) @
     (if checkpoints \<noteq> [] then [delete_checkpoints checkpoints, insert_checkpoints checkpoints] else [])"

definition persist_update_metadata ::
  "(string \<Rightarrow> date option) \<Rightarrow> store_world \<Rightarrow> string option run_record list \<Rightarrow> string option status_record list \<Rightarrow>
   string option checkpoint_record list \<Rightarrow> metadata_db \<Rightarrow> metadata_error option \<times> metadata_db" where
  "persist_update_metadata to_date w run_rows status_rows checkpoint_rows db =
     (if run_rows = [] \<and> status_rows = [] \<and> checkpoint_rows = [] then (None, db)
      else with_connection w
             (transaction w (persist_statements (map (clean_run to_date) run_rows)
                (map (clean_status to_date) status_rows) (map (clean_checkpoint to_date) checkpoint_rows))) db)"

section \<open>Migration of the legacy tables\<close>

text \<open>The legacy file: each of its four tables may be missing. Its rows are read coerced.\<close>

record legacy_db =
  lg_runs :: "date option run_record list option"
  lg_statuses :: "date option status_record list option"
  lg_checkpoints :: "date option checkpoint_record list option"
  lg_manifests :: "manifest_record list option"

definition new_pipeline_runs ::
  "date option run_record list \<Rightarrow> date option run_record list \<Rightarrow> date option run_record list" where
  "new_pipeline_runs existing incoming =
     filter (\<lambda>r. run_task_id r \<notin> run_task_id ` set existing) (keep_last run_task_id incoming)"

type_synonym migration = "metadata_error option \<times> nat list \<times> metadata_db"

text \<open>One table: nothing to do without rows; an error keeps what earlier tables brought.\<close>

definition migrate_table :: "store_world \<Rightarrow> nat \<Rightarrow> statement list \<Rightarrow> migration \<Rightarrow> migration" where
  "migrate_table w n sts m =
     (case m of
        (Some e, counts, db) \<Rightarrow> (Some e, counts, db)
      | (None, counts, db) \<Rightarrow>
          (let (e, db') = (if n = 0 then (None, db) else with_connection w (transaction w sts) db)
           in (e, if e = None then counts @ [n] else counts, db')))"

definition rows_or_none :: "'r list option \<Rightarrow> 'r list" where
  "rows_or_none t = (case t of None \<Rightarrow> [] | Some rows \<Rightarrow> rows)"

definition migrate_tables :: "(nat \<Rightarrow> store_world) \<Rightarrow> legacy_db \<Rightarrow> metadata_db \<Rightarrow> migration" where
  "migrate_tables ws legacy db =
     (let runs = new_pipeline_runs (md_runs db) (rows_or_none (lg_runs legacy));
          statuses = rows_or_none (lg_statuses legacy);
          checkpoints = rows_or_none (lg_checkpoints legacy);
          manifests = rows_or_none (lg_manifests legacy)
      in migrate_table (ws 3) (length manifests) [delete_manifests manifests, insert_manifests manifests]
           (migrate_table (ws 2) (length checkpoints) [delete_checkpoints checkpoints, insert_checkpoints checkpoints]
             (migrate_table (ws 1) (length statuses) [delete_statuses statuses, insert_statuses statuses]
               (migrate_table (ws 0) (length runs) [insert_runs runs] (None, [], db)))))"

text \<open>\<open>None\<close>: skipped, because source and target are one file or the source is missing.\<close>

definition migrate_metadata_duckdb ::
  "bool \<Rightarrow> legacy_db option \<Rightarrow> (nat \<Rightarrow> store_world) \<Rightarrow> metadata_db \<Rightarrow> migration option" where
  "migrate_metadata_duckdb same_file source ws db =
     (if same_file then None
      else case source of None \<Rightarrow> None | Some legacy \<Rightarrow> Some (migrate_tables ws legacy db))"

section \<open>Transactions are atomic\<close>

lemma exec_all_Inr: "exec_all fails n sts db = Inr db' \<Longrightarrow> db' = fold (\<lambda>st d. st d) sts db"
  by (induction fails n sts db rule: exec_all.induct) (auto split: if_splits)

lemma transaction_cases:
  "transaction w sts db = (e, db') \<Longrightarrow>
   (e = None \<and> db' = fold (\<lambda>st d. st d) sts db) \<or> (e \<noteq> None \<and> db' = db)"
  by (auto simp: transaction_def dest: exec_all_Inr split: sum.splits)

lemma with_connection_transaction:
  "with_connection w (transaction w sts) db = (e, db') \<Longrightarrow>
   (e = None \<and> db' = fold (\<lambda>st d. st d) sts db) \<or> (e \<noteq> None \<and> db' = db)"
  using transaction_cases by (auto simp: with_connection_def split: option.splits)

lemmas statement_defs = insert_runs_def delete_statuses_def insert_statuses_def delete_checkpoints_def
  insert_checkpoints_def delete_manifests_def insert_manifests_def

lemma upsert_rows_Nil [simp]: "upsert_rows key [] table = table"
  by (simp add: upsert_rows_def delete_matching_def)

lemma persist_effect:
  assumes "persist_update_metadata to_date w rs ss cs db = (e, db')"
  shows "(e = None \<and> db' =
      db\<lparr>md_runs := md_runs db @ map (clean_run to_date) rs,
         md_statuses := upsert_rows status_key (map (clean_status to_date) ss) (md_statuses db),
         md_checkpoints := upsert_rows checkpoint_key (map (clean_checkpoint to_date) cs) (md_checkpoints db)\<rparr>) \<or>
    (e \<noteq> None \<and> db' = db)"
proof (cases "rs = [] \<and> ss = [] \<and> cs = []")
  case True
  then show ?thesis using assms by (simp add: persist_update_metadata_def)
next
  case False
  let ?sts = "persist_statements (map (clean_run to_date) rs) (map (clean_status to_date) ss) (map (clean_checkpoint to_date) cs)"
  have "fold (\<lambda>st d. st d) ?sts db =
      db\<lparr>md_runs := md_runs db @ map (clean_run to_date) rs,
         md_statuses := upsert_rows status_key (map (clean_status to_date) ss) (md_statuses db),
         md_checkpoints := upsert_rows checkpoint_key (map (clean_checkpoint to_date) cs) (md_checkpoints db)\<rparr>"
    by (simp add: persist_statements_def statement_defs upsert_rows_def delete_matching_def)
  moreover have "with_connection w (transaction w ?sts) db = (e, db')"
    using assms False by (auto simp: persist_update_metadata_def split: if_splits)
  ultimately show ?thesis using with_connection_transaction by fastforce
qed

text \<open>
  C37: Persisting a batch is all or nothing: either every run row is appended and every status and
  checkpoint row replaces the rows of its key, or the call fails and the tables are exactly as
  before, wherever the connection, a statement or the commit failed.
\<close>

theorem persist_update_metadata_atomic:
  assumes "persist_update_metadata to_date w rs ss cs db = (e, db')"
  shows "(e = None \<and> db' =
      db\<lparr>md_runs := md_runs db @ map (clean_run to_date) rs,
         md_statuses := upsert_rows status_key (map (clean_status to_date) ss) (md_statuses db),
         md_checkpoints := upsert_rows checkpoint_key (map (clean_checkpoint to_date) cs) (md_checkpoints db)\<rparr>) \<or>
    (e \<noteq> None \<and> db' = db)"
  using assms by (rule persist_effect)

section \<open>Upserts\<close>

text \<open>A key without NULL.\<close>

definition full_key :: "sql_value option list \<Rightarrow> bool" where
  "full_key k \<longleftrightarrow> None \<notin> set k"

lemma sql_match_iff: "sql_match ks ls \<longleftrightarrow> ks = ls \<and> full_key ks"
  unfolding sql_match_def full_key_def
proof (induction ks arbitrary: ls)
  case (Cons a ks)
  then show ?case by (cases a; cases ls) auto
next
  case Nil
  then show ?case by (cases ls) auto
qed

lemma delete_matching_other:
  "k \<notin> key ` set incoming \<Longrightarrow> last_by key (delete_matching key incoming table) k = last_by key table k"
  unfolding delete_matching_def
proof (rule last_by_filter)
  assume k: "k \<notin> key ` set incoming"
  fix x assume "key x = k"
  with k have "\<forall>i \<in> set incoming. key i \<noteq> key x" by (metis image_eqI)
  then show "\<not> list_ex (\<lambda>i. sql_match (key i) (key x)) incoming" by (auto simp: list_ex_iff sql_match_iff)
qed

lemma last_by_upsert:
  "last_by key (upsert_rows key incoming table) k =
     (case last_by key incoming k of None \<Rightarrow> last_by key table k | Some r \<Rightarrow> Some r)"
proof (cases "last_by key incoming k")
  case None
  then have "k \<notin> key ` set incoming" by (simp add: last_by_None)
  then show ?thesis by (simp add: None upsert_rows_def last_by_append delete_matching_other)
qed (simp add: upsert_rows_def last_by_append)

lemma distinct_upsert:
  assumes "distinct (map key table)" and "distinct (map key incoming)" and "\<forall>r \<in> set incoming. full_key (key r)"
  shows "distinct (map key (upsert_rows key incoming table))"
proof -
  have "distinct (map key (delete_matching key incoming table))"
    using assms(1) by (simp add: delete_matching_def distinct_map_filter)
  moreover have "key ` set (delete_matching key incoming table) \<inter> key ` set incoming = {}"
    using assms(3) by (auto simp: delete_matching_def list_ex_iff sql_match_iff)
  ultimately show ?thesis using assms(2) by (simp add: upsert_rows_def)
qed

text \<open>
  An upsert is a map update: the last row stored for a key is the last incoming row of that key
  when there is one and the row stored before otherwise; and when no incoming key has a NULL and
  the batch has one row per key, a table with one row per key stays so.
\<close>

theorem upsert_rows_map_update:
  "last_by key (upsert_rows key incoming table) k =
     (case last_by key incoming k of None \<Rightarrow> last_by key table k | Some r \<Rightarrow> Some r) \<and>
   (distinct (map key table) \<longrightarrow> distinct (map key incoming) \<longrightarrow> (\<forall>r \<in> set incoming. full_key (key r)) \<longrightarrow>
      distinct (map key (upsert_rows key incoming table)))"
  by (simp add: last_by_upsert distinct_upsert)

text \<open>
  A checkpoint whose date is NULL is never replaced: SQL's equality does not match it, so each
  upsert of the same row adds another copy, and the table grows with every run.
\<close>

theorem null_checkpoint_accumulates:
  assumes "cp_start_date r = None \<or> cp_end_date r = None"
  shows "(upsert_rows checkpoint_key [r] ^^ n) [] = replicate n r"
proof (induction n)
  case (Suc n)
  have "\<not> full_key (checkpoint_key r)" using assms by (auto simp: full_key_def checkpoint_key_def)
  then have "upsert_rows checkpoint_key [r] (replicate n r) = replicate n r @ [r]"
    by (simp add: upsert_rows_def delete_matching_def sql_match_iff)
  with Suc show ?case by (simp add: replicate_append_same)
qed simp

section \<open>Migrating twice\<close>

lemma migrate_table_runs:
  assumes "migrate_table w n sts m = (None, counts, db')"
    and "\<And>d. md_runs (fold (\<lambda>st d. st d) sts d) = md_runs d"
  shows "\<exists>counts0 db0. m = (None, counts0, db0) \<and> md_runs db' = md_runs db0 \<and> counts = counts0 @ [n]"
  using assms with_connection_transaction
  by (cases m) (fastforce simp: migrate_table_def Let_def split: option.splits prod.splits if_splits)

lemma migrate_tables_runs:
  assumes "migrate_tables ws legacy db = (None, counts, db')"
  shows "\<exists>rest. counts = length (new_pipeline_runs (md_runs db) (rows_or_none (lg_runs legacy))) # rest \<and>
    md_runs db' = md_runs db @ new_pipeline_runs (md_runs db) (rows_or_none (lg_runs legacy))"
proof -
  let ?new = "new_pipeline_runs (md_runs db) (rows_or_none (lg_runs legacy))"
  let ?m0 = "migrate_table (ws 0) (length ?new) [insert_runs ?new] (None, [], db)"
  have keep: "md_runs (fold (\<lambda>st d. st d) [delete_statuses a, insert_statuses a] d) = md_runs d"
    "md_runs (fold (\<lambda>st d. st d) [delete_checkpoints b, insert_checkpoints b] d) = md_runs d"
    "md_runs (fold (\<lambda>st d. st d) [delete_manifests c, insert_manifests c] d) = md_runs d" for a b c d
    by (simp_all add: statement_defs)
  from assms obtain counts0 db0 rest where m0: "?m0 = (None, counts0, db0)" "md_runs db' = md_runs db0" "counts = counts0 @ rest"
    unfolding migrate_tables_def Let_def
    by (auto dest!: migrate_table_runs [OF _ keep(3)] migrate_table_runs [OF _ keep(2)] migrate_table_runs [OF _ keep(1)])
  have "counts0 = [length ?new] \<and> md_runs db0 = md_runs db @ ?new"
  proof (cases "?new = []")
    case True
    then show ?thesis using m0(1) by (simp add: migrate_table_def)
  next
    case False
    then obtain e d where "with_connection (ws 0) (transaction (ws 0) [insert_runs ?new]) db = (e, d)"
      by (metis surj_pair)
    with m0(1) False with_connection_transaction [OF this] show ?thesis
      by (auto simp: migrate_table_def statement_defs)
  qed
  then show ?thesis using m0 by simp
qed

text \<open>
  Migrating the legacy file again brings no run twice: after a migration that went through, a
  second one from the same file adds no run row.
\<close>

theorem migrate_twice_adds_no_run:
  assumes "migrate_metadata_duckdb False (Some legacy) ws db = Some (None, counts, db')"
    and "migrate_metadata_duckdb False (Some legacy) ws' db' = Some (None, counts', db'')"
  shows "md_runs db'' = md_runs db' \<and> hd counts' = 0"
proof -
  let ?inc = "rows_or_none (lg_runs legacy)"
  have "md_runs db' = md_runs db @ new_pipeline_runs (md_runs db) ?inc"
    using migrate_tables_runs assms(1) by (fastforce simp: migrate_metadata_duckdb_def)
  moreover have "set (keep_last run_task_id ?inc) \<subseteq> set ?inc" by (rule set_keep_last)
  ultimately have "new_pipeline_runs (md_runs db') ?inc = []"
    by (auto simp: new_pipeline_runs_def filter_empty_conv)
  then show ?thesis
    using migrate_tables_runs [of ws' legacy db' counts' db''] assms(2)
    by (auto simp: migrate_metadata_duckdb_def)
qed

section \<open>Instances\<close>

definition demo_world :: store_world where
  "demo_world = \<lparr>sw_connects = (\<lambda>n. n = 2), sw_fails = (\<lambda>n. False)\<rparr>"

definition sample_run_row :: "string \<Rightarrow> date option run_record" where
  "sample_run_row i = \<lparr>run_task_id = i, run_dataset = ''d'', run_code = ''c'', run_status = ''success'',
     run_start_date = None, run_end_date = None, run_start_time = 0, run_end_time = 0, run_row_count = 1,
     run_error_stack = []\<rparr>"

definition demo_status :: "string \<Rightarrow> 'd option status_record" where
  "demo_status s = \<lparr>st_dataset = ''d'', st_code = ''c'', st_last_success_date = None, st_row_count = 0,
     st_status = s, st_updated_at = 0, st_error_stack = []\<rparr>"

definition undated_checkpoint :: "date option checkpoint_record" where
  "undated_checkpoint = \<lparr>cp_pipeline = ''p'', cp_dataset = ''d'', cp_code = ''c'', cp_start_date = None,
     cp_end_date = Some (Date 2026 1 5), cp_status = ''success'', cp_row_count = 1, cp_output_path = ''f'',
     cp_updated_at = 0, cp_error_stack = []\<rparr>"

definition demo_legacy :: legacy_db where
  "demo_legacy = \<lparr>lg_runs = Some [sample_run_row ''a'', sample_run_row ''b'', sample_run_row ''a''], lg_statuses = None,
     lg_checkpoints = Some [undated_checkpoint], lg_manifests = None\<rparr>"

lemma demo_world_connects: "connect demo_world = Some 2"
  by (simp add: connect_def demo_world_def DUCKDB_METADATA_CONNECT_MAX_RETRIES_def numeral_eq_Suc)

lemma exec_all_ok: "(\<And>n. \<not> fails n) \<Longrightarrow> exec_all fails n sts db = Inr (fold (\<lambda>st d. st d) sts db)"
  by (induction fails n sts db rule: exec_all.induct) auto

lemma demo_world_ok: "with_connection demo_world (transaction demo_world sts) db = (None, fold (\<lambda>st d. st d) sts db)"
proof -
  have "\<not> sw_fails demo_world n" for n by (simp add: demo_world_def)
  then show ?thesis by (simp add: with_connection_def demo_world_connects transaction_def exec_all_ok)
qed

theorem persist_update_metadata_atomic_witness:
  "md_statuses (snd (persist_update_metadata (\<lambda>s. None) demo_world [] [demo_status ''ok''] [] empty_metadata_db)) =
     [clean_status (\<lambda>s. None) (demo_status ''ok'')]"
proof -
  obtain db' where r: "persist_update_metadata (\<lambda>s. None) demo_world [] [demo_status ''ok''] [] empty_metadata_db = (None, db')"
    by (simp add: persist_update_metadata_def demo_world_ok)
  from persist_update_metadata_atomic [OF r] have "md_statuses db' = [clean_status (\<lambda>s. None) (demo_status ''ok'')]"
    by (simp add: empty_metadata_db_def upsert_rows_def delete_matching_def)
  then show ?thesis by (simp add: r)
qed

theorem upsert_rows_map_update_witness:
  "distinct (map status_key (upsert_rows status_key [demo_status ''b'' :: date option status_record] [demo_status ''a'']))"
  using upsert_rows_map_update [of status_key "[demo_status ''b'' :: date option status_record]" "[demo_status ''a'']"]
  by (simp add: full_key_def status_key_def)

theorem null_checkpoint_accumulates_witness:
  "(upsert_rows checkpoint_key [undated_checkpoint] ^^ 3) [] = replicate 3 undated_checkpoint"
  by (rule null_checkpoint_accumulates) (simp add: undated_checkpoint_def)

theorem migrate_twice_adds_no_run_witness:
  "\<exists>c db c' db'. migrate_metadata_duckdb False (Some demo_legacy) (\<lambda>n. demo_world) empty_metadata_db = Some (None, c, db) \<and>
     migrate_metadata_duckdb False (Some demo_legacy) (\<lambda>n. demo_world) db = Some (None, c', db') \<and>
     md_runs db' = md_runs db \<and> hd c' = 0"
proof -
  have ok: "\<exists>c db'. migrate_metadata_duckdb False (Some demo_legacy) (\<lambda>n. demo_world) db = Some (None, c, db')" for db
    by (simp add: migrate_metadata_duckdb_def migrate_tables_def Let_def migrate_table_def demo_world_ok)
  obtain c db where 1: "migrate_metadata_duckdb False (Some demo_legacy) (\<lambda>n. demo_world) empty_metadata_db = Some (None, c, db)"
    using ok by blast
  obtain c' db' where 2: "migrate_metadata_duckdb False (Some demo_legacy) (\<lambda>n. demo_world) db = Some (None, c', db')"
    using ok by blast
  from migrate_twice_adds_no_run [OF 1 2] 1 2 show ?thesis by blast
qed

end
