(* ===== verification/Lifecycle.thy ===== *)
theory Lifecycle imports Metadata_Store begin

text \<open>
  \<open>src/pipeline/lifecycle.py\<close>: the metadata rows of a finished task, the batch that buffers them
  between data writes, and its flush into the metadata store.

  Identifiers and times are parameters of the row constructors (\<open>uuid4\<close>, \<open>datetime.now\<close>). Refreshing
  the registry after a run only logs its failures and is not part of the model.
\<close>

section \<open>Rows of a task\<close>

record task_ref =
  tr_pipeline :: string
  tr_dataset :: string
  tr_code :: string
  tr_start_date :: string
  tr_end_date :: string
  tr_output_path :: string
  tr_checkpoint_start_date :: "string option"

text \<open>\<open>a or b\<close> for an optional text.\<close>

definition text_or :: "string option \<Rightarrow> string \<Rightarrow> string" where
  "text_or a b = (case a of None \<Rightarrow> b | Some s \<Rightarrow> if s = [] then b else s)"

definition effective_checkpoint_start_date :: "task_ref \<Rightarrow> string" where
  "effective_checkpoint_start_date t = text_or (tr_checkpoint_start_date t) (tr_start_date t)"

type_synonym raw_run = "string option run_record"
type_synonym raw_status = "string option status_record"
type_synonym raw_checkpoint = "string option checkpoint_record"

record lifecycle_rows =
  lr_run :: "raw_run option"
  lr_status :: "raw_status option"
  lr_checkpoint :: "raw_checkpoint option"

text \<open>What the row constructors read from their surroundings.\<close>

record row_source =
  rw_uuid :: string
  rw_now :: int

definition run_row ::
  "row_source \<Rightarrow> string \<Rightarrow> string \<Rightarrow> string \<Rightarrow> string \<Rightarrow> string \<Rightarrow> int \<Rightarrow> int \<Rightarrow> int \<Rightarrow> string \<Rightarrow> raw_run" where
  "run_row src dataset code status start_date end_date start_time end_time row_count error_stack =
     \<lparr>run_task_id = rw_uuid src, run_dataset = dataset, run_code = code, run_status = status,
      run_start_date = Some start_date, run_end_date = Some end_date, run_start_time = start_time,
      run_end_time = end_time, run_row_count = row_count, run_error_stack = error_stack\<rparr>"

definition status_row ::
  "row_source \<Rightarrow> string \<Rightarrow> string \<Rightarrow> string option \<Rightarrow> int \<Rightarrow> string \<Rightarrow> string \<Rightarrow> raw_status" where
  "status_row src dataset code last_success_date row_count status error_stack =
     \<lparr>st_dataset = dataset, st_code = code, st_last_success_date = last_success_date, st_row_count = row_count,
      st_status = status, st_updated_at = rw_now src, st_error_stack = error_stack\<rparr>"

definition checkpoint_row ::
  "row_source \<Rightarrow> string \<Rightarrow> string \<Rightarrow> string \<Rightarrow> string \<Rightarrow> string \<Rightarrow> string \<Rightarrow> int \<Rightarrow> string \<Rightarrow> string \<Rightarrow> raw_checkpoint" where
  "checkpoint_row src pipeline dataset code start_date end_date status row_count output_path error_stack =
     \<lparr>cp_pipeline = pipeline, cp_dataset = dataset, cp_code = code, cp_start_date = Some start_date,
      cp_end_date = Some end_date, cp_status = status, cp_row_count = row_count, cp_output_path = output_path,
      cp_updated_at = rw_now src, cp_error_stack = error_stack\<rparr>"

definition success_rows ::
  "row_source \<Rightarrow> task_ref \<Rightarrow> int \<Rightarrow> int \<Rightarrow> int \<Rightarrow> string option \<Rightarrow> string option \<Rightarrow> lifecycle_rows" where
  "success_rows src t started_at ended_at row_count output_path last_success_date =
     \<lparr>lr_run = Some (run_row src (tr_dataset t) (tr_code t) ''success'' (tr_start_date t) (tr_end_date t)
                 started_at ended_at row_count []),
      lr_status = Some (status_row src (tr_dataset t) (tr_code t) (Some (text_or last_success_date (tr_end_date t)))
                 row_count ''success'' []),
      lr_checkpoint = Some (checkpoint_row src (tr_pipeline t) (tr_dataset t) (tr_code t)
                 (effective_checkpoint_start_date t) (tr_end_date t) ''success'' row_count
                 (text_or output_path (tr_output_path t)) [])\<rparr>"

definition failure_rows ::
  "row_source \<Rightarrow> task_ref \<Rightarrow> int \<Rightarrow> int \<Rightarrow> string \<Rightarrow> string option \<Rightarrow> lifecycle_rows" where
  "failure_rows src t started_at ended_at error_stack output_path =
     \<lparr>lr_run = Some (run_row src (tr_dataset t) (tr_code t) ''failed'' (tr_start_date t) (tr_end_date t)
                 started_at ended_at 0 error_stack),
      lr_status = Some (status_row src (tr_dataset t) (tr_code t) None 0 ''failed'' error_stack),
      lr_checkpoint = Some (checkpoint_row src (tr_pipeline t) (tr_dataset t) (tr_code t)
                 (effective_checkpoint_start_date t) (tr_end_date t) ''failed'' 0
                 (text_or output_path (tr_output_path t)) error_stack)\<rparr>"

definition skipped_rows ::
  "row_source \<Rightarrow> task_ref \<Rightarrow> string \<Rightarrow> int \<Rightarrow> int \<Rightarrow> string \<Rightarrow> lifecycle_rows" where
  "skipped_rows src t status started_at ended_at reason =
     \<lparr>lr_run = Some (run_row src (tr_dataset t) (tr_code t) status (tr_start_date t) (tr_end_date t)
                 started_at ended_at 0 reason),
      lr_status = Some (status_row src (tr_dataset t) (tr_code t) None 0 status reason),
      lr_checkpoint = Some (checkpoint_row src (tr_pipeline t) (tr_dataset t) (tr_code t)
                 (effective_checkpoint_start_date t) (tr_end_date t) status 0 (tr_output_path t) reason)\<rparr>"

section \<open>The batch\<close>

datatype count_by = CountRuns | CountCheckpoints

record metadata_batch =
  mb_runs :: "raw_run list"
  mb_statuses :: "raw_status list"
  mb_checkpoints :: "raw_checkpoint list"
  mb_flush_size :: nat
  mb_count_by :: count_by

text \<open>\<open>None\<close> is the \<open>ValueError\<close> for an unknown counter.\<close>

definition new_batch :: "int \<Rightarrow> string \<Rightarrow> metadata_batch option" where
  "new_batch flush_size count_by =
     (if count_by \<notin> {''run'', ''checkpoint''} then None
      else Some \<lparr>mb_runs = [], mb_statuses = [], mb_checkpoints = [], mb_flush_size = nat (max flush_size 1),
                 mb_count_by = (if count_by = ''run'' then CountRuns else CountCheckpoints)\<rparr>)"

definition pending_count :: "metadata_batch \<Rightarrow> nat" where
  "pending_count b = (case mb_count_by b of CountRuns \<Rightarrow> length (mb_runs b) | CountCheckpoints \<Rightarrow> length (mb_checkpoints b))"

definition option_list :: "'a option \<Rightarrow> 'a list" where
  "option_list x = (case x of None \<Rightarrow> [] | Some y \<Rightarrow> [y])"

text \<open>The locked part of \<open>add\<close>; the second component says whether a flush is due.\<close>

definition add_rows :: "lifecycle_rows \<Rightarrow> metadata_batch \<Rightarrow> metadata_batch \<times> bool" where
  "add_rows rows b =
     (let b' = b\<lparr>mb_runs := mb_runs b @ option_list (lr_run rows),
                mb_statuses := mb_statuses b @ option_list (lr_status rows),
                mb_checkpoints := mb_checkpoints b @ option_list (lr_checkpoint rows)\<rparr>
      in (b', mb_flush_size b' \<le> pending_count b'))"

text \<open>\<open>_dedupe_rows\<close>: a dictionary keeps the place of the first row of a key and the value of the last.\<close>

definition dedupe_rows :: "('r \<Rightarrow> 'k) \<Rightarrow> 'r list \<Rightarrow> 'r list" where
  "dedupe_rows key rows = map snd (fold (\<lambda>r d. AList.update (key r) r d) rows [])"

definition status_fields :: "'d status_record \<Rightarrow> string \<times> string" where
  "status_fields r = (st_dataset r, st_code r)"

definition checkpoint_fields :: "'d checkpoint_record \<Rightarrow> string \<times> string \<times> string \<times> 'd \<times> 'd" where
  "checkpoint_fields r = (cp_pipeline r, cp_dataset r, cp_code r, cp_start_date r, cp_end_date r)"

type_synonym batch_rows = "raw_run list \<times> raw_status list \<times> raw_checkpoint list"

text \<open>The locked part of \<open>flush\<close>: the rows to write, and the emptied batch.\<close>

definition take_rows :: "metadata_batch \<Rightarrow> batch_rows \<times> metadata_batch" where
  "take_rows b =
     ((mb_runs b, dedupe_rows status_fields (mb_statuses b), dedupe_rows checkpoint_fields (mb_checkpoints b)),
      b\<lparr>mb_runs := [], mb_statuses := [], mb_checkpoints := []\<rparr>)"

text \<open>After a failed write the rows go back in front of those added meanwhile.\<close>

definition requeue :: "batch_rows \<Rightarrow> metadata_batch \<Rightarrow> metadata_batch" where
  "requeue rows b =
     (case rows of (runs, statuses, checkpoints) \<Rightarrow>
        b\<lparr>mb_runs := runs @ mb_runs b, mb_statuses := statuses @ mb_statuses b,
          mb_checkpoints := checkpoints @ mb_checkpoints b\<rparr>)"

text \<open>What the store does with a batch: the error, if any, and the store afterwards.\<close>

type_synonym ('e, 'db) persist = "raw_run list \<Rightarrow> raw_status list \<Rightarrow> raw_checkpoint list \<Rightarrow> 'db \<Rightarrow> 'e option \<times> 'db"

text \<open>\<open>flush\<close> and \<open>add\<close> of one thread, uninterrupted.\<close>

definition flush :: "('e, 'db) persist \<Rightarrow> metadata_batch \<Rightarrow> 'db \<Rightarrow> 'e option \<times> metadata_batch \<times> 'db" where
  "flush persist b db =
     (if pending_count b = 0 then (None, b, db)
      else
        (case take_rows b of
           ((runs, statuses, checkpoints), b') \<Rightarrow>
             (case persist runs statuses checkpoints db of
                (None, db') \<Rightarrow> (None, b', db')
              | (Some e, db') \<Rightarrow> (Some e, requeue (runs, statuses, checkpoints) b', db'))))"

definition add :: "('e, 'db) persist \<Rightarrow> lifecycle_rows \<Rightarrow> metadata_batch \<Rightarrow> 'db \<Rightarrow> 'e option \<times> metadata_batch \<times> 'db" where
  "add persist rows b db =
     (case add_rows rows b of (b', due) \<Rightarrow> if due then flush persist b' db else (None, b', db))"

section \<open>Threads\<close>

text \<open>
  Several threads share the batch. The write lock admits one flush at a time; the short lock makes
  \<open>add_rows\<close>, \<open>take_rows\<close> and \<open>requeue\<close> atomic, so rows may be added while a flush is in flight.
  \<open>bs_added\<close> records what was added, in order.
\<close>

record 'db batch_sys =
  bs_batch :: metadata_batch
  bs_inflight :: "batch_rows option"
  bs_db :: 'db
  bs_added :: "lifecycle_rows list"

inductive batch_step :: "('w \<Rightarrow> ('e, 'db) persist) \<Rightarrow> 'db batch_sys \<Rightarrow> 'db batch_sys \<Rightarrow> bool"
  for persist where
  add_step:
    "batch_step persist s (s\<lparr>bs_batch := fst (add_rows rows (bs_batch s)), bs_added := bs_added s @ [rows]\<rparr>)"
| begin_flush:
    "bs_inflight s = None \<Longrightarrow> pending_count (bs_batch s) \<noteq> 0 \<Longrightarrow> take_rows (bs_batch s) = (rows, b) \<Longrightarrow>
     batch_step persist s (s\<lparr>bs_batch := b, bs_inflight := Some rows\<rparr>)"
| flush_done:
    "bs_inflight s = Some (rs, ss, cs) \<Longrightarrow> persist w rs ss cs (bs_db s) = (None, db) \<Longrightarrow>
     batch_step persist s (s\<lparr>bs_inflight := None, bs_db := db\<rparr>)"
| flush_failed:
    "bs_inflight s = Some (rs, ss, cs) \<Longrightarrow> persist w rs ss cs (bs_db s) = (Some e, db) \<Longrightarrow>
     batch_step persist s
       (s\<lparr>bs_batch := requeue (rs, ss, cs) (bs_batch s), bs_inflight := None, bs_db := db\<rparr>)"

inductive batch_reachable :: "('w \<Rightarrow> ('e, 'db) persist) \<Rightarrow> metadata_batch \<Rightarrow> 'db \<Rightarrow> 'db batch_sys \<Rightarrow> bool"
  for persist b0 db0 where
  start: "batch_reachable persist b0 db0 \<lparr>bs_batch = b0, bs_inflight = None, bs_db = db0, bs_added = []\<rparr>"
| step: "batch_reachable persist b0 db0 s \<Longrightarrow> batch_step persist s t \<Longrightarrow> batch_reachable persist b0 db0 t"

section \<open>The contract of the store, and what the batch makes of it\<close>

lemma map_of_fold_update:
  "map_of (fold (\<lambda>r d. AList.update (key r) r d) rows d) k =
     (case last_by key rows k of None \<Rightarrow> map_of d k | Some r \<Rightarrow> Some r)"
  by (induction rows arbitrary: d) (auto simp: last_by_Cons update_conv' split: option.split)

lemma keys_fold_update:
  "\<forall>kv \<in> set d. fst kv = key (snd kv) \<Longrightarrow>
   \<forall>kv \<in> set (fold (\<lambda>r d. AList.update (key r) r d) rows d). fst kv = key (snd kv)"
proof (induction rows arbitrary: d)
  case (Cons r rows)
  have "set (AList.update (key r) r d) \<subseteq> insert (key r, r) (set d)"
    by (induction d) auto
  with Cons.prems have "\<forall>kv \<in> set (AList.update (key r) r d). fst kv = key (snd kv)" by fastforce
  then show ?case using Cons.IH by simp
qed simp

lemma distinct_fold_update:
  "distinct (map fst d) \<Longrightarrow> distinct (map fst (fold (\<lambda>r d. AList.update (key r) r d) rows d))"
  by (induction rows arbitrary: d) (simp_all add: distinct_update)

lemma map_of_rev_distinct: "distinct (map fst d) \<Longrightarrow> map_of (rev d) k = map_of d k"
proof (induction d)
  case (Cons x d)
  have "k \<notin> fst ` set d \<Longrightarrow> map_of d k = None" by (simp add: map_of_eq_None_iff)
  with Cons show ?case by (cases x) (auto simp: map_add_def split: option.split)
qed simp

lemma last_by_distinct:
  assumes "distinct (map fst d)" and "\<forall>kv \<in> set d. fst kv = key (snd kv)"
  shows "last_by key (map snd d) k = map_of d k"
proof -
  have "map (\<lambda>x. (key x, x)) (map snd d) = d" using assms(2) by (induction d) auto
  then have "last_by key (map snd d) k = map_of (rev d) k" by (simp add: last_by_def)
  also have "\<dots> = map_of d k" using assms(1) by (rule map_of_rev_distinct)
  finally show ?thesis .
qed

lemma dedupe_rows_last [simp]: "last_by key (dedupe_rows key rows) k = last_by key rows k"
  using map_of_fold_update [of key rows "[]" k] distinct_fold_update [of "[]" key rows] keys_fold_update [of "[]" key rows]
  by (simp add: dedupe_rows_def last_by_distinct split: option.splits)

lemma dedupe_rows_distinct: "distinct (map key (dedupe_rows key rows))"
proof -
  have "map key (dedupe_rows key rows) = map fst (fold (\<lambda>r d. AList.update (key r) r d) rows [])"
    using keys_fold_update [of "[]" key rows] by (simp add: dedupe_rows_def)
  then show ?thesis by (simp add: distinct_fold_update)
qed

text \<open>Rows of a batch, of a flush in flight and of what was added.\<close>

definition inflight_runs :: "batch_rows option \<Rightarrow> raw_run list" where
  "inflight_runs x = (case x of None \<Rightarrow> [] | Some (rs, ss, cs) \<Rightarrow> rs)"

definition inflight_statuses :: "batch_rows option \<Rightarrow> raw_status list" where
  "inflight_statuses x = (case x of None \<Rightarrow> [] | Some (rs, ss, cs) \<Rightarrow> ss)"

definition added_runs :: "lifecycle_rows list \<Rightarrow> raw_run list" where
  "added_runs added = concat (map (\<lambda>r. option_list (lr_run r)) added)"

definition added_statuses :: "lifecycle_rows list \<Rightarrow> raw_status list" where
  "added_statuses added = concat (map (\<lambda>r. option_list (lr_status r)) added)"

lemma added_runs_snoc: "added_runs (added @ [r]) = added_runs added @ option_list (lr_run r)"
  by (simp add: added_runs_def)

lemma added_statuses_snoc: "added_statuses (added @ [r]) = added_statuses added @ option_list (lr_status r)"
  by (simp add: added_statuses_def)

text \<open>
  The interface of a metadata store, as the batch uses it: a write either appends every run row and
  lets the last status row of each key override the stored one, or fails and changes nothing.
\<close>

locale metadata_sink =
  fixes persist :: "'w \<Rightarrow> ('e, 'db) persist"
    and stored_runs :: "'db \<Rightarrow> 'run list" and store_run :: "raw_run \<Rightarrow> 'run"
    and stored_status :: "'db \<Rightarrow> string \<times> string \<Rightarrow> 'st option" and store_status :: "raw_status \<Rightarrow> 'st"
  assumes persist_ok_runs:
      "persist w rs ss cs db = (None, db') \<Longrightarrow> stored_runs db' = stored_runs db @ map store_run rs"
    and persist_ok_status:
      "persist w rs ss cs db = (None, db') \<Longrightarrow>
       stored_status db' k = (case last_by status_fields ss k of None \<Rightarrow> stored_status db k | Some r \<Rightarrow> Some (store_status r))"
    and persist_fail: "persist w rs ss cs db = (Some e, db') \<Longrightarrow> db' = db"
begin

definition status_after :: "'db \<Rightarrow> raw_status list \<Rightarrow> string \<times> string \<Rightarrow> 'st option" where
  "status_after db ss k = (case last_by status_fields ss k of None \<Rightarrow> stored_status db k | Some r \<Rightarrow> Some (store_status r))"

lemma status_after_append: "status_after db (ss @ ts) k =
  (case last_by status_fields ts k of None \<Rightarrow> status_after db ss k | Some r \<Rightarrow> Some (store_status r))"
  by (simp add: status_after_def last_by_append split: option.split)

lemma status_after_snoc:
  "status_after db (xs @ ys @ ts) k =
    (case last_by status_fields ts k of None \<Rightarrow> status_after db (xs @ ys) k | Some r \<Rightarrow> Some (store_status r))"
  using status_after_append [of db "xs @ ys" ts k] by simp

lemma status_after_persist:
  assumes "persist w rs ss cs db = (None, db')"
  shows "status_after db' ts k = status_after db (ss @ ts) k"
  unfolding status_after_append
  by (simp add: status_after_def persist_ok_status [OF assms] split: option.split)

definition batch_inv :: "'db \<Rightarrow> 'db batch_sys \<Rightarrow> bool" where
  "batch_inv db0 s \<longleftrightarrow>
     stored_runs (bs_db s) @ map store_run (inflight_runs (bs_inflight s) @ mb_runs (bs_batch s)) =
       stored_runs db0 @ map store_run (added_runs (bs_added s)) \<and>
     (\<forall>k. status_after (bs_db s) (inflight_statuses (bs_inflight s) @ mb_statuses (bs_batch s)) k =
       status_after db0 (added_statuses (bs_added s)) k)"

lemma batch_inv_step:
  assumes "batch_step persist s t" and "batch_inv db0 s"
  shows "batch_inv db0 t"
  using assms
proof (cases rule: batch_step.cases)
  case (add_step rows)
  then show ?thesis
    using assms(2)
    by (simp add: batch_inv_def add_rows_def Let_def added_runs_snoc added_statuses_snoc status_after_snoc
        status_after_append [of db0] split: option.split)
next
  case (begin_flush rows b)
  then show ?thesis
    using assms(2)
    by (auto simp: batch_inv_def take_rows_def inflight_runs_def inflight_statuses_def status_after_def)
next
  case (flush_done rs ss cs w db)
  then show ?thesis
    using assms(2) persist_ok_runs [OF flush_done(3)]
    by (simp add: batch_inv_def inflight_runs_def inflight_statuses_def status_after_persist [OF flush_done(3)])
next
  case (flush_failed rs ss cs w e db)
  then show ?thesis
    using assms(2) persist_fail [OF flush_failed(3)]
    by (auto simp: batch_inv_def requeue_def inflight_runs_def inflight_statuses_def)
qed

lemma batch_inv_reachable:
  assumes "batch_reachable persist b0 db0 s" and "mb_runs b0 = []" and "mb_statuses b0 = []"
  shows "batch_inv db0 s"
  using assms(1)
proof (induction rule: batch_reachable.induct)
  case start
  then show ?case
    using assms(2,3)
    by (simp add: batch_inv_def inflight_runs_def inflight_statuses_def added_runs_def added_statuses_def)
next
  case (step s t)
  then show ?case by (blast intro: batch_inv_step)
qed

lemma runs_conserved:
  assumes "batch_reachable persist b0 db0 s" and "mb_runs b0 = []" and "mb_statuses b0 = []"
  shows "stored_runs (bs_db s) @ map store_run (inflight_runs (bs_inflight s) @ mb_runs (bs_batch s)) =
    stored_runs db0 @ map store_run (added_runs (bs_added s))"
  using batch_inv_reachable [OF assms] by (simp add: batch_inv_def)

lemma settled_status:
  assumes "batch_reachable persist b0 db0 s" and "mb_runs b0 = []" and "mb_statuses b0 = []"
    and "bs_inflight s = None" and "mb_statuses (bs_batch s) = []"
  shows "stored_status (bs_db s) k =
    (case last_by status_fields (added_statuses (bs_added s)) k of
       None \<Rightarrow> stored_status db0 k | Some r \<Rightarrow> Some (store_status r))"
proof -
  have "status_after (bs_db s) (inflight_statuses (bs_inflight s) @ mb_statuses (bs_batch s)) k =
      status_after db0 (added_statuses (bs_added s)) k"
    using batch_inv_reachable [OF assms(1-3)] unfolding batch_inv_def by blast
  then show ?thesis using assms(4,5) by (simp add: inflight_statuses_def status_after_def)
qed

end

text \<open>The DuckDB store keeps the contract.\<close>

definition stored_status :: "metadata_db \<Rightarrow> string \<times> string \<Rightarrow> date option status_record option" where
  "stored_status db = last_by status_fields (md_statuses db)"

lemma status_key_fields: "last_by status_fields rows (d, c) = last_by status_key rows [Some (SqlText d), Some (SqlText c)]"
  by (induction rows) (auto simp: last_by_Cons status_fields_def status_key_def split: option.split)

lemma last_by_clean_status:
  "last_by status_fields (map (clean_status to_date) ss) k = map_option (clean_status to_date) (last_by status_fields ss k)"
  by (induction ss) (auto simp: last_by_Cons status_fields_def clean_status_def split: option.split)

lemma stored_status_upsert:
  "last_by status_fields (upsert_rows status_key incoming table) k =
     (case last_by status_fields incoming k of None \<Rightarrow> last_by status_fields table k | Some r \<Rightarrow> Some r)"
proof (cases k)
  case (Pair d c)
  show ?thesis unfolding Pair status_key_fields by (simp add: last_by_upsert)
qed

interpretation duckdb_sink: metadata_sink "persist_update_metadata to_date" md_runs "clean_run to_date"
  stored_status "clean_status to_date" for to_date
proof
  fix w rs ss cs db db' k
  assume p: "persist_update_metadata to_date w rs ss cs db = (None, db')"
  show "md_runs db' = md_runs db @ map (clean_run to_date) rs"
    using persist_effect [OF p] by auto
  show "stored_status db' k = (case last_by status_fields ss k of
      None \<Rightarrow> stored_status db k | Some r \<Rightarrow> Some (clean_status to_date r))"
    using persist_effect [OF p]
    by (auto simp: stored_status_def stored_status_upsert last_by_clean_status split: option.split)
next
  fix w rs ss cs db e db'
  assume p: "persist_update_metadata to_date w rs ss cs db = (Some e, db')"
  then show "db' = db" using persist_effect [OF p] by auto
qed

section \<open>Properties\<close>

text \<open>
  C26: No run row is lost, duplicated or reordered, however threads interleave their additions with
  flushes and whichever flushes fail: the rows in the store, followed by those in flight and those
  pending, are at every moment the rows stored at the start followed by all rows added, in order.
\<close>

theorem batch_conserves_runs:
  assumes "batch_reachable (persist_update_metadata to_date) b0 db0 s" and "mb_runs b0 = []" and "mb_statuses b0 = []"
  shows "md_runs (bs_db s) @ map (clean_run to_date) (inflight_runs (bs_inflight s) @ mb_runs (bs_batch s)) =
    md_runs db0 @ map (clean_run to_date) (added_runs (bs_added s))"
  using assms by (rule duckdb_sink.runs_conserved)

text \<open>
  C27: Once everything is flushed the status table agrees with the additions: for every dataset and
  code its row is the last status added, whatever was retried on the way, and the row from before
  when none was added.
\<close>

theorem flushed_status_is_last_added:
  assumes "batch_reachable (persist_update_metadata to_date) b0 db0 s" and "mb_runs b0 = []" and "mb_statuses b0 = []"
    and "bs_inflight s = None" and "mb_statuses (bs_batch s) = []"
  shows "stored_status (bs_db s) k =
    (case last_by status_fields (added_statuses (bs_added s)) k of
       None \<Rightarrow> stored_status db0 k | Some r \<Rightarrow> Some (clean_status to_date r))"
  using assms by (rule duckdb_sink.settled_status)

text \<open>
  A failure erases the date of the last success. When the rows of a failed task are persisted,
  the status row of its dataset and code has no last success date any more, whatever the table
  held before.
\<close>

theorem failure_erases_last_success:
  assumes "persist_update_metadata to_date w
      (option_list (lr_run (failure_rows src t started ended err out)))
      (option_list (lr_status (failure_rows src t started ended err out)))
      (option_list (lr_checkpoint (failure_rows src t started ended err out))) db = (None, db')"
  shows "map_option st_last_success_date (stored_status db' (tr_dataset t, tr_code t)) = Some None"
  using duckdb_sink.persist_ok_status [OF assms, of "(tr_dataset t, tr_code t)"]
  by (simp add: failure_rows_def option_list_def status_row_def last_by_Cons status_fields_def clean_status_def coerce_date_def)

section \<open>Instances\<close>

definition demo_task :: task_ref where
  "demo_task = \<lparr>tr_pipeline = ''p'', tr_dataset = ''d'', tr_code = ''c'', tr_start_date = ''2026-01-05'',
     tr_end_date = ''2026-01-06'', tr_output_path = ''f'', tr_checkpoint_start_date = None\<rparr>"

definition demo_failed :: lifecycle_rows where
  "demo_failed = failure_rows \<lparr>rw_uuid = ''1'', rw_now = 1\<rparr> demo_task 0 1 ''boom'' None"

definition demo_succeeded :: lifecycle_rows where
  "demo_succeeded = success_rows \<lparr>rw_uuid = ''2'', rw_now = 2\<rparr> demo_task 1 2 10 None None"

definition demo_batch :: metadata_batch where
  "demo_batch = \<lparr>mb_runs = [], mb_statuses = [], mb_checkpoints = [], mb_flush_size = 1, mb_count_by = CountRuns\<rparr>"

definition dead_world :: store_world where
  "dead_world = \<lparr>sw_connects = (\<lambda>n. False), sw_fails = (\<lambda>n. False)\<rparr>"

abbreviation demo_dates :: "string \<Rightarrow> date option" where
  "demo_dates s \<equiv> None"

lemma dead_world_fails: "with_connection dead_world f db = (Some ConnectFailed, db)"
  by (simp add: with_connection_def connect_def dead_world_def DUCKDB_METADATA_CONNECT_MAX_RETRIES_def numeral_eq_Suc)

lemma demo_persist_ok:
  "\<exists>db'. persist_update_metadata demo_dates demo_world rs ss cs db = (None, db')"
  by (simp add: persist_update_metadata_def demo_world_ok)

lemma demo_persist_fails:
  "rs \<noteq> [] \<Longrightarrow> persist_update_metadata demo_dates dead_world rs ss cs db = (Some ConnectFailed, db)"
  by (simp add: persist_update_metadata_def dead_world_fails)

text \<open>
  A failed task is added, its flush starts, the task's success is added meanwhile, the flush fails,
  and the next one goes through.
\<close>

lemma demo_run:
  "\<exists>s. batch_reachable (persist_update_metadata demo_dates) demo_batch empty_metadata_db s \<and>
     bs_inflight s = None \<and> bs_batch s = demo_batch \<and> bs_added s = [demo_failed, demo_succeeded]"
proof -
  let ?p = "persist_update_metadata demo_dates"
  let ?s0 = "\<lparr>bs_batch = demo_batch, bs_inflight = None, bs_db = empty_metadata_db, bs_added = []\<rparr>"
  note rows = add_rows_def demo_batch_def demo_failed_def demo_succeeded_def failure_rows_def success_rows_def
    option_list_def take_rows_def pending_count_def requeue_def Let_def
  have 0: "batch_reachable ?p demo_batch empty_metadata_db ?s0" by (rule start)
  define s1 where "s1 = ?s0\<lparr>bs_batch := fst (add_rows demo_failed (bs_batch ?s0)), bs_added := bs_added ?s0 @ [demo_failed]\<rparr>"
  have 1: "batch_reachable ?p demo_batch empty_metadata_db s1" unfolding s1_def by (rule step [OF 0 add_step])
  obtain rs ss cs b where t1: "take_rows (bs_batch s1) = ((rs, ss, cs), b)" by (metis surj_pair)
  then have rs: "rs \<noteq> []" and b: "b = demo_batch" by (auto simp: s1_def rows)
  define s2 where "s2 = s1\<lparr>bs_batch := b, bs_inflight := Some (rs, ss, cs)\<rparr>"
  have 2: "batch_reachable ?p demo_batch empty_metadata_db s2"
    unfolding s2_def by (rule step [OF 1 begin_flush [OF _ _ t1]]) (simp_all add: s1_def rows)
  define s3 where "s3 = s2\<lparr>bs_batch := fst (add_rows demo_succeeded (bs_batch s2)), bs_added := bs_added s2 @ [demo_succeeded]\<rparr>"
  have 3: "batch_reachable ?p demo_batch empty_metadata_db s3" unfolding s3_def by (rule step [OF 2 add_step])
  define s4 where "s4 = s3\<lparr>bs_batch := requeue (rs, ss, cs) (bs_batch s3), bs_inflight := None, bs_db := bs_db s3\<rparr>"
  have 4: "batch_reachable ?p demo_batch empty_metadata_db s4"
    unfolding s4_def
    by (rule step [OF 3 flush_failed [where persist = ?p and w = dead_world and ss = ss and cs = cs, OF _ demo_persist_fails [OF rs]]])
      (simp add: s3_def s2_def)
  obtain rs' ss' cs' b' where t4: "take_rows (bs_batch s4) = ((rs', ss', cs'), b')" by (metis surj_pair)
  then have b': "b' = demo_batch" by (auto simp: s4_def s3_def s2_def b rows)
  define s5 where "s5 = s4\<lparr>bs_batch := b', bs_inflight := Some (rs', ss', cs')\<rparr>"
  have 5: "batch_reachable ?p demo_batch empty_metadata_db s5"
    unfolding s5_def by (rule step [OF 4 begin_flush [OF _ _ t4]]) (simp_all add: s4_def s3_def s2_def b rows)
  obtain db where p: "?p demo_world rs' ss' cs' (bs_db s5) = (None, db)" using demo_persist_ok by blast
  have "batch_reachable ?p demo_batch empty_metadata_db (s5\<lparr>bs_inflight := None, bs_db := db\<rparr>)"
    by (rule step [OF 5 flush_done [where persist = ?p, OF _ p]]) (simp add: s5_def)
  moreover have "bs_inflight (s5\<lparr>bs_inflight := None, bs_db := db\<rparr>) = None"
      "bs_batch (s5\<lparr>bs_inflight := None, bs_db := db\<rparr>) = demo_batch"
      "bs_added (s5\<lparr>bs_inflight := None, bs_db := db\<rparr>) = [demo_failed, demo_succeeded]"
    by (simp_all add: s5_def s4_def s3_def s2_def s1_def b')
  ultimately show ?thesis by blast
qed

lemma demo_status_rows:
  "last_by status_fields (added_statuses [demo_failed, demo_succeeded]) (''d'', ''c'') = lr_status demo_succeeded"
  "length (added_runs [demo_failed, demo_succeeded]) = 2"
  by (simp_all add: added_statuses_def added_runs_def demo_failed_def demo_succeeded_def failure_rows_def success_rows_def
      option_list_def last_by_Cons status_fields_def status_row_def demo_task_def)

theorem batch_conserves_runs_witness:
  "\<exists>s. batch_reachable (persist_update_metadata demo_dates) demo_batch empty_metadata_db s \<and> length (md_runs (bs_db s)) = 2"
proof -
  obtain s where s: "batch_reachable (persist_update_metadata demo_dates) demo_batch empty_metadata_db s"
      "bs_inflight s = None" "bs_batch s = demo_batch" "bs_added s = [demo_failed, demo_succeeded]"
    using demo_run by blast
  have "length (md_runs (bs_db s)) = 2"
    using batch_conserves_runs [OF s(1)] s(2-4) demo_status_rows(2)
    by (simp add: demo_batch_def inflight_runs_def empty_metadata_db_def)
  with s(1) show ?thesis by blast
qed

theorem flushed_status_is_last_added_witness:
  "\<exists>s. batch_reachable (persist_update_metadata demo_dates) demo_batch empty_metadata_db s \<and>
     stored_status (bs_db s) (''d'', ''c'') = map_option (clean_status demo_dates) (lr_status demo_succeeded)"
proof -
  obtain s where s: "batch_reachable (persist_update_metadata demo_dates) demo_batch empty_metadata_db s"
      "bs_inflight s = None" "bs_batch s = demo_batch" "bs_added s = [demo_failed, demo_succeeded]"
    using demo_run by blast
  have "stored_status (bs_db s) (''d'', ''c'') = map_option (clean_status demo_dates) (lr_status demo_succeeded)"
    using flushed_status_is_last_added [OF s(1)] s(2-4) demo_status_rows(1)
    by (simp add: demo_batch_def demo_succeeded_def success_rows_def)
  with s(1) show ?thesis by blast
qed

theorem failure_erases_last_success_witness:
  "\<exists>db'. persist_update_metadata demo_dates demo_world
        (option_list (lr_run (failure_rows \<lparr>rw_uuid = ''1'', rw_now = 1\<rparr> demo_task 0 1 ''boom'' None)))
        (option_list (lr_status (failure_rows \<lparr>rw_uuid = ''1'', rw_now = 1\<rparr> demo_task 0 1 ''boom'' None)))
        (option_list (lr_checkpoint (failure_rows \<lparr>rw_uuid = ''1'', rw_now = 1\<rparr> demo_task 0 1 ''boom'' None)))
        empty_metadata_db = (None, db') \<and>
      map_option st_last_success_date (stored_status db' (''d'', ''c'')) = Some None"
proof -
  let ?r = "failure_rows \<lparr>rw_uuid = ''1'', rw_now = 1\<rparr> demo_task 0 1 ''boom'' None"
  obtain db' where p: "persist_update_metadata demo_dates demo_world (option_list (lr_run ?r)) (option_list (lr_status ?r))
      (option_list (lr_checkpoint ?r)) empty_metadata_db = (None, db')"
    using demo_persist_ok by blast
  from failure_erases_last_success [OF p] p show ?thesis by (auto simp: demo_task_def)
qed

end
