(* ===== verification/Derived_Staging.thy ===== *)
theory Derived_Staging imports Dataset_Catalog "HOL-Library.Sublist" begin

text \<open>
  \<open>src/sources/derived/common.py\<close>: the staging directories in which a derived dataset, or one
  partition of it, is built, and the swap that moves it over the canonical directory.

  A file system is a list of entries: a path, as its segments below the Parquet directory, and a
  node. A directory is there when it or something below it has an entry. What the operating system
  does is a parameter: which renames raise, whether an interrupt arrives before the second one, and
  which entries a removal that ignores errors leaves behind.
\<close>

section \<open>Files\<close>

type_synonym path = "string list"

datatype node = Directory | Content string

type_synonym file_system = "(path \<times> node) list"

definition path_exists :: "path \<Rightarrow> file_system \<Rightarrow> bool" where
  "path_exists p fs = list_ex (\<lambda>e. prefix p (fst e)) fs"

definition move_tree :: "path \<Rightarrow> path \<Rightarrow> file_system \<Rightarrow> file_system" where
  "move_tree p q fs = map (\<lambda>e. (if prefix p (fst e) then q @ drop (length p) (fst e) else fst e, snd e)) fs"

text \<open>
  \<open>Path.rename\<close>; \<open>None\<close> is \<open>OSError\<close>. A present target is an error: the swap never renames onto a
  path that exists, unless a fresh name is taken already.
\<close>

definition rename :: "bool \<Rightarrow> path \<Rightarrow> path \<Rightarrow> file_system \<Rightarrow> file_system option" where
  "rename fails p q fs =
     (if fails \<or> \<not> path_exists p fs \<or> path_exists q fs then None else Some (move_tree p q fs))"

text \<open>\<open>shutil.rmtree(ignore_errors=True)\<close>: \<open>stuck\<close> are the entries that cannot be removed.\<close>

definition rmtree :: "(path \<Rightarrow> bool) \<Rightarrow> path \<Rightarrow> file_system \<Rightarrow> file_system" where
  "rmtree stuck p fs = filter (\<lambda>e. \<not> prefix p (fst e) \<or> stuck (fst e)) fs"

text \<open>\<open>mkdir(parents=True)\<close>: the missing directories on the way.\<close>

definition make_dirs :: "path \<Rightarrow> file_system \<Rightarrow> file_system" where
  "make_dirs p fs = fs @ map (\<lambda>x. (x, Directory)) (filter (\<lambda>x. x \<noteq> [] \<and> \<not> path_exists x fs) (prefixes p))"

definition is_empty_directory :: "path \<Rightarrow> file_system \<Rightarrow> bool" where
  "is_empty_directory p fs =
     (map_of fs p = Some Directory \<and> \<not> list_ex (\<lambda>e. strict_prefix p (fst e)) fs)"

definition remove_dir :: "path \<Rightarrow> file_system \<Rightarrow> file_system" where
  "remove_dir p fs = filter (\<lambda>e. fst e \<noteq> p) fs"

text \<open>What is below a path, relative to it.\<close>

definition below :: "file_system \<Rightarrow> path \<Rightarrow> path \<Rightarrow> node option" where
  "below fs p x = map_of fs (p @ x)"

section \<open>Staging areas\<close>

text \<open>
  The two kinds of areas, for a dataset and for one partition of it, have the same fields but for the
  partition; \<open>sa_staging_dir\<close> and \<open>sa_final_dir\<close> are the dataset's or the partition's directories.
\<close>

record staging_area =
  sa_dataset_id :: string
  sa_partition :: "(string \<times> string) option"
  sa_staging_root :: path
  sa_staging_dir :: path
  sa_final_dir :: path
  sa_backup_dir :: path
  sa_final_existed :: bool

datatype staging_error =
    UnknownDataset string
  | NotDerived string
  | NotPartitioned string
  | StagingExists
  | MkdirFailed
  | PromoteFailed
  | Interrupted

definition require_derived_dataset :: "string \<Rightarrow> staging_error + dataset_definition" where
  "require_derived_dataset dataset_id =
     (case dict_get DATASET_CATALOG dataset_id of
        None \<Rightarrow> Inl (UnknownDataset dataset_id)
      | Some d \<Rightarrow> if ds_source d \<noteq> ''derived'' then Inl (NotDerived dataset_id) else Inr d)"

text \<open>\<open>token\<close> is the hexadecimal random identifier.\<close>

definition create_derived_dataset_staging_area ::
  "string \<Rightarrow> string \<Rightarrow> file_system \<Rightarrow> staging_error + staging_area \<times> file_system" where
  "create_derived_dataset_staging_area token dataset_id fs =
     bind_res (require_derived_dataset dataset_id) (\<lambda>d.
       let name = ds_id d @ ''.'' @ token;
           staging_root = [''.staging'', name];
           staging_dir = staging_root @ [ds_id d];
           final_dir = [ds_id d]
       in if path_exists staging_dir fs then Inl StagingExists
          else let fs' = make_dirs staging_dir fs
               in Inr (\<lparr>sa_dataset_id = ds_id d, sa_partition = None, sa_staging_root = staging_root,
                        sa_staging_dir = staging_dir, sa_final_dir = final_dir, sa_backup_dir = [''.backup'', name],
                        sa_final_existed = path_exists final_dir fs'\<rparr>, fs'))"

definition create_derived_partition_staging_area ::
  "string \<Rightarrow> string \<Rightarrow> string \<Rightarrow> file_system \<Rightarrow> staging_error + staging_area \<times> file_system" where
  "create_derived_partition_staging_area token dataset_id partition_value fs =
     bind_res (require_derived_dataset dataset_id) (\<lambda>d.
       case ds_partition_column d of
         None \<Rightarrow> Inl (NotPartitioned dataset_id)
       | Some column \<Rightarrow>
           let name = ds_id d @ ''.'' @ partition_value @ ''.'' @ token;
               partition_dir_name = column @ ''='' @ partition_value;
               staging_root = [''.staging'', name];
               staging_dir = staging_root @ [ds_id d, partition_dir_name];
               final_dir = [ds_id d, partition_dir_name]
           in if path_exists staging_dir fs then Inl StagingExists
              else let fs' = make_dirs staging_dir fs
                   in Inr (\<lparr>sa_dataset_id = ds_id d, sa_partition = Some (column, partition_value),
                            sa_staging_root = staging_root, sa_staging_dir = staging_dir, sa_final_dir = final_dir,
                            sa_backup_dir = [''.backup'', name], sa_final_existed = path_exists final_dir fs'\<rparr>, fs'))"

section \<open>The swap\<close>

record swap_world =
  sw_mkdir_fails :: bool
  sw_mkdir_final_fails :: bool
  sw_backup_fails :: bool
  sw_interrupted :: bool
  sw_promote_fails :: bool
  sw_restore_fails :: bool
  sw_stuck :: "path \<Rightarrow> bool"

text \<open>
  The body of \<open>try\<close>: whether the backup was made, how it ended and the files. \<open>promote\<close> is false when a
  partition is to be deleted. An interrupt (\<open>KeyboardInterrupt\<close>) is no \<open>Exception\<close>.
\<close>

definition swap_in :: "swap_world \<Rightarrow> bool \<Rightarrow> staging_area \<Rightarrow> file_system \<Rightarrow> bool \<times> staging_error option \<times> file_system" where
  "swap_in w promote a fs =
     (let second = (\<lambda>backup_created fs.
            if sw_interrupted w then (backup_created, Some Interrupted, fs)
            else if \<not> promote then (backup_created, None, fs)
            else case rename (sw_promote_fails w) (sa_staging_dir a) (sa_final_dir a) fs of
                   None \<Rightarrow> (backup_created, Some PromoteFailed, fs)
                 | Some fs' \<Rightarrow> (backup_created, None, fs'))
      in if path_exists (sa_final_dir a) fs
         then case rename (sw_backup_fails w) (sa_final_dir a) (sa_backup_dir a) fs of
                None \<Rightarrow> (False, Some PromoteFailed, fs)
              | Some fs' \<Rightarrow> second True fs'
         else second False fs)"

text \<open>\<open>_restore_staging_swap\<close>, and the same code written out for partitions; its own failure is only logged.\<close>

definition restore_staging_swap :: "swap_world \<Rightarrow> staging_area \<Rightarrow> bool \<Rightarrow> file_system \<Rightarrow> file_system" where
  "restore_staging_swap w a backup_created fs =
     (if \<not> backup_created \<or> \<not> path_exists (sa_backup_dir a) fs \<or> path_exists (sa_final_dir a) fs then fs
      else case rename (sw_restore_fails w) (sa_backup_dir a) (sa_final_dir a) fs of None \<Rightarrow> fs | Some fs' \<Rightarrow> fs')"

text \<open>The \<open>finally\<close> clause.\<close>

definition drop_leftovers :: "swap_world \<Rightarrow> staging_area \<Rightarrow> bool \<Rightarrow> file_system \<Rightarrow> file_system" where
  "drop_leftovers w a backup_created fs =
     (let fs' = (if backup_created \<and> path_exists (sa_backup_dir a) fs then rmtree (sw_stuck w) (sa_backup_dir a) fs else fs)
      in if path_exists (sa_staging_root a) fs' then rmtree (sw_stuck w) (sa_staging_root a) fs' else fs')"

definition run_swap :: "swap_world \<Rightarrow> bool \<Rightarrow> staging_area \<Rightarrow> file_system \<Rightarrow> staging_error option \<times> file_system" where
  "run_swap w promote a fs =
     (case swap_in w promote a fs of
        (backup_created, err, fs1) \<Rightarrow>
          (let fs2 = (if err = Some PromoteFailed then restore_staging_swap w a backup_created fs1 else fs1)
           in (err, drop_leftovers w a backup_created fs2)))"

definition commit_derived_dataset_staging :: "swap_world \<Rightarrow> staging_area \<Rightarrow> file_system \<Rightarrow> staging_error option \<times> file_system" where
  "commit_derived_dataset_staging w a fs =
     (case require_derived_dataset (sa_dataset_id a) of
        Inl e \<Rightarrow> (Some e, fs)
      | Inr d \<Rightarrow>
          if sw_mkdir_fails w then (Some MkdirFailed, fs)
          else run_swap w True a (make_dirs (butlast (sa_backup_dir a)) fs))"

definition commit_derived_partition_staging ::
  "swap_world \<Rightarrow> bool \<Rightarrow> staging_area \<Rightarrow> file_system \<Rightarrow> staging_error option \<times> file_system" where
  "commit_derived_partition_staging w delete_partition a fs =
     (case require_derived_dataset (sa_dataset_id a) of
        Inl e \<Rightarrow> (Some e, fs)
      | Inr d \<Rightarrow>
          if sw_mkdir_fails w then (Some MkdirFailed, fs)
          else let fs1 = make_dirs (butlast (sa_backup_dir a)) fs
               in if sw_mkdir_final_fails w then (Some MkdirFailed, fs1)
                  else run_swap w (\<not> delete_partition) a (make_dirs (butlast (sa_final_dir a)) fs1))"

text \<open>
  \<open>cleanup_derived_dataset_staging\<close> and \<open>cleanup_derived_partition_staging\<close>: the leftovers, and the
  canonical directory only when it is empty and was not there before.
\<close>

definition cleanup_derived_staging :: "swap_world \<Rightarrow> staging_area \<Rightarrow> file_system \<Rightarrow> file_system" where
  "cleanup_derived_staging w a fs =
     (let fs' = (if path_exists (sa_staging_root a) fs then rmtree (sw_stuck w) (sa_staging_root a) fs else fs)
      in if \<not> sa_final_existed a \<and> is_empty_directory (sa_final_dir a) fs' \<and> \<not> sw_stuck w (sa_final_dir a)
         then remove_dir (sa_final_dir a) fs' else fs')"

section \<open>Trees under renames and removals\<close>

lemma path_exists_below: "path_exists p fs \<longleftrightarrow> below fs p \<noteq> (\<lambda>x. None)"
proof -
  have "map_of fs (p @ x) = None \<longleftrightarrow> (\<forall>e \<in> set fs. fst e \<noteq> p @ x)" for x
    unfolding map_of_eq_None_iff by force
  then show ?thesis
    by (auto simp: path_exists_def below_def fun_eq_iff list_ex_iff prefix_def)
qed

lemma apart_prefix: "r \<parallel> p \<Longrightarrow> prefix p z \<Longrightarrow> z \<noteq> r @ x"
  by (metis parallel_def prefix_def prefix_same_cases)

lemma below_move_to:
  assumes "\<not> path_exists q fs"
  shows "below (move_tree p q fs) q = below fs p"
proof
  fix x
  from assms show "below (move_tree p q fs) q x = below fs p x"
    by (induction fs) (auto simp: path_exists_def move_tree_def below_def prefix_def)
qed

lemma below_move_apart:
  assumes "r \<parallel> p" and "r \<parallel> q"
  shows "below (move_tree p q fs) r = below fs r"
proof
  fix x
  have "q @ y \<noteq> r @ x" "r @ x \<noteq> q @ y" for y using apart_prefix [OF assms(2)] by (metis prefix_def)+
  moreover have "\<not> prefix p (r @ x)" using apart_prefix [OF assms(1)] by blast
  ultimately show "below (move_tree p q fs) r x = below fs r x"
    by (induction fs) (auto simp: move_tree_def below_def)
qed

lemma below_move_from:
  assumes "p \<parallel> q"
  shows "below (move_tree p q fs) p = (\<lambda>x. None)"
proof
  fix x
  have "q @ y \<noteq> p @ x" "p @ x \<noteq> q @ y" for y using apart_prefix [OF assms] by (metis prefix_def)+
  then show "below (move_tree p q fs) p x = None"
    by (induction fs) (auto simp: move_tree_def below_def)
qed

lemma below_rmtree_apart: "r \<parallel> p \<Longrightarrow> below (rmtree stuck p fs) r = below fs r"
proof
  fix x
  assume "r \<parallel> p"
  then have "\<not> prefix p (r @ x)" by (metis apart_prefix)
  then show "below (rmtree stuck p fs) r x = below fs r x"
    by (induction fs) (auto simp: rmtree_def below_def)
qed

lemma below_rmtree: "(\<And>x. \<not> stuck x) \<Longrightarrow> below (rmtree stuck p fs) p = (\<lambda>x. None)"
proof
  fix x
  assume "\<And>x. \<not> stuck x"
  then show "below (rmtree stuck p fs) p x = None"
    by (induction fs) (auto simp: rmtree_def below_def)
qed

lemma below_make_dirs:
  assumes "\<not> prefix r p"
  shows "below (make_dirs p fs) r = below fs r"
proof
  fix x
  have "\<not> prefix (r @ x) p" using assms append_prefixD by blast
  then have "map_of (map (\<lambda>x. (x, Directory)) (filter (\<lambda>x. x \<noteq> [] \<and> \<not> path_exists x fs) (prefixes p))) (r @ x) = None"
    by (auto simp: map_of_eq_None_iff)
  then show "below (make_dirs p fs) r x = below fs r x"
    unfolding make_dirs_def below_def map_of_append map_add_def
    by (cases "map_of fs (r @ x)") (simp_all only: option.case)
qed

lemmas below_tree = below_move_to below_move_apart below_move_from below_rmtree_apart below_rmtree below_make_dirs

section \<open>The areas the program creates\<close>

definition area_apart :: "staging_area \<Rightarrow> bool" where
  "area_apart a \<longleftrightarrow>
     is_ok (require_derived_dataset (sa_dataset_id a)) \<and>
     sa_final_dir a \<parallel> sa_staging_root a \<and> sa_final_dir a \<parallel> sa_backup_dir a \<and>
     sa_backup_dir a \<parallel> sa_staging_root a \<and> prefix (sa_staging_root a) (sa_staging_dir a) \<and>
     sa_final_dir a \<noteq> [] \<and> butlast (sa_backup_dir a) = [''.backup''] \<and> hd (sa_final_dir a) \<noteq> ''.backup''"

lemma derived_ids: "require_derived_dataset i = Inr d \<Longrightarrow> ds_id d = i \<and> i \<noteq> ''.staging'' \<and> i \<noteq> ''.backup''"
proof -
  assume r: "require_derived_dataset i = Inr d"
  have "list_all (\<lambda>d. ds_id d \<noteq> ''.staging'' \<and> ds_id d \<noteq> ''.backup'') catalog_definitions" by code_simp
  with r show ?thesis
    by (auto simp: require_derived_dataset_def catalog_get list_all_iff split: option.splits if_splits)
qed

lemma created_dataset_area:
  assumes "create_derived_dataset_staging_area token dataset_id fs = Inr (a, fs')"
  shows "area_apart a"
proof -
  from assms obtain d where d: "require_derived_dataset dataset_id = Inr d"
    by (auto simp: create_derived_dataset_staging_area_def)
  then have "is_ok (require_derived_dataset (ds_id d))" using derived_ids [OF d] by simp
  with derived_ids [OF d] d assms show ?thesis
    by (simp add: create_derived_dataset_staging_area_def Let_def area_apart_def parallel_def split: if_splits)
      auto
qed

lemma created_partition_area:
  assumes "create_derived_partition_staging_area token dataset_id v fs = Inr (a, fs')"
  shows "area_apart a"
proof -
  from assms obtain d where d: "require_derived_dataset dataset_id = Inr d"
    by (auto simp: create_derived_partition_staging_area_def)
  then have "is_ok (require_derived_dataset (ds_id d))" using derived_ids [OF d] by simp
  with derived_ids [OF d] d assms show ?thesis
    by (simp add: create_derived_partition_staging_area_def Let_def area_apart_def parallel_def
        split: if_splits option.splits) auto
qed

section \<open>What the swap does to the canonical directory\<close>

lemma parallel_extend: "r \<parallel> p \<Longrightarrow> prefix p p' \<Longrightarrow> r \<parallel> p'"
  by (metis parallel_def prefix_order.trans prefix_same_cases)

lemma rename_Some:
  "rename fails p q fs = Some fs' \<longleftrightarrow> \<not> fails \<and> path_exists p fs \<and> \<not> path_exists q fs \<and> fs' = move_tree p q fs"
  by (auto simp: rename_def)

lemma swap_in_cases:
  assumes "area_apart a" and "swap_in w promote a fs = (bc, err, fs1)"
  shows "(bc \<longrightarrow> path_exists (sa_final_dir a) fs) \<and>
    (err = None \<longrightarrow> below fs1 (sa_final_dir a) = (if promote then below fs (sa_staging_dir a) else (\<lambda>x. None))) \<and>
    (err \<noteq> None \<and> \<not> bc \<longrightarrow> fs1 = fs) \<and>
    (err \<noteq> None \<and> bc \<longrightarrow>
       below fs1 (sa_final_dir a) = (\<lambda>x. None) \<and> below fs1 (sa_backup_dir a) = below fs (sa_final_dir a)) \<and>
    err \<in> {None, Some PromoteFailed, Some Interrupted} \<and>
    (sw_interrupted w \<and> bc \<longrightarrow> err = Some Interrupted) \<and> (err = Some Interrupted \<longrightarrow> \<not> bc \<longrightarrow> \<not> path_exists (sa_final_dir a) fs)"
proof -
  let ?f = "sa_final_dir a" and ?b = "sa_backup_dir a" and ?s = "sa_staging_dir a"
  from assms(1) have par: "?f \<parallel> ?b" "?b \<parallel> ?f" "?s \<parallel> ?f" "?s \<parallel> ?b"
    by (auto simp: area_apart_def intro: parallel_extend parallel_commute [THEN iffD1])
  have moved: "below (move_tree ?f ?b fs) ?s = below fs ?s" "below (move_tree ?f ?b fs) ?f = (\<lambda>x. None)"
    by (simp_all add: below_move_apart below_move_from par)
  have kept: "\<not> path_exists ?b fs \<Longrightarrow> below (move_tree ?f ?b fs) ?b = below fs ?f"
    by (rule below_move_to)
  show ?thesis
  proof (cases "path_exists ?f fs")
    case True
    with assms(2) moved kept show ?thesis
      by (auto simp: swap_in_def Let_def rename_Some below_move_to path_exists_below split: if_splits option.splits)
  next
    case False
    with assms(2) show ?thesis
      by (auto simp: swap_in_def Let_def rename_Some below_move_to path_exists_below split: if_splits option.splits)
  qed
qed

lemma below_leftovers: "area_apart a \<Longrightarrow> below (drop_leftovers w a bc fs) (sa_final_dir a) = below fs (sa_final_dir a)"
  by (simp add: drop_leftovers_def Let_def below_rmtree_apart area_apart_def)

lemma restore_final:
  assumes "area_apart a" and "\<not> sw_restore_fails w" and "bc \<longrightarrow> path_exists (sa_final_dir a) fs"
    and "bc \<longrightarrow> below fs1 (sa_final_dir a) = (\<lambda>x. None) \<and> below fs1 (sa_backup_dir a) = below fs (sa_final_dir a)"
    and "\<not> bc \<longrightarrow> fs1 = fs"
  shows "below (restore_staging_swap w a bc fs1) (sa_final_dir a) = below fs (sa_final_dir a)"
  using assms by (auto simp: restore_staging_swap_def rename_def path_exists_below below_move_to)

lemma run_swap_outcome:
  assumes a: "area_apart a" and run: "run_swap w promote a fs = (err, fs')"
  shows "(err = None \<longrightarrow> below fs' (sa_final_dir a) = (if promote then below fs (sa_staging_dir a) else (\<lambda>x. None))) \<and>
    (err = Some PromoteFailed \<longrightarrow> \<not> sw_restore_fails w \<longrightarrow> below fs' (sa_final_dir a) = below fs (sa_final_dir a)) \<and>
    err \<in> {None, Some PromoteFailed, Some Interrupted}"
proof -
  obtain bc e fs1 where sw: "swap_in w promote a fs = (bc, e, fs1)" by (metis surj_pair)
  note c = swap_in_cases [OF a sw]
  from run sw have "err = e"
    and f: "below fs' (sa_final_dir a) =
      below (if e = Some PromoteFailed then restore_staging_swap w a bc fs1 else fs1) (sa_final_dir a)"
    by (auto simp: run_swap_def below_leftovers [OF a])
  have "below fs' (sa_final_dir a) = below fs (sa_final_dir a)" if "e = Some PromoteFailed" "\<not> sw_restore_fails w"
    using restore_final [OF a that(2), of bc fs fs1] c that(1) f by simp
  with c f \<open>err = e\<close> show ?thesis by auto
qed

lemma below_backup_parents:
  assumes "area_apart a"
  shows "below (make_dirs (butlast (sa_backup_dir a)) fs) (sa_final_dir a) = below fs (sa_final_dir a)"
    and "below (make_dirs (butlast (sa_backup_dir a)) fs) (sa_staging_dir a) = below fs (sa_staging_dir a)"
    and "below (make_dirs (butlast (sa_final_dir a)) fs) (sa_final_dir a) = below fs (sa_final_dir a)"
    and "below (make_dirs (butlast (sa_final_dir a)) fs) (sa_staging_dir a) = below fs (sa_staging_dir a)"
proof -
  let ?f = "sa_final_dir a" and ?s = "sa_staging_dir a"
  from assms have f: "?f \<noteq> []" "hd ?f \<noteq> ''.backup''" and b: "butlast (sa_backup_dir a) = [''.backup'']"
    and bs: "sa_backup_dir a \<parallel> ?s" and fs: "?f \<parallel> ?s"
    by (auto simp: area_apart_def intro: parallel_extend)
  from f have "\<not> prefix ?f [''.backup'']" by (cases ?f) auto
  moreover have "\<not> prefix ?s [''.backup'']"
    using bs b by (metis parallel_def prefix_order.trans prefixeq_butlast)
  moreover have "\<not> prefix ?s (butlast ?f)" using fs by (metis parallel_def prefix_order.trans prefixeq_butlast)
  moreover have "\<not> prefix ?f (butlast ?f)" using f(1) by (metis append_butlast_last_id not_prefix_cases prefixeq_butlast prefix_order.antisym not_Cons_self2 same_append_eq append.right_neutral)
  ultimately show "below (make_dirs (butlast (sa_backup_dir a)) fs) ?f = below fs ?f"
    "below (make_dirs (butlast (sa_backup_dir a)) fs) ?s = below fs ?s"
    "below (make_dirs (butlast ?f) fs) ?f = below fs ?f" "below (make_dirs (butlast ?f) fs) ?s = below fs ?s"
    for fs by (simp_all add: b below_make_dirs)
qed

definition created_area :: "staging_area \<Rightarrow> bool" where
  "created_area a \<longleftrightarrow>
     (\<exists>token dataset_id fs fs'. create_derived_dataset_staging_area token dataset_id fs = Inr (a, fs')) \<or>
     (\<exists>token dataset_id v fs fs'. create_derived_partition_staging_area token dataset_id v fs = Inr (a, fs'))"

lemma created_area_apart: "created_area a \<Longrightarrow> area_apart a"
  by (auto simp: created_area_def dest: created_dataset_area created_partition_area)

lemma commit_partition_outcome:
  assumes a: "area_apart a" and commit: "commit_derived_partition_staging w del a fs = (err, fs')"
  shows "(err = None \<longrightarrow> below fs' (sa_final_dir a) = (if del then (\<lambda>x. None) else below fs (sa_staging_dir a))) \<and>
    (err \<noteq> None \<longrightarrow> err \<noteq> Some Interrupted \<longrightarrow> \<not> sw_restore_fails w \<longrightarrow>
       below fs' (sa_final_dir a) = below fs (sa_final_dir a))"
proof -
  let ?fs1 = "make_dirs (butlast (sa_backup_dir a)) fs"
  obtain d where d: "require_derived_dataset (sa_dataset_id a) = Inr d" using a by (auto simp: area_apart_def is_ok_iff)
  consider "err = Some MkdirFailed" "fs' = fs \<or> fs' = ?fs1"
    | "run_swap w (\<not> del) a (make_dirs (butlast (sa_final_dir a)) ?fs1) = (err, fs')"
    using commit by (auto simp: commit_derived_partition_staging_def d Let_def split: if_splits)
  then show ?thesis
  proof cases
    case 1
    then show ?thesis using below_backup_parents(1) [OF a] by auto
  next
    case 2
    from run_swap_outcome [OF a 2] show ?thesis by (auto simp: below_backup_parents [OF a])
  qed
qed

lemma commit_dataset_outcome:
  assumes a: "area_apart a" and commit: "commit_derived_dataset_staging w a fs = (err, fs')"
  shows "(err = None \<longrightarrow> below fs' (sa_final_dir a) = below fs (sa_staging_dir a)) \<and>
    (err \<noteq> None \<longrightarrow> err \<noteq> Some Interrupted \<longrightarrow> \<not> sw_restore_fails w \<longrightarrow>
       below fs' (sa_final_dir a) = below fs (sa_final_dir a))"
proof -
  obtain d where d: "require_derived_dataset (sa_dataset_id a) = Inr d" using a by (auto simp: area_apart_def is_ok_iff)
  show ?thesis
  proof (cases "sw_mkdir_fails w")
    case True
    then show ?thesis using commit by (auto simp: commit_derived_dataset_staging_def d)
  next
    case False
    then have run: "run_swap w True a (make_dirs (butlast (sa_backup_dir a)) fs) = (err, fs')"
      using commit by (simp add: commit_derived_dataset_staging_def d)
    from run_swap_outcome [OF a run] show ?thesis by (auto simp: below_backup_parents [OF a])
  qed
qed


lemma leftovers_removed:
  assumes "area_apart a" and "\<And>x. \<not> sw_stuck w x" and "below fs (sa_final_dir a) = (\<lambda>x. None)" and "bc"
  shows "\<not> path_exists (sa_final_dir a) (drop_leftovers w a bc fs) \<and>
    \<not> path_exists (sa_backup_dir a) (drop_leftovers w a bc fs)"
  using assms by (simp add: path_exists_below below_leftovers)
    (simp add: drop_leftovers_def Let_def below_rmtree below_rmtree_apart area_apart_def path_exists_below)

lemma run_swap_loses:
  assumes a: "area_apart a" and there: "path_exists (sa_final_dir a) fs" and fresh: "\<not> path_exists (sa_backup_dir a) fs"
    and w: "\<not> sw_backup_fails w" "\<And>x. \<not> sw_stuck w x"
    and bad: "sw_interrupted w \<or> promote \<and> sw_promote_fails w \<and> sw_restore_fails w"
    and run: "run_swap w promote a fs = (err, fs')"
  shows "err \<noteq> None \<and> \<not> path_exists (sa_final_dir a) fs' \<and> \<not> path_exists (sa_backup_dir a) fs'"
proof -
  let ?fs1 = "move_tree (sa_final_dir a) (sa_backup_dir a) fs"
  let ?e = "if sw_interrupted w then Interrupted else PromoteFailed"
  have sw: "swap_in w promote a fs = (True, Some ?e, ?fs1)"
    using there fresh w bad by (auto simp: swap_in_def Let_def rename_def)
  have gone: "below ?fs1 (sa_final_dir a) = (\<lambda>x. None)" using swap_in_cases [OF a sw] by simp
  have "?e = PromoteFailed \<Longrightarrow> sw_restore_fails w" using bad by (auto split: if_splits)
  then have "(if Some ?e = Some PromoteFailed then restore_staging_swap w a True ?fs1 else ?fs1) = ?fs1"
    by (simp add: restore_staging_swap_def rename_def)
  with run sw have "err = Some ?e" "fs' = drop_leftovers w a True ?fs1" by (auto simp: run_swap_def Let_def)
  with leftovers_removed [OF a w(2) gone, of True] show ?thesis by simp
qed

text \<open>
  C25: The swap can destroy what it replaces. Once the old directory has been moved to the backup, an
  interrupt before the second rename, or a failure of that rename and of the one that moves the backup
  back, leaves neither the canonical directory nor the backup: the \<open>finally\<close> clause removes the backup
  whether or not it was restored.
\<close>

theorem swap_loses_data:
  assumes "created_area a" and "path_exists (sa_final_dir a) fs" and "\<not> path_exists (sa_backup_dir a) fs"
    and "\<not> sw_mkdir_fails w" and "\<not> sw_backup_fails w" and "\<And>x. \<not> sw_stuck w x"
    and "sw_interrupted w \<or> sw_promote_fails w \<and> sw_restore_fails w"
    and "commit_derived_dataset_staging w a fs = (err, fs')"
  shows "err \<noteq> None \<and> \<not> path_exists (sa_final_dir a) fs' \<and> \<not> path_exists (sa_backup_dir a) fs'"
proof -
  let ?fs1 = "make_dirs (butlast (sa_backup_dir a)) fs"
  note a = created_area_apart [OF assms(1)]
  obtain d where d: "require_derived_dataset (sa_dataset_id a) = Inr d" using a by (auto simp: area_apart_def is_ok_iff)
  have run: "run_swap w True a ?fs1 = (err, fs')"
    using assms(4,8) by (simp add: commit_derived_dataset_staging_def d)
  have "\<not> prefix (sa_backup_dir a) (butlast (sa_backup_dir a))"
    using a by (metis append_self_conv2 append_butlast_last_id area_apart_def butlast.simps(1) list.distinct(1)
        prefix_order.antisym prefixeq_butlast same_append_eq append.right_neutral not_Cons_self2)
  then have "\<not> path_exists (sa_backup_dir a) ?fs1" and "path_exists (sa_final_dir a) ?fs1"
    using assms(2,3) by (simp_all add: path_exists_below below_make_dirs below_backup_parents [OF a])
  from run_swap_loses [OF a this(2,1) assms(5,6) _ run] assms(7) show ?thesis by blast
qed

section \<open>Instances\<close>

definition calm_swap :: swap_world where
  "calm_swap = \<lparr>sw_mkdir_fails = False, sw_mkdir_final_fails = False, sw_backup_fails = False, sw_interrupted = False,
     sw_promote_fails = False, sw_restore_fails = False, sw_stuck = (\<lambda>x. False)\<rparr>"

definition demo_files :: file_system where
  "demo_files = [([''cn_security_master'', ''data.parquet''], Content ''old'')]"

definition demo_area :: staging_area where
  "demo_area = \<lparr>sa_dataset_id = ''cn_security_master'', sa_partition = None,
     sa_staging_root = [''.staging'', ''cn_security_master.t''],
     sa_staging_dir = [''.staging'', ''cn_security_master.t'', ''cn_security_master''],
     sa_final_dir = [''cn_security_master''], sa_backup_dir = [''.backup'', ''cn_security_master.t''],
     sa_final_existed = True\<rparr>"

definition demo_staged :: file_system where
  "demo_staged = demo_files @ [(sa_staging_dir demo_area @ [''data.parquet''], Content ''new'')]"

lemma demo_area_created: "created_area demo_area"
proof -
  have "map_option fst (case create_derived_dataset_staging_area ''t'' ''cn_security_master'' demo_files of
      Inl e \<Rightarrow> None | Inr r \<Rightarrow> Some r) = Some demo_area"
    by code_simp
  then show ?thesis
    unfolding created_area_def by (auto split: sum.splits)
qed


theorem swap_loses_data_witness:
  "\<not> path_exists [''cn_security_master''] (snd (commit_derived_dataset_staging (calm_swap\<lparr>sw_interrupted := True\<rparr>) demo_area demo_staged))"
proof -
  let ?w = "calm_swap\<lparr>sw_interrupted := True\<rparr>"
  obtain e fs where c: "commit_derived_dataset_staging ?w demo_area demo_staged = (e, fs)" by (metis surj_pair)
  have w: "path_exists (sa_final_dir demo_area) demo_staged" "\<not> path_exists (sa_backup_dir demo_area) demo_staged"
    "\<not> sw_mkdir_fails ?w" "\<not> sw_backup_fails ?w" "\<And>x. \<not> sw_stuck ?w x" "sw_interrupted ?w \<or> sw_promote_fails ?w \<and> sw_restore_fails ?w"
    by (simp_all add: path_exists_def demo_staged_def demo_files_def demo_area_def calm_swap_def)
  from swap_loses_data [OF demo_area_created w c] c show ?thesis by (simp add: demo_area_def)
qed

end
