(* ===== verification/Checkpoints.thy ===== *)
theory Checkpoints imports Lifecycle Trading_Calendar "HOL-Library.Multiset" begin

text \<open>
  Resume checks: the in-memory index of the checkpoint table (\<open>PipelineCheckpointLookup\<close> of
  \<open>src/pipeline/common.py\<close>), the scans of the table it replaces (\<open>src/storage/parquet_store.py\<close>), and
  \<open>should_skip_checkpoint\<close>.

  Parameters: \<open>sort_values\<close> of the data-frame library on \<open>updated_at\<close>, which is not stable, and the
  test whether a file exists. Every checkpoint row has an \<open>updated_at\<close>, as the writers give it one.
\<close>

section \<open>The table\<close>

type_synonym checkpoints = "date option checkpoint_record list"

type_synonym checkpoint_sort = "checkpoints \<Rightarrow> checkpoints"

type_synonym start_key = "string \<times> string \<times> string \<times> string \<times> string"

type_synonym end_key = "string \<times> string \<times> string \<times> string"

text \<open>\<open>dt.strftime("%Y-%m-%d")\<close> of a date or null.\<close>

definition iso_key :: "date option \<Rightarrow> string option" where
  "iso_key d = map_option isoformat d"

definition row_start_key :: "date option checkpoint_record \<Rightarrow> start_key option" where
  "row_start_key r =
     (case (iso_key (cp_start_date r), iso_key (cp_end_date r)) of
        (Some s, Some e) \<Rightarrow> Some (cp_pipeline r, cp_dataset r, cp_code r, s, e)
      | _ \<Rightarrow> None)"

definition row_end_key :: "date option checkpoint_record \<Rightarrow> end_key option" where
  "row_end_key r =
     (case iso_key (cp_end_date r) of None \<Rightarrow> None | Some e \<Rightarrow> Some (cp_pipeline r, cp_dataset r, cp_code r, e))"

section \<open>The index\<close>

record checkpoint_lookup =
  lk_pipeline_status :: "start_key \<rightharpoonup> string"
  lk_date_status :: "end_key \<rightharpoonup> string"

definition index_row :: "date option checkpoint_record \<Rightarrow> checkpoint_lookup \<Rightarrow> checkpoint_lookup" where
  "index_row r lk =
     (let lk1 = (case row_start_key r of
                   None \<Rightarrow> lk
                 | Some k \<Rightarrow> lk\<lparr>lk_pipeline_status := (lk_pipeline_status lk)(k \<mapsto> cp_status r)\<rparr>)
      in case row_end_key r of
           None \<Rightarrow> lk1
         | Some k \<Rightarrow> lk1\<lparr>lk_date_status := (lk_date_status lk1)(k \<mapsto> cp_status r)\<rparr>)"

definition checkpoint_index :: "checkpoint_sort \<Rightarrow> checkpoints \<Rightarrow> checkpoint_lookup" where
  "checkpoint_index sort_values rows =
     fold index_row (sort_values rows) \<lparr>lk_pipeline_status = Map.empty, lk_date_status = Map.empty\<rparr>"

definition lookup_pipeline_succeeded :: "checkpoint_lookup \<Rightarrow> start_key \<Rightarrow> bool \<Rightarrow> bool" where
  "lookup_pipeline_succeeded lk key output_exists \<longleftrightarrow> output_exists \<and> lk_pipeline_status lk key = Some ''success''"

definition lookup_date_succeeded :: "checkpoint_lookup \<Rightarrow> end_key \<Rightarrow> bool \<Rightarrow> bool" where
  "lookup_date_succeeded lk key output_exists \<longleftrightarrow> output_exists \<and> lk_date_status lk key = Some ''success''"

section \<open>The scans\<close>

definition latest_status :: "checkpoint_sort \<Rightarrow> checkpoints \<Rightarrow> string option" where
  "latest_status sort_values matches =
     (if matches = [] then None else Some (cp_status (last (sort_values matches))))"

definition pipeline_checkpoint_succeeded :: "checkpoint_sort \<Rightarrow> checkpoints \<Rightarrow> start_key \<Rightarrow> bool \<Rightarrow> bool" where
  "pipeline_checkpoint_succeeded sort_values rows key output_exists \<longleftrightarrow>
     output_exists \<and> latest_status sort_values (filter (\<lambda>r. row_start_key r = Some key) rows) = Some ''success''"

definition checkpoint_succeeded_for_date :: "checkpoint_sort \<Rightarrow> checkpoints \<Rightarrow> end_key \<Rightarrow> bool \<Rightarrow> bool" where
  "checkpoint_succeeded_for_date sort_values rows key output_exists \<longleftrightarrow>
     output_exists \<and> latest_status sort_values (filter (\<lambda>r. row_end_key r = Some key) rows) = Some ''success''"

section \<open>Skipping\<close>

text \<open>With an index the index is asked, without one the table: first the exact range, then the end date.\<close>

definition should_skip_checkpoint ::
  "checkpoint_sort \<Rightarrow> checkpoints \<Rightarrow> string \<Rightarrow> string \<Rightarrow> string \<Rightarrow> string \<Rightarrow> string \<Rightarrow> bool \<Rightarrow> bool \<Rightarrow> bool \<Rightarrow>
   checkpoint_lookup option \<Rightarrow> bool" where
  "should_skip_checkpoint sort_values rows pipeline dataset code start_date end_date output_exists resume force lookup =
     (if force \<or> \<not> resume then False
      else
        (let key = (pipeline, dataset, code, start_date, end_date); dated = (pipeline, dataset, code, end_date)
         in case lookup of
              Some lk \<Rightarrow> if lookup_pipeline_succeeded lk key output_exists then True
                         else lookup_date_succeeded lk dated output_exists
            | None \<Rightarrow> if pipeline_checkpoint_succeeded sort_values rows key output_exists then True
                      else checkpoint_succeeded_for_date sort_values rows dated output_exists))"

section \<open>The index answers as the scans do\<close>

text \<open>The documented behaviour of the sort: the same rows, in the order of \<open>updated_at\<close>.\<close>

definition sorts_by_update :: "checkpoint_sort \<Rightarrow> bool" where
  "sorts_by_update sort_values \<longleftrightarrow>
     (\<forall>rows. mset (sort_values rows) = mset rows \<and> sorted (map cp_updated_at (sort_values rows)))"

lemma sorts_by_update_stable: "sorts_by_update (sort_key cp_updated_at)"
  by (simp add: sorts_by_update_def)

lemma set_sort_values: "sorts_by_update sort_values \<Longrightarrow> set (sort_values rows) = set rows"
  unfolding sorts_by_update_def by (metis mset_eq_setD)

lemma index_pipeline_fold:
  "lk_pipeline_status (fold index_row rows lk) k =
     (case last_by row_start_key rows (Some k) of None \<Rightarrow> lk_pipeline_status lk k | Some r \<Rightarrow> Some (cp_status r))"
  by (induction rows arbitrary: lk)
    (auto simp: last_by_Cons index_row_def Let_def split: option.splits)

lemma index_date_fold:
  "lk_date_status (fold index_row rows lk) k =
     (case last_by row_end_key rows (Some k) of None \<Rightarrow> lk_date_status lk k | Some r \<Rightarrow> Some (cp_status r))"
  by (induction rows arbitrary: lk)
    (auto simp: last_by_Cons index_row_def Let_def split: option.splits)

lemma last_by_eq_last: "last_by key rows k = (let m = filter (\<lambda>r. key r = k) rows in if m = [] then None else Some (last m))"
  by (induction rows rule: rev_induct) (auto simp: last_by_snoc Let_def)

text \<open>The last of a sorted list is its only latest element, if times differ.\<close>

lemma last_is_latest:
  assumes "sorted (map f xs)" and "inj_on f (set xs)" and "y \<in> set xs" and "\<forall>x \<in> set xs. f x \<le> f y"
  shows "last xs = y"
proof -
  from assms(3) have "xs \<noteq> []" by auto
  then have xs: "xs = butlast xs @ [last xs]" by simp
  with assms(1) have "sorted (map f (butlast xs @ [last xs]))" by metis
  then have "f x \<le> f (last xs)" if "x \<in> set (butlast xs)" for x using that by (auto simp: sorted_append)
  then have "f y \<le> f (last xs)" using assms(3) xs by (metis Un_iff order_refl set_append set_ConsD list.set(1) empty_iff)
  moreover have "last xs \<in> set xs" using \<open>xs \<noteq> []\<close> by simp
  ultimately show ?thesis using assms(2-4) by (metis inj_onD order_antisym)
qed

lemma last_of_sorts:
  assumes "sorts_by_update sort_values" and "inj_on cp_updated_at (set (filter P rows))" and "filter P rows \<noteq> []"
  shows "last (filter P (sort_values rows)) = last (sort_values (filter P rows))"
proof -
  let ?m = "sort_values (filter P rows)"
  have set: "set ?m = set (filter P rows)" using assms(1) by (rule set_sort_values)
  then have "?m \<noteq> []" using assms(3) by (metis set_empty)
  moreover have sorted: "sorted (map cp_updated_at ?m)" using assms(1) by (simp add: sorts_by_update_def)
  ultimately have "\<forall>x \<in> set ?m. cp_updated_at x \<le> cp_updated_at (last ?m)"
    by (cases ?m rule: rev_cases) (auto simp: sorted_append)
  moreover have "sorted (map cp_updated_at (filter P (sort_values rows)))"
    using assms(1) by (intro sorted_filter) (simp add: sorts_by_update_def)
  moreover have "set (filter P (sort_values rows)) = set ?m" using set_sort_values [OF assms(1)] set by auto
  ultimately show ?thesis
    using assms(2) set last_in_set [OF \<open>?m \<noteq> []\<close>] by (intro last_is_latest) simp_all
qed

lemma indexed_status:
  assumes "sorts_by_update sort_values" and "inj_on cp_updated_at (set (filter (\<lambda>r. key r = k) rows))"
  shows "map_option cp_status (last_by key (sort_values rows) k) = latest_status sort_values (filter (\<lambda>r. key r = k) rows)"
proof (cases "filter (\<lambda>r. key r = k) rows = []")
  case True
  then have "filter (\<lambda>r. key r = k) (sort_values rows) = []" using set_sort_values [OF assms(1)] by (auto simp: filter_empty_conv)
  with True show ?thesis by (simp add: last_by_eq_last latest_status_def)
next
  case False
  then have "filter (\<lambda>r. key r = k) (sort_values rows) \<noteq> []" using set_sort_values [OF assms(1)] by (auto simp: filter_empty_conv)
  with False last_of_sorts [OF assms False] show ?thesis by (simp add: last_by_eq_last latest_status_def Let_def)
qed

lemma index_pipeline_status:
  "lk_pipeline_status (checkpoint_index sort_values rows) k = map_option cp_status (last_by row_start_key (sort_values rows) (Some k))"
  by (simp add: checkpoint_index_def index_pipeline_fold split: option.split)

lemma index_date_status:
  "lk_date_status (checkpoint_index sort_values rows) k = map_option cp_status (last_by row_end_key (sort_values rows) (Some k))"
  by (simp add: checkpoint_index_def index_date_fold split: option.split)

text \<open>
  C21: The index decides as the table. When the rows that match a range, and those that match an end
  date, have different times, \<open>should_skip_checkpoint\<close> gives the same answer with the index built from
  the table as with the scans of the table, however the sort orders the other rows.
\<close>

theorem index_decides_as_scans:
  assumes "sorts_by_update sort_values"
    and "inj_on cp_updated_at {r \<in> set rows. row_end_key r = Some (p, d, c, e)}"
  shows "should_skip_checkpoint sort_values rows p d c s e output_exists resume force (Some (checkpoint_index sort_values rows)) =
    should_skip_checkpoint sort_values rows p d c s e output_exists resume force None"
proof -
  have "{r \<in> set rows. row_start_key r = Some (p, d, c, s, e)} \<subseteq> {r \<in> set rows. row_end_key r = Some (p, d, c, e)}"
    by (auto simp: row_start_key_def row_end_key_def split: option.splits)
  then have "inj_on cp_updated_at {r \<in> set rows. row_start_key r = Some (p, d, c, s, e)}" using assms(2) by (rule inj_on_subset [rotated])
  then have "lk_pipeline_status (checkpoint_index sort_values rows) (p, d, c, s, e) =
      latest_status sort_values (filter (\<lambda>r. row_start_key r = Some (p, d, c, s, e)) rows)"
    unfolding index_pipeline_status by (intro indexed_status assms(1)) simp
  moreover have "lk_date_status (checkpoint_index sort_values rows) (p, d, c, e) =
      latest_status sort_values (filter (\<lambda>r. row_end_key r = Some (p, d, c, e)) rows)"
    unfolding index_date_status by (intro indexed_status assms(1)) (use assms(2) in simp)
  ultimately show ?thesis
    by (simp add: should_skip_checkpoint_def lookup_pipeline_succeeded_def lookup_date_succeeded_def Let_def
        pipeline_checkpoint_succeeded_def checkpoint_succeeded_for_date_def)
qed

section \<open>What the next run sees of a persisted row\<close>

text \<open>A row newer than all others decides for its range and for its end date.\<close>

lemma last_by_newest:
  assumes "sorts_by_update sort_values" and "r \<in> set rows" and "\<forall>x \<in> set rows. x \<noteq> r \<longrightarrow> cp_updated_at x < cp_updated_at r"
  shows "last_by key (sort_values rows) (key r) = Some r"
proof -
  let ?m = "filter (\<lambda>x. key x = key r) (sort_values rows)"
  have set: "set (sort_values rows) = set rows" using assms(1) by (rule set_sort_values)
  then have r: "r \<in> set ?m" using assms(2) by simp
  have "last ?m \<in> set ?m" using r by (metis last_in_set empty_iff empty_set)
  moreover have "sorted (map cp_updated_at ?m)" using assms(1) by (intro sorted_filter) (simp add: sorts_by_update_def)
  then have "cp_updated_at r \<le> cp_updated_at (last ?m)"
    using r by (cases ?m rule: rev_cases) (auto simp: sorted_append)
  ultimately have "last ?m = r" using assms(3) set by (metis filter_is_subset leD subsetD)
  moreover have "?m \<noteq> []" using r by (metis empty_iff empty_set)
  ultimately show ?thesis by (simp add: last_by_eq_last Let_def)
qed

lemma single_upsert: "upsert_rows checkpoint_key [r] rows = filter (\<lambda>x. \<not> sql_match (checkpoint_key r) (checkpoint_key x)) rows @ [r]"
  by (simp add: upsert_rows_def delete_matching_def)

text \<open>The dates of a row that comes in are texts that the parser reads back.\<close>

definition dated_row :: "(string \<Rightarrow> date option) \<Rightarrow> raw_checkpoint \<Rightarrow> string \<Rightarrow> string \<Rightarrow> bool" where
  "dated_row to_date r s e \<longleftrightarrow> cp_start_date r = Some s \<and> cp_end_date r = Some e \<and>
     iso_key (coerce_date to_date (Some s)) = Some s \<and> iso_key (coerce_date to_date (Some e)) = Some e"

lemma persisted_index:
  assumes "sorts_by_update sort_values" and "persist_update_metadata to_date w rs ss [r] db = (None, db')"
    and "dated_row to_date r s e" and "\<forall>x \<in> set (md_checkpoints db). cp_updated_at x < coerce_time (cp_updated_at r)"
  shows "lk_pipeline_status (checkpoint_index sort_values (md_checkpoints db')) (cp_pipeline r, cp_dataset r, cp_code r, s, e) =
      Some (cp_status r)"
    and "lk_date_status (checkpoint_index sort_values (md_checkpoints db')) (cp_pipeline r, cp_dataset r, cp_code r, e) =
      Some (cp_status r)"
proof -
  let ?r = "clean_checkpoint to_date r"
  have rows: "md_checkpoints db' = filter (\<lambda>x. \<not> sql_match (checkpoint_key ?r) (checkpoint_key x)) (md_checkpoints db) @ [?r]"
    using persist_effect [OF assms(2)] by (auto simp: single_upsert)
  have "\<forall>x \<in> set (md_checkpoints db'). x \<noteq> ?r \<longrightarrow> cp_updated_at x < cp_updated_at ?r"
    using assms(4) by (auto simp: rows clean_checkpoint_def)
  moreover have "?r \<in> set (md_checkpoints db')" by (simp add: rows)
  ultimately have newest: "last_by key (sort_values (md_checkpoints db')) (key ?r) = Some ?r" for key :: "date option checkpoint_record \<Rightarrow> 'k"
    by (intro last_by_newest assms(1))
  have k: "row_start_key ?r = Some (cp_pipeline r, cp_dataset r, cp_code r, s, e)"
    "row_end_key ?r = Some (cp_pipeline r, cp_dataset r, cp_code r, e)"
    using assms(3) by (simp_all add: row_start_key_def row_end_key_def dated_row_def clean_checkpoint_def)
  show "lk_pipeline_status (checkpoint_index sort_values (md_checkpoints db')) (cp_pipeline r, cp_dataset r, cp_code r, s, e) =
      Some (cp_status r)"
    using newest [of row_start_key] unfolding k index_pipeline_status by (simp add: clean_checkpoint_def)
  show "lk_date_status (checkpoint_index sort_values (md_checkpoints db')) (cp_pipeline r, cp_dataset r, cp_code r, e) =
      Some (cp_status r)"
    using newest [of row_end_key] unfolding k index_date_status by (simp add: clean_checkpoint_def)
qed

text \<open>
  The status of the last persisted checkpoint decides the resume. After the rows of a task are
  persisted, later than every stored checkpoint, a resuming run with the same pipeline, dataset, code
  and dates skips the task if its output exists and the status was success; after any other status it
  does the work again.
\<close>

theorem persisted_status_decides_resume:
  assumes "sorts_by_update sort_values" and "persist_update_metadata to_date w rs ss [r] db = (None, db')"
    and "dated_row to_date r s e" and "\<forall>x \<in> set (md_checkpoints db). cp_updated_at x < coerce_time (cp_updated_at r)"
  shows "should_skip_checkpoint sort_values (md_checkpoints db') (cp_pipeline r) (cp_dataset r) (cp_code r) s e output_exists
      True False (Some (checkpoint_index sort_values (md_checkpoints db'))) \<longleftrightarrow> output_exists \<and> cp_status r = ''success''"
  using persisted_index [OF assms]
  by (simp add: should_skip_checkpoint_def lookup_pipeline_succeeded_def lookup_date_succeeded_def Let_def)

section \<open>Instances\<close>

definition demo_checkpoint :: "string \<Rightarrow> int \<Rightarrow> date option checkpoint_record" where
  "demo_checkpoint status t = \<lparr>cp_pipeline = ''p'', cp_dataset = ''d'', cp_code = ''c'', cp_start_date = Some (Date 1 1 5),
     cp_end_date = Some (Date 1 1 9), cp_status = status, cp_row_count = 1, cp_output_path = [], cp_updated_at = t, cp_error_stack = []\<rparr>"

theorem index_decides_as_scans_witness:
  "let rows = [demo_checkpoint ''success'' 1000, demo_checkpoint ''failed'' 2000]; srt = sort_key cp_updated_at
   in should_skip_checkpoint srt rows ''p'' ''d'' ''c'' ''0001-01-05'' ''0001-01-09'' True True False (Some (checkpoint_index srt rows)) =
      should_skip_checkpoint srt rows ''p'' ''d'' ''c'' ''0001-01-05'' ''0001-01-09'' True True False None"
  unfolding Let_def
proof (rule index_decides_as_scans [OF sorts_by_update_stable])
  show "inj_on cp_updated_at {r \<in> set [demo_checkpoint ''success'' 1000, demo_checkpoint ''failed'' 2000].
      row_end_key r = Some (''p'', ''d'', ''c'', ''0001-01-09'')}"
    by (auto simp: inj_on_def demo_checkpoint_def)
qed

definition demo_raw_checkpoint :: raw_checkpoint where
  "demo_raw_checkpoint = \<lparr>cp_pipeline = ''p'', cp_dataset = ''d'', cp_code = ''c'', cp_start_date = Some ''0001-01-05'',
     cp_end_date = Some ''0001-01-05'', cp_status = ''success'', cp_row_count = 1, cp_output_path = [], cp_updated_at = 5000,
     cp_error_stack = []\<rparr>"

definition demo_parser :: "string \<Rightarrow> date option" where
  "demo_parser s = (if s = ''0001-01-05'' then Some (Date 1 1 5) else None)"

theorem persisted_status_decides_resume_witness:
  "\<exists>db. persist_update_metadata demo_parser \<lparr>sw_connects = (\<lambda>_. True), sw_fails = (\<lambda>_. False)\<rparr> [] [] [demo_raw_checkpoint]
       empty_metadata_db = (None, db) \<and>
     should_skip_checkpoint (sort_key cp_updated_at) (md_checkpoints db) ''p'' ''d'' ''c'' ''0001-01-05'' ''0001-01-05'' True True False
       (Some (checkpoint_index (sort_key cp_updated_at) (md_checkpoints db)))"
proof -
  let ?w = "\<lparr>sw_connects = (\<lambda>_. True), sw_fails = (\<lambda>_. False)\<rparr>"
  have "fst (persist_update_metadata demo_parser ?w [] [] [demo_raw_checkpoint] empty_metadata_db) = None" by code_simp
  then obtain db where db: "persist_update_metadata demo_parser ?w [] [] [demo_raw_checkpoint] empty_metadata_db = (None, db)"
    by (metis prod.collapse)
  have "dated_row demo_parser demo_raw_checkpoint ''0001-01-05'' ''0001-01-05''" by code_simp
  from persisted_status_decides_resume [OF sorts_by_update_stable db this, of True] db show ?thesis
    by (simp add: empty_metadata_db_def demo_raw_checkpoint_def)
qed

end
