(* ===== verification/Daily_Frames.thy ===== *)
theory Daily_Frames
  imports Calendar_Date "HOL-Library.Char_ord" "HOL-Library.List_Lexorder" "HOL-Library.Product_Lexorder"
    "HOL-Library.Multiset"
begin

text \<open>
  Daily bars as data frames: merging fresh rows into a stored partition, replacing a range, and the
  comparison of the overlap (\<open>src/pipeline/common.py\<close>, \<open>src/sources/baostock/update_daily_frames.py\<close>).

  A frame is the list of its rows after \<open>clean_dataframe_for_schema\<close>, so a code or date is a value or
  null. The columns that nothing here looks at are one value of type \<open>'r\<close>; two values of a column are
  compared exactly, and two nulls are equal. Prices are of any type with a multiplication and a one.
\<close>

section \<open>Rows\<close>

record ('n, 'r) bar =
  bar_code :: "string option"
  bar_date :: "date option"
  bar_open :: "'n option"
  bar_high :: "'n option"
  bar_low :: "'n option"
  bar_close :: "'n option"
  bar_prev_close :: "'n option"
  bar_adjust_flag :: "string option"
  bar_rest :: 'r

type_synonym ('n, 'r) frame = "('n, 'r) bar list"

text \<open>The key of \<open>drop_duplicates\<close>, for which two nulls are the same.\<close>

definition bar_key :: "('n, 'r) bar \<Rightarrow> string option \<times> date option" where
  "bar_key r = (bar_code r, bar_date r)"

text \<open>\<open>sort_values\<close> on code and date puts nulls last; on two columns it is stable.\<close>

definition key_order :: "string option \<times> date option \<Rightarrow> (nat \<times> string) \<times> (nat \<times> date)" where
  "key_order k =
     ((case fst k of None \<Rightarrow> (1, []) | Some c \<Rightarrow> (0, c)),
      (case snd k of None \<Rightarrow> (1, Date 0 0 0) | Some d \<Rightarrow> (0, d)))"

definition sort_bars :: "('n, 'r) frame \<Rightarrow> ('n, 'r) frame" where
  "sort_bars = sort_key (key_order \<circ> bar_key)"

section \<open>Merging\<close>

definition merge_daily_frames :: "('n, 'r) frame \<Rightarrow> ('n, 'r) frame \<Rightarrow> ('n, 'r) frame" where
  "merge_daily_frames existing fresh =
     (let combined = existing @ fresh in if combined = [] then [] else sort_bars (keep_last bar_key combined))"

text \<open>A null date compares false with everything.\<close>

definition in_range :: "date \<Rightarrow> date \<Rightarrow> ('n, 'r) bar \<Rightarrow> bool" where
  "in_range start_date end_date r =
     (case bar_date r of None \<Rightarrow> False | Some d \<Rightarrow> start_date \<le> d \<and> d \<le> end_date)"

definition out_of_range :: "date \<Rightarrow> date \<Rightarrow> ('n, 'r) bar \<Rightarrow> bool" where
  "out_of_range start_date end_date r =
     (case bar_date r of None \<Rightarrow> False | Some d \<Rightarrow> d < start_date \<or> end_date < d)"

definition replace_daily_range :: "('n, 'r) frame \<Rightarrow> ('n, 'r) frame \<Rightarrow> date \<Rightarrow> date \<Rightarrow> ('n, 'r) frame" where
  "replace_daily_range existing fresh start_date end_date =
     merge_daily_frames (filter (out_of_range start_date end_date) existing) fresh"

definition has_data_in_range :: "('n, 'r) frame \<Rightarrow> date \<Rightarrow> date \<Rightarrow> bool" where
  "has_data_in_range df start_date end_date = list_ex (in_range start_date end_date) df"

section \<open>The overlap\<close>

text \<open>In a window the code key of a null is the empty string; the date is never null there.\<close>

definition window_key :: "('n, 'r) bar \<Rightarrow> string \<times> date option" where
  "window_key r = ((case bar_code r of None \<Rightarrow> [] | Some c \<Rightarrow> c), bar_date r)"

definition daily_window_by_key :: "('n, 'r) frame \<Rightarrow> date \<Rightarrow> date \<Rightarrow> ('n, 'r) frame" where
  "daily_window_by_key df start_date end_date = keep_last window_key (filter (in_range start_date end_date) df)"

text \<open>The compared columns: all but code and date.\<close>

definition bar_values :: "('n, 'r) bar \<Rightarrow> ('n, 'r) bar" where
  "bar_values r = r\<lparr>bar_code := None, bar_date := None\<rparr>"

definition daily_frames_differ_on_overlap :: "('n, 'r) frame \<Rightarrow> ('n, 'r) frame \<Rightarrow> date \<Rightarrow> date \<Rightarrow> bool" where
  "daily_frames_differ_on_overlap existing fresh start_date end_date =
     (let existing_window = daily_window_by_key existing start_date end_date;
          fresh_window = daily_window_by_key fresh start_date end_date
      in if existing_window = [] then False
         else if fresh_window = [] then True
         else if list_ex (\<lambda>r. window_key r \<notin> window_key ` set fresh_window) existing_window then True
         else
           (let common = filter (\<lambda>r. window_key r \<in> window_key ` set fresh_window) existing_window
            in if common = [] then False
               else list_ex (\<lambda>r. map_option bar_values (last_by window_key fresh_window (window_key r)) \<noteq> Some (bar_values r))
                      common))"

section \<open>Frames as maps\<close>

lemma last_by_only: "last_by key xs k = last_by key (filter (\<lambda>x. key x = k) xs) k"
  by (rule last_by_filter [symmetric]) simp

lemma key_order_inj: "key_order k = key_order k' \<longleftrightarrow> k = k'"
  by (cases k; cases k') (auto simp: key_order_def split: option.splits)

lemma last_by_sort_bars [simp]: "last_by bar_key (sort_bars df) k = last_by bar_key df k"
proof -
  have "filter (\<lambda>x. bar_key x = k) (sort_bars df) = filter (\<lambda>x. bar_key x = k) df"
    using sort_key_stable [of "key_order \<circ> bar_key" "key_order k" df] by (simp add: sort_bars_def key_order_inj)
  then show ?thesis using last_by_only [of bar_key "sort_bars df"] last_by_only [of bar_key df] by simp
qed

lemma set_sort_bars [simp]: "set (sort_bars df) = set df"
  by (simp add: sort_bars_def)

lemma distinct_sort_bars [simp]: "distinct (map bar_key (sort_bars df)) \<longleftrightarrow> distinct (map bar_key df)"
proof -
  have "mset (map bar_key (sort_bars df)) = mset (map bar_key df)"
    unfolding sort_bars_def mset_map mset_sort ..
  then show ?thesis by (rule mset_eq_imp_distinct_iff)
qed

lemma sorted_sort_bars: "sorted (map (key_order \<circ> bar_key) (sort_bars df))"
  by (simp add: sort_bars_def del: map_map)

lemma merge_daily_frames_view:
  "last_by bar_key (merge_daily_frames existing fresh) k =
     (case last_by bar_key fresh k of None \<Rightarrow> last_by bar_key existing k | Some r \<Rightarrow> Some r)"
  by (simp add: merge_daily_frames_def Let_def last_by_append)

lemma merge_daily_frames_distinct: "distinct (map bar_key (merge_daily_frames existing fresh))"
  by (simp add: merge_daily_frames_def Let_def distinct_keep_last)

lemma merge_daily_frames_sorted: "sorted (map (key_order \<circ> bar_key) (merge_daily_frames existing fresh))"
  by (simp add: merge_daily_frames_def Let_def sorted_sort_bars del: map_map)

lemma set_merge: "set (merge_daily_frames existing fresh) \<subseteq> set existing \<union> set fresh"
  using set_keep_last [of bar_key "existing @ fresh"] by (auto simp: merge_daily_frames_def Let_def)

lemma last_by_window: "last_by window_key (daily_window_by_key df s e) k = last_by window_key (filter (in_range s e) df) k"
  by (simp add: daily_window_by_key_def)

lemma mem_keys_iff: "key r \<in> key ` set xs \<longleftrightarrow> (\<exists>y. last_by key xs (key r) = Some y)"
  using last_by_None [of key xs "key r"] by auto

lemma daily_frames_agree:
  "\<not> daily_frames_differ_on_overlap existing fresh s e \<longleftrightarrow>
     (\<forall>r \<in> set (daily_window_by_key existing s e).
        map_option bar_values (last_by window_key (daily_window_by_key fresh s e) (window_key r)) = Some (bar_values r))"
  by (auto simp: daily_frames_differ_on_overlap_def Let_def list_ex_iff filter_empty_conv mem_keys_iff) force

text \<open>On rows with a code the two keys carry the same information.\<close>

definition coded :: "('n, 'r) frame \<Rightarrow> bool" where
  "coded df \<longleftrightarrow> (\<forall>r \<in> set df. bar_code r \<noteq> None)"

lemma last_by_window_key: "coded df \<Longrightarrow> last_by window_key df (c, d) = last_by bar_key df (Some c, d)"
  by (induction df) (auto simp: last_by_Cons coded_def window_key_def bar_key_def split: option.splits)

lemma last_by_in_range:
  assumes "s \<le> d" and "d \<le> e"
  shows "last_by bar_key (filter (in_range s e) df) (c, Some d) = last_by bar_key df (c, Some d)"
  by (rule last_by_filter) (use assms in \<open>auto simp: bar_key_def in_range_def\<close>)

lemma last_by_out_of_range:
  "last_by bar_key (filter (out_of_range s e) df) (c, d) =
     (case d of None \<Rightarrow> None | Some x \<Rightarrow> if x < s \<or> e < x then last_by bar_key df (c, d) else None)"
proof (cases "\<exists>x. d = Some x \<and> (x < s \<or> e < x)")
  case True
  then have "last_by bar_key (filter (out_of_range s e) df) (c, d) = last_by bar_key df (c, d)"
    by (intro last_by_filter) (auto simp: bar_key_def out_of_range_def)
  with True show ?thesis by auto
next
  case False
  then have "(c, d) \<notin> bar_key ` set (filter (out_of_range s e) df)"
    by (auto simp: bar_key_def out_of_range_def split: option.splits)
  then have "last_by bar_key (filter (out_of_range s e) df) (c, d) = None" by (simp only: last_by_None not_False_eq_True)
  with False show ?thesis by (auto split: option.split)
qed

section \<open>Properties\<close>

text \<open>
  A merge is an update of the stored rows by the fresh ones: for every code and date it has the
  last fresh row, and the last stored row where there is no fresh one; it has one row per code and
  date, in the order of code and date.
\<close>

theorem merge_daily_frames_refines:
  "last_by bar_key (merge_daily_frames existing fresh) k =
     (case last_by bar_key fresh k of None \<Rightarrow> last_by bar_key existing k | Some r \<Rightarrow> Some r) \<and>
   distinct (map bar_key (merge_daily_frames existing fresh)) \<and>
   sorted (map (key_order \<circ> bar_key) (merge_daily_frames existing fresh))"
  using merge_daily_frames_view merge_daily_frames_distinct merge_daily_frames_sorted by blast

text \<open>
  Replacing a range takes exactly the fresh rows and the stored rows that lie outside the range: a
  stored row inside it is gone unless it was fetched again, and so is a stored row without a date.
\<close>

theorem replace_daily_range_effect:
  "last_by bar_key (replace_daily_range existing fresh s e) (c, d) =
     (case last_by bar_key fresh (c, d) of
        Some r \<Rightarrow> Some r
      | None \<Rightarrow> (case d of
          None \<Rightarrow> None
        | Some x \<Rightarrow> if x < s \<or> e < x then last_by bar_key existing (c, d) else None))"
  by (simp add: replace_daily_range_def merge_daily_frames_view last_by_out_of_range split: option.split)

text \<open>
  A merge after a clean comparison changes no stored value. When the stored rows and the fresh ones
  agree on the window, and the fresh rows lie in the window, every stored row is still there after the
  merge with the same value in every column.
\<close>

theorem agreeing_merge_keeps_values:
  assumes "\<not> daily_frames_differ_on_overlap existing fresh s e" and "coded existing" and "coded fresh"
    and "\<forall>r \<in> set fresh. in_range s e r"
    and "last_by bar_key existing k = Some r"
  shows "map_option bar_values (last_by bar_key (merge_daily_frames existing fresh) k) = Some (bar_values r)"
proof (cases "last_by bar_key fresh k")
  case None
  then show ?thesis using assms(5) by (simp add: merge_daily_frames_view)
next
  case (Some f)
  then have f: "f \<in> set fresh" "bar_key f = k" by (auto dest: last_by_Some)
  with assms(3,4) obtain c d where k: "k = (Some c, Some d)" "s \<le> d" "d \<le> e"
    by (fastforce simp: bar_key_def in_range_def coded_def split: option.splits)
  have filt: "coded (filter (in_range s e) df)" if "coded df" for df :: "('a, 'b) frame" using that by (auto simp: coded_def)
  have view: "last_by window_key (daily_window_by_key df s e) (c, Some d) = last_by bar_key df k"
    if "coded df" for df :: "('a, 'b) frame"
    unfolding last_by_window using last_by_window_key [OF filt [OF that]] last_by_in_range k by metis
  have r: "r \<in> set (daily_window_by_key existing s e)" "window_key r = (c, Some d)"
    using view [OF assms(2)] assms(5) by (auto dest: last_by_Some)
  with assms(1) have "map_option bar_values (last_by window_key (daily_window_by_key fresh s e) (c, Some d)) = Some (bar_values r)"
    unfolding daily_frames_agree by metis
  then show ?thesis using view [OF assms(3)] Some by (simp add: merge_daily_frames_view)
qed

section \<open>Instances\<close>

definition demo_bar :: "string \<Rightarrow> date \<Rightarrow> int \<Rightarrow> (int, unit) bar" where
  "demo_bar c d p = \<lparr>bar_code = Some c, bar_date = Some d, bar_open = Some p, bar_high = Some p, bar_low = Some p,
     bar_close = Some p, bar_prev_close = Some p, bar_adjust_flag = Some ''3'', bar_rest = ()\<rparr>"

theorem agreeing_merge_keeps_values_witness:
  "map_option bar_values (last_by bar_key
     (merge_daily_frames [demo_bar ''a'' (Date 1 1 5) 10, demo_bar ''a'' (Date 1 1 8) 11]
        [demo_bar ''a'' (Date 1 1 8) 11, demo_bar ''a'' (Date 1 1 9) 12]) (Some ''a'', Some (Date 1 1 8))) =
   Some (bar_values (demo_bar ''a'' (Date 1 1 8) 11))"
proof (rule agreeing_merge_keeps_values)
  show "\<not> daily_frames_differ_on_overlap [demo_bar ''a'' (Date 1 1 5) 10, demo_bar ''a'' (Date 1 1 8) 11]
      [demo_bar ''a'' (Date 1 1 8) 11, demo_bar ''a'' (Date 1 1 9) 12] (Date 1 1 8) (Date 1 1 9)"
    by code_simp
qed (simp_all add: coded_def demo_bar_def in_range_def last_by_Cons bar_key_def less_eq_date_iff)

end
