(* ===== verification/Adjustments.thy ===== *)
theory Adjustments imports Daily_Frames Config_Manager begin

text \<open>
  Adjusted daily bars computed from unadjusted ones and the adjustment factors
  (\<open>src/sources/baostock/adjustments.py\<close>), on tables that may still bear the provider's column names
  (\<open>src/sources/baostock/provider.py\<close>, \<open>clean_dataframe_for_schema\<close> in \<open>src/storage/parquet_store.py\<close>).
\<close>

section \<open>Tables and their columns\<close>

text \<open>
  A table is its column names and its rows. The fields of a row hold the values of the column of that
  name, or of the provider's name for it, whichever the table has.
\<close>

record ('n, 'r) table =
  tb_columns :: "string list"
  tb_rows :: "('n, 'r) frame"

definition COLUMN_ALIASES :: "(string \<times> string) list" where
  "COLUMN_ALIASES =
     [(''preclose'', ''prev_close''), (''adjustflag'', ''adjust_flag''), (''turn'', ''turnover_rate''),
      (''tradestatus'', ''trade_status''), (''pctChg'', ''pct_change''), (''pct_chg'', ''pct_change''),
      (''peTTM'', ''pe_ttm''), (''pbMRQ'', ''pb_mrq''), (''psTTM'', ''ps_ttm''), (''pcfNcfTTM'', ''pcf_ncf_ttm''),
      (''isST'', ''is_st''), (''code_name'', ''name''), (''ipoDate'', ''ipo_date''), (''outDate'', ''delist_date''),
      (''type'', ''security_type''), (''status'', ''listing_status''), (''dividOperateDate'', ''dividend_operate_date''),
      (''foreAdjustFactor'', ''forward_adjust_factor''), (''backAdjustFactor'', ''backward_adjust_factor''),
      (''adjustFactor'', ''adjustment_factor''), (''latest_price'', ''last_price''), (''change_amount'', ''price_change''),
      (''adjust'', ''adjustment'')]"

definition BAOSTOCK_DAILY_BAR_FIELD_ALIASES :: "(string \<times> string) list" where
  "BAOSTOCK_DAILY_BAR_FIELD_ALIASES =
     [(''prev_close'', ''preclose''), (''adjust_flag'', ''adjustflag''), (''turnover_rate'', ''turn''),
      (''trade_status'', ''tradestatus''), (''pct_change'', ''pctChg''), (''pe_ttm'', ''peTTM''), (''pb_mrq'', ''pbMRQ''),
      (''ps_ttm'', ''psTTM''), (''pcf_ncf_ttm'', ''pcfNcfTTM''), (''is_st'', ''isST'')]"

text \<open>The fields asked of the provider, in the provider's names.\<close>

definition source_fields :: "string \<Rightarrow> string list" where
  "source_fields names =
     map (\<lambda>f. case map_of BAOSTOCK_DAILY_BAR_FIELD_ALIASES f of None \<Rightarrow> f | Some g \<Rightarrow> g)
       (filter (\<lambda>f. f \<noteq> []) (map py_strip (split_all CHR '','' names)))"

definition baostock_daily_bar_fields :: "string \<Rightarrow> string" where
  "baostock_daily_bar_fields names = join_with '','' (source_fields names)"

text \<open>A column of the schema is there under its name or under an alias of it.\<close>

definition has_column :: "string list \<Rightarrow> string \<Rightarrow> bool" where
  "has_column cols name \<longleftrightarrow> name \<in> set cols \<or> list_ex (\<lambda>(old, new). new = name \<and> old \<in> set cols) COLUMN_ALIASES"

definition kept :: "string list \<Rightarrow> string \<Rightarrow> 'a option \<Rightarrow> 'a option" where
  "kept cols name v = (if has_column cols name then v else None)"

definition clean_bar :: "string list \<Rightarrow> ('n, 'r) bar \<Rightarrow> ('n, 'r) bar" where
  "clean_bar cols r =
     \<lparr>bar_code = kept cols ''code'' (bar_code r), bar_date = kept cols ''date'' (bar_date r),
      bar_open = kept cols ''open'' (bar_open r), bar_high = kept cols ''high'' (bar_high r),
      bar_low = kept cols ''low'' (bar_low r), bar_close = kept cols ''close'' (bar_close r),
      bar_prev_close = kept cols ''prev_close'' (bar_prev_close r),
      bar_adjust_flag = kept cols ''adjust_flag'' (bar_adjust_flag r), bar_rest = bar_rest r\<rparr>"

definition clean_daily_table :: "('n, 'r) table \<Rightarrow> ('n, 'r) table" where
  "clean_daily_table t =
     \<lparr>tb_columns = field_names DAILY_BAR_SCHEMA, tb_rows = map (clean_bar (tb_columns t)) (tb_rows t)\<rparr>"

section \<open>Factors\<close>

record 'n factor_row =
  fr_code :: "string option"
  fr_date :: "date option"
  fr_forward :: "'n option"
  fr_backward :: "'n option"
  fr_adjustment :: "'n option"

definition UNADJUSTED_DAILY_DATASET :: string where
  "UNADJUSTED_DAILY_DATASET = ''baostock_cn_stock_daily_bar_unadjusted''"

definition BAOSTOCK_FACTOR_DATASET :: string where
  "BAOSTOCK_FACTOR_DATASET = ''baostock_cn_stock_adjustment_factor''"

definition ADJUSTED_DAILY_FACTOR_COLUMNS :: "(string \<times> string) list" where
  "ADJUSTED_DAILY_FACTOR_COLUMNS =
     [(''baostock_cn_stock_daily_bar_qfq'', ''forward_adjust_factor''),
      (''baostock_cn_stock_daily_bar_hfq'', ''backward_adjust_factor'')]"

definition PRICE_COLUMNS :: "string list" where
  "PRICE_COLUMNS = [''open'', ''high'', ''low'', ''close'', ''prev_close'']"

definition is_adjusted_daily_dataset :: "string \<Rightarrow> bool" where
  "is_adjusted_daily_dataset dataset \<longleftrightarrow> map_of ADJUSTED_DAILY_FACTOR_COLUMNS dataset \<noteq> None"

definition factor_field :: "string \<Rightarrow> 'n factor_row \<Rightarrow> 'n option" where
  "factor_field column r =
     (if column = ''forward_adjust_factor'' then fr_forward r
      else if column = ''backward_adjust_factor'' then fr_backward r else fr_adjustment r)"

text \<open>\<open>_factor_values\<close>: the rows with code, date and value.\<close>

definition factor_values :: "string \<Rightarrow> 'n factor_row list \<Rightarrow> (string \<times> date \<times> 'n) list" where
  "factor_values column factors =
     List.map_filter (\<lambda>r. case (fr_code r, fr_date r, factor_field column r) of
         (Some c, Some d, Some v) \<Rightarrow> Some (c, d, v) | _ \<Rightarrow> None) factors"

text \<open>
  \<open>merge_asof(direction="backward")\<close> over the factors of one code, sorted by date: the last one whose
  date is not after the bar's; one where there is none, or the bar has no code or date.
\<close>

definition factor_on :: "(string \<times> date \<times> 'n::one) list \<Rightarrow> string option \<Rightarrow> date option \<Rightarrow> 'n" where
  "factor_on values code date =
     (case (code, date) of
        (Some c, Some d) \<Rightarrow>
          (let matches = filter (\<lambda>(c', d', v). c' = c \<and> d' \<le> d) (sort_key (\<lambda>x. fst (snd x)) values)
           in if matches = [] then 1 else snd (snd (last matches)))
      | _ \<Rightarrow> 1)"

definition scaled :: "string list \<Rightarrow> string \<Rightarrow> 'n \<Rightarrow> 'n::times option \<Rightarrow> 'n option" where
  "scaled cols name f v = (if name \<in> set cols \<and> name \<in> set PRICE_COLUMNS then map_option (\<lambda>p. p * f) v else v)"

definition scale_bar :: "string list \<Rightarrow> 'n::times \<Rightarrow> ('n, 'r) bar \<Rightarrow> ('n, 'r) bar" where
  "scale_bar cols f r =
     r\<lparr>bar_open := scaled cols ''open'' f (bar_open r), bar_high := scaled cols ''high'' f (bar_high r),
       bar_low := scaled cols ''low'' f (bar_low r), bar_close := scaled cols ''close'' f (bar_close r),
       bar_prev_close := scaled cols ''prev_close'' f (bar_prev_close r)\<rparr>"

definition flag_bar :: "string list \<Rightarrow> string \<Rightarrow> ('n, 'r) bar \<Rightarrow> ('n, 'r) bar" where
  "flag_bar cols flag r = (if ''adjust_flag'' \<in> set cols then r\<lparr>bar_adjust_flag := Some flag\<rparr> else r)"

text \<open>\<open>None\<close> is the \<open>ValueError\<close> for a dataset that is not adjusted.\<close>

definition calculate_adjusted_daily_bar ::
  "('n::{one,times}, 'r) table \<Rightarrow> 'n factor_row list \<Rightarrow> string \<Rightarrow> string \<Rightarrow> ('n, 'r) table option" where
  "calculate_adjusted_daily_bar unadjusted factors dataset adjust_flag =
     (case map_of ADJUSTED_DAILY_FACTOR_COLUMNS dataset of
        None \<Rightarrow> None
      | Some factor_column \<Rightarrow>
          (let values = factor_values factor_column factors; cols = tb_columns unadjusted
           in Some (unadjusted\<lparr>tb_rows := map (\<lambda>r.
                scale_bar cols (factor_on values (bar_code r) (bar_date r)) (flag_bar cols adjust_flag r))
              (tb_rows unadjusted)\<rparr>)))"

lemma is_adjusted_iff:
  "is_adjusted_daily_dataset dataset \<longleftrightarrow>
     dataset = ''baostock_cn_stock_daily_bar_qfq'' \<or> dataset = ''baostock_cn_stock_daily_bar_hfq''"
  by (simp add: is_adjusted_daily_dataset_def ADJUSTED_DAILY_FACTOR_COLUMNS_def)

section \<open>Which factor applies\<close>

text \<open>The specification: the factor of the latest date that is not after the bar's, one before the first.\<close>

definition latest_factor :: "(string \<times> date \<times> 'n::one) list \<Rightarrow> string \<Rightarrow> date \<Rightarrow> 'n \<Rightarrow> bool" where
  "latest_factor values c d f \<longleftrightarrow>
     (if \<exists>x \<in> set values. fst x = c \<and> fst (snd x) \<le> d
      then \<exists>d0 \<le> d. (c, d0, f) \<in> set values \<and> (\<forall>x \<in> set values. fst x = c \<longrightarrow> fst (snd x) \<le> d \<longrightarrow> fst (snd x) \<le> d0)
      else f = 1)"

lemma last_sorted_filter:
  assumes "filter P (sort_key g xs) \<noteq> []" and "x \<in> set xs" and "P x"
  shows "g x \<le> g (last (filter P (sort_key g xs)))"
proof -
  let ?ys = "filter P (sort_key g xs)"
  have ys: "?ys = butlast ?ys @ [last ?ys]" using assms(1) by simp
  have "sorted (map g ?ys)" by (rule sorted_filter) simp
  then have "\<forall>y \<in> set (butlast ?ys). g y \<le> g (last ?ys)"
    by (subst (asm) ys) (simp add: sorted_append)
  moreover have "x \<in> set ?ys" using assms(2,3) by simp
  then have "x \<in> set (butlast ?ys @ [last ?ys])" by (simp only: ys [symmetric])
  then have "x \<in> set (butlast ?ys) \<or> x = last ?ys" by auto
  ultimately show ?thesis by auto
qed

lemma factor_on_latest: "latest_factor values c d (factor_on values (Some c) (Some d))"
proof -
  let ?P = "\<lambda>(c', d', v). c' = c \<and> d' \<le> d"
  let ?ys = "filter ?P (sort_key (\<lambda>x. fst (snd x)) values)"
  show ?thesis
  proof (cases "?ys = []")
    case True
    then have "\<not> (\<exists>x \<in> set values. fst x = c \<and> fst (snd x) \<le> d)" by (auto simp: filter_empty_conv split_beta)
    with True show ?thesis by (auto simp: latest_factor_def factor_on_def split_beta)
  next
    case False
    then have l: "last ?ys \<in> set values" "fst (last ?ys) = c" "fst (snd (last ?ys)) \<le> d"
      using last_in_set [OF False] by (auto simp: split_beta)
    have "\<forall>x \<in> set values. fst x = c \<longrightarrow> fst (snd x) \<le> d \<longrightarrow> fst (snd x) \<le> fst (snd (last ?ys))"
      using last_sorted_filter [OF False] by (auto simp: split_beta)
    with l show ?thesis
      using False by (auto simp: latest_factor_def factor_on_def Let_def intro!: exI [of _ "fst (snd (last ?ys))"])
        (metis prod.collapse)
  qed
qed

section \<open>Properties\<close>

lemma calculate_row:
  assumes "calculate_adjusted_daily_bar t factors dataset flag = Some t'" and "i < length (tb_rows t)"
  shows "\<exists>column. map_of ADJUSTED_DAILY_FACTOR_COLUMNS dataset = Some column \<and>
    tb_columns t' = tb_columns t \<and> length (tb_rows t') = length (tb_rows t) \<and>
    tb_rows t' ! i = scale_bar (tb_columns t)
      (factor_on (factor_values column factors) (bar_code (tb_rows t ! i)) (bar_date (tb_rows t ! i)))
      (flag_bar (tb_columns t) flag (tb_rows t ! i))"
  using assms by (auto simp: calculate_adjusted_daily_bar_def Let_def split: option.splits)

text \<open>
  C22: On a table with the columns of the schema, every row of an adjusted dataset is the unadjusted row
  with all five prices multiplied by the factor of the latest dividend date on or before its date (one
  before the first), and with the dataset's adjustment flag.
\<close>

theorem adjusted_rows_use_latest_factor:
  assumes "calculate_adjusted_daily_bar t factors dataset flag = Some t'" and "tb_columns t = field_names DAILY_BAR_SCHEMA"
    and "i < length (tb_rows t)" and "tb_rows t ! i = r" and "bar_code r = Some c" and "bar_date r = Some d"
  shows "\<exists>column f. map_of ADJUSTED_DAILY_FACTOR_COLUMNS dataset = Some column \<and>
    latest_factor (factor_values column factors) c d f \<and>
    tb_rows t' ! i = r\<lparr>bar_open := map_option (\<lambda>p. p * f) (bar_open r), bar_high := map_option (\<lambda>p. p * f) (bar_high r),
      bar_low := map_option (\<lambda>p. p * f) (bar_low r), bar_close := map_option (\<lambda>p. p * f) (bar_close r),
      bar_prev_close := map_option (\<lambda>p. p * f) (bar_prev_close r), bar_adjust_flag := Some flag\<rparr>"
proof -
  obtain column where col: "map_of ADJUSTED_DAILY_FACTOR_COLUMNS dataset = Some column"
    and row: "tb_rows t' ! i = scale_bar (tb_columns t) (factor_on (factor_values column factors) (Some c) (Some d))
      (flag_bar (tb_columns t) flag r)"
    using calculate_row [OF assms(1,3)] assms(4-6) by auto
  have "set PRICE_COLUMNS \<subseteq> set (tb_columns t)" and "''adjust_flag'' \<in> set (tb_columns t)"
    unfolding assms(2) by (simp_all add: PRICE_COLUMNS_def field_names_def DAILY_BAR_SCHEMA_def)
  with col row factor_on_latest show ?thesis
    by (intro exI [of _ column] exI [of _ "factor_on (factor_values column factors) (Some c) (Some d)"])
      (simp add: scale_bar_def flag_bar_def scaled_def PRICE_COLUMNS_def)
qed

definition settings_daily_bar_fields :: string where
  "settings_daily_bar_fields = ''date,code,open,high,low,close,prev_close,volume,amount,adjust_flag,turnover_rate,'' @
     ''trade_status,pct_change,pe_ttm,pb_mrq,ps_ttm,pcf_ncf_ttm,is_st''"

lemma provider_columns:
  "source_fields settings_daily_bar_fields =
     [''date'', ''code'', ''open'', ''high'', ''low'', ''close'', ''preclose'', ''volume'', ''amount'', ''adjustflag'', ''turn'',
      ''tradestatus'', ''pctChg'', ''peTTM'', ''pbMRQ'', ''psTTM'', ''pcfNcfTTM'', ''isST'']"
  by code_simp

text \<open>
  C23: Adjusting a table with the provider's columns misses two of them. The provider answers the
  configured fields under its own names, and the refetch of a whole history adjusts that answer before
  its columns are renamed: the rows then stored have adjusted open and close prices next to the
  unadjusted previous close and the unadjusted flag.
\<close>

theorem provider_columns_stay_unadjusted:
  assumes "calculate_adjusted_daily_bar t factors dataset flag = Some t'"
    and "tb_columns t = source_fields settings_daily_bar_fields"
    and "i < length (tb_rows t)" and "tb_rows t ! i = r"
  shows "\<exists>column. map_of ADJUSTED_DAILY_FACTOR_COLUMNS dataset = Some column \<and>
    bar_prev_close (tb_rows (clean_daily_table t') ! i) = bar_prev_close r \<and>
    bar_adjust_flag (tb_rows (clean_daily_table t') ! i) = bar_adjust_flag r \<and>
    bar_close (tb_rows (clean_daily_table t') ! i) =
      map_option (\<lambda>p. p * factor_on (factor_values column factors) (bar_code r) (bar_date r)) (bar_close r)"
proof -
  obtain column where col: "map_of ADJUSTED_DAILY_FACTOR_COLUMNS dataset = Some column"
    and len: "i < length (tb_rows t')" and cols: "tb_columns t' = tb_columns t"
    and row: "tb_rows t' ! i = scale_bar (tb_columns t) (factor_on (factor_values column factors) (bar_code r) (bar_date r))
      (flag_bar (tb_columns t) flag r)"
    using calculate_row [OF assms(1,3)] assms(3,4) by auto
  then have "tb_rows (clean_daily_table t') ! i = clean_bar (tb_columns t) (tb_rows t' ! i)"
    by (simp add: clean_daily_table_def)
  with col row show ?thesis
    by (simp add: assms(2) provider_columns clean_bar_def kept_def has_column_def COLUMN_ALIASES_def scale_bar_def flag_bar_def
        scaled_def PRICE_COLUMNS_def)
qed

section \<open>Instances\<close>

definition demo_factors :: "int factor_row list" where
  "demo_factors =
     [\<lparr>fr_code = Some ''a'', fr_date = Some (Date 1 1 8), fr_forward = Some 3, fr_backward = Some 5, fr_adjustment = None\<rparr>,
      \<lparr>fr_code = Some ''a'', fr_date = Some (Date 1 1 3), fr_forward = Some 2, fr_backward = Some 4, fr_adjustment = None\<rparr>]"

definition demo_table :: "string list \<Rightarrow> (int, unit) table" where
  "demo_table cols = \<lparr>tb_columns = cols, tb_rows = [demo_bar ''a'' (Date 1 1 5) 10]\<rparr>"

theorem adjusted_rows_use_latest_factor_witness:
  "\<exists>t'. calculate_adjusted_daily_bar (demo_table (field_names DAILY_BAR_SCHEMA)) demo_factors
        ''baostock_cn_stock_daily_bar_qfq'' ''2'' = Some t' \<and>
      bar_close (tb_rows t' ! 0) = Some 20 \<and> bar_prev_close (tb_rows t' ! 0) = Some 20"
proof -
  obtain t' where t: "calculate_adjusted_daily_bar (demo_table (field_names DAILY_BAR_SCHEMA)) demo_factors
      ''baostock_cn_stock_daily_bar_qfq'' ''2'' = Some t'"
    by (simp add: calculate_adjusted_daily_bar_def ADJUSTED_DAILY_FACTOR_COLUMNS_def Let_def)
  from adjusted_rows_use_latest_factor [OF t, of 0 "demo_bar ''a'' (Date 1 1 5) 10" "''a''" "Date 1 1 5"]
  obtain f where "latest_factor (factor_values ''forward_adjust_factor'' demo_factors) ''a'' (Date 1 1 5) f"
    and r: "bar_close (tb_rows t' ! 0) = Some (10 * f)" "bar_prev_close (tb_rows t' ! 0) = Some (10 * f)"
    by (auto simp: demo_table_def demo_bar_def ADJUSTED_DAILY_FACTOR_COLUMNS_def)
  then have "f = 2"
    by (auto simp: latest_factor_def factor_values_def factor_field_def demo_factors_def map_filter_simps less_eq_date_iff)
  with t r show ?thesis by simp
qed

theorem provider_columns_stay_unadjusted_witness:
  "\<exists>t'. calculate_adjusted_daily_bar (demo_table (source_fields settings_daily_bar_fields)) demo_factors
        ''baostock_cn_stock_daily_bar_qfq'' ''2'' = Some t' \<and>
      bar_close (tb_rows (clean_daily_table t') ! 0) = Some 20 \<and>
      bar_prev_close (tb_rows (clean_daily_table t') ! 0) = Some 10 \<and>
      bar_adjust_flag (tb_rows (clean_daily_table t') ! 0) = Some ''3''"
proof -
  obtain t' where t: "calculate_adjusted_daily_bar (demo_table (source_fields settings_daily_bar_fields)) demo_factors
      ''baostock_cn_stock_daily_bar_qfq'' ''2'' = Some t'"
    by (simp add: calculate_adjusted_daily_bar_def ADJUSTED_DAILY_FACTOR_COLUMNS_def Let_def)
  have "factor_on (factor_values ''forward_adjust_factor'' demo_factors) (Some ''a'') (Some (Date 1 1 5)) = 2"
    by code_simp
  with provider_columns_stay_unadjusted [OF t, of 0 "demo_bar ''a'' (Date 1 1 5) 10"] t show ?thesis
    by (auto simp: demo_table_def demo_bar_def ADJUSTED_DAILY_FACTOR_COLUMNS_def)
qed

end
