(* ===== verification/Computation.thy ===== *)
theory Computation imports QDC_Prelude begin

text \<open>
  Computations with state and exceptions: functions from a state to a result and a state. An exception
  is the \<open>Inl\<close> side of the result and keeps the state it was raised in, as mutations survive a raise in
  Python. Their properties are stated by weakest preconditions, one rule per combinator.
\<close>

section \<open>Combinators\<close>

definition seq_comp :: "('s \<Rightarrow> ('e + 'a) \<times> 's) \<Rightarrow> ('a \<Rightarrow> 's \<Rightarrow> ('e + 'b) \<times> 's) \<Rightarrow> 's \<Rightarrow> ('e + 'b) \<times> 's" where
  "seq_comp m f s = (case m s of (Inl e, s') \<Rightarrow> (Inl e, s') | (Inr x, s') \<Rightarrow> f x s')"

definition try_comp :: "('s \<Rightarrow> ('e + 'a) \<times> 's) \<Rightarrow> ('e \<Rightarrow> 's \<Rightarrow> ('e + 'a) \<times> 's) \<Rightarrow> 's \<Rightarrow> ('e + 'a) \<times> 's" where
  "try_comp m handler s = (case m s of (Inl e, s') \<Rightarrow> handler e s' | (Inr x, s') \<Rightarrow> (Inr x, s'))"

definition lift_res :: "'e + 'a \<Rightarrow> 's \<Rightarrow> ('e + 'a) \<times> 's" where
  "lift_res r s = (r, s)"

fun map_comp :: "('a \<Rightarrow> 's \<Rightarrow> ('e + 'b) \<times> 's) \<Rightarrow> 'a list \<Rightarrow> 's \<Rightarrow> ('e + 'b list) \<times> 's" where
  "map_comp f [] s = (Inr [], s)"
| "map_comp f (x # xs) s = seq_comp (f x) (\<lambda>y. seq_comp (map_comp f xs) (\<lambda>ys s. (Inr (y # ys), s))) s"

section \<open>Weakest preconditions\<close>

text \<open>What holds of the result and the state when a computation returns, and when it raises.\<close>

definition wp :: "('s \<Rightarrow> ('e + 'a) \<times> 's) \<Rightarrow> 's \<Rightarrow> ('a \<Rightarrow> 's \<Rightarrow> bool) \<Rightarrow> ('e \<Rightarrow> 's \<Rightarrow> bool) \<Rightarrow> bool" where
  "wp m s Q E = (case m s of (Inr x, s') \<Rightarrow> Q x s' | (Inl e, s') \<Rightarrow> E e s')"

lemma wp_return [simp]: "wp (\<lambda>s. (Inr x, f s)) s Q E = Q x (f s)" "wp (\<lambda>s. (Inl e, f s)) s Q E = E e (f s)"
  by (simp_all add: wp_def)

lemma wp_Pair [simp]: "wp (Pair (Inr x)) s Q E = Q x s" "wp (Pair (Inl e)) s Q E = E e s"
  by (simp_all add: wp_def)

lemma wp_seq [simp]: "wp (seq_comp m f) s Q E = wp m s (\<lambda>x s'. wp (f x) s' Q E) E"
  by (auto simp: wp_def seq_comp_def split: prod.split sum.split)

lemma wp_try [simp]: "wp (try_comp m h) s Q E = wp m s Q (\<lambda>e s'. wp (h e) s' Q E)"
  by (auto simp: wp_def try_comp_def split: prod.split sum.split)

lemma wp_lift [simp]: "wp (lift_res r) s Q E = (case r of Inr x \<Rightarrow> Q x s | Inl e \<Rightarrow> E e s)"
  by (simp add: wp_def lift_res_def)

lemma wp_mono: "wp m s Q E \<Longrightarrow> (\<And>x s'. Q x s' \<Longrightarrow> Q' x s') \<Longrightarrow> (\<And>e s'. E e s' \<Longrightarrow> E' e s') \<Longrightarrow> wp m s Q' E'"
  by (auto simp: wp_def split: prod.splits sum.splits)

lemma wp_returns: "wp m s Q (\<lambda>e s'. False) \<longleftrightarrow> (\<exists>x s'. m s = (Inr x, s') \<and> Q x s')"
  by (auto simp: wp_def split: prod.splits sum.splits)

lemma map_comp_fun: "map_comp f (x # xs) = seq_comp (f x) (\<lambda>y. seq_comp (map_comp f xs) (\<lambda>ys s. (Inr (y # ys), s)))"
  by (rule ext) simp

lemma wp_map_comp:
  assumes "\<And>x seen s. x \<in> set xs \<Longrightarrow> I seen s \<Longrightarrow> wp (f x) s (\<lambda>y s'. I (seen @ [(x, y)]) s') E"
    and "I seen s"
  shows "wp (map_comp f xs) s (\<lambda>ys s'. length ys = length xs \<and> I (seen @ zip xs ys) s') E"
  using assms
proof (induction xs arbitrary: seen s)
  case (Cons x xs)
  have "wp (f x) s (\<lambda>y s'. I (seen @ [(x, y)]) s') E" using Cons.prems by simp
  then show ?case
    unfolding map_comp_fun wp_seq
  proof (rule wp_mono)
    fix y s1 assume "I (seen @ [(x, y)]) s1"
    with Cons.prems(1) have "wp (map_comp f xs) s1 (\<lambda>ys s'. length ys = length xs \<and> I ((seen @ [(x, y)]) @ zip xs ys) s') E"
      by (intro Cons.IH) simp_all
    then show "wp (map_comp f xs) s1 (\<lambda>ys s'. wp (\<lambda>s. (Inr (y # ys), s)) s'
        (\<lambda>ys s'. length ys = length (x # xs) \<and> I (seen @ zip (x # xs) ys) s') E) E"
      by (rule wp_mono) simp_all
  qed
qed (simp add: wp_def)

end
