(* ===== verification/Daily_Worker.thy ===== *)
theory Daily_Worker imports Adjustments Lifecycle Computation begin

text \<open>
  The background worker of the daily update (\<open>src/sources/baostock/update_daily_worker.py\<close>, with the
  writers of \<open>update_daily_metadata.py\<close> and the types of \<open>update_daily_types.py\<close>): what it does with
  a fetched history of one code, and how it decides between an incremental merge and a full refetch.

  An exception is the \<open>Inl\<close> of its traceback. Which reads, checks and writes raise is a parameter.
\<close>

section \<open>State\<close>

record 'n factor_state =
  fs_frame :: "'n factor_row list"
  fs_changed :: bool
  fs_error :: "string option"

record daily_plan =
  dp_dataset :: string
  dp_code :: string
  dp_checkpoint_start :: string
  dp_end :: string
  dp_output_path :: string
  dp_start_time :: int

record api_request =
  ar_code :: string
  ar_start :: string
  ar_end :: string
  ar_datasets :: "string list"
  ar_reason :: string

record task_result =
  tk_records :: "raw_run list"
  tk_requests :: "api_request list"

record ('n, 'r, 'db) worker_state =
  ws_bars :: "string \<Rightarrow> string \<Rightarrow> ('n, 'r) frame"
  ws_factors :: "string \<Rightarrow> 'n factor_row list"
  ws_factor_state :: "'n factor_state dict"
  ws_plans :: "daily_plan list dict"
  ws_batch :: metadata_batch
  ws_db :: 'db
  ws_queue :: "string list"

text \<open>
  The worker's settings and surroundings. The stored partitions are frames; a missing one reads as the
  empty frame. \<open>ww_check\<close> is the validation and the write of a file, \<open>ww_manifest\<close> the manifest row
  written after it.
\<close>

record ('n, 'r, 'db) worker =
  wk_full :: bool
  wk_start :: date
  wk_end :: date
  wk_retain :: bool
  wk_config :: yaml_file
  ww_config_trace :: "config_error \<Rightarrow> string"
  ww_read :: "string \<Rightarrow> string \<Rightarrow> string option"
  ww_check :: "string \<Rightarrow> string \<Rightarrow> ('n, 'r) frame \<Rightarrow> string option"
  ww_check_factors :: "string \<Rightarrow> 'n factor_row list \<Rightarrow> string option"
  ww_manifest :: "string \<Rightarrow> string \<Rightarrow> string option"
  ww_persist :: "(string, 'db) persist"
  ww_source :: row_source
  ww_enqueue_fails :: "string \<Rightarrow> bool"

type_synonym ('n, 'r, 'db, 'a) comp = "('n, 'r, 'db) worker_state \<Rightarrow> (string + 'a) \<times> ('n, 'r, 'db) worker_state"

definition full_history_start :: string where
  "full_history_start = ''1990-01-01''"

section \<open>Reading and writing\<close>

definition schema_table :: "('n, 'r) frame \<Rightarrow> ('n, 'r) table" where
  "schema_table rows = \<lparr>tb_columns = field_names DAILY_BAR_SCHEMA, tb_rows = rows\<rparr>"

definition read_bars :: "('n, 'r, 'db) worker \<Rightarrow> string \<Rightarrow> string \<Rightarrow> ('n, 'r, 'db, ('n, 'r) frame) comp" where
  "read_bars w dataset code s = (case ww_read w dataset code of Some e \<Rightarrow> (Inl e, s) | None \<Rightarrow> (Inr (ws_bars s dataset code), s))"

definition read_factors :: "('n, 'r, 'db) worker \<Rightarrow> string \<Rightarrow> ('n, 'r, 'db, 'n factor_row list) comp" where
  "read_factors w code s = (case ww_read w BAOSTOCK_FACTOR_DATASET code of Some e \<Rightarrow> (Inl e, s) | None \<Rightarrow> (Inr (ws_factors s code), s))"

definition partition_path :: "string \<Rightarrow> string \<Rightarrow> string" where
  "partition_path dataset code = dataset @ ''/code='' @ code @ ''/data.parquet''"

text \<open>\<open>write_dataset\<close> of a daily-bar partition: cleaned, checked to be of that code, sorted, validated, replaced.\<close>

definition write_bars :: "('n, 'r, 'db) worker \<Rightarrow> string \<Rightarrow> string \<Rightarrow> ('n, 'r) table \<Rightarrow> ('n, 'r, 'db, string) comp" where
  "write_bars w dataset code t s =
     (let cleaned = tb_rows (clean_daily_table t); stored = sort_bars cleaned
      in if list_ex (\<lambda>r. bar_code r \<noteq> Some code) cleaned then (Inl (dataset @ '' partition code mismatch for '' @ code), s)
         else case ww_check w dataset code stored of
                Some e \<Rightarrow> (Inl e, s)
              | None \<Rightarrow>
                  (let s' = s\<lparr>ws_bars := (ws_bars s)(dataset := (ws_bars s dataset)(code := stored))\<rparr>
                   in case ww_manifest w dataset code of
                        Some e \<Rightarrow> (Inl e, s')
                      | None \<Rightarrow> (Inr (partition_path dataset code), s')))"

text \<open>\<open>metadata_batch.add\<close>, which flushes when the batch is full and raises when the flush does.\<close>

definition add_metadata :: "('n, 'r, 'db) worker \<Rightarrow> lifecycle_rows \<Rightarrow> ('n, 'r, 'db, unit) comp" where
  "add_metadata w rows s =
     (case add (ww_persist w) rows (ws_batch s) (ws_db s) of
        (err, batch, db) \<Rightarrow>
          (case err of None \<Rightarrow> Inr () | Some e \<Rightarrow> Inl e, s\<lparr>ws_batch := batch, ws_db := db\<rparr>))"

definition daily_task :: "string \<Rightarrow> string \<Rightarrow> string \<Rightarrow> string \<Rightarrow> string \<Rightarrow> string option \<Rightarrow> task_ref" where
  "daily_task dataset code start_date end_date output_path checkpoint_start =
     \<lparr>tr_pipeline = ''update_daily'', tr_dataset = dataset, tr_code = code, tr_start_date = start_date,
      tr_end_date = end_date, tr_output_path = output_path, tr_checkpoint_start_date = checkpoint_start\<rparr>"

text \<open>The run row of rows that have one, as all rows built here do.\<close>

definition run_of :: "lifecycle_rows \<Rightarrow> raw_run" where
  "run_of rows = the (lr_run rows)"

definition write_daily_success ::
  "('n, 'r, 'db) worker \<Rightarrow> daily_plan \<Rightarrow> string \<Rightarrow> ('n, 'r) table \<Rightarrow> ('n, 'r, 'db, raw_run) comp" where
  "write_daily_success w plan run_start df =
     seq_comp (write_bars w (dp_dataset plan) (dp_code plan) df) (\<lambda>output_path.
       let rows = success_rows (ww_source w)
             (daily_task (dp_dataset plan) (dp_code plan) run_start (dp_end plan) output_path (Some (dp_checkpoint_start plan)))
             (dp_start_time plan) (rw_now (ww_source w)) (int (length (tb_rows df))) None None
       in seq_comp (add_metadata w rows) (\<lambda>_ s. (Inr (run_of rows), s)))"

text \<open>A failure that cannot be recorded is only logged.\<close>

definition write_daily_failure :: "('n, 'r, 'db) worker \<Rightarrow> daily_plan \<Rightarrow> string \<Rightarrow> ('n, 'r, 'db, raw_run) comp" where
  "write_daily_failure w plan error_stack =
     (let rows = failure_rows (ww_source w)
            (daily_task (dp_dataset plan) (dp_code plan) (dp_checkpoint_start plan) (dp_end plan) (dp_output_path plan) None)
            (dp_start_time plan) (rw_now (ww_source w)) error_stack None
      in seq_comp (try_comp (add_metadata w rows) (\<lambda>e s. (Inr (), s))) (\<lambda>_ s. (Inr (run_of rows), s)))"

definition write_daily_failures :: "('n, 'r, 'db) worker \<Rightarrow> daily_plan list \<Rightarrow> string \<Rightarrow> ('n, 'r, 'db, raw_run list) comp" where
  "write_daily_failures w plans error_stack = map_comp (\<lambda>plan. write_daily_failure w plan error_stack) plans"

section \<open>Factors\<close>

definition no_factor_state :: "'n factor_state" where
  "no_factor_state = \<lparr>fs_frame = [], fs_changed = False, fs_error = None\<rparr>"

definition factor_state_for_code :: "string \<Rightarrow> ('n, 'r, 'db) worker_state \<Rightarrow> 'n factor_state" where
  "factor_state_for_code code s = dict_get_default (ws_factor_state s) code no_factor_state"

definition set_factor_state :: "('n, 'r, 'db) worker \<Rightarrow> string \<Rightarrow> 'n factor_state \<Rightarrow> ('n, 'r, 'db) worker_state \<Rightarrow> ('n, 'r, 'db) worker_state" where
  "set_factor_state w code st s =
     (if wk_retain w then s\<lparr>ws_factor_state := dict_set (ws_factor_state s) code st\<rparr> else s)"

definition factor_order :: "'n factor_row \<Rightarrow> (nat \<times> string) \<times> (nat \<times> date)" where
  "factor_order r = key_order (fr_code r, fr_date r)"

definition sort_factors :: "'n factor_row list \<Rightarrow> 'n factor_row list" where
  "sort_factors = sort_key factor_order"

definition factor_frames_differ :: "'n factor_row list \<Rightarrow> 'n factor_row list \<Rightarrow> bool" where
  "factor_frames_differ existing fresh \<longleftrightarrow> sort_factors existing \<noteq> sort_factors fresh"

text \<open>\<open>prepare_dataset_frame\<close> and \<open>write_dataset\<close> of a factor partition.\<close>

definition prepare_factors :: "('n, 'r, 'db) worker \<Rightarrow> string \<Rightarrow> 'n factor_row list \<Rightarrow> ('n, 'r, 'db, 'n factor_row list) comp" where
  "prepare_factors w code fetched s =
     (if list_ex (\<lambda>r. fr_code r \<noteq> Some code) fetched then (Inl (''partition code mismatch for '' @ code), s)
      else let stored = sort_factors fetched
           in case ww_check_factors w code stored of Some e \<Rightarrow> (Inl e, s) | None \<Rightarrow> (Inr stored, s))"

definition write_factors :: "('n, 'r, 'db) worker \<Rightarrow> string \<Rightarrow> 'n factor_row list \<Rightarrow> ('n, 'r, 'db, string) comp" where
  "write_factors w code stored s =
     (case ww_check_factors w code stored of
        Some e \<Rightarrow> (Inl e, s)
      | None \<Rightarrow>
          (let s' = s\<lparr>ws_factors := (ws_factors s)(code := stored)\<rparr>
           in case ww_manifest w BAOSTOCK_FACTOR_DATASET code of
                Some e \<Rightarrow> (Inl e, s')
              | None \<Rightarrow> (Inr (partition_path BAOSTOCK_FACTOR_DATASET code), s')))"

definition factor_task :: "('n, 'r, 'db) worker \<Rightarrow> string \<Rightarrow> string \<Rightarrow> task_ref" where
  "factor_task w code output_path =
     daily_task BAOSTOCK_FACTOR_DATASET code full_history_start (isoformat (wk_end w)) output_path None"

definition process_factor_failure ::
  "('n, 'r, 'db) worker \<Rightarrow> string \<Rightarrow> int \<Rightarrow> string \<Rightarrow> string \<Rightarrow> ('n, 'r, 'db, task_result) comp" where
  "process_factor_failure w code start_time output_path error_stack s =
     (let (existing, stack) =
            (case fst (read_factors w code s) of
               Inr rows \<Rightarrow> (rows, error_stack)
             | Inl e \<Rightarrow> ([], error_stack @ ''Failed to read existing adjust factors:'' @ e));
          rows = failure_rows (ww_source w) (factor_task w code output_path) start_time (rw_now (ww_source w)) stack None;
          s1 = snd (add_metadata w rows s);
          st = (if existing = [] then \<lparr>fs_frame = existing, fs_changed = False, fs_error = Some stack\<rparr>
                else \<lparr>fs_frame = existing, fs_changed = False, fs_error = None\<rparr>)
      in (Inr \<lparr>tk_records = [run_of rows], tk_requests = []\<rparr>, set_factor_state w code st s1))"

definition process_factor_success ::
  "('n, 'r, 'db) worker \<Rightarrow> string \<Rightarrow> 'n factor_row list \<Rightarrow> int \<Rightarrow> string \<Rightarrow> ('n, 'r, 'db, task_result) comp" where
  "process_factor_success w code fetched start_time output_path =
     try_comp
       (seq_comp (read_factors w code) (\<lambda>existing.
        seq_comp (prepare_factors w code fetched) (\<lambda>stored.
        seq_comp (write_factors w code stored) (\<lambda>path.
          let rows = success_rows (ww_source w) (factor_task w code path) start_time (rw_now (ww_source w))
                       (int (length stored)) None None;
              changed = factor_frames_differ existing stored
          in seq_comp (add_metadata w rows) (\<lambda>_ s.
               let s1 = set_factor_state w code \<lparr>fs_frame = stored, fs_changed = changed, fs_error = None\<rparr> s;
                   s2 = (if changed \<and> \<not> ww_enqueue_fails w code then s1\<lparr>ws_queue := ws_queue s1 @ [code]\<rparr> else s1)
               in (Inr \<lparr>tk_records = [run_of rows], tk_requests = []\<rparr>, s2))))))
       (\<lambda>e. process_factor_failure w code start_time output_path e)"

definition use_existing_factor :: "('n, 'r, 'db) worker \<Rightarrow> string \<Rightarrow> ('n, 'r, 'db, unit) comp" where
  "use_existing_factor w code s =
     (if \<not> wk_retain w then (Inr (), s)
      else seq_comp (read_factors w code)
             (\<lambda>existing s. (Inr (), set_factor_state w code \<lparr>fs_frame = existing, fs_changed = False, fs_error = None\<rparr> s)) s)"

section \<open>Daily bars\<close>

definition daily_frame_from_unadjusted ::
  "('n::{one,times}, 'r, 'db) worker \<Rightarrow> string \<Rightarrow> ('n, 'r) table \<Rightarrow> 'n factor_row list \<Rightarrow> string + ('n, 'r) table" where
  "daily_frame_from_unadjusted w dataset unadjusted factors =
     (if dataset = UNADJUSTED_DAILY_DATASET then Inr unadjusted
      else if is_adjusted_daily_dataset dataset then
        (case adjust_flag_for_dataset (wk_config w) dataset of
           Inl ce \<Rightarrow> Inl (ww_config_trace w ce)
         | Inr flag \<Rightarrow>
             (case calculate_adjusted_daily_bar unadjusted factors dataset flag of
                None \<Rightarrow> Inl (''Unsupported adjusted daily_bar dataset: '' @ dataset) | Some t \<Rightarrow> Inr t))
      else Inl (''Unsupported async daily dataset: '' @ dataset))"

text \<open>Each plan on its own: a failing one is recorded as failed and the others go on.\<close>

definition write_daily_frames ::
  "('n::{one,times}, 'r, 'db) worker \<Rightarrow> daily_plan list \<Rightarrow> ('n, 'r) table \<Rightarrow> string \<Rightarrow> ('n, 'r, 'db, raw_run list) comp" where
  "write_daily_frames w plans unadjusted run_start s =
     (let factors = fs_frame (factor_state_for_code (case plans of [] \<Rightarrow> [] | p # _ \<Rightarrow> dp_code p) s)
      in map_comp (\<lambda>plan. try_comp
           (seq_comp (lift_res (daily_frame_from_unadjusted w (dp_dataset plan) unadjusted factors))
              (\<lambda>fresh. write_daily_success w plan run_start fresh))
           (\<lambda>e. write_daily_failure w plan e)) plans s)"

text \<open>The base of an incremental update, or the reason for fetching the whole history.\<close>

definition partial_unadjusted_base ::
  "('n, 'r, 'db) worker \<Rightarrow> string \<Rightarrow> ('n, 'r) table \<Rightarrow> ('n, 'r, 'db, string + ('n, 'r) table) comp" where
  "partial_unadjusted_base w code fresh =
     seq_comp (read_bars w UNADJUSTED_DAILY_DATASET code) (\<lambda>existing s.
       let fresh_rows = tb_rows (clean_daily_table fresh)
       in if \<not> has_data_in_range existing (wk_start w) (wk_end w) then (Inr (Inl ''unadjusted_empty_lookback''), s)
          else if daily_frames_differ_on_overlap existing fresh_rows (wk_start w) (wk_end w)
               then (Inr (Inl ''unadjusted_lookback_mismatch''), s)
          else (Inr (Inr (schema_table (merge_daily_frames existing fresh_rows))), s))"

definition refetch_request :: "('n, 'r, 'db) worker \<Rightarrow> string \<Rightarrow> daily_plan list \<Rightarrow> string \<Rightarrow> api_request" where
  "refetch_request w code active reason =
     \<lparr>ar_code = code, ar_start = full_history_start, ar_end = isoformat (wk_end w),
      ar_datasets = dedup_first (map dp_dataset active), ar_reason = reason\<rparr>"

text \<open>One plan of an incremental update; here an exception ends the whole task.\<close>

definition write_partial ::
  "('n::{one,times}, 'r, 'db) worker \<Rightarrow> ('n, 'r) table \<Rightarrow> 'n factor_row list \<Rightarrow> daily_plan \<Rightarrow> ('n, 'r, 'db, raw_run) comp" where
  "write_partial w base factors plan =
     seq_comp (lift_res (daily_frame_from_unadjusted w (dp_dataset plan) base factors)) (\<lambda>fresh.
       write_daily_success w plan
         (if is_adjusted_daily_dataset (dp_dataset plan) then full_history_start else dp_checkpoint_start plan) fresh)"

definition factor_failed :: "'n factor_state \<Rightarrow> bool" where
  "factor_failed st \<longleftrightarrow> fs_error st \<noteq> None \<and> fs_error st \<noteq> Some []"

definition initial_active ::
  "('n::{one,times}, 'r, 'db) worker \<Rightarrow> string \<Rightarrow> daily_plan list \<Rightarrow> string option \<Rightarrow> ('n, 'r) table \<Rightarrow> string option \<Rightarrow>
   'n factor_state \<Rightarrow> ('n, 'r, 'db, task_result) comp" where
  "initial_active w code active fetch_start unadjusted api_error st =
     (let done = (\<lambda>records s. (Inr \<lparr>tk_records = records, tk_requests = []\<rparr>, s));
          request = (\<lambda>reason s. (Inr \<lparr>tk_records = [], tk_requests = [refetch_request w code active reason]\<rparr>, s))
      in if active = [] then done []
         else if wk_full w then
           (if fetch_start = None then request ''baostock_cn_stock_adjustment_factor_changed''
            else case api_error of
                   Some e \<Rightarrow> seq_comp (write_daily_failures w active e) done
                 | None \<Rightarrow> seq_comp (write_daily_frames w active unadjusted full_history_start) done)
         else
           case api_error of
             Some e \<Rightarrow> seq_comp (write_daily_failures w active e) done
           | None \<Rightarrow>
               seq_comp (partial_unadjusted_base w code unadjusted) (\<lambda>b.
                 case b of
                   Inl reason \<Rightarrow> request reason
                 | Inr base \<Rightarrow> seq_comp (map_comp (write_partial w base (fs_frame st)) active) done))"

definition process_daily_initial_body ::
  "('n::{one,times}, 'r, 'db) worker \<Rightarrow> string \<Rightarrow> daily_plan list \<Rightarrow> string option \<Rightarrow> ('n, 'r) table \<Rightarrow> string option \<Rightarrow>
   ('n, 'r, 'db, task_result) comp" where
  "process_daily_initial_body w code plans fetch_start unadjusted api_error s =
     (let st = factor_state_for_code code s;
          stopped = (\<lambda>p. is_adjusted_daily_dataset (dp_dataset p) \<and> factor_failed st)
      in seq_comp (write_daily_failures w (filter stopped plans) (case fs_error st of None \<Rightarrow> [] | Some e \<Rightarrow> e)) (\<lambda>records.
         seq_comp (initial_active w code (filter (\<lambda>p. \<not> stopped p) plans) fetch_start unadjusted api_error st)
           (\<lambda>r s. (Inr (r\<lparr>tk_records := records @ tk_records r\<rparr>), s))) s)"

definition release_code_state :: "string \<Rightarrow> ('n, 'r, 'db) worker_state \<Rightarrow> ('n, 'r, 'db) worker_state" where
  "release_code_state code s =
     s\<lparr>ws_factor_state := AList.delete code (ws_factor_state s), ws_plans := AList.delete code (ws_plans s)\<rparr>"

definition failed_result :: "('n, 'r, 'db) worker \<Rightarrow> daily_plan list \<Rightarrow> string \<Rightarrow> ('n, 'r, 'db, task_result) comp" where
  "failed_result w plans e =
     seq_comp (write_daily_failures w plans e) (\<lambda>records s. (Inr \<lparr>tk_records = records, tk_requests = []\<rparr>, s))"

definition process_daily_initial ::
  "('n::{one,times}, 'r, 'db) worker \<Rightarrow> string \<Rightarrow> daily_plan list \<Rightarrow> string option \<Rightarrow> ('n, 'r) table \<Rightarrow> string option \<Rightarrow>
   ('n, 'r, 'db, task_result) comp" where
  "process_daily_initial w code plans fetch_start unadjusted api_error s =
     seq_comp
       (try_comp (process_daily_initial_body w code plans fetch_start unadjusted api_error)
          (\<lambda>e. failed_result w plans e))
       (\<lambda>result s. (Inr result, if tk_requests result = [] then release_code_state code s else s))
       (s\<lparr>ws_plans := dict_set (ws_plans s) code plans\<rparr>)"

definition process_daily_full_refetch ::
  "('n::{one,times}, 'r, 'db) worker \<Rightarrow> api_request \<Rightarrow> ('n, 'r) table \<Rightarrow> string option \<Rightarrow> ('n, 'r, 'db, task_result) comp" where
  "process_daily_full_refetch w request unadjusted api_error s =
     (let plans = filter (\<lambda>p. dp_dataset p \<in> set (ar_datasets request)) (dict_get_default (ws_plans s) (ar_code request) []);
          finish = (\<lambda>records s. (Inr \<lparr>tk_records = records, tk_requests = []\<rparr>, s))
      in seq_comp
           (try_comp
             (case api_error of
                Some e \<Rightarrow> failed_result w plans e
              | None \<Rightarrow> seq_comp (write_daily_frames w plans unadjusted full_history_start) finish)
             (\<lambda>e. failed_result w plans e))
           (\<lambda>result s. (Inr result, release_code_state (ar_code request) s)) s)"

definition metadata_failure_record :: "int \<Rightarrow> string \<Rightarrow> raw_run" where
  "metadata_failure_record now error_stack =
     \<lparr>run_task_id = [], run_dataset = ''__metadata__'', run_code = ''*'', run_status = ''failed'', run_start_date = None,
      run_end_date = None, run_start_time = now, run_end_time = now, run_row_count = 0, run_error_stack = error_stack\<rparr>"

definition flush_metadata :: "('n, 'r, 'db) worker \<Rightarrow> ('n, 'r, 'db, task_result) comp" where
  "flush_metadata w s =
     (case flush (ww_persist w) (ws_batch s) (ws_db s) of
        (err, batch, db) \<Rightarrow>
          (Inr \<lparr>tk_records = (case err of None \<Rightarrow> [] | Some e \<Rightarrow> [metadata_failure_record 0 e]), tk_requests = []\<rparr>,
           s\<lparr>ws_batch := batch, ws_db := db\<rparr>))"

section \<open>Effects of the writers\<close>

definition failure_run :: "('n, 'r, 'db) worker \<Rightarrow> daily_plan \<Rightarrow> string \<Rightarrow> raw_run" where
  "failure_run w plan error_stack =
     run_row (ww_source w) (dp_dataset plan) (dp_code plan) ''failed'' (dp_checkpoint_start plan) (dp_end plan)
       (dp_start_time plan) (rw_now (ww_source w)) 0 error_stack"

lemma failure_run_fields [simp]:
  "run_dataset (failure_run w plan e) = dp_dataset plan" "run_status (failure_run w plan e) = ''failed''"
  by (simp_all add: failure_run_def run_row_def)

lemma add_metadata_wp:
  assumes "\<And>b d. Q () (s\<lparr>ws_batch := b, ws_db := d\<rparr>)" and "\<And>e b d. E e (s\<lparr>ws_batch := b, ws_db := d\<rparr>)"
  shows "wp (add_metadata w rows) s Q E"
  using assms by (auto simp: wp_def add_metadata_def split: prod.split option.split)

lemma write_daily_failure_wp:
  assumes "\<And>b d. Q (failure_run w plan e) (s\<lparr>ws_batch := b, ws_db := d\<rparr>)"
  shows "wp (write_daily_failure w plan e) s Q E"
  unfolding write_daily_failure_def Let_def wp_seq wp_try
  by (rule add_metadata_wp)
    (use assms in \<open>simp_all add: run_of_def failure_rows_def daily_task_def failure_run_def\<close>)

definition put_bars :: "string \<Rightarrow> string \<Rightarrow> ('n, 'r) frame \<Rightarrow> ('n, 'r, 'db) worker_state \<Rightarrow> ('n, 'r, 'db) worker_state" where
  "put_bars dataset code rows s = s\<lparr>ws_bars := (ws_bars s)(dataset := (ws_bars s dataset)(code := rows))\<rparr>"

definition stored_rows :: "('n, 'r) table \<Rightarrow> ('n, 'r) frame" where
  "stored_rows t = sort_bars (tb_rows (clean_daily_table t))"

lemma write_bars_wp:
  assumes "\<And>path. Q path (put_bars dataset code (stored_rows t) s)" and "\<And>e. E e s"
    and "\<And>e. E e (put_bars dataset code (stored_rows t) s)"
  shows "wp (write_bars w dataset code t) s Q E"
  using assms by (auto simp: wp_def write_bars_def Let_def put_bars_def stored_rows_def split: option.split)

lemma write_daily_success_wp:
  assumes "\<And>b d row. run_dataset row = dp_dataset plan \<Longrightarrow> run_status row = ''success'' \<Longrightarrow>
      Q row ((put_bars (dp_dataset plan) (dp_code plan) (stored_rows t) s)\<lparr>ws_batch := b, ws_db := d\<rparr>)"
    and "\<And>e. E e s" and "\<And>e. E e (put_bars (dp_dataset plan) (dp_code plan) (stored_rows t) s)"
    and "\<And>e b d. E e ((put_bars (dp_dataset plan) (dp_code plan) (stored_rows t) s)\<lparr>ws_batch := b, ws_db := d\<rparr>)"
  shows "wp (write_daily_success w plan run_start t) s Q E"
  unfolding write_daily_success_def Let_def wp_seq
  by (rule write_bars_wp; (rule add_metadata_wp)?)
    (use assms in \<open>simp_all add: run_of_def success_rows_def daily_task_def run_row_def\<close>)

section \<open>One outcome for every plan\<close>

definition outcomes :: "(daily_plan \<times> raw_run) list \<Rightarrow> bool" where
  "outcomes xs \<longleftrightarrow> (\<forall>(p, r) \<in> set xs. run_dataset r = dp_dataset p)"

lemma outcomes_datasets:
  "length ys = length xs \<Longrightarrow> outcomes (zip xs ys) \<Longrightarrow> map run_dataset ys = map dp_dataset xs"
  by (induction xs ys rule: list_induct2') (auto simp: outcomes_def)

text \<open>The plans kept for a code, and the settings, are not touched by the writers.\<close>

definition keeps_plans :: "('n, 'r, 'db) worker_state \<Rightarrow> ('n, 'r, 'db) worker_state \<Rightarrow> bool" where
  "keeps_plans s s' \<longleftrightarrow> ws_plans s' = ws_plans s \<and> ws_factor_state s' = ws_factor_state s"

lemma keeps_plans_simps [simp]:
  "keeps_plans s s" "keeps_plans s (s\<lparr>ws_batch := b, ws_db := d\<rparr>)" "keeps_plans s (put_bars ds c rows s)"
  "keeps_plans s ((put_bars ds c rows s)\<lparr>ws_batch := b, ws_db := d\<rparr>)"
  by (simp_all add: keeps_plans_def put_bars_def)

lemma keeps_plans_trans: "keeps_plans s s1 \<Longrightarrow> keeps_plans s1 s2 \<Longrightarrow> keeps_plans s s2"
  by (simp add: keeps_plans_def)

lemma each_plan_wp:
  fixes f :: "daily_plan \<Rightarrow> ('n, 'r, 'db, raw_run) comp"
  assumes "\<And>p s1. p \<in> set plans \<Longrightarrow> keeps_plans s s1 \<Longrightarrow>
    wp (f p) s1 (\<lambda>r s'. run_dataset r = dp_dataset p \<and> keeps_plans s1 s') E"
  shows "wp (map_comp f plans) s (\<lambda>rs s'. map run_dataset rs = map dp_dataset plans \<and> keeps_plans s s') E"
proof -
  let ?I = "\<lambda>seen s'. outcomes seen \<and> keeps_plans s s'"
  have "wp (map_comp f plans) s (\<lambda>rs s'. length rs = length plans \<and> ?I ([] @ zip plans rs) s') E"
  proof (rule wp_map_comp)
    fix p seen s1 assume "p \<in> set plans" and I: "?I seen s1"
    from assms [OF this(1), of s1] I have "wp (f p) s1 (\<lambda>r s'. run_dataset r = dp_dataset p \<and> keeps_plans s1 s') E" by blast
    then show "wp (f p) s1 (\<lambda>y s'. ?I (seen @ [(p, y)]) s') E"
      by (rule wp_mono) (use I in \<open>auto simp: outcomes_def intro: keeps_plans_trans\<close>)
  qed (simp add: outcomes_def)
  then show ?thesis by (rule wp_mono) (auto dest: outcomes_datasets)
qed

lemma write_daily_failures_wp:
  "wp (write_daily_failures w plans e) s (\<lambda>rs s'. map run_dataset rs = map dp_dataset plans \<and> keeps_plans s s') (\<lambda>e s'. False)"
  unfolding write_daily_failures_def by (rule each_plan_wp) (rule write_daily_failure_wp, simp)

lemma write_daily_frames_wp:
  "wp (write_daily_frames w plans t run_start) s
     (\<lambda>rs s'. map run_dataset rs = map dp_dataset plans \<and> keeps_plans s s') (\<lambda>e s'. False)"
proof -
  let ?factors = "fs_frame (factor_state_for_code (case plans of [] \<Rightarrow> [] | p # _ \<Rightarrow> dp_code p) s)"
  let ?f = "\<lambda>plan. try_comp
      (seq_comp (lift_res (daily_frame_from_unadjusted w (dp_dataset plan) t ?factors))
         (\<lambda>fresh. write_daily_success w plan run_start fresh))
      (\<lambda>e. write_daily_failure w plan e)"
  have "wp (map_comp ?f plans) s (\<lambda>rs s'. map run_dataset rs = map dp_dataset plans \<and> keeps_plans s s') (\<lambda>e s'. False)"
  proof (rule each_plan_wp)
    fix p s
    have fail: "wp (write_daily_failure w p e) s1 (\<lambda>r s'. run_dataset r = dp_dataset p \<and> keeps_plans s s') (\<lambda>e s'. False)"
      if "keeps_plans s s1" for e s1
      by (rule write_daily_failure_wp) (use that in \<open>auto intro: keeps_plans_trans\<close>)
    show "wp (?f p) s (\<lambda>r s'. run_dataset r = dp_dataset p \<and> keeps_plans s s') (\<lambda>e s'. False)"
      by (auto split: sum.split intro!: write_daily_success_wp fail)
  qed
  then show ?thesis by (simp add: write_daily_frames_def Let_def wp_def)
qed

lemma partial_unadjusted_base_wp:
  "(\<And>b. Q b s) \<Longrightarrow> (\<And>e. E e s) \<Longrightarrow> wp (partial_unadjusted_base w code t) s Q E"
  by (auto simp: wp_def partial_unadjusted_base_def seq_comp_def read_bars_def Let_def split: option.split)

definition active_outcome :: "('n, 'r, 'db) worker \<Rightarrow> string \<Rightarrow> daily_plan list \<Rightarrow> task_result \<Rightarrow> bool" where
  "active_outcome w code active r \<longleftrightarrow>
     tk_requests r = [] \<and> map run_dataset (tk_records r) = map dp_dataset active \<or>
     active \<noteq> [] \<and> tk_records r = [] \<and> (\<exists>reason. tk_requests r = [refetch_request w code active reason])"

lemma write_partial_wp:
  "keeps_plans s s1 \<Longrightarrow> wp (write_partial w base factors p) s1
     (\<lambda>r s'. run_dataset r = dp_dataset p \<and> keeps_plans s1 s') (\<lambda>e s'. keeps_plans s s')"
  unfolding write_partial_def wp_seq
  by (auto split: sum.split intro!: write_daily_success_wp intro: keeps_plans_trans)

lemma map_write_partial_wp:
  "wp (map_comp (write_partial w base factors) active) s
     (\<lambda>rs s'. map run_dataset rs = map dp_dataset active \<and> keeps_plans s s') (\<lambda>e s'. keeps_plans s s')"
  by (rule each_plan_wp) (rule write_partial_wp)

lemma initial_active_wp:
  "wp (initial_active w code active fetch_start t api_error st) s
     (\<lambda>r s'. active_outcome w code active r \<and> keeps_plans s s') (\<lambda>e s'. keeps_plans s s')"
proof -
  let ?finish = "\<lambda>records s. (Inr \<lparr>tk_records = records, tk_requests = []\<rparr>, s)"
  let ?Q = "\<lambda>r s'. active_outcome w code active r \<and> keeps_plans s s'"
  have fin: "wp (seq_comp m ?finish) s ?Q (\<lambda>e s'. keeps_plans s s')"
    if "wp m s (\<lambda>rs s'. map run_dataset rs = map dp_dataset active \<and> keeps_plans s s') E" and "\<And>e s'. E e s' \<Longrightarrow> keeps_plans s s'" for m E
    unfolding wp_seq by (rule wp_mono [OF that(1)]) (simp_all add: active_outcome_def that(2))
  have empty: "active_outcome w code [] \<lparr>tk_records = [], tk_requests = []\<rparr>"
    by (simp add: active_outcome_def)
  have request: "active \<noteq> [] \<Longrightarrow> active_outcome w code active \<lparr>tk_records = [], tk_requests = [refetch_request w code active reason]\<rparr>" for reason
    by (auto simp: active_outcome_def)
  note parts = fin [OF write_daily_failures_wp] fin [OF write_daily_frames_wp] fin [OF map_write_partial_wp]
  show ?thesis
    unfolding initial_active_def Let_def
    by (auto simp del: wp_seq split: option.split sum.split intro!: parts empty request
        partial_unadjusted_base_wp simp: wp_seq [of "partial_unadjusted_base w code t"])
qed

text \<open>What a task leaves behind: records and requests that together name each plan once, if the plans differ.\<close>

definition task_outcome :: "string \<Rightarrow> daily_plan list \<Rightarrow> task_result \<Rightarrow> bool" where
  "task_outcome code plans r \<longleftrightarrow>
     (distinct (map dp_dataset plans) \<longrightarrow>
       mset (map run_dataset (tk_records r) @ concat (map ar_datasets (tk_requests r))) = mset (map dp_dataset plans)) \<and>
     (tk_requests r = [] \<or> (\<exists>q. tk_requests r = [q] \<and> ar_code q = code))"

lemma active_outcome_task:
  assumes "active_outcome w code (filter (\<lambda>p. \<not> P p) plans) r" and "map run_dataset rs = map dp_dataset (filter P plans)"
  shows "task_outcome code plans (r\<lparr>tk_records := rs @ tk_records r\<rparr>)"
proof -
  let ?active = "filter (\<lambda>p. \<not> P p) plans"
  have "distinct (map dp_dataset ?active)" if "distinct (map dp_dataset plans)" using that by (simp add: distinct_map_filter)
  moreover have "mset (map dp_dataset plans) = mset (map dp_dataset (filter P plans)) + mset (map dp_dataset ?active)"
    by (induction plans) auto
  ultimately show ?thesis
    using assms unfolding active_outcome_def task_outcome_def
    by (auto simp: refetch_request_def dedup_first_distinct simp del: mset_map mset_filter)
qed

lemma process_daily_initial_body_wp:
  "wp (process_daily_initial_body w code plans fetch_start t api_error) s
    (\<lambda>r s'. task_outcome code plans r \<and> keeps_plans s s') (\<lambda>e s'. keeps_plans s s')"
proof -
  let ?st = "factor_state_for_code code s"
  let ?P = "\<lambda>p. is_adjusted_daily_dataset (dp_dataset p) \<and> factor_failed ?st"
  let ?e = "case fs_error ?st of None \<Rightarrow> [] | Some e \<Rightarrow> e"
  let ?E = "\<lambda>e s'. keeps_plans s s'"
  have "wp (write_daily_failures w (filter ?P plans) ?e) s
      (\<lambda>records s1. wp (seq_comp (initial_active w code (filter (\<lambda>p. \<not> ?P p) plans) fetch_start t api_error ?st)
        (\<lambda>r s. (Inr (r\<lparr>tk_records := records @ tk_records r\<rparr>), s))) s1 (\<lambda>r s'. task_outcome code plans r \<and> keeps_plans s s') ?E) ?E"
  proof (rule wp_mono [OF write_daily_failures_wp])
    fix records :: "raw_run list" and s1 assume r: "map run_dataset records = map dp_dataset (filter ?P plans) \<and> keeps_plans s s1"
    show "wp (seq_comp (initial_active w code (filter (\<lambda>p. \<not> ?P p) plans) fetch_start t api_error ?st)
        (\<lambda>r s. (Inr (r\<lparr>tk_records := records @ tk_records r\<rparr>), s))) s1 (\<lambda>r s'. task_outcome code plans r \<and> keeps_plans s s') ?E"
      unfolding wp_seq by (rule wp_mono [OF initial_active_wp])
        (use r in \<open>auto intro: active_outcome_task [where P = ?P] keeps_plans_trans\<close>)
  qed simp
  then show ?thesis by (simp only: wp_seq [symmetric]) (simp add: process_daily_initial_body_def Let_def wp_def)
qed

lemma failed_result_wp:
  "wp (failed_result w plans e) s (\<lambda>r s'. tk_requests r = [] \<and> map run_dataset (tk_records r) = map dp_dataset plans \<and> keeps_plans s s')
     (\<lambda>e s'. False)"
  unfolding failed_result_def wp_seq by (rule wp_mono [OF write_daily_failures_wp]) simp_all

lemma process_daily_initial_wp:
  "wp (process_daily_initial w code plans fetch_start t api_error) s
    (\<lambda>r s'. task_outcome code plans r \<and>
       dict_get (ws_plans s') code = (if tk_requests r = [] then None else Some plans)) (\<lambda>e s'. False)"
proof -
  let ?s0 = "s\<lparr>ws_plans := dict_set (ws_plans s) code plans\<rparr>"
  let ?m = "try_comp (process_daily_initial_body w code plans fetch_start t api_error) (\<lambda>e. failed_result w plans e)"
  have "wp ?m ?s0 (\<lambda>r s'. task_outcome code plans r \<and> dict_get (ws_plans s') code = Some plans) (\<lambda>e s'. False)"
    unfolding wp_try
  proof (rule wp_mono [OF process_daily_initial_body_wp])
    fix e s1 assume k: "keeps_plans ?s0 s1"
    show "wp (failed_result w plans e) s1 (\<lambda>r s'. task_outcome code plans r \<and> dict_get (ws_plans s') code = Some plans) (\<lambda>e s'. False)"
      by (rule wp_mono [OF failed_result_wp]) (use k in \<open>auto simp: task_outcome_def keeps_plans_def simp del: mset_map\<close>)
  qed (auto simp: keeps_plans_def)
  then have "wp (seq_comp ?m (\<lambda>r s. (Inr r, if tk_requests r = [] then release_code_state code s else s))) ?s0
      (\<lambda>r s'. task_outcome code plans r \<and> dict_get (ws_plans s') code = (if tk_requests r = [] then None else Some plans)) (\<lambda>e s'. False)"
    unfolding wp_seq by (rule wp_mono) (auto simp: release_code_state_def delete_conv')
  then show ?thesis by (simp add: process_daily_initial_def wp_def)
qed

lemma filtered_datasets:
  assumes "mset (xs @ ds) = mset (map dp_dataset plans)" and "distinct (map dp_dataset plans)"
  shows "mset (map dp_dataset (filter (\<lambda>p. dp_dataset p \<in> set ds) plans)) = mset ds"
proof -
  from assms have d: "distinct (xs @ ds)" using mset_eq_imp_distinct_iff by blast
  from assms(1) have "set (xs @ ds) = set (map dp_dataset plans)" by (rule mset_eq_setD)
  then have "set (map dp_dataset (filter (\<lambda>p. dp_dataset p \<in> set ds) plans)) = set ds" by auto
  moreover have "distinct (map dp_dataset (filter (\<lambda>p. dp_dataset p \<in> set ds) plans))"
    using assms(2) by (rule distinct_map_filter)
  ultimately show ?thesis using d set_eq_iff_mset_eq_distinct by (metis distinct_append)
qed

lemma process_daily_full_refetch_wp:
  fixes w :: "('n::{one,times}, 'r, 'db) worker"
  assumes "dict_get (ws_plans s) (ar_code q) = Some plans"
  shows "wp (process_daily_full_refetch w q t err) s
    (\<lambda>r s'. tk_requests r = [] \<and> dict_get (ws_plans s') (ar_code q) = None \<and>
       map run_dataset (tk_records r) = map dp_dataset (filter (\<lambda>p. dp_dataset p \<in> set (ar_datasets q)) plans)) (\<lambda>e s'. False)"
proof -
  let ?plans = "filter (\<lambda>p. dp_dataset p \<in> set (ar_datasets q)) plans"
  let ?finish = "\<lambda>records s. (Inr \<lparr>tk_records = records, tk_requests = []\<rparr>, s)"
  let ?Q = "\<lambda>r s'. tk_requests r = [] \<and> map run_dataset (tk_records r) = map dp_dataset ?plans"
  have "wp (case err of Some e \<Rightarrow> failed_result w ?plans e
        | None \<Rightarrow> seq_comp (write_daily_frames w ?plans t full_history_start) ?finish) s ?Q (\<lambda>e s'. False)"
    by (auto split: option.split intro: wp_mono [OF failed_result_wp] wp_mono [OF write_daily_frames_wp])
  then have "wp (seq_comp (try_comp (case err of Some e \<Rightarrow> failed_result w ?plans e
        | None \<Rightarrow> seq_comp (write_daily_frames w ?plans t full_history_start) ?finish) (\<lambda>e. failed_result w ?plans e))
        (\<lambda>result s. (Inr result, release_code_state (ar_code q) s))) s
      (\<lambda>r s'. ?Q r s' \<and> dict_get (ws_plans s') (ar_code q) = None) (\<lambda>e s'. False)"
    unfolding wp_seq wp_try by (rule wp_mono) (simp_all add: release_code_state_def delete_conv')
  then show ?thesis
    using assms by (simp add: process_daily_full_refetch_def wp_def Let_def dict_get_default_def) (auto split: prod.splits sum.splits)
qed

section \<open>Properties\<close>

text \<open>
  C9: A fetched history settles every plan of its code exactly once, whatever reads, checks and writes
  fail. The task does not raise and asks for at most one refetch; what it records and what it asks to
  refetch are together the planned datasets, each once. If it asks, the answer records exactly the
  datasets asked for, without a further request, and the plans of the code are released.
\<close>

theorem daily_task_settles_every_plan:
  fixes w :: "('n::{one,times}, 'r, 'db) worker"
  assumes "distinct (map dp_dataset plans)"
  shows "\<exists>r s'. process_daily_initial w code plans fetch_start t err s = (Inr r, s') \<and>
    ((tk_requests r = [] \<and> mset (map run_dataset (tk_records r)) = mset (map dp_dataset plans) \<and>
        dict_get (ws_plans s') code = None) \<or>
     (\<exists>q. tk_requests r = [q] \<and> ar_code q = code \<and>
        (\<forall>s1 t1 err1. dict_get (ws_plans s1) code = dict_get (ws_plans s') code \<longrightarrow>
          (\<exists>r1 s2. process_daily_full_refetch w q t1 err1 s1 = (Inr r1, s2) \<and> tk_requests r1 = [] \<and>
             mset (map run_dataset (tk_records r @ tk_records r1)) = mset (map dp_dataset plans) \<and>
             dict_get (ws_plans s2) code = None))))"
proof -
  from process_daily_initial_wp [of w code plans fetch_start t err s] obtain r s' where
    init: "process_daily_initial w code plans fetch_start t err s = (Inr r, s')" and out: "task_outcome code plans r"
    and kept: "dict_get (ws_plans s') code = (if tk_requests r = [] then None else Some plans)"
    unfolding wp_returns by blast
  show ?thesis
  proof (cases "tk_requests r = []")
    case True
    then show ?thesis using init out kept assms by (simp add: task_outcome_def)
  next
    case False
    with out obtain q where q: "tk_requests r = [q]" "ar_code q = code"
      and ms: "mset (map run_dataset (tk_records r) @ ar_datasets q) = mset (map dp_dataset plans)"
      using assms by (auto simp: task_outcome_def)
    have "\<exists>r1 s2. process_daily_full_refetch w q t1 err1 s1 = (Inr r1, s2) \<and> tk_requests r1 = [] \<and>
        mset (map run_dataset (tk_records r @ tk_records r1)) = mset (map dp_dataset plans) \<and> dict_get (ws_plans s2) code = None"
      if "dict_get (ws_plans s1) code = dict_get (ws_plans s') code" for s1 t1 err1
    proof -
      have "dict_get (ws_plans s1) (ar_code q) = Some plans" using that kept q by simp
      from process_daily_full_refetch_wp [OF this, of w t1 err1] show ?thesis
        unfolding wp_returns using filtered_datasets [OF ms assms] ms q
        by (simp only: map_append mset_append) metis
    qed
    then show ?thesis using init q by blast
  qed
qed

section \<open>What a recorded success stands for\<close>

lemma map_comp_stored_wp:
  assumes "\<And>p s. p \<in> set plans \<Longrightarrow> wp (f p) s (\<lambda>r s'. (run_status r = ''success'' \<longrightarrow> stored p (ws_bars s' (dp_dataset p))) \<and>
      (\<forall>ds. ds \<noteq> dp_dataset p \<longrightarrow> ws_bars s' ds = ws_bars s ds)) E"
    and "distinct (map dp_dataset plans)"
  shows "wp (map_comp f plans) s (\<lambda>rs s'. list_all2 (\<lambda>p r. run_status r = ''success'' \<longrightarrow> stored p (ws_bars s' (dp_dataset p))) plans rs \<and>
      (\<forall>ds. ds \<notin> dp_dataset ` set plans \<longrightarrow> ws_bars s' ds = ws_bars s ds)) E"
  using assms
proof (induction plans arbitrary: s)
  case (Cons p plans)
  have fp: "wp (f p) s (\<lambda>r s'. (run_status r = ''success'' \<longrightarrow> stored p (ws_bars s' (dp_dataset p))) \<and>
      (\<forall>ds. ds \<noteq> dp_dataset p \<longrightarrow> ws_bars s' ds = ws_bars s ds)) E" by (rule Cons.prems) simp
  show ?case
    unfolding map_comp_fun wp_seq
    by (rule wp_mono [OF fp], rule wp_mono [OF Cons.IH])
      (use Cons.prems in auto)
qed (simp add: wp_def)


lemma write_daily_success_stored_wp:
  fixes w :: "('n, 'r, 'db) worker"
  shows "wp (write_daily_success w p run_start fresh) s
     (\<lambda>r s'. ws_bars s' (dp_dataset p) (dp_code p) = stored_rows fresh \<and> (\<forall>ds. ds \<noteq> dp_dataset p \<longrightarrow> ws_bars s' ds = ws_bars s ds))
     (\<lambda>e s'. \<forall>ds. ds \<noteq> dp_dataset p \<longrightarrow> ws_bars s' ds = ws_bars s ds)"
  by (rule write_daily_success_wp) (auto simp: put_bars_def)

lemma write_daily_frames_stored:
  fixes w :: "('n::{one,times}, 'r, 'db) worker"
  assumes "distinct (map dp_dataset plans)"
  shows "wp (write_daily_frames w plans t run_start) s
     (\<lambda>rs s'. list_all2 (\<lambda>p r. run_status r = ''success'' \<longrightarrow>
        (\<exists>fresh. daily_frame_from_unadjusted w (dp_dataset p) t
             (fs_frame (factor_state_for_code (dp_code (hd plans)) s)) = Inr fresh \<and>
           ws_bars s' (dp_dataset p) (dp_code p) = stored_rows fresh)) plans rs) (\<lambda>e s'. False)"
proof (cases plans)
  case (Cons p0 ps)
  let ?factors = "fs_frame (factor_state_for_code (dp_code p0) s)"
  let ?f = "\<lambda>plan. try_comp
      (seq_comp (lift_res (daily_frame_from_unadjusted w (dp_dataset plan) t ?factors))
         (\<lambda>fresh. write_daily_success w plan run_start fresh))
      (\<lambda>e. write_daily_failure w plan e)"
  let ?stored = "\<lambda>p m. \<exists>fresh. daily_frame_from_unadjusted w (dp_dataset p) t ?factors = Inr fresh \<and> m (dp_code p) = stored_rows fresh"
  have "wp (?f p) s1 (\<lambda>r s'. (run_status r = ''success'' \<longrightarrow> ?stored p (ws_bars s' (dp_dataset p))) \<and>
      (\<forall>ds. ds \<noteq> dp_dataset p \<longrightarrow> ws_bars s' ds = ws_bars s1 ds)) (\<lambda>e s'. False)" for p s1
    unfolding wp_try wp_seq wp_lift
    by (auto split: sum.split intro!: write_daily_failure_wp wp_mono [OF write_daily_success_stored_wp])
  from map_comp_stored_wp [OF this assms, of s]
  have "wp (map_comp ?f plans) s (\<lambda>rs s'. list_all2 (\<lambda>p r. run_status r = ''success'' \<longrightarrow> ?stored p (ws_bars s' (dp_dataset p))) plans rs) (\<lambda>e s'. False)"
    by (rule wp_mono) auto
  then show ?thesis using Cons by (simp add: write_daily_frames_def Let_def wp_def)
qed (simp add: write_daily_frames_def wp_def)

text \<open>
  C10: A daily partition recorded as updated holds what was derived for it. After the frames of a full
  history are written, each plan has a record; if its status is success, the stored partition is the
  frame computed for its dataset from the unadjusted history and the factors of the code, cleaned and
  sorted.
\<close>

theorem recorded_success_is_stored:
  fixes w :: "('n::{one,times}, 'r, 'db) worker"
  assumes "distinct (map dp_dataset plans)"
  shows "\<exists>rs s'. write_daily_frames w plans t run_start s = (Inr rs, s') \<and>
    list_all2 (\<lambda>p r. run_status r = ''success'' \<longrightarrow>
        (\<exists>fresh. daily_frame_from_unadjusted w (dp_dataset p) t
             (fs_frame (factor_state_for_code (dp_code (hd plans)) s)) = Inr fresh \<and>
           ws_bars s' (dp_dataset p) (dp_code p) = stored_rows fresh)) plans rs"
  using write_daily_frames_stored [OF assms] unfolding wp_returns by blast


section \<open>Answers and failures that lose work\<close>

lemma flush_accepted:
  assumes "\<And>rs ss cs db. fst (persist rs ss cs db) = None"
  shows "fst (flush persist b db) = None"
proof -
  obtain runs statuses checkpoints b' where t: "take_rows b = ((runs, statuses, checkpoints), b')" by (metis prod_cases3 surj_pair)
  have "persist runs statuses checkpoints db = (None, snd (persist runs statuses checkpoints db))"
    using assms by (metis prod.collapse)
  then show ?thesis unfolding flush_def t by (auto split: prod.split)
qed

lemma add_accepted: "(\<And>rs ss cs db. fst (persist rs ss cs db) = None) \<Longrightarrow> fst (add persist rows b db) = None"
  by (simp add: add_def flush_accepted split: prod.split)

lemma add_metadata_accepted:
  assumes "\<And>rs ss cs db. fst (ww_persist w rs ss cs db) = None" and "\<And>b d. Q () (s\<lparr>ws_batch := b, ws_db := d\<rparr>)"
  shows "wp (add_metadata w rows) s Q E"
proof -
  obtain b d where "add (ww_persist w) rows (ws_batch s) (ws_db s) = (None, b, d)"
    using add_accepted [where persist = "ww_persist w", OF assms(1), of rows "ws_batch s" "ws_db s"] by (metis prod.collapse)
  then show ?thesis using assms(2) by (simp add: add_metadata_def wp_def)
qed

lemma write_bars_accepted:
  assumes "\<forall>r \<in> set (tb_rows (clean_daily_table t)). bar_code r = Some code"
    and "ww_check w dataset code (stored_rows t) = None" and "ww_manifest w dataset code = None"
    and "\<And>path. Q path (put_bars dataset code (stored_rows t) s)"
  shows "wp (write_bars w dataset code t) s Q E"
  using assms by (simp add: wp_def write_bars_def Let_def put_bars_def stored_rows_def list_ex_iff)

lemma write_daily_success_accepted:
  fixes w :: "('n, 'r, 'db) worker"
  assumes "\<And>rs ss cs db. fst (ww_persist w rs ss cs db) = None"
    and "\<forall>r \<in> set (tb_rows (clean_daily_table t)). bar_code r = Some (dp_code p)"
    and "ww_check w (dp_dataset p) (dp_code p) (stored_rows t) = None" and "ww_manifest w (dp_dataset p) (dp_code p) = None"
  shows "wp (write_daily_success w p run_start t) s
    (\<lambda>r s'. run_status r = ''success'' \<and> ws_bars s' = ws_bars (put_bars (dp_dataset p) (dp_code p) (stored_rows t) s)) E"
  unfolding write_daily_success_def Let_def wp_seq
  by (rule write_bars_accepted [OF assms(2-4)], rule add_metadata_accepted [OF assms(1)])
    (simp add: run_of_def success_rows_def run_row_def)

text \<open>
  C11: An empty answer erases a stored history. When the update of the unadjusted bars of a code finds
  rows in the lookback window and the source answers without an error but with no rows, the comparison
  asks for the whole history; when that answer is empty too, the empty frame replaces the stored
  partition and the run is recorded as a success.
\<close>

theorem empty_answers_erase_history:
  fixes w :: "('n::{one,times}, 'r, 'db) worker"
  assumes "\<not> wk_full w" and "dp_dataset p = UNADJUSTED_DAILY_DATASET" and "dp_code p = code"
    and "ww_read w UNADJUSTED_DAILY_DATASET code = None"
    and "has_data_in_range (ws_bars s UNADJUSTED_DAILY_DATASET code) (wk_start w) (wk_end w)"
    and "tb_rows t = []"
    and "ww_check w UNADJUSTED_DAILY_DATASET code [] = None" and "ww_manifest w UNADJUSTED_DAILY_DATASET code = None"
    and "\<And>rs ss cs db. fst (ww_persist w rs ss cs db) = None"
  shows "\<exists>q s1 r s2. process_daily_initial w code [p] fetch_start t None s =
      (Inr \<lparr>tk_records = [], tk_requests = [q]\<rparr>, s1) \<and>
    process_daily_full_refetch w q t None s1 = (Inr \<lparr>tk_records = [r], tk_requests = []\<rparr>, s2) \<and>
    run_status r = ''success'' \<and> ws_bars s2 UNADJUSTED_DAILY_DATASET code = []"
proof -
  let ?s0 = "s\<lparr>ws_plans := dict_set (ws_plans s) code [p]\<rparr>"
  let ?q = "refetch_request w code [p] ''unadjusted_lookback_mismatch''"
  have adj: "\<not> is_adjusted_daily_dataset UNADJUSTED_DAILY_DATASET"
    by (simp add: is_adjusted_daily_dataset_def ADJUSTED_DAILY_FACTOR_COLUMNS_def UNADJUSTED_DAILY_DATASET_def)
  have empty: "tb_rows (clean_daily_table t) = []" using assms(6) by (simp add: clean_daily_table_def)
  have "daily_window_by_key (ws_bars s UNADJUSTED_DAILY_DATASET code) (wk_start w) (wk_end w) \<noteq> []"
    using assms(5) keys_keep_last [of window_key "filter (in_range (wk_start w) (wk_end w)) (ws_bars s UNADJUSTED_DAILY_DATASET code)"]
    by (auto simp: has_data_in_range_def daily_window_by_key_def list_ex_iff simp del: keys_keep_last)
  then have "daily_frames_differ_on_overlap (ws_bars s UNADJUSTED_DAILY_DATASET code) [] (wk_start w) (wk_end w)"
    by (simp add: daily_frames_differ_on_overlap_def daily_window_by_key_def Let_def)
  then have base: "partial_unadjusted_base w code t ?s0 = (Inr (Inl ''unadjusted_lookback_mismatch''), ?s0)"
    using assms(4,5) empty by (simp add: partial_unadjusted_base_def seq_comp_def read_bars_def)
  have init: "process_daily_initial w code [p] fetch_start t None s = (Inr \<lparr>tk_records = [], tk_requests = [?q]\<rparr>, ?s0)"
    using assms(1,2) adj base
    by (simp add: process_daily_initial_def process_daily_initial_body_def Let_def seq_comp_def try_comp_def
        write_daily_failures_def initial_active_def)
  have rows: "stored_rows t = []" by (simp add: stored_rows_def empty sort_bars_def)
  have "wp (write_daily_success w p full_history_start t) ?s0
      (\<lambda>r s'. run_status r = ''success'' \<and> ws_bars s' = ws_bars (put_bars (dp_dataset p) (dp_code p) (stored_rows t) ?s0)) (\<lambda>e s'. False)"
    by (rule write_daily_success_accepted) (use assms empty rows in simp_all)
  then obtain r s1 where "write_daily_success w p full_history_start t ?s0 = (Inr r, s1)" "run_status r = ''success''"
    "ws_bars s1 UNADJUSTED_DAILY_DATASET code = []"
    unfolding wp_returns using assms(2,3) rows by (auto simp: put_bars_def)
  then have "process_daily_full_refetch w ?q t None ?s0 = (Inr \<lparr>tk_records = [r], tk_requests = []\<rparr>, release_code_state code s1)"
    and "run_status r = ''success''" and "ws_bars (release_code_state code s1) UNADJUSTED_DAILY_DATASET code = []"
    using assms(2) by (simp_all add: process_daily_full_refetch_def refetch_request_def dict_get_default_def seq_comp_def try_comp_def
        write_daily_frames_def daily_frame_from_unadjusted_def lift_res_def release_code_state_def)
  then show ?thesis using init by blast
qed


lemma write_daily_failures_keep_bars:
  "wp (write_daily_failures w plans e) s
     (\<lambda>rs s'. list_all2 (\<lambda>p r. run_dataset r = dp_dataset p \<and> run_status r = ''failed'') plans rs \<and> ws_bars s' = ws_bars s) (\<lambda>e s'. False)"
  unfolding write_daily_failures_def
proof (induction plans arbitrary: s)
  case (Cons p plans)
  show ?case
    unfolding map_comp_fun wp_seq by (rule write_daily_failure_wp, rule wp_mono [OF Cons.IH]) simp_all
qed (simp add: wp_def)

text \<open>
  C12: One late failure marks work that is stored as failed. In an incremental update the plans of a code
  are written one after another; when the frame of a later plan cannot be computed, the exception
  leaves the loop, and every plan of the code is recorded as failed, also the one whose partition was
  written before.
\<close>

theorem late_failure_fails_written_plans:
  fixes w :: "('n::{one,times}, 'r, 'db) worker"
  assumes "\<not> wk_full w" and "\<not> factor_failed (factor_state_for_code code s)"
    and "s0 = s\<lparr>ws_plans := dict_set (ws_plans s) code [p1, p2]\<rparr>"
    and "partial_unadjusted_base w code t s0 = (Inr (Inr base), s0)"
    and "write_partial w base (fs_frame (factor_state_for_code code s)) p1 s0 = (Inr row, s1)"
    and "daily_frame_from_unadjusted w (dp_dataset p2) base (fs_frame (factor_state_for_code code s)) = Inl e"
  shows "\<exists>r1 r2 s2. process_daily_initial w code [p1, p2] fetch_start t None s =
      (Inr \<lparr>tk_records = [r1, r2], tk_requests = []\<rparr>, s2) \<and>
    run_status r1 = ''failed'' \<and> run_dataset r1 = dp_dataset p1 \<and> run_status r2 = ''failed'' \<and> run_dataset r2 = dp_dataset p2 \<and>
    ws_bars s2 = ws_bars s1"
proof -
  have st: "factor_state_for_code code s0 = factor_state_for_code code s" using assms(3) by (simp add: factor_state_for_code_def)
  have none: "filter (\<lambda>p. is_adjusted_daily_dataset (dp_dataset p) \<and> factor_failed (factor_state_for_code code s)) [p1, p2] = []"
    and all: "filter (\<lambda>p. \<not> (is_adjusted_daily_dataset (dp_dataset p) \<and> factor_failed (factor_state_for_code code s))) [p1, p2] = [p1, p2]"
    using assms(2) by simp_all
  have body: "process_daily_initial_body w code [p1, p2] fetch_start t None s0 = (Inl e, s1)"
    unfolding process_daily_initial_body_def st Let_def none all
    using assms(1,4-6) by (simp add: seq_comp_def write_daily_failures_def initial_active_def write_partial_def lift_res_def)
  from write_daily_failures_keep_bars [of w "[p1, p2]" e s1] obtain rs s2 where
    f: "write_daily_failures w [p1, p2] e s1 = (Inr rs, s2)" "ws_bars s2 = ws_bars s1"
    and "list_all2 (\<lambda>p r. run_dataset r = dp_dataset p \<and> run_status r = ''failed'') [p1, p2] rs"
    unfolding wp_returns by blast
  then obtain r1 r2 where rs: "rs = [r1, r2]" "run_status r1 = ''failed''" "run_dataset r1 = dp_dataset p1"
    "run_status r2 = ''failed''" "run_dataset r2 = dp_dataset p2"
    by (auto simp: list_all2_Cons1)
  have "process_daily_initial w code [p1, p2] fetch_start t None s =
      (Inr \<lparr>tk_records = [r1, r2], tk_requests = []\<rparr>, release_code_state code s2)"
    using body f rs assms(3) by (simp add: process_daily_initial_def seq_comp_def try_comp_def failed_result_def)
  then show ?thesis using rs f by (auto simp: release_code_state_def)
qed

section \<open>Instances\<close>

definition demo_plan :: "string \<Rightarrow> daily_plan" where
  "demo_plan dataset = \<lparr>dp_dataset = dataset, dp_code = ''a'', dp_checkpoint_start = ''0001-01-05'', dp_end = ''0001-01-09'',
     dp_output_path = [], dp_start_time = 0\<rparr>"

definition demo_worker :: "(int, unit, unit) worker" where
  "demo_worker = \<lparr>wk_full = False, wk_start = Date 1 1 5, wk_end = Date 1 1 9, wk_retain = True, wk_config = NoFile,
     ww_config_trace = (\<lambda>_. ''config''), ww_read = (\<lambda>_ _. None), ww_check = (\<lambda>_ _ _. None), ww_check_factors = (\<lambda>_ _. None),
     ww_manifest = (\<lambda>_ _. None), ww_persist = (\<lambda>_ _ _ db. (None, db)), ww_source = \<lparr>rw_uuid = ''1'', rw_now = 1\<rparr>,
     ww_enqueue_fails = (\<lambda>_. False)\<rparr>"

definition demo_worker_state :: "(int, unit, unit) worker_state" where
  "demo_worker_state = \<lparr>ws_bars = (\<lambda>_ _. [demo_bar ''a'' (Date 1 1 5) 10]), ws_factors = (\<lambda>_. []), ws_factor_state = [],
     ws_plans = [], ws_batch = \<lparr>mb_runs = [], mb_statuses = [], mb_checkpoints = [], mb_flush_size = 100, mb_count_by = CountRuns\<rparr>,
     ws_db = (), ws_queue = []\<rparr>"

theorem daily_task_settles_every_plan_witness:
  "\<exists>r s'. process_daily_initial demo_worker ''a'' [demo_plan UNADJUSTED_DAILY_DATASET] None (schema_table []) None demo_worker_state =
     (Inr r, s') \<and> length (tk_requests r) \<le> 1"
  using daily_task_settles_every_plan [of "[demo_plan UNADJUSTED_DAILY_DATASET]" demo_worker "''a''" None "schema_table []" None demo_worker_state]
  by fastforce

theorem recorded_success_is_stored_witness:
  "\<exists>rs s'. write_daily_frames demo_worker [demo_plan UNADJUSTED_DAILY_DATASET] (schema_table []) [] demo_worker_state = (Inr rs, s') \<and>
     length rs = 1"
  using recorded_success_is_stored [of "[demo_plan UNADJUSTED_DAILY_DATASET]" demo_worker "schema_table []" "[]" demo_worker_state]
  by (auto dest: list_all2_lengthD)

theorem empty_answers_erase_history_witness:
  "ws_bars demo_worker_state UNADJUSTED_DAILY_DATASET ''a'' \<noteq> [] \<and>
   (\<exists>q s1 r s2. process_daily_initial demo_worker ''a'' [demo_plan UNADJUSTED_DAILY_DATASET] None (schema_table []) None demo_worker_state =
      (Inr \<lparr>tk_records = [], tk_requests = [q]\<rparr>, s1) \<and>
    process_daily_full_refetch demo_worker q (schema_table []) None s1 = (Inr \<lparr>tk_records = [r], tk_requests = []\<rparr>, s2) \<and>
    run_status r = ''success'' \<and> ws_bars s2 UNADJUSTED_DAILY_DATASET ''a'' = [])"
  using empty_answers_erase_history [of demo_worker "demo_plan UNADJUSTED_DAILY_DATASET" "''a''" demo_worker_state "schema_table []" None]
  by (simp add: demo_worker_def demo_worker_state_def demo_plan_def schema_table_def has_data_in_range_def in_range_def demo_bar_def
      less_eq_date_iff)


theorem late_failure_fails_written_plans_witness:
  "\<exists>r1 r2 s2. process_daily_initial demo_worker ''a''
       [demo_plan UNADJUSTED_DAILY_DATASET, demo_plan ''baostock_cn_stock_daily_bar_qfq''] None
       (schema_table [demo_bar ''a'' (Date 1 1 5) 10]) None demo_worker_state =
     (Inr \<lparr>tk_records = [r1, r2], tk_requests = []\<rparr>, s2) \<and> run_status r1 = ''failed'' \<and> run_status r2 = ''failed''"
proof -
  let ?p1 = "demo_plan UNADJUSTED_DAILY_DATASET" and ?p2 = "demo_plan ''baostock_cn_stock_daily_bar_qfq''"
  let ?t = "schema_table [demo_bar ''a'' (Date 1 1 5) 10]"
  let ?s0 = "demo_worker_state\<lparr>ws_plans := dict_set (ws_plans demo_worker_state) ''a'' [?p1, ?p2]\<rparr>"
  let ?rows = "[demo_bar ''a'' (Date 1 1 5) 10]"
  have clean: "clean_daily_table ?t = ?t" by code_simp
  have rows: "tb_rows ?t = ?rows" by (simp add: schema_table_def)
  have merge: "merge_daily_frames ?rows ?rows = ?rows" by code_simp
  have same: "\<not> daily_frames_differ_on_overlap ?rows ?rows (Date 1 1 5) (Date 1 1 9)" by code_simp
  have has: "has_data_in_range ?rows (Date 1 1 5) (Date 1 1 9)" by code_simp
  have base: "partial_unadjusted_base demo_worker ''a'' ?t ?s0 = (Inr (Inr ?t), ?s0)"
    unfolding partial_unadjusted_base_def seq_comp_def read_bars_def clean rows Let_def
    using has same by (simp add: demo_worker_def demo_worker_state_def merge del: One_nat_def)
  have codes: "\<forall>r \<in> set (tb_rows (clean_daily_table ?t)). bar_code r = Some (dp_code ?p1)"
    unfolding clean rows by (simp add: demo_bar_def demo_plan_def)
  let ?F = "fs_frame (factor_state_for_code ''a'' demo_worker_state)"
  have d1: "daily_frame_from_unadjusted demo_worker (dp_dataset ?p1) ?t ?F = Inr ?t"
    by (simp add: daily_frame_from_unadjusted_def demo_plan_def)
  have "wp (write_partial demo_worker ?t ?F ?p1) ?s0 (\<lambda>_ _. True) (\<lambda>_ _. False)"
    unfolding write_partial_def wp_seq d1 wp_lift sum.case
    by (rule wp_mono [OF write_daily_success_accepted [OF _ codes]]) (simp_all add: demo_worker_def)
  then obtain row s1 where row: "write_partial demo_worker ?t (fs_frame (factor_state_for_code ''a'' demo_worker_state)) ?p1 ?s0 = (Inr row, s1)"
    unfolding wp_returns by blast
  have st: "\<not> factor_failed (factor_state_for_code ''a'' demo_worker_state)" by code_simp
  have "case adjust_flag_for_dataset NoFile ''baostock_cn_stock_daily_bar_qfq'' of Inl _ \<Rightarrow> True | Inr _ \<Rightarrow> False" by code_simp
  then obtain ce where "adjust_flag_for_dataset NoFile ''baostock_cn_stock_daily_bar_qfq'' = Inl ce" by (auto split: sum.splits)
  then have d2: "daily_frame_from_unadjusted demo_worker (dp_dataset ?p2) ?t ?F = Inl ''config''"
    by (simp add: daily_frame_from_unadjusted_def demo_plan_def demo_worker_def UNADJUSTED_DAILY_DATASET_def
        is_adjusted_daily_dataset_def ADJUSTED_DAILY_FACTOR_COLUMNS_def)
  have "\<not> wk_full demo_worker" by (simp add: demo_worker_def)
  from late_failure_fails_written_plans [OF this st refl base row d2, of None] show ?thesis by blast
qed

end
