(* ===== verification/Update_Targets.thy ===== *)
theory Update_Targets imports Checkpoints Daily_Worker begin

text \<open>
  What a daily update asks for and what it may skip: \<open>src/sources/baostock/update_daily_targets.py\<close>,
  \<open>update_daily_calendar.py\<close>, the code selection of \<open>src/pipeline/common.py\<close> and the preflight of
  \<open>update_daily.py\<close>.

  Dates are dates; a text that the code passes on is their ISO form. An exception is the \<open>Inl\<close> of its
  traceback. The provider, the merge of a write into the stored table, and the tests whether a
  partition exists are parameters.
\<close>

section \<open>State\<close>

record basic_row =
  sb_code :: "string option"
  sb_listing_status :: "string option"
  sb_security_type :: "string option"

record target_state =
  ts_db :: metadata_db
  ts_calendar :: "calendar_frame option"
  ts_basic :: "basic_row list option"
  ts_records :: "raw_run list"
  ts_calls :: "string list"

record target_env =
  te_sort :: checkpoint_sort
  te_to_date :: "string \<Rightarrow> date option"
  te_world :: store_world
  te_source :: row_source
  te_calendar_trace :: "calendar_error \<Rightarrow> string"
  te_store_trace :: "metadata_error \<Rightarrow> string"
  te_query_dates :: "(date \<times> date) option \<Rightarrow> string + calendar_frame"
  te_query_basic :: "string + basic_row list"
  te_write_calendar :: "calendar_frame option \<Rightarrow> calendar_frame \<Rightarrow> string + calendar_frame"
  te_write_basic :: "basic_row list option \<Rightarrow> basic_row list \<Rightarrow> string + basic_row list"
  te_exists :: "string \<Rightarrow> bool"

type_synonym 'a target_comp = "target_state \<Rightarrow> (string + 'a) \<times> target_state"

definition CALENDAR_DATASET :: string where
  "CALENDAR_DATASET = ''baostock_cn_trading_calendar''"

definition BASIC_DATASET :: string where
  "BASIC_DATASET = ''baostock_cn_stock_basic''"

definition PIPELINE_UPDATE_DAILY :: string where
  "PIPELINE_UPDATE_DAILY = ''update_daily''"

section \<open>Targets\<close>

datatype target_error = UnsupportedUpdateDataset string | UnsupportedCodeMode string | NoStockCodes | UnsupportedCheckpointDataset string

text \<open>Whether the calendar, the basic table and the factors are asked for, and which daily datasets.\<close>

definition dataset_targets :: "string \<Rightarrow> target_error + bool \<times> bool \<times> bool \<times> string list" where
  "dataset_targets dataset =
     (if dataset = ''all'' then Inr (True, True, True, daily_bar_dataset_names)
      else if dataset = ''baostock_market_session_daily'' then Inr (False, False, False, daily_bar_dataset_names)
      else if dataset = CALENDAR_DATASET then Inr (True, False, False, [])
      else if dataset = BASIC_DATASET then Inr (False, True, False, [])
      else if dataset = BAOSTOCK_FACTOR_DATASET then Inr (False, False, True, [])
      else if dataset \<in> set daily_bar_dataset_names then
        (case expand_daily_bar_selection dataset of
           Inl _ \<Rightarrow> Inl (UnsupportedUpdateDataset dataset) | Inr targets \<Rightarrow> Inr (False, False, False, targets))
      else Inl (UnsupportedUpdateDataset dataset))"

definition needs_factors :: "string list \<Rightarrow> bool" where
  "needs_factors daily_targets = list_ex is_adjusted_daily_dataset daily_targets"

definition stripped :: "string option \<Rightarrow> string option" where
  "stripped v = map_option py_strip v"

definition stock_basic_codes :: "basic_row list \<Rightarrow> string \<Rightarrow> string option \<Rightarrow> target_error + string list" where
  "stock_basic_codes df mode security_type =
     (if df = [] then Inr []
      else
        bind_res
          (if mode = ''all'' then Inr df
           else if mode = ''active'' then Inr (filter (\<lambda>r. stripped (sb_listing_status r) = Some ''1'') df)
           else Inl (UnsupportedCodeMode mode))
          (\<lambda>work.
            let typed = (case security_type of None \<Rightarrow> work | Some ty \<Rightarrow> filter (\<lambda>r. stripped (sb_security_type r) = Some ty) work);
                codes = List.map_filter (\<lambda>r. stripped (sb_code r)) typed
            in Inr (dedup_first (filter (\<lambda>c. c \<noteq> []) codes))))"

datatype code_arg = NoCode | OneCode string | CodeList "string list"

definition no_code :: "code_arg \<Rightarrow> bool" where
  "no_code code = (case code of NoCode \<Rightarrow> True | OneCode c \<Rightarrow> c = [] | CodeList cs \<Rightarrow> cs = [])"

definition resolve_codes :: "basic_row list \<Rightarrow> code_arg \<Rightarrow> string \<Rightarrow> string option \<Rightarrow> target_error + string list" where
  "resolve_codes basic code mode security_type =
     (let pool = bind_res (stock_basic_codes basic mode security_type)
                  (\<lambda>codes. if codes = [] then Inl NoStockCodes else Inr codes)
      in case code of
           NoCode \<Rightarrow> pool
         | OneCode c \<Rightarrow> Inr [c]
         | CodeList codes \<Rightarrow> if codes \<noteq> [] then Inr codes else pool)"

text \<open>\<open>checkpoint_output_path\<close>, relative to the directory of the datasets.\<close>

definition checkpoint_output_path :: "string \<Rightarrow> string \<Rightarrow> target_error + string" where
  "checkpoint_output_path dataset code =
     (if is_daily_bar_dataset dataset then Inr (partition_path dataset code)
      else if dataset = BAOSTOCK_FACTOR_DATASET then Inr (partition_path dataset code)
      else if dataset = BASIC_DATASET then Inr (dataset @ ''/data.parquet'')
      else if dataset = CALENDAR_DATASET then Inr (dataset @ ''/data.parquet'')
      else if dataset = ds_id AKSHARE_VALUATION_EASTMONEY_DATASET then Inr (partition_path dataset code)
      else Inl (UnsupportedCheckpointDataset dataset))"

text \<open>The path of a dataset that has one, as all datasets of a daily update do.\<close>

definition output_path_of :: "string \<Rightarrow> string \<Rightarrow> string" where
  "output_path_of dataset code = (case checkpoint_output_path dataset code of Inl _ \<Rightarrow> [] | Inr path \<Rightarrow> path)"

definition checkpoint_start :: "bool \<Rightarrow> date \<Rightarrow> string" where
  "checkpoint_start full start_date = (if full then full_history_start else isoformat start_date)"

definition daily_target_plans :: "int \<Rightarrow> string list \<Rightarrow> string \<Rightarrow> bool \<Rightarrow> date \<Rightarrow> date \<Rightarrow> daily_plan list" where
  "daily_target_plans now daily_targets code full start_date end_date =
     map (\<lambda>dataset. \<lparr>dp_dataset = dataset, dp_code = code, dp_checkpoint_start = checkpoint_start full start_date,
            dp_end = isoformat end_date, dp_output_path = output_path_of dataset code, dp_start_time = now\<rparr>) daily_targets"

section \<open>Completed codes\<close>

definition checkpoint_lookup_succeeded ::
  "(string \<Rightarrow> bool) \<Rightarrow> checkpoint_lookup \<Rightarrow> string \<Rightarrow> string \<Rightarrow> string \<Rightarrow> string \<Rightarrow> bool" where
  "checkpoint_lookup_succeeded ex lk dataset code start_date end_date =
     lookup_pipeline_succeeded lk (PIPELINE_UPDATE_DAILY, dataset, code, start_date, end_date) (ex (output_path_of dataset code))"

definition code_checkpoints_complete ::
  "(string \<Rightarrow> bool) \<Rightarrow> checkpoint_lookup \<Rightarrow> string \<Rightarrow> string list \<Rightarrow> bool \<Rightarrow> bool \<Rightarrow> date \<Rightarrow> date \<Rightarrow> bool" where
  "code_checkpoints_complete ex lk code daily_targets needs_factor full start_date end_date =
     (if needs_factor \<and> \<not> checkpoint_lookup_succeeded ex lk BAOSTOCK_FACTOR_DATASET code full_history_start (isoformat end_date)
      then False
      else if list_ex (\<lambda>dataset. \<not> checkpoint_lookup_succeeded ex lk dataset code (checkpoint_start full start_date) (isoformat end_date))
                daily_targets
      then False
      else needs_factor \<or> daily_targets \<noteq> [])"

definition prefilter_checkpointed_codes ::
  "(string \<Rightarrow> bool) \<Rightarrow> string list \<Rightarrow> string list \<Rightarrow> bool \<Rightarrow> bool \<Rightarrow> date \<Rightarrow> date \<Rightarrow> checkpoint_lookup option \<Rightarrow> string list" where
  "prefilter_checkpointed_codes ex codes daily_targets needs_factor full start_date end_date lookup =
     (case lookup of
        None \<Rightarrow> codes
      | Some lk \<Rightarrow> filter (\<lambda>c. \<not> code_checkpoints_complete ex lk c daily_targets needs_factor full start_date end_date) codes)"

section \<open>Windows\<close>

definition resolve_update_window :: "calendar_frame \<Rightarrow> date \<Rightarrow> int \<Rightarrow> calendar_error + date \<times> date" where
  "resolve_update_window cal candidate_end lookback_days =
     bind_res (latest_trading_day_on_or_before cal candidate_end) (\<lambda>end_date.
     bind_res (trading_day_lookback_start cal end_date lookback_days) (\<lambda>start_date. Inr (start_date, end_date)))"

definition try_resolve_update_window :: "calendar_frame \<Rightarrow> date \<Rightarrow> int \<Rightarrow> date \<Rightarrow> (date \<times> date) option" where
  "try_resolve_update_window cal candidate_end lookback_days calendar_start =
     (if \<not> calendar_covers_range cal calendar_start candidate_end then None
      else case resolve_update_window cal candidate_end lookback_days of Inl _ \<Rightarrow> None | Inr w \<Rightarrow> Some w)"

text \<open>\<open>calendar_start\<close> is what \<open>baostock_cn_trading_calendar_fetch_start\<close> gives.\<close>

definition resolve_local_window :: "bool \<Rightarrow> calendar_frame \<Rightarrow> date \<Rightarrow> date \<Rightarrow> int \<Rightarrow> date \<Rightarrow> (date \<times> date) option" where
  "resolve_local_window full cal start_candidate candidate_end lookback_days calendar_start =
     (if \<not> full then try_resolve_update_window cal candidate_end lookback_days calendar_start
      else if \<not> calendar_covers_range cal start_candidate candidate_end then None
      else case trading_range_bounds cal start_candidate candidate_end of Inl _ \<Rightarrow> None | Inr w \<Rightarrow> Some w)"

section \<open>Handlers\<close>

definition raise_calendar :: "target_env \<Rightarrow> calendar_error + 'a \<Rightarrow> 'a target_comp" where
  "raise_calendar e r = lift_res (case r of Inl ce \<Rightarrow> Inl (te_calendar_trace e ce) | Inr x \<Rightarrow> Inr x)"

definition the_calendar :: "target_state \<Rightarrow> calendar_frame" where
  "the_calendar s = (case ts_calendar s of None \<Rightarrow> [] | Some cal \<Rightarrow> cal)"

definition query_dates :: "target_env \<Rightarrow> (date \<times> date) option \<Rightarrow> calendar_frame target_comp" where
  "query_dates e bounds s = (te_query_dates e bounds, s\<lparr>ts_calls := ts_calls s @ [CALENDAR_DATASET]\<rparr>)"

definition query_basic :: "target_env \<Rightarrow> basic_row list target_comp" where
  "query_basic e s = (te_query_basic e, s\<lparr>ts_calls := ts_calls s @ [BASIC_DATASET]\<rparr>)"

text \<open>\<open>write_dataset\<close>, then \<open>read_dataset\<close>.\<close>

definition write_calendar :: "target_env \<Rightarrow> calendar_frame \<Rightarrow> calendar_frame target_comp" where
  "write_calendar e fetched s =
     (case te_write_calendar e (ts_calendar s) fetched of
        Inl err \<Rightarrow> (Inl err, s) | Inr cal \<Rightarrow> (Inr cal, s\<lparr>ts_calendar := Some cal\<rparr>))"

definition write_basic :: "target_env \<Rightarrow> basic_row list \<Rightarrow> unit target_comp" where
  "write_basic e fetched s =
     (case te_write_basic e (ts_basic s) fetched of
        Inl err \<Rightarrow> (Inl err, s) | Inr rows \<Rightarrow> (Inr (), s\<lparr>ts_basic := Some rows\<rparr>))"

definition persist_lifecycle_rows :: "target_env \<Rightarrow> lifecycle_rows \<Rightarrow> unit target_comp" where
  "persist_lifecycle_rows e rows s =
     (case persist_update_metadata (te_to_date e) (te_world e) (option_list (lr_run rows)) (option_list (lr_status rows))
             (option_list (lr_checkpoint rows)) (ts_db s) of
        (err, db) \<Rightarrow> (case err of None \<Rightarrow> Inr () | Some x \<Rightarrow> Inl (te_store_trace e x), s\<lparr>ts_db := db\<rparr>))"

text \<open>The run row goes into the records of the run before the rows are persisted.\<close>

definition record_rows :: "target_env \<Rightarrow> lifecycle_rows \<Rightarrow> unit target_comp" where
  "record_rows e rows s = persist_lifecycle_rows e rows (s\<lparr>ts_records := ts_records s @ [run_of rows]\<rparr>)"

definition target_ref :: "string \<Rightarrow> string \<Rightarrow> date \<Rightarrow> date \<Rightarrow> task_ref" where
  "target_ref dataset code start_date end_date =
     daily_task dataset code (isoformat start_date) (isoformat end_date) (output_path_of dataset code) None"

definition skipped_target :: "target_env \<Rightarrow> string \<Rightarrow> date \<Rightarrow> date \<Rightarrow> lifecycle_rows" where
  "skipped_target e dataset start_date end_date =
     skipped_rows (te_source e) (target_ref dataset ''*'' start_date end_date) ''skipped_checkpoint''
       (rw_now (te_source e)) (rw_now (te_source e)) ''checkpoint''"

definition succeeded_target :: "target_env \<Rightarrow> string \<Rightarrow> date \<Rightarrow> date \<Rightarrow> int \<Rightarrow> lifecycle_rows" where
  "succeeded_target e dataset start_date end_date row_count =
     success_rows (te_source e) (target_ref dataset ''*'' start_date end_date)
       (rw_now (te_source e)) (rw_now (te_source e)) row_count None None"

definition skips_target :: "target_env \<Rightarrow> string \<Rightarrow> bool \<Rightarrow> date \<Rightarrow> date \<Rightarrow> bool \<Rightarrow> bool \<Rightarrow> checkpoint_lookup option \<Rightarrow> target_state \<Rightarrow> bool" where
  "skips_target e dataset output_exists start_date end_date resume force lookup s =
     should_skip_checkpoint (te_sort e) (md_checkpoints (ts_db s)) PIPELINE_UPDATE_DAILY dataset ''*''
       (isoformat start_date) (isoformat end_date) output_exists resume force lookup"

definition write_stock_basic_target ::
  "target_env \<Rightarrow> date \<Rightarrow> date \<Rightarrow> bool \<Rightarrow> bool \<Rightarrow> checkpoint_lookup option \<Rightarrow> unit target_comp" where
  "write_stock_basic_target e start_date end_date resume force lookup s =
     (if skips_target e BASIC_DATASET (ts_basic s \<noteq> None) start_date end_date resume force lookup s
      then record_rows e (skipped_target e BASIC_DATASET start_date end_date) s
      else seq_comp (query_basic e) (\<lambda>basic_df.
           seq_comp (write_basic e basic_df) (\<lambda>_.
             record_rows e (succeeded_target e BASIC_DATASET start_date end_date (int (length basic_df))))) s)"

text \<open>The calendar before anything else: read from the store when it covers the range, fetched otherwise.\<close>

definition prepare_partial_calendar ::
  "target_env \<Rightarrow> calendar_frame \<Rightarrow> date \<Rightarrow> int \<Rightarrow> date \<Rightarrow>
   (calendar_frame \<times> date \<times> date \<times> calendar_frame option) target_comp" where
  "prepare_partial_calendar e cal candidate_end lookback_days calendar_start =
     (case try_resolve_update_window cal candidate_end lookback_days calendar_start of
        Some (s, en) \<Rightarrow> lift_res (Inr (cal, s, en, None))
      | None \<Rightarrow>
          seq_comp (query_dates e (Some (calendar_start, candidate_end))) (\<lambda>fetched.
          seq_comp (write_calendar e fetched) (\<lambda>stored.
          seq_comp (raise_calendar e (resolve_update_window stored candidate_end lookback_days)) (\<lambda>w.
            lift_res (Inr (stored, fst w, snd w, Some fetched))))))"

definition prepare_full_calendar ::
  "target_env \<Rightarrow> calendar_frame \<Rightarrow> date \<Rightarrow> date \<Rightarrow> (calendar_frame \<times> date \<times> date \<times> calendar_frame option) target_comp" where
  "prepare_full_calendar e cal start_candidate candidate_end =
     (if calendar_covers_range cal start_candidate candidate_end
      then seq_comp (raise_calendar e (trading_range_bounds cal start_candidate candidate_end)) (\<lambda>w.
             lift_res (Inr (cal, fst w, snd w, None)))
      else seq_comp (query_dates e None) (\<lambda>fetched.
           seq_comp (write_calendar e fetched) (\<lambda>stored.
           seq_comp (raise_calendar e (trading_range_bounds stored start_candidate candidate_end)) (\<lambda>w.
             lift_res (Inr (stored, fst w, snd w, Some fetched))))))"

definition write_calendar_target ::
  "target_env \<Rightarrow> bool \<Rightarrow> calendar_frame \<Rightarrow> calendar_frame option \<Rightarrow> date \<Rightarrow> date \<Rightarrow> date \<Rightarrow> int \<Rightarrow> date \<Rightarrow> date \<Rightarrow>
   bool \<Rightarrow> bool \<Rightarrow> checkpoint_lookup option \<Rightarrow> (calendar_frame \<times> date \<times> date) target_comp" where
  "write_calendar_target e full cal fetched start_candidate candidate_end calendar_start lookback_days start_date end_date
       resume force lookup s =
     (if skips_target e CALENDAR_DATASET (ts_calendar s \<noteq> None) start_date end_date resume force lookup s
      then seq_comp (record_rows e (skipped_target e CALENDAR_DATASET start_date end_date))
             (\<lambda>_. lift_res (Inr (cal, start_date, end_date))) s
      else
        seq_comp
          (case fetched of
             Some f \<Rightarrow> lift_res (Inr (f, cal, start_date, end_date))
           | None \<Rightarrow>
               seq_comp (query_dates e (if full then None else Some (calendar_start, candidate_end))) (\<lambda>f.
               seq_comp (write_calendar e f) (\<lambda>stored.
               seq_comp (raise_calendar e
                   (if full then trading_range_bounds stored start_candidate candidate_end
                    else resolve_update_window stored candidate_end lookback_days)) (\<lambda>w.
                 lift_res (Inr (f, stored, fst w, snd w))))))
          (\<lambda>(f, stored, s1, e1).
             seq_comp (record_rows e (succeeded_target e CALENDAR_DATASET s1 e1 (int (length f))))
               (\<lambda>_. lift_res (Inr (stored, s1, e1)))) s)"

section \<open>Preflight\<close>

text \<open>The run row of a skip that is not persisted.\<close>

definition checkpoint_skip_record :: "target_env \<Rightarrow> string \<Rightarrow> string \<Rightarrow> string \<Rightarrow> date \<Rightarrow> raw_run" where
  "checkpoint_skip_record e dataset code start_date end_date =
     run_of (skipped_rows (te_source e)
       (daily_task dataset code start_date (isoformat end_date) (output_path_of dataset code) None)
       ''skipped_checkpoint'' (rw_now (te_source e)) (rw_now (te_source e)) ''checkpoint'')"

definition code_skip_records :: "target_env \<Rightarrow> string list \<Rightarrow> bool \<Rightarrow> bool \<Rightarrow> date \<Rightarrow> date \<Rightarrow> string \<Rightarrow> raw_run list" where
  "code_skip_records e daily_targets include_factor full start_date end_date code =
     (if include_factor then [checkpoint_skip_record e BAOSTOCK_FACTOR_DATASET code full_history_start end_date] else []) @
     map (\<lambda>dataset. checkpoint_skip_record e dataset code (checkpoint_start full start_date) end_date) daily_targets"

text \<open>
  \<open>Some\<close> the records of a run in which everything asked for is checkpointed. \<open>Inl\<close> is an exception of
  \<open>resolve_codes\<close>.
\<close>

definition preflight_skip_records ::
  "target_env \<Rightarrow> target_state \<Rightarrow> code_arg \<Rightarrow> bool \<Rightarrow> date \<Rightarrow> date \<Rightarrow> bool \<Rightarrow> bool \<Rightarrow> bool \<Rightarrow> string list \<Rightarrow>
   bool \<Rightarrow> bool \<Rightarrow> checkpoint_lookup option \<Rightarrow> target_error + raw_run list option" where
  "preflight_skip_records e s code full start_date end_date include_calendar include_basic include_factor daily_targets
       resume force lookup =
     (case lookup of
        None \<Rightarrow> Inr None
      | Some lk \<Rightarrow>
          let complete = (\<lambda>dataset ex. lookup_pipeline_succeeded lk
                (PIPELINE_UPDATE_DAILY, dataset, ''*'', isoformat start_date, isoformat end_date) ex);
              head = (if include_calendar then [checkpoint_skip_record e CALENDAR_DATASET ''*'' (isoformat start_date) end_date] else []) @
                     (if include_basic then [checkpoint_skip_record e BASIC_DATASET ''*'' (isoformat start_date) end_date] else []);
              needs_code_pool = (daily_targets \<noteq> [] \<or> include_factor);
              needs_factor = (include_factor \<or> needs_factors daily_targets)
          in if force \<or> \<not> resume then Inr None
             else if include_calendar \<and> \<not> complete CALENDAR_DATASET (ts_calendar s \<noteq> None) then Inr None
             else if include_basic \<and> \<not> complete BASIC_DATASET (ts_basic s \<noteq> None) then Inr None
             else if \<not> needs_code_pool then Inr (if head \<noteq> [] then Some head else None)
             else if no_code code \<and> ts_basic s = None then Inr None
             else
               bind_res (resolve_codes (case ts_basic s of None \<Rightarrow> [] | Some b \<Rightarrow> b) code (if full then ''all'' else ''active'') (Some ''1''))
                 (\<lambda>codes.
                   if length (filter (\<lambda>c. code_checkpoints_complete (te_exists e) lk c daily_targets needs_factor full start_date end_date) codes)
                        \<noteq> length codes
                   then Inr None
                   else Inr (Some (head @ concat (map (code_skip_records e daily_targets include_factor full start_date end_date) codes)))))"

section \<open>Properties\<close>

lemma wp_final_state: "wp m s (\<lambda>_ s'. P s') (\<lambda>_ s'. P s') \<longleftrightarrow> P (snd (m s))"
  by (simp add: wp_def split: prod.split sum.split)

lemma calls_record: "wp (record_rows e rows) s (\<lambda>_ s'. ts_calls s' = ts_calls s) (\<lambda>_ s'. ts_calls s' = ts_calls s)"
  by (auto simp: wp_def record_rows_def persist_lifecycle_rows_def split: prod.split option.split)

lemma calls_write_basic: "wp (write_basic e rows) s (\<lambda>_ s'. ts_calls s' = ts_calls s) (\<lambda>_ s'. ts_calls s' = ts_calls s)"
  by (auto simp: wp_def write_basic_def split: sum.split)

lemma refetch_calls:
  assumes "\<not> skips_target e BASIC_DATASET (ts_basic s \<noteq> None) sd ed resume force lookup s"
  shows "ts_calls (snd (write_stock_basic_target e sd ed resume force lookup s)) = ts_calls s @ [BASIC_DATASET]"
proof -
  let ?Q = "\<lambda>_ s'. ts_calls s' = ts_calls s @ [BASIC_DATASET]"
  have rest: "wp (seq_comp (write_basic e rows) (\<lambda>_. record_rows e r)) s1 ?Q ?Q" if "?Q () s1" for rows r s1
    unfolding wp_seq by (rule wp_mono [OF calls_write_basic], rule wp_mono [OF calls_record]) (use that in simp_all)
  have "wp (query_basic e) s (\<lambda>rows s1. wp (seq_comp (write_basic e rows) (\<lambda>_. record_rows e
      (succeeded_target e BASIC_DATASET sd ed (int (length rows))))) s1 ?Q ?Q) ?Q"
    using rest by (auto simp: query_basic_def wp_def [of "\<lambda>s. (te_query_basic e, f s)" for f] wp_def [of "query_basic e"] split: sum.split)
  then have "wp (write_stock_basic_target e sd ed resume force lookup) s ?Q ?Q"
    using assms by (simp only: wp_seq [symmetric]) (simp add: wp_def write_stock_basic_target_def)
  then show ?thesis by (simp only: wp_final_state)
qed

definition parses :: "target_env \<Rightarrow> date \<Rightarrow> bool" where
  "parses e d \<longleftrightarrow> iso_key (coerce_date (te_to_date e) (Some (isoformat d))) = Some (isoformat d)"

lemma skipped_target_checkpoint:
  "option_list (lr_checkpoint (skipped_target e dataset sd ed)) =
    [checkpoint_row (te_source e) PIPELINE_UPDATE_DAILY dataset ''*'' (isoformat sd) (isoformat ed) ''skipped_checkpoint'' 0
       (output_path_of dataset ''*'') ''checkpoint'']"
  by (simp add: skipped_target_def skipped_rows_def target_ref_def daily_task_def option_list_def effective_checkpoint_start_date_def
      text_or_def PIPELINE_UPDATE_DAILY_def)

text \<open>
  C15: A skip erases the checkpoint it rests on. When the update of the stock list is skipped because its
  checkpoint is a success, the skip is persisted as a checkpoint of the same key with a status of its
  own; so the next run with the same dates, which reads the table again, does not skip: it asks the
  provider once more.
\<close>

theorem skip_erases_checkpoint:
  assumes "sorts_by_update (te_sort e)" and "parses e sd" and "parses e ed"
    and "skips_target e BASIC_DATASET (ts_basic s \<noteq> None) sd ed True False lookup s"
    and "write_stock_basic_target e sd ed True False lookup s = (Inr (), s1)"
    and "\<forall>x \<in> set (md_checkpoints (ts_db s)). cp_updated_at x < coerce_time (rw_now (te_source e))"
  shows "ts_calls s1 = ts_calls s \<and>
    ts_calls (snd (write_stock_basic_target e2 sd ed True False (Some (checkpoint_index (te_sort e) (md_checkpoints (ts_db s1)))) s1)) =
      ts_calls s @ [BASIC_DATASET]"
proof -
  let ?rows = "skipped_target e BASIC_DATASET sd ed"
  let ?c = "checkpoint_row (te_source e) PIPELINE_UPDATE_DAILY BASIC_DATASET ''*'' (isoformat sd) (isoformat ed) ''skipped_checkpoint'' 0
       (output_path_of BASIC_DATASET ''*'') ''checkpoint''"
  have rec: "record_rows e ?rows s = (Inr (), s1)" using assms(4,5) by (simp add: write_stock_basic_target_def)
  then have calls: "ts_calls s1 = ts_calls s" using calls_record [of e ?rows s] by (simp add: wp_def)
  from rec have "persist_update_metadata (te_to_date e) (te_world e) (option_list (lr_run ?rows)) (option_list (lr_status ?rows)) [?c] (ts_db s) =
      (None, ts_db s1)"
    unfolding record_rows_def persist_lifecycle_rows_def skipped_target_checkpoint by (auto split: prod.splits option.splits)
  note index = persisted_index [OF assms(1) this, of "isoformat sd" "isoformat ed"]
  have "\<not> skips_target e2 BASIC_DATASET (ts_basic s1 \<noteq> None) sd ed True False
      (Some (checkpoint_index (te_sort e) (md_checkpoints (ts_db s1)))) s1"
    using index assms(2,3,6)
    by (simp add: skips_target_def dated_row_def parses_def checkpoint_row_def should_skip_checkpoint_def Let_def
        lookup_pipeline_succeeded_def lookup_date_succeeded_def)
  from refetch_calls [OF this] calls show ?thesis by simp
qed

lemma code_complete_iff:
  "code_checkpoints_complete ex lk c targets needs full sd ed \<longleftrightarrow>
     (needs \<or> targets \<noteq> []) \<and>
     (needs \<longrightarrow> checkpoint_lookup_succeeded ex lk BAOSTOCK_FACTOR_DATASET c full_history_start (isoformat ed)) \<and>
     (\<forall>d \<in> set targets. checkpoint_lookup_succeeded ex lk d c (checkpoint_start full sd) (isoformat ed))"
  by (auto simp: code_checkpoints_complete_def list_ex_iff)

lemma full_filter: "length (filter P xs) = length xs \<longleftrightarrow> (\<forall>x \<in> set xs. P x)"
  by (metis filter_True length_filter_less less_irrefl)

lemma skip_record_fields [simp]:
  "run_status (checkpoint_skip_record e dataset code sd ed) = ''skipped_checkpoint''"
  "run_dataset (checkpoint_skip_record e dataset code sd ed) = dataset"
  by (simp_all add: checkpoint_skip_record_def run_of_def skipped_rows_def run_row_def daily_task_def)

text \<open>
  A run ends before the provider is asked only when nothing is left to do. If the preflight
  returns records, the run resumes without force, the checkpoint of every table asked for is a success
  and the table is stored, and for each selected code every daily dataset, and the factors where they
  are needed, have a successful checkpoint of these dates and a stored partition; the main run would
  have dropped each code. All records are skips.
\<close>

theorem preflight_skips_only_complete:
  assumes "preflight_skip_records e s code full sd ed include_calendar include_basic include_factor targets resume force lookup =
      Inr (Some records)"
  shows "\<exists>lk. lookup = Some lk \<and> resume \<and> \<not> force \<and>
    (include_calendar \<longrightarrow> ts_calendar s \<noteq> None \<and>
       lk_pipeline_status lk (''update_daily'', CALENDAR_DATASET, ''*'', isoformat sd, isoformat ed) = Some ''success'') \<and>
    (include_basic \<longrightarrow> ts_basic s \<noteq> None \<and>
       lk_pipeline_status lk (''update_daily'', BASIC_DATASET, ''*'', isoformat sd, isoformat ed) = Some ''success'') \<and>
    (targets \<noteq> [] \<or> include_factor \<longrightarrow>
       (\<exists>codes. resolve_codes (case ts_basic s of None \<Rightarrow> [] | Some b \<Rightarrow> b) code (if full then ''all'' else ''active'') (Some ''1'') = Inr codes \<and>
          prefilter_checkpointed_codes (te_exists e) codes targets (include_factor \<or> needs_factors targets) full sd ed (Some lk) = [] \<and>
          (\<forall>c \<in> set codes.
             (\<forall>d \<in> set targets. te_exists e (output_path_of d c) \<and>
                lk_pipeline_status lk (''update_daily'', d, c, checkpoint_start full sd, isoformat ed) = Some ''success'') \<and>
             (include_factor \<or> needs_factors targets \<longrightarrow> te_exists e (output_path_of BAOSTOCK_FACTOR_DATASET c) \<and>
                lk_pipeline_status lk (''update_daily'', BAOSTOCK_FACTOR_DATASET, c, full_history_start, isoformat ed) =
                  Some ''success'')))) \<and>
    (\<forall>r \<in> set records. run_status r = ''skipped_checkpoint'')"
proof -
  from assms obtain lk where lk: "lookup = Some lk" by (auto simp: preflight_skip_records_def split: option.splits)
  note pre = assms [unfolded preflight_skip_records_def lk option.case Let_def]
  from pre have run: "resume \<and> \<not> force" by (auto split: if_splits)
  from pre have cal: "include_calendar \<longrightarrow> ts_calendar s \<noteq> None \<and>
       lk_pipeline_status lk (''update_daily'', CALENDAR_DATASET, ''*'', isoformat sd, isoformat ed) = Some ''success''"
    by (auto simp: lookup_pipeline_succeeded_def PIPELINE_UPDATE_DAILY_def split: if_splits)
  from pre have bas: "include_basic \<longrightarrow> ts_basic s \<noteq> None \<and>
       lk_pipeline_status lk (''update_daily'', BASIC_DATASET, ''*'', isoformat sd, isoformat ed) = Some ''success''"
    by (auto simp: lookup_pipeline_succeeded_def PIPELINE_UPDATE_DAILY_def split: if_splits)
  let ?needs = "include_factor \<or> needs_factors targets"
  have codes: "\<exists>codes. resolve_codes (case ts_basic s of None \<Rightarrow> [] | Some b \<Rightarrow> b) code (if full then ''all'' else ''active'') (Some ''1'') = Inr codes \<and>
      (\<forall>c \<in> set codes. code_checkpoints_complete (te_exists e) lk c targets ?needs full sd ed)"
    if "targets \<noteq> [] \<or> include_factor"
    using pre that by (auto simp: full_filter split: if_splits)
  have skips: "\<forall>r \<in> set records. run_status r = ''skipped_checkpoint''"
    using pre by (auto simp: code_skip_records_def split: if_splits)
  show ?thesis
    using lk run cal bas skips codes
    by (auto simp: code_complete_iff checkpoint_lookup_succeeded_def lookup_pipeline_succeeded_def PIPELINE_UPDATE_DAILY_def
        prefilter_checkpointed_codes_def filter_empty_conv)
qed

section \<open>Instances\<close>

definition demo_target_env :: target_env where
  "demo_target_env = \<lparr>te_sort = sort_key cp_updated_at,
     te_to_date = (\<lambda>s. if s = isoformat (Date 1 1 5) then Some (Date 1 1 5) else None),
     te_world = \<lparr>sw_connects = (\<lambda>_. True), sw_fails = (\<lambda>_. False)\<rparr>, te_source = \<lparr>rw_uuid = ''2'', rw_now = 5000\<rparr>,
     te_calendar_trace = (\<lambda>_. []), te_store_trace = (\<lambda>_. []), te_query_dates = (\<lambda>_. Inr []), te_query_basic = Inr [],
     te_write_calendar = (\<lambda>_ f. Inr f), te_write_basic = (\<lambda>_ f. Inr f), te_exists = (\<lambda>_. True)\<rparr>"

definition demo_basic_checkpoint :: "date option checkpoint_record" where
  "demo_basic_checkpoint = \<lparr>cp_pipeline = PIPELINE_UPDATE_DAILY, cp_dataset = BASIC_DATASET, cp_code = ''*'',
     cp_start_date = Some (Date 1 1 5), cp_end_date = Some (Date 1 1 5), cp_status = ''success'', cp_row_count = 1,
     cp_output_path = [], cp_updated_at = 1000, cp_error_stack = []\<rparr>"

definition demo_targets :: target_state where
  "demo_targets = \<lparr>ts_db = empty_metadata_db\<lparr>md_checkpoints := [demo_basic_checkpoint]\<rparr>, ts_calendar = None,
     ts_basic = Some [\<lparr>sb_code = Some ''a'', sb_listing_status = Some ''1'', sb_security_type = Some ''1''\<rparr>],
     ts_records = [], ts_calls = []\<rparr>"

definition demo_index :: checkpoint_lookup where
  "demo_index = checkpoint_index (sort_key cp_updated_at) [demo_basic_checkpoint]"

lemma demo_parses: "parses demo_target_env (Date 1 1 5)"
  by (simp add: parses_def demo_target_env_def coerce_date_def null_like_def iso_key_def) code_simp

theorem skip_erases_checkpoint_witness:
  "\<exists>s1. write_stock_basic_target demo_target_env (Date 1 1 5) (Date 1 1 5) True False (Some demo_index) demo_targets = (Inr (), s1) \<and>
     ts_calls s1 = [] \<and>
     ts_calls (snd (write_stock_basic_target demo_target_env (Date 1 1 5) (Date 1 1 5) True False
       (Some (checkpoint_index (sort_key cp_updated_at) (md_checkpoints (ts_db s1)))) s1)) = [BASIC_DATASET]"
proof -
  have "fst (write_stock_basic_target demo_target_env (Date 1 1 5) (Date 1 1 5) True False (Some demo_index) demo_targets) = Inr ()"
    by code_simp
  then obtain s1 where s1: "write_stock_basic_target demo_target_env (Date 1 1 5) (Date 1 1 5) True False (Some demo_index) demo_targets = (Inr (), s1)"
    by (metis prod.collapse)
  have skip: "skips_target demo_target_env BASIC_DATASET (ts_basic demo_targets \<noteq> None) (Date 1 1 5) (Date 1 1 5) True False (Some demo_index) demo_targets"
    by code_simp
  have "\<forall>x \<in> set (md_checkpoints (ts_db demo_targets)). cp_updated_at x < coerce_time (rw_now (te_source demo_target_env))"
    by code_simp
  from skip_erases_checkpoint [OF _ demo_parses demo_parses skip s1 this, of demo_target_env] s1 show ?thesis
    by (simp add: sorts_by_update_stable demo_target_env_def demo_targets_def)
qed

theorem preflight_skips_only_complete_witness:
  "\<exists>records. preflight_skip_records demo_target_env demo_targets NoCode False (Date 1 1 5) (Date 1 1 5) False True False [] True False
      (Some demo_index) = Inr (Some records) \<and> (\<forall>r \<in> set records. run_status r = ''skipped_checkpoint'')"
proof -
  let ?p = "preflight_skip_records demo_target_env demo_targets NoCode False (Date 1 1 5) (Date 1 1 5) False True False [] True False
      (Some demo_index)"
  have "case ?p of Inr (Some _) \<Rightarrow> True | _ \<Rightarrow> False" by code_simp
  then obtain records where r: "?p = Inr (Some records)" by (auto split: sum.splits option.splits)
  with preflight_skips_only_complete [OF r] show ?thesis by blast
qed

end
