(* ===== verification/Dispatch.thy ===== *)
theory Dispatch imports Update_Targets begin

text \<open>
  The bookkeeping of the dispatcher thread (\<open>submit_background\<close>, \<open>drain_completed\<close>,
  \<open>collect_completed\<close>, \<open>dispatch_api_request\<close>, \<open>flush_ordered_run_records\<close> in
  \<open>src/sources/baostock/update_daily.py\<close>): at most so many futures pending, requests of finished tasks
  turned into new tasks, and run records in the order of submission.

  A future is its sequence number, the position of its task among the submitted ones. What the worker
  threads do is the environment: the result of each future, and which pending futures a wait or a poll
  finds done. The five functions call each other, so they take fuel; every loop and every nested drain
  uses one unit.
\<close>

section \<open>State and environment\<close>

datatype dispatch_error = KeyError nat | Raised string | OutOfFuel

record 't dispatcher =
  dd_tasks :: "'t list"
  dd_pending :: "nat list"
  dd_completed :: "(nat \<times> task_result) list"
  dd_next_record :: nat
  dd_run_records :: "raw_run list"
  dd_waits :: nat

text \<open>
  A wait finds done what \<open>pl_seen\<close> says, or the one \<open>pl_first\<close> picks, so it finds at least one; a poll
  may find none. \<open>pl_fetch\<close> is the provider's answer to a request, made into a task.
\<close>

record 't pool =
  pl_max_setting :: int
  pl_result :: "nat \<Rightarrow> 't \<Rightarrow> string + task_result"
  pl_seen :: "nat \<Rightarrow> nat list \<Rightarrow> nat \<Rightarrow> bool"
  pl_first :: "nat \<Rightarrow> nat list \<Rightarrow> nat"
  pl_fetch :: "api_request \<Rightarrow> string + 't"
  pl_failed :: "api_request \<Rightarrow> string \<Rightarrow> 't"

type_synonym ('t, 'a) dcomp = "'t dispatcher \<Rightarrow> (dispatch_error + 'a) \<times> 't dispatcher"

definition max_pending :: "'t pool \<Rightarrow> nat" where
  "max_pending e = nat (max (pl_max_setting e) 1)"

definition found_done :: "'t pool \<Rightarrow> bool \<Rightarrow> 't dispatcher \<Rightarrow> nat list" where
  "found_done e block s =
     (let p = dd_pending s; seen = filter (pl_seen e (dd_waits s) p) p
      in if block \<and> seen = [] then [p ! (pl_first e (dd_waits s) p mod length p)] else sort seen)"

definition push_task :: "'t \<Rightarrow> 't dispatcher \<Rightarrow> 't dispatcher" where
  "push_task t s = s\<lparr>dd_tasks := dd_tasks s @ [t], dd_pending := dd_pending s @ [length (dd_tasks s)]\<rparr>"

definition start_dispatcher :: "raw_run list \<Rightarrow> 't dispatcher" where
  "start_dispatcher records = \<lparr>dd_tasks = [], dd_pending = [], dd_completed = [], dd_next_record = 0,
     dd_run_records = records, dd_waits = 0\<rparr>"

section \<open>Operations\<close>

text \<open>Records leave the buffer as soon as all earlier ones have.\<close>

lemma length_delete_key: "map_of xs k = Some v \<Longrightarrow> length (AList.delete k xs) < length xs"
  unfolding AList.delete_eq by (metis (mono_tags, lifting) case_prodI2 fst_conv length_filter_less map_of_SomeD prod.sel(1) split_beta)

function flush_ordered_run_records :: "'t dispatcher \<Rightarrow> 't dispatcher" where
  "flush_ordered_run_records s =
     (case map_of (dd_completed s) (dd_next_record s) of
        None \<Rightarrow> s
      | Some r \<Rightarrow> flush_ordered_run_records
          (s\<lparr>dd_completed := AList.delete (dd_next_record s) (dd_completed s),
             dd_run_records := dd_run_records s @ tk_records r, dd_next_record := Suc (dd_next_record s)\<rparr>))"
  by pat_completeness auto
termination by (relation "measure (\<lambda>s. length (dd_completed s))") (auto intro: length_delete_key)

declare flush_ordered_run_records.simps [simp del]

text \<open>An \<open>except\<close> clause: the exception's text goes to the handler.\<close>

fun catch :: "(string \<Rightarrow> ('t, 'a) dcomp) \<Rightarrow> dispatch_error \<Rightarrow> ('t, 'a) dcomp" where
  "catch h (Raised x) s = h x s"
| "catch h (KeyError n) s = h ''KeyError'' s"
| "catch h OutOfFuel s = (Inl OutOfFuel, s)"

function (sequential)
  submit_background :: "nat \<Rightarrow> 't pool \<Rightarrow> 't \<Rightarrow> ('t, nat) dcomp"
  and drain_completed :: "nat \<Rightarrow> 't pool \<Rightarrow> bool \<Rightarrow> ('t, unit) dcomp"
  and collect_all :: "nat \<Rightarrow> 't pool \<Rightarrow> nat list \<Rightarrow> ('t, unit) dcomp"
  and dispatch_requests :: "nat \<Rightarrow> 't pool \<Rightarrow> api_request list \<Rightarrow> ('t, unit) dcomp"
where
  "submit_background 0 e t s = (Inl OutOfFuel, s)"
| "submit_background (Suc n) e t s =
     (if length (dd_pending s) < max_pending e then (Inr (length (dd_tasks s)), push_task t s)
      else seq_comp (\<lambda>s. drain_completed n e True s) (\<lambda>_ s. submit_background n e t s) s)"
| "drain_completed n e block s =
     (if dd_pending s = [] then (Inr (), s)
      else collect_all n e (found_done e block s) (s\<lparr>dd_waits := Suc (dd_waits s)\<rparr>))"
| "collect_all n e [] s = (Inr (), s)"
| "collect_all n e (f # fs) s =
     (if f \<notin> set (dd_pending s) then (Inl (KeyError f), s)
      else
        (let s1 = s\<lparr>dd_pending := remove1 f (dd_pending s)\<rparr>
         in case pl_result e f (dd_tasks s1 ! f) of
              Inl x \<Rightarrow> (Inl (Raised x), s1)
            | Inr r \<Rightarrow>
                seq_comp (\<lambda>s. dispatch_requests n e (tk_requests r) s)
                  (\<lambda>_ s. collect_all n e fs (flush_ordered_run_records s))
                  (s1\<lparr>dd_completed := (f, r) # dd_completed s1\<rparr>)))"
| "dispatch_requests n e [] s = (Inr (), s)"
| "dispatch_requests n e (q # qs) s =
     seq_comp
       (try_comp
         (seq_comp (lift_res (case pl_fetch e q of Inl x \<Rightarrow> Inl (Raised x) | Inr t \<Rightarrow> Inr t)) (\<lambda>t s. submit_background n e t s))
         (catch (\<lambda>x s. submit_background n e (pl_failed e q x) s)))
       (\<lambda>_ s. dispatch_requests n e qs s) s"
  by pat_completeness auto
termination
  by (relation "measures
    [case_sum (case_sum (\<lambda>(n, _). n) (\<lambda>(n, _). n)) (case_sum (\<lambda>(n, _). n) (\<lambda>(n, _). n)),
     case_sum (case_sum (\<lambda>_. 0) (\<lambda>_. 3)) (case_sum (\<lambda>_. 2) (\<lambda>_. 1)),
     case_sum (\<lambda>_. 0) (case_sum (\<lambda>(_, _, fs, _). length fs) (\<lambda>(_, _, qs, _). length qs))]") auto

text \<open>\<open>while pending: drain_completed(block=True)\<close>, with fuel for the loop.\<close>

fun drain_all :: "nat \<Rightarrow> nat \<Rightarrow> 't pool \<Rightarrow> ('t, unit) dcomp" where
  "drain_all 0 n e s = (if dd_pending s = [] then Inr () else Inl OutOfFuel, s)"
| "drain_all (Suc k) n e s =
     (if dd_pending s = [] then (Inr (), s)
      else seq_comp (\<lambda>s. drain_completed n e True s) (\<lambda>_ s. drain_all k n e s) s)"

text \<open>A fetch on the dispatcher thread and the task made of its answer, or of its exception.\<close>

definition submit_answer :: "nat \<Rightarrow> 't pool \<Rightarrow> (string + 'a \<Rightarrow> 't) \<Rightarrow> string + 'a \<Rightarrow> ('t, nat) dcomp" where
  "submit_answer n e mk answer =
     try_comp
       (seq_comp (lift_res (case answer of Inl x \<Rightarrow> Inl (Raised x) | Inr a \<Rightarrow> Inr a)) (\<lambda>a s. submit_background n e (mk (Inr a)) s))
       (catch (\<lambda>x s. submit_background n e (mk (Inl x)) s))"

section \<open>The interface of the tasks\<close>

text \<open>
  What the bookkeeping relies on: a task returns, with at most one request, and the task made of a
  request has none.
\<close>

locale task_pool =
  fixes e :: "'t pool" and refetch :: "'t \<Rightarrow> bool"
  assumes returns: "\<exists>r. pl_result e f t = Inr r \<and> length (tk_requests r) \<le> 1 \<and> (refetch t \<longrightarrow> tk_requests r = [])"
    and fetched: "pl_fetch e q = Inr t \<Longrightarrow> refetch t"
    and failed: "refetch (pl_failed e q x)"
begin

definition result :: "nat \<Rightarrow> 't \<Rightarrow> task_result" where
  "result f t = (case pl_result e f t of Inr r \<Rightarrow> r | Inl _ \<Rightarrow> \<lparr>tk_records = [], tk_requests = []\<rparr>)"

lemma pl_result: "pl_result e f t = Inr (result f t)"
  using returns [of f t] by (auto simp: result_def)

lemma one_request: "length (tk_requests (result f t)) \<le> 1" "refetch t \<Longrightarrow> tk_requests (result f t) = []"
  using returns [of f t] by (auto simp: result_def)

definition in_order :: "raw_run list \<Rightarrow> nat \<Rightarrow> 't list \<Rightarrow> raw_run list" where
  "in_order base n tasks = base @ concat (map (\<lambda>f. tk_records (result f (tasks ! f))) [0..<n])"

text \<open>Every submitted future is recorded, buffered or pending, and the records so far are in order.\<close>

definition booked :: "raw_run list \<Rightarrow> 't dispatcher \<Rightarrow> bool" where
  "booked base s \<longleftrightarrow>
     distinct (dd_pending s) \<and> length (dd_pending s) \<le> max_pending e \<and> distinct (map fst (dd_completed s)) \<and>
     dd_next_record s \<le> length (dd_tasks s) \<and>
     set (dd_pending s) \<union> fst ` set (dd_completed s) = {dd_next_record s..<length (dd_tasks s)} \<and>
     set (dd_pending s) \<inter> fst ` set (dd_completed s) = {} \<and>
     (\<forall>(f, r) \<in> set (dd_completed s). r = result f (dd_tasks s ! f)) \<and>
     dd_run_records s = in_order base (dd_next_record s) (dd_tasks s)"

definition flushed :: "'t dispatcher \<Rightarrow> bool" where
  "flushed s \<longleftrightarrow> dd_next_record s \<notin> fst ` set (dd_completed s)"

definition weight :: "'t \<Rightarrow> nat" where
  "weight t = (if refetch t then 1 else 2)"

definition potential :: "'t dispatcher \<Rightarrow> nat" where
  "potential s = (\<Sum>f\<leftarrow>dd_pending s. weight (dd_tasks s ! f))"

definition extends :: "'t dispatcher \<Rightarrow> 't dispatcher \<Rightarrow> bool" where
  "extends s s' \<longleftrightarrow> (\<exists>ts. dd_tasks s' = dd_tasks s @ ts \<and> list_all refetch ts)"

lemma extends_refl [simp]: "extends s s"
  by (simp add: extends_def)

lemma extends_trans: "extends s s1 \<Longrightarrow> extends s1 s2 \<Longrightarrow> extends s s2"
  by (auto simp: extends_def)

lemma in_order_append: "n \<le> length tasks \<Longrightarrow> in_order base n (tasks @ ts) = in_order base n tasks"
  by (auto simp: in_order_def nth_append intro!: arg_cong [where f = concat])

lemma pending_less: "booked base s \<Longrightarrow> f \<in> set (dd_pending s) \<Longrightarrow> f < length (dd_tasks s)"
  unfolding booked_def by auto

lemma potential_bound: "booked base s \<Longrightarrow> potential s \<le> 2 * max_pending e"
proof -
  assume "booked base s"
  then have "length (dd_pending s) \<le> max_pending e" by (simp add: booked_def)
  moreover have "(\<Sum>f\<leftarrow>fs. weight (dd_tasks s ! f)) \<le> 2 * length fs" for fs by (induction fs) (auto simp: weight_def)
  ultimately show ?thesis unfolding potential_def by (meson mult_le_mono2 order_trans)
qed

lemma booked_push:
  assumes "booked base s" and "length (dd_pending s) < max_pending e"
  shows "booked base (push_task t s)"
proof -
  have less: "f < length (dd_tasks s)" if "f \<in> set (dd_pending s) \<union> fst ` set (dd_completed s)" for f
    using assms(1) that unfolding booked_def by auto
  have "\<forall>(f, r) \<in> set (dd_completed s). r = result f ((dd_tasks s @ [t]) ! f)"
    using assms(1) less by (force simp: booked_def nth_append)
  then show ?thesis
    using assms less by (auto simp: booked_def push_task_def in_order_append)
qed

lemma flushed_push: "booked base s \<Longrightarrow> flushed s \<Longrightarrow> flushed (push_task t s)"
  by (simp add: flushed_def push_task_def)

lemma potential_push: "booked base s \<Longrightarrow> potential (push_task t s) = potential s + weight t"
  using pending_less [of base s] by (auto simp: potential_def push_task_def nth_append intro!: arg_cong [where f = sum_list])

lemma booked_flush:
  assumes "booked base s"
  shows "booked base (flush_ordered_run_records s) \<and> flushed (flush_ordered_run_records s) \<and>
    dd_pending (flush_ordered_run_records s) = dd_pending s \<and> dd_tasks (flush_ordered_run_records s) = dd_tasks s"
  using assms
proof (induction s rule: flush_ordered_run_records.induct)
  case (1 s)
  show ?case
  proof (cases "map_of (dd_completed s) (dd_next_record s)")
    case None
    then have "flush_ordered_run_records s = s" by (subst flush_ordered_run_records.simps) (simp only: option.case)
    moreover have "dd_next_record s \<notin> fst ` set (dd_completed s)" using None by (simp only: map_of_eq_None_iff not_False_eq_True)
    ultimately show ?thesis using 1(2) by (simp add: flushed_def)
  next
    case (Some r)
    let ?s = "s\<lparr>dd_completed := AList.delete (dd_next_record s) (dd_completed s),
             dd_run_records := dd_run_records s @ tk_records r, dd_next_record := Suc (dd_next_record s)\<rparr>"
    have mem: "(dd_next_record s, r) \<in> set (dd_completed s)" using Some by (rule map_of_SomeD)
    then have n: "dd_next_record s \<in> {dd_next_record s..<length (dd_tasks s)}" "dd_next_record s \<notin> set (dd_pending s)"
      "r = result (dd_next_record s) (dd_tasks s ! dd_next_record s)"
      using 1(2) unfolding booked_def by (force, force, force)
    note b = 1(2) [unfolded booked_def]
    have keys: "fst ` set (dd_completed ?s) = fst ` set (dd_completed s) - {dd_next_record s}"
      by (simp add: AList.delete_eq) force
    have sub: "set (dd_completed ?s) \<subseteq> set (dd_completed s)" by (auto simp: AList.delete_eq)
    have cover: "set (dd_pending s) \<union> fst ` set (dd_completed s) = {dd_next_record s..<length (dd_tasks s)}" using b by blast
    have "booked base ?s"
      unfolding booked_def
    proof (intro conjI)
      show "set (dd_pending ?s) \<union> fst ` set (dd_completed ?s) = {dd_next_record ?s..<length (dd_tasks ?s)}"
      proof -
        have "{Suc (dd_next_record s)..<length (dd_tasks s)} = {dd_next_record s..<length (dd_tasks s)} - {dd_next_record s}" by auto
        then show ?thesis unfolding keys using cover n(2) by simp blast
      qed
      show "set (dd_pending ?s) \<inter> fst ` set (dd_completed ?s) = {}" unfolding keys using b by auto
      show "\<forall>(f, r) \<in> set (dd_completed ?s). r = result f (dd_tasks ?s ! f)" using sub b by auto
      show "dd_run_records ?s = in_order base (dd_next_record ?s) (dd_tasks ?s)" using b n(3) by (simp add: in_order_def)
    qed (use b n(1) in \<open>simp_all add: AList.distinct_delete\<close>)
    moreover have "flush_ordered_run_records s = flush_ordered_run_records ?s"
      by (subst flush_ordered_run_records.simps) (simp only: Some option.case)
    ultimately show ?thesis using "1.IH" [OF Some] by simp
  qed
qed

text \<open>With room, a task is submitted at once.\<close>

lemma submit_room:
  assumes "length (dd_pending s) < max_pending e"
  shows "submit_background (Suc n) e t s = (Inr (length (dd_tasks s)), push_task t s)"
  using assms by simp

lemma dispatch_room:
  assumes "length (dd_pending s) < max_pending e" and "length qs \<le> 1"
  shows "\<exists>s'. dispatch_requests (Suc n) e qs s = (Inr (), s') \<and> (if qs = [] then s' = s else \<exists>t. refetch t \<and> s' = push_task t s)"
proof (cases qs)
  case (Cons q rest)
  then have "qs = [q]" using assms(2) by simp
  then show ?thesis
    using submit_room [OF assms(1)] fetched [of q] failed [of q]
    by (cases "pl_fetch e q") (auto simp: seq_comp_def try_comp_def lift_res_def simp del: submit_background.simps)
qed simp

text \<open>One finished future: its result is booked, its request becomes pending, the records move on.\<close>

lemma booked_complete:
  assumes "booked base s" and "f \<in> set (dd_pending s)"
  shows "booked base (s\<lparr>dd_pending := remove1 f (dd_pending s), dd_completed := (f, result f (dd_tasks s ! f)) # dd_completed s\<rparr>)"
  using assms unfolding booked_def by (auto simp: length_remove1 set_remove1_eq)

lemma potential_remove:
  assumes "f \<in> set (dd_pending s)"
  shows "potential (s\<lparr>dd_pending := remove1 f (dd_pending s), dd_completed := c\<rparr>) + weight (dd_tasks s ! f) = potential s"
  using assms sum_list_map_remove1 [of f "dd_pending s" "\<lambda>f. weight (dd_tasks s ! f)"] by (simp add: potential_def)

definition advanced :: "raw_run list \<Rightarrow> 't dispatcher \<Rightarrow> nat \<Rightarrow> 't dispatcher \<Rightarrow> bool" where
  "advanced base s k s' \<longleftrightarrow> booked base s' \<and> flushed s' \<and> extends s s' \<and> potential s' + k \<le> potential s"

lemma collect_one:
  assumes "booked base s" and "f \<in> set (dd_pending s)"
  shows "\<exists>s'. collect_all (Suc n) e (f # fs) s = collect_all (Suc n) e fs s' \<and> advanced base s 1 s' \<and>
    set (dd_pending s) - {f} \<subseteq> set (dd_pending s')"
proof -
  let ?r = "result f (dd_tasks s ! f)"
  let ?s1 = "s\<lparr>dd_pending := remove1 f (dd_pending s), dd_completed := (f, ?r) # dd_completed s\<rparr>"
  have b1: "booked base ?s1" using assms by (rule booked_complete)
  have room: "length (dd_pending ?s1) < max_pending e"
  proof -
    have "length (dd_pending s) \<le> max_pending e" using assms(1) by (simp add: booked_def)
    moreover have "length (remove1 f (dd_pending s)) = length (dd_pending s) - 1" using assms(2) by (simp add: length_remove1)
    ultimately have "length (remove1 f (dd_pending s)) < max_pending e" using length_pos_if_in_set [OF assms(2)] by linarith
    then show ?thesis by simp
  qed
  from dispatch_room [OF room one_request(1)] obtain s2 where
    d: "dispatch_requests (Suc n) e (tk_requests ?r) ?s1 = (Inr (), s2)"
    and s2: "if tk_requests ?r = [] then s2 = ?s1 else \<exists>t. refetch t \<and> s2 = push_task t ?s1" by blast
  have w: "potential ?s1 + weight (dd_tasks s ! f) = potential s" using assms(2) by (rule potential_remove)
  have rest: "booked base s2 \<and> extends s s2 \<and> potential s2 + 1 \<le> potential s \<and> set (dd_pending s) - {f} \<subseteq> set (dd_pending s2)"
  proof (cases "tk_requests ?r = []")
    case True
    then show ?thesis using s2 b1 w assms(1) by (auto simp: weight_def extends_def booked_def set_remove1_eq split: if_splits)
  next
    case False
    then obtain t where t: "refetch t" "s2 = push_task t ?s1" using s2 by auto
    from False one_request(2) have "\<not> refetch (dd_tasks s ! f)" by blast
    then have "potential s2 + 1 \<le> potential s" using w t potential_push [OF b1, of t] by (simp add: weight_def)
    moreover have "booked base s2" using booked_push [OF b1 room] t by simp
    ultimately show ?thesis using t assms(1) by (auto simp: extends_def push_task_def booked_def set_remove1_eq)
  qed
  have "collect_all (Suc n) e (f # fs) s = collect_all (Suc n) e fs (flush_ordered_run_records s2)"
    using assms(2) d by (simp add: pl_result seq_comp_def)
  moreover have "potential (flush_ordered_run_records s2) = potential s2" using booked_flush [of base s2] rest by (simp add: potential_def)
  moreover from this rest booked_flush [of base s2] have "advanced base s 1 (flush_ordered_run_records s2)"
    by (auto simp: advanced_def extends_def)
  ultimately show ?thesis using rest booked_flush [of base s2] by (intro exI [of _ "flush_ordered_run_records s2"]) simp
qed

lemma advanced_trans: "advanced base s k s1 \<Longrightarrow> advanced base s1 l s2 \<Longrightarrow> advanced base s (k + l) s2"
  unfolding advanced_def using extends_trans by fastforce

lemma collect_all_ok:
  assumes "booked base s" and "flushed s" and "distinct fs" and "set fs \<subseteq> set (dd_pending s)"
  shows "\<exists>s'. collect_all (Suc n) e fs s = (Inr (), s') \<and> advanced base s (length fs) s'"
  using assms
proof (induction fs arbitrary: s)
  case (Cons f fs)
  then obtain s1 where s1: "collect_all (Suc n) e (f # fs) s = collect_all (Suc n) e fs s1" "advanced base s 1 s1"
    "set (dd_pending s) - {f} \<subseteq> set (dd_pending s1)"
    using collect_one [of base s f n fs] by auto
  with Cons.prems have "set fs \<subseteq> set (dd_pending s1)" by auto
  with Cons.IH [of s1] s1 Cons.prems obtain s' where "collect_all (Suc n) e fs s1 = (Inr (), s')" "advanced base s1 (length fs) s'"
    by (auto simp: advanced_def)
  with s1 advanced_trans [OF s1(2)] show ?case by auto
qed (simp add: advanced_def)

lemma found_done_ok:
  assumes "distinct (dd_pending s)" and "dd_pending s \<noteq> []"
  shows "distinct (found_done e block s)" "set (found_done e block s) \<subseteq> set (dd_pending s)" "block \<Longrightarrow> found_done e block s \<noteq> []"
  using assms by (auto simp: found_done_def Let_def) (metis set_empty set_sort)

lemma drain_ok:
  assumes "booked base s" and "flushed s"
  shows "\<exists>s'. drain_completed (Suc n) e block s = (Inr (), s') \<and>
    advanced base s (if block \<and> dd_pending s \<noteq> [] then 1 else 0) s'"
proof (cases "dd_pending s = []")
  case False
  let ?s = "s\<lparr>dd_waits := Suc (dd_waits s)\<rparr>"
  have "distinct (dd_pending s)" using assms(1) by (simp add: booked_def)
  note fd = found_done_ok [OF this False, of block]
  have "booked base ?s" "flushed ?s" using assms by (simp_all add: booked_def flushed_def)
  from collect_all_ok [OF this fd(1)] fd(2) obtain s' where
    s': "collect_all (Suc n) e (found_done e block s) ?s = (Inr (), s')" "advanced base ?s (length (found_done e block s)) s'" by auto
  then have "advanced base s (length (found_done e block s)) s'" by (simp add: advanced_def extends_def potential_def)
  moreover have "(if block \<and> dd_pending s \<noteq> [] then 1 else 0) \<le> length (found_done e block s)"
    using fd(3) by (auto simp: Suc_le_eq)
  ultimately have "advanced base s (if block \<and> dd_pending s \<noteq> [] then 1 else 0) s'" unfolding advanced_def by linarith
  then show ?thesis using s' False by simp
qed (use assms in \<open>simp add: advanced_def\<close>)

lemma max_pending_pos: "0 < max_pending e"
  by (simp add: max_pending_def)

text \<open>Waiting for room ends: each wait takes from the potential.\<close>

lemma submit_ok:
  assumes "booked base s" and "flushed s" and "potential s + 2 \<le> n"
  shows "\<exists>s1. submit_background n e t s = (Inr (length (dd_tasks s1)), push_task t s1) \<and> advanced base s 0 s1 \<and>
    length (dd_pending s1) < max_pending e"
  using assms
proof (induction n arbitrary: s)
  case (Suc n)
  show ?case
  proof (cases "length (dd_pending s) < max_pending e")
    case True
    then show ?thesis using Suc.prems by (auto simp: advanced_def)
  next
    case False
    then have ne: "dd_pending s \<noteq> []" using max_pending_pos by auto
    from Suc.prems(3) obtain m where m: "n = Suc m" by (cases n) auto
    from drain_ok [OF Suc.prems(1,2), of m True] ne m obtain s1 where
      s1: "drain_completed n e True s = (Inr (), s1)" "advanced base s 1 s1" by auto
    with Suc.IH [of s1] Suc.prems(3) obtain s2 where
      "submit_background n e t s1 = (Inr (length (dd_tasks s2)), push_task t s2)" "advanced base s1 0 s2"
      "length (dd_pending s2) < max_pending e"
      by (auto simp: advanced_def)
    moreover from advanced_trans [OF s1(2) this(2)] have "advanced base s 0 s2" by (simp add: advanced_def)
    ultimately show ?thesis using s1(1) False by (intro exI [of _ s2]) (simp add: seq_comp_def)
  qed
qed simp

lemma submit_answer_ok:
  assumes "booked base s" and "flushed s" and "2 * max_pending e + 2 \<le> n"
  shows "\<exists>s1. submit_answer n e mk answer s = (Inr (length (dd_tasks s1)), push_task (mk answer) s1) \<and> advanced base s 0 s1 \<and>
    length (dd_pending s1) < max_pending e"
proof -
  have n: "potential s + 2 \<le> n" using potential_bound [OF assms(1)] assms(3) by linarith
  from submit_ok [OF assms(1,2) n, of "mk answer"] show ?thesis
    by (cases answer) (auto simp: submit_answer_def seq_comp_def try_comp_def lift_res_def)
qed

lemma drain_all_ok:
  assumes "booked base s" and "flushed s" and "potential s \<le> k"
  shows "\<exists>s'. drain_all k (Suc n) e s = (Inr (), s') \<and> advanced base s 0 s' \<and> dd_pending s' = []"
  using assms
proof (induction k arbitrary: s)
  case 0
  then have "dd_pending s = []" by (cases "dd_pending s") (auto simp: potential_def weight_def split: if_splits)
  with 0 show ?case by (simp add: advanced_def)
next
  case (Suc k)
  show ?case
  proof (cases "dd_pending s = []")
    case False
    with drain_ok [OF Suc.prems(1,2), of n True] obtain s1 where
      s1: "drain_completed (Suc n) e True s = (Inr (), s1)" "advanced base s 1 s1" by auto
    with Suc.IH [of s1] Suc.prems(3) obtain s2 where
      s2: "drain_all k (Suc n) e s1 = (Inr (), s2)" "advanced base s1 0 s2" "dd_pending s2 = []"
      by (auto simp: advanced_def)
    from advanced_trans [OF s1(2) s2(2)] have "advanced base s 0 s2" by (simp add: advanced_def)
    with s1 s2 False show ?thesis by (simp add: seq_comp_def)
  qed (use Suc.prems in \<open>simp add: advanced_def\<close>)
qed

lemma all_recorded:
  assumes "booked base s" and "flushed s" and "dd_pending s = []"
  shows "dd_run_records s = in_order base (length (dd_tasks s)) (dd_tasks s)"
proof -
  have "fst ` set (dd_completed s) = {dd_next_record s..<length (dd_tasks s)}" "dd_next_record s \<le> length (dd_tasks s)"
    using assms(1,3) by (auto simp: booked_def)
  with assms(2) have "dd_next_record s = length (dd_tasks s)" by (auto simp: flushed_def)
  with assms(1) show ?thesis by (simp add: booked_def)
qed

lemma start_ok: "booked base (start_dispatcher base)" "flushed (start_dispatcher base)"
  by (simp_all add: booked_def flushed_def start_dispatcher_def in_order_def)

end

end
