(* ===== verification/Daily_Dispatch.thy ===== *)
theory Daily_Dispatch imports Dispatch begin

text \<open>
  The background part of a daily update (\<open>_update_daily_impl\<close> in
  \<open>src/sources/baostock/update_daily.py\<close>): per code the fetches on the dispatcher thread and the tasks
  submitted for their answers, the refetches, the final flush, and the order of the run records.

  Each task runs from some state of the worker, whatever the other threads did before, and each wait
  finds whatever is done.
\<close>

section \<open>Tasks\<close>

text \<open>A fetched answer or the traceback of the fetch. A daily task waits for the factor future of its code.\<close>

datatype ('n, 'r) task =
    FactorTask string "string + 'n factor_row list"
  | DailyTask "nat option" string "string + ('n, 'r) table"
  | RefetchTask api_request "string + ('n, 'r) table"
  | FlushTask

record ('n, 'r) daily_run =
  dr_full :: bool
  dr_start :: date
  dr_end :: date
  dr_targets :: "string list"
  dr_include_factor :: bool
  dr_factor_current :: "string \<Rightarrow> bool"
  dr_use_existing :: "string \<Rightarrow> string option"
  dr_fetch_factor :: "string \<Rightarrow> string + 'n factor_row list"
  dr_fetch_bars :: "string \<Rightarrow> string \<Rightarrow> string \<Rightarrow> string + ('n, 'r) table"
  dr_now :: int

definition no_table :: "('n, 'r) table" where
  "no_table = \<lparr>tb_columns = [], tb_rows = []\<rparr>"

definition answer_table :: "string + ('n, 'r) table \<Rightarrow> ('n, 'r) table" where
  "answer_table a = (case a of Inl _ \<Rightarrow> no_table | Inr t \<Rightarrow> t)"

definition answer_error :: "string + 'a \<Rightarrow> string option" where
  "answer_error a = (case a of Inl x \<Rightarrow> Some x | Inr _ \<Rightarrow> None)"

definition run_task ::
  "('n::{one,times}, 'r, 'db) worker \<Rightarrow> ('n, 'r) daily_run \<Rightarrow> ('n, 'r) task \<Rightarrow> ('n, 'r, 'db, task_result) comp" where
  "run_task w r t =
     (case t of
        FactorTask c (Inr rows) \<Rightarrow> process_factor_success w c rows (dr_now r) (output_path_of BAOSTOCK_FACTOR_DATASET c)
      | FactorTask c (Inl x) \<Rightarrow> process_factor_failure w c (dr_now r) (output_path_of BAOSTOCK_FACTOR_DATASET c) x
      | DailyTask _ c a \<Rightarrow>
          process_daily_initial w c (daily_target_plans (dr_now r) (dr_targets r) c (dr_full r) (dr_start r) (dr_end r))
            (Some (checkpoint_start (dr_full r) (dr_start r))) (answer_table a) (answer_error a)
      | RefetchTask q a \<Rightarrow> process_daily_full_refetch w q (answer_table a) (answer_error a)
      | FlushTask \<Rightarrow> flush_metadata w)"

section \<open>The dispatcher loop\<close>

definition should_fetch_factor :: "('n, 'r) daily_run \<Rightarrow> string \<Rightarrow> bool" where
  "should_fetch_factor r c \<longleftrightarrow> dr_include_factor r \<or> needs_factors (dr_targets r) \<and> \<not> dr_factor_current r c"

text \<open>Reading the stored factors happens on the dispatcher thread; an exception there ends the run.\<close>

definition use_existing :: "('n, 'r) daily_run \<Rightarrow> string \<Rightarrow> ('t, unit) dcomp" where
  "use_existing r c =
     lift_res (if needs_factors (dr_targets r) \<and> \<not> should_fetch_factor r c
               then (case dr_use_existing r c of None \<Rightarrow> Inr () | Some x \<Rightarrow> Inl (Raised x)) else Inr ())"

definition submit_factor :: "nat \<Rightarrow> ('n, 'r) task pool \<Rightarrow> ('n, 'r) daily_run \<Rightarrow> string \<Rightarrow> (('n, 'r) task, nat option) dcomp" where
  "submit_factor n e r c =
     (if should_fetch_factor r c
      then seq_comp (submit_answer n e (FactorTask c) (dr_fetch_factor r c)) (\<lambda>k. lift_res (Inr (Some k)))
      else lift_res (Inr None))"

definition daily_answer :: "('n, 'r) daily_run \<Rightarrow> string \<Rightarrow> string + ('n, 'r) table" where
  "daily_answer r c = dr_fetch_bars r c (checkpoint_start (dr_full r) (dr_start r)) (isoformat (dr_end r))"

definition submit_daily :: "nat \<Rightarrow> ('n, 'r) task pool \<Rightarrow> ('n, 'r) daily_run \<Rightarrow> string \<Rightarrow> nat option \<Rightarrow> (('n, 'r) task, unit) dcomp" where
  "submit_daily n e r c factor_future =
     (if dr_targets r = [] then lift_res (Inr ())
      else seq_comp (submit_answer n e (DailyTask factor_future c) (daily_answer r c)) (\<lambda>_. lift_res (Inr ())))"

fun update_codes :: "nat \<Rightarrow> ('n, 'r) task pool \<Rightarrow> ('n, 'r) daily_run \<Rightarrow> string list \<Rightarrow> (('n, 'r) task, unit) dcomp" where
  "update_codes n e r [] s = (Inr (), s)"
| "update_codes n e r (c # cs) s =
     seq_comp (use_existing r c) (\<lambda>_.
     seq_comp (submit_factor n e r c) (\<lambda>factor_future.
     seq_comp (submit_daily n e r c factor_future) (\<lambda>_.
     seq_comp (drain_completed n e False) (\<lambda>_. update_codes n e r cs)))) s"

definition run_background :: "nat \<Rightarrow> ('n, 'r) task pool \<Rightarrow> ('n, 'r) daily_run \<Rightarrow> string list \<Rightarrow> (('n, 'r) task, unit) dcomp" where
  "run_background n e r codes =
     seq_comp (update_codes n e r codes) (\<lambda>_.
     seq_comp (drain_all n n e) (\<lambda>_.
     seq_comp (submit_background n e FlushTask) (\<lambda>_.
       drain_all n n e)))"

section \<open>The pool of a worker\<close>

text \<open>What varies from run to run: the worker's state when a future starts, and what the waits find.\<close>

record ('n, 'r, 'db) schedule =
  sc_state :: "nat \<Rightarrow> ('n, 'r, 'db) worker_state"
  sc_seen :: "nat \<Rightarrow> nat list \<Rightarrow> nat \<Rightarrow> bool"
  sc_first :: "nat \<Rightarrow> nat list \<Rightarrow> nat"
  sc_max_pending :: int

definition worker_pool ::
  "('n::{one,times}, 'r, 'db) worker \<Rightarrow> ('n, 'r) daily_run \<Rightarrow> ('n, 'r, 'db) schedule \<Rightarrow> ('n, 'r) task pool" where
  "worker_pool w r sc =
     \<lparr>pl_max_setting = sc_max_pending sc, pl_result = (\<lambda>f t. fst (run_task w r t (sc_state sc f))),
      pl_seen = sc_seen sc, pl_first = sc_first sc,
      pl_fetch = (\<lambda>q. case dr_fetch_bars r (ar_code q) (ar_start q) (ar_end q) of Inl x \<Rightarrow> Inl x | Inr t \<Rightarrow> Inr (RefetchTask q (Inr t))),
      pl_failed = (\<lambda>q x. RefetchTask q (Inl x))\<rparr>"

fun is_refetch :: "('n, 'r) task \<Rightarrow> bool" where
  "is_refetch (RefetchTask q a) = True"
| "is_refetch _ = False"

section \<open>Worker tasks return with at most one request\<close>

lemma process_factor_failure_wp: "wp (process_factor_failure w c start path x) s (\<lambda>r s'. tk_requests r = []) (\<lambda>e s'. False)"
  by (simp add: wp_def process_factor_failure_def Let_def split: prod.split)

lemma wp_weaken: "(\<And>x s'. Q x s') \<Longrightarrow> (\<And>e s'. E e s') \<Longrightarrow> wp m s Q E"
  by (simp add: wp_def split: prod.split sum.split)

lemma process_factor_success_wp: "wp (process_factor_success w c rows start path) s (\<lambda>r s'. tk_requests r = []) (\<lambda>e s'. False)"
  unfolding process_factor_success_def wp_try wp_seq Let_def
  by (rule wp_weaken, rule wp_weaken, rule wp_weaken, rule wp_weaken) (simp_all add: process_factor_failure_wp)

lemma flush_metadata_wp: "wp (flush_metadata w) s (\<lambda>r s'. tk_requests r = []) (\<lambda>e s'. False)"
  by (simp add: wp_def flush_metadata_def split: prod.split)

lemma process_daily_full_refetch_requests:
  "wp (process_daily_full_refetch w q t x) s (\<lambda>r s'. tk_requests r = []) (\<lambda>e s'. False)"
proof -
  have "wp (failed_result w plans y) s (\<lambda>r s'. tk_requests r = []) (\<lambda>e s'. False)" for plans y s
    by (rule wp_mono [OF failed_result_wp]) auto
  moreover have "wp (seq_comp (write_daily_frames w plans t full_history_start) (\<lambda>records s. (Inr \<lparr>tk_records = records, tk_requests = []\<rparr>, s))) s
      (\<lambda>r s'. tk_requests r = []) (\<lambda>e s'. False)" for plans s
    unfolding wp_seq by (rule wp_mono [OF write_daily_frames_wp]) auto
  ultimately have "wp (case x of None \<Rightarrow> seq_comp (write_daily_frames w plans t full_history_start) (\<lambda>records s. (Inr \<lparr>tk_records = records, tk_requests = []\<rparr>, s))
        | Some y \<Rightarrow> failed_result w plans y) s (\<lambda>r s'. tk_requests r = []) (\<lambda>e s'. False)" for plans
    by (cases x) (simp_all del: wp_seq)
  then have "wp (seq_comp (try_comp (case x of None \<Rightarrow> seq_comp (write_daily_frames w plans t full_history_start) (\<lambda>records s. (Inr \<lparr>tk_records = records, tk_requests = []\<rparr>, s))
        | Some y \<Rightarrow> failed_result w plans y) (\<lambda>e. failed_result w plans e)) (\<lambda>result s. (Inr result, release_code_state (ar_code q) s))) s
      (\<lambda>r s'. tk_requests r = []) (\<lambda>e s'. False)" for plans
    unfolding wp_seq [of "try_comp _ _"] wp_try by (rule wp_mono) auto
  then show ?thesis by (simp add: process_daily_full_refetch_def Let_def wp_def)
qed

lemma run_task_wp:
  "wp (run_task w r t) s (\<lambda>r s'. length (tk_requests r) \<le> 1 \<and> (is_refetch t \<longrightarrow> tk_requests r = [])) (\<lambda>e s'. False)"
proof (cases t)
  case (FactorTask c a)
  then show ?thesis
    by (cases a) (simp_all add: run_task_def wp_mono [OF process_factor_success_wp] wp_mono [OF process_factor_failure_wp])
next
  case (DailyTask k c a)
  then show ?thesis by (auto simp: run_task_def task_outcome_def intro!: wp_mono [OF process_daily_initial_wp])
next
  case (RefetchTask q a)
  then show ?thesis by (simp add: run_task_def wp_mono [OF process_daily_full_refetch_requests])
next
  case FlushTask
  then show ?thesis by (simp add: run_task_def wp_mono [OF flush_metadata_wp])
qed

interpretation daily_pool: task_pool "worker_pool w r sc" is_refetch
  for w :: "('n::{one,times}, 'r, 'db) worker" and r :: "('n, 'r) daily_run" and sc :: "('n, 'r, 'db) schedule"
proof unfold_locales
  fix f and t :: "('n, 'r) task"
  show "\<exists>x. pl_result (worker_pool w r sc) f t = Inr x \<and> length (tk_requests x) \<le> 1 \<and> (is_refetch t \<longrightarrow> tk_requests x = [])"
    using run_task_wp [of w r t "sc_state sc f"] unfolding wp_returns by (auto simp: worker_pool_def)
qed (auto simp: worker_pool_def split: sum.splits)

section \<open>What a run submits\<close>

fun without_future :: "('n, 'r) task \<Rightarrow> ('n, 'r) task" where
  "without_future (DailyTask k c a) = DailyTask None c a"
| "without_future t = t"

definition own_tasks :: "('n, 'r) task list \<Rightarrow> ('n, 'r) task list" where
  "own_tasks tasks = map without_future (filter (\<lambda>t. \<not> is_refetch t) tasks)"

definition code_tasks :: "('n, 'r) daily_run \<Rightarrow> string \<Rightarrow> ('n, 'r) task list" where
  "code_tasks r c =
     (if should_fetch_factor r c then [FactorTask c (dr_fetch_factor r c)] else []) @
     (if dr_targets r = [] then [] else [DailyTask None c (daily_answer r c)])"

text \<open>A daily task waits for an earlier future, the factor task of its code.\<close>

definition future_ok :: "('n, 'r) task list \<Rightarrow> ('n, 'r) task \<Rightarrow> bool" where
  "future_ok earlier t \<longleftrightarrow> (\<forall>k c a. t = DailyTask (Some k) c a \<longrightarrow> k < length earlier \<and> (\<exists>b. earlier ! k = FactorTask c b))"

definition futures_ok :: "('n, 'r) task list \<Rightarrow> bool" where
  "futures_ok tasks \<longleftrightarrow> (\<forall>j < length tasks. future_ok (take j tasks) (tasks ! j))"

lemma futures_ok_append: "futures_ok (tasks @ [t]) \<longleftrightarrow> futures_ok tasks \<and> future_ok tasks t"
  by (auto simp: futures_ok_def nth_append less_Suc_eq)

lemma futures_ok_refetch: "futures_ok tasks \<Longrightarrow> list_all is_refetch ts \<Longrightarrow> futures_ok (tasks @ ts)"
proof (induction ts arbitrary: tasks)
  case (Cons t ts)
  then have "is_refetch t" by simp
  then have "futures_ok (tasks @ [t])" using Cons.prems(1) by (cases t) (simp_all add: futures_ok_append future_ok_def)
  from Cons.IH [OF this] Cons.prems(2) show ?case by simp
qed simp

text \<open>From one booked state to a later one, with these tasks of the run's own submitted between.\<close>

definition submits ::
  "('n::{one,times}, 'r, 'db) worker \<Rightarrow> ('n, 'r) daily_run \<Rightarrow> ('n, 'r, 'db) schedule \<Rightarrow> raw_run list \<Rightarrow>
   ('n, 'r) task dispatcher \<Rightarrow> ('n, 'r) task list \<Rightarrow> ('n, 'r) task dispatcher \<Rightarrow> bool" where
  "submits w r sc base s ts s' \<longleftrightarrow>
     task_pool.booked (worker_pool w r sc) base s' \<and> task_pool.flushed s' \<and>
     own_tasks (dd_tasks s') = own_tasks (dd_tasks s) @ ts \<and>
     (\<exists>us. dd_tasks s' = dd_tasks s @ us) \<and> (futures_ok (dd_tasks s) \<longrightarrow> futures_ok (dd_tasks s'))"

lemma submits_trans: "submits w r sc base s ts s1 \<Longrightarrow> submits w r sc base s1 us s2 \<Longrightarrow> submits w r sc base s (ts @ us) s2"
  by (auto simp: submits_def)

lemma submits_advanced: "task_pool.advanced (worker_pool w r sc) is_refetch base s k s' \<Longrightarrow> submits w r sc base s [] s'"
  unfolding daily_pool.advanced_def daily_pool.extends_def submits_def
  by (auto simp: own_tasks_def futures_ok_refetch) (auto simp: list_all_iff)

lemma submits_push:
  assumes "task_pool.advanced (worker_pool w r sc) is_refetch base s k s1" and "length (dd_pending s1) < max_pending (worker_pool w r sc)"
    and "\<not> is_refetch t" and "future_ok (dd_tasks s1) t"
  shows "submits w r sc base s [without_future t] (push_task t s1)"
proof -
  note s1 = submits_advanced [OF assms(1)]
  have "task_pool.booked (worker_pool w r sc) base s1" "task_pool.flushed s1" using assms(1) by (simp_all add: daily_pool.advanced_def)
  then have "task_pool.booked (worker_pool w r sc) base (push_task t s1)" "task_pool.flushed (push_task t s1)"
    using assms(2) by (simp_all add: daily_pool.booked_push daily_pool.flushed_push)
  then show ?thesis using s1 assms(3,4) by (auto simp: submits_def push_task_def own_tasks_def futures_ok_append)
qed

lemma update_codes_ok:
  assumes "task_pool.booked (worker_pool w r sc) base s" and "task_pool.flushed s"
    and "2 * max_pending (worker_pool w r sc) + 2 \<le> n"
    and "\<forall>c \<in> set codes. needs_factors (dr_targets r) \<and> \<not> should_fetch_factor r c \<longrightarrow> dr_use_existing r c = None"
  shows "\<exists>s'. update_codes n (worker_pool w r sc) r codes s = (Inr (), s') \<and>
    submits w r sc base s (concat (map (code_tasks r) codes)) s'"
  using assms
proof (induction codes arbitrary: s)
  case Nil
  then show ?case by (simp add: submits_def)
next
  case (Cons c cs)
  let ?e = "worker_pool w r sc"
  have u: "use_existing r c s = (Inr (), s)" using Cons.prems(4) by (simp add: use_existing_def lift_res_def)
  have "\<exists>k s1. submit_factor n ?e r c s = (Inr k, s1) \<and>
      submits w r sc base s (if should_fetch_factor r c then [FactorTask c (dr_fetch_factor r c)] else []) s1 \<and>
      (\<forall>i. k = Some i \<longrightarrow> i < length (dd_tasks s1) \<and> (\<exists>b. dd_tasks s1 ! i = FactorTask c b))"
  proof (cases "should_fetch_factor r c")
    case True
    from daily_pool.submit_answer_ok [OF Cons.prems(1-3), of "FactorTask c" "dr_fetch_factor r c"] obtain s1 where
      s1: "submit_answer n ?e (FactorTask c) (dr_fetch_factor r c) s = (Inr (length (dd_tasks s1)), push_task (FactorTask c (dr_fetch_factor r c)) s1)"
      "task_pool.advanced ?e is_refetch base s 0 s1" "length (dd_pending s1) < max_pending ?e" by blast
    from submits_push [OF s1(2,3), of "FactorTask c (dr_fetch_factor r c)"] s1(1) True show ?thesis
      by (simp add: submit_factor_def seq_comp_def lift_res_def future_ok_def push_task_def)
  qed (use Cons.prems in \<open>simp add: submit_factor_def lift_res_def submits_def\<close>)
  then obtain k s1 where s1: "submit_factor n ?e r c s = (Inr k, s1)"
      "submits w r sc base s (if should_fetch_factor r c then [FactorTask c (dr_fetch_factor r c)] else []) s1"
      "\<forall>i. k = Some i \<longrightarrow> i < length (dd_tasks s1) \<and> (\<exists>b. dd_tasks s1 ! i = FactorTask c b)" by blast
  then have b1: "task_pool.booked ?e base s1" "task_pool.flushed s1" by (simp_all add: submits_def)
  have "\<exists>s2. submit_daily n ?e r c k s1 = (Inr (), s2) \<and>
      submits w r sc base s1 (if dr_targets r = [] then [] else [DailyTask None c (daily_answer r c)]) s2"
  proof (cases "dr_targets r = []")
    case False
    from daily_pool.submit_answer_ok [OF b1 Cons.prems(3), of "DailyTask k c" "daily_answer r c"] obtain s2 where
      s2: "submit_answer n ?e (DailyTask k c) (daily_answer r c) s1 = (Inr (length (dd_tasks s2)), push_task (DailyTask k c (daily_answer r c)) s2)"
      "task_pool.advanced ?e is_refetch base s1 0 s2" "length (dd_pending s2) < max_pending ?e" by blast
    from submits_advanced [OF s2(2)] obtain us where "dd_tasks s2 = dd_tasks s1 @ us" by (auto simp: submits_def)
    then have "future_ok (dd_tasks s2) (DailyTask k c (daily_answer r c))" using s1(3) by (auto simp: future_ok_def nth_append)
    from submits_push [OF s2(2,3) _ this] s2(1) False show ?thesis
      by (simp add: submit_daily_def seq_comp_def lift_res_def)
  qed (use b1 in \<open>simp add: submit_daily_def lift_res_def submits_def\<close>)
  then obtain s2 where s2: "submit_daily n ?e r c k s1 = (Inr (), s2)"
      "submits w r sc base s1 (if dr_targets r = [] then [] else [DailyTask None c (daily_answer r c)]) s2" by blast
  then have b2: "task_pool.booked ?e base s2" "task_pool.flushed s2" by (simp_all add: submits_def)
  obtain m where "n = Suc m" using Cons.prems(3) by (cases n) auto
  with daily_pool.drain_ok [OF b2, of m False] obtain s3 where
    s3: "drain_completed n ?e False s2 = (Inr (), s3)" "task_pool.advanced ?e is_refetch base s2 0 s3" by auto
  from submits_trans [OF submits_trans [OF s1(2) s2(2)] submits_advanced [OF s3(2)]]
  have s13: "submits w r sc base s (code_tasks r c) s3" by (simp add: code_tasks_def)
  then have b3: "task_pool.booked ?e base s3" "task_pool.flushed s3" by (simp_all add: submits_def)
  from Cons.IH [OF b3 Cons.prems(3)] Cons.prems(4) obtain s4 where
    s4: "update_codes n ?e r cs s3 = (Inr (), s4)" "submits w r sc base s3 (concat (map (code_tasks r) cs)) s4" by auto
  have "update_codes n ?e r (c # cs) s = (Inr (), s4)"
    using u s1(1) s2(1) s3(1) s4(1) by (simp add: seq_comp_def)
  then show ?case using submits_trans [OF s13 s4(2)] by auto
qed

lemma futures_ok_Nil [simp]: "futures_ok []"
  by (simp add: futures_ok_def)

definition records_of :: "'t pool \<Rightarrow> nat \<Rightarrow> 't \<Rightarrow> raw_run list" where
  "records_of e f t = (case pl_result e f t of Inl _ \<Rightarrow> [] | Inr x \<Rightarrow> tk_records x)"

lemma records_of_result: "tk_records (task_pool.result (worker_pool w r sc) f t) = records_of (worker_pool w r sc) f t"
  by (simp add: daily_pool.result_def records_of_def split: sum.split)

lemma background_completes:
  fixes w :: "('n::{one,times}, 'r, 'db) worker"
  assumes "2 * max_pending (worker_pool w r sc) + 2 \<le> n"
    and "\<forall>c \<in> set codes. needs_factors (dr_targets r) \<and> \<not> should_fetch_factor r c \<longrightarrow> dr_use_existing r c = None"
  shows "\<exists>s. run_background n (worker_pool w r sc) r codes (start_dispatcher base) = (Inr (), s) \<and> dd_pending s = [] \<and>
    submits w r sc base (start_dispatcher base) (concat (map (code_tasks r) codes) @ [FlushTask]) s"
proof -
  let ?e = "worker_pool w r sc" and ?s0 = "start_dispatcher base"
  from assms(1) obtain m where n: "n = Suc m" by (cases n) auto
  have fuel: "task_pool.potential is_refetch s \<le> n" if "task_pool.booked ?e base s" for s
    using daily_pool.potential_bound [OF that] assms(1) by linarith
  from update_codes_ok [OF daily_pool.start_ok assms] obtain s1 where
    s1: "update_codes n ?e r codes ?s0 = (Inr (), s1)" "submits w r sc base ?s0 (concat (map (code_tasks r) codes)) s1" by blast
  then have b1: "task_pool.booked ?e base s1" "task_pool.flushed s1" by (simp_all add: submits_def)
  from daily_pool.drain_all_ok [OF b1 fuel [OF b1(1)], of m] obtain s2 where
    s2: "drain_all n n ?e s1 = (Inr (), s2)" "task_pool.advanced ?e is_refetch base s1 0 s2" "dd_pending s2 = []" by (auto simp: n)
  have b2: "task_pool.booked ?e base s2" "task_pool.flushed s2" using s2(2) by (simp_all add: daily_pool.advanced_def)
  have room: "length (dd_pending s2) < max_pending ?e" using s2(3) daily_pool.max_pending_pos by simp
  have s3: "submit_background n ?e FlushTask s2 = (Inr (length (dd_tasks s2)), push_task FlushTask s2)"
    using daily_pool.submit_room [OF room] by (simp add: n)
  have a2: "task_pool.advanced ?e is_refetch base s2 0 s2" using b2 by (simp add: daily_pool.advanced_def)
  have p3: "submits w r sc base s2 [FlushTask] (push_task FlushTask s2)"
    using submits_push [OF a2 room, of FlushTask] by (simp add: future_ok_def)
  then have b3: "task_pool.booked ?e base (push_task FlushTask s2)" "task_pool.flushed (push_task FlushTask s2)"
    by (simp_all add: submits_def)
  from daily_pool.drain_all_ok [OF b3 fuel [OF b3(1)], of m] obtain s4 where
    s4: "drain_all n n ?e (push_task FlushTask s2) = (Inr (), s4)"
      "task_pool.advanced ?e is_refetch base (push_task FlushTask s2) 0 s4" "dd_pending s4 = []" by (auto simp: n)
  from submits_trans [OF submits_trans [OF submits_trans [OF s1(2) submits_advanced [OF s2(2)]] p3] submits_advanced [OF s4(2)]]
  have all: "submits w r sc base ?s0 (concat (map (code_tasks r) codes) @ [FlushTask]) s4" by simp
  have "run_background n ?e r codes ?s0 = (Inr (), s4)"
    using s1(1) s2(1) s3 s4(1) by (simp add: run_background_def seq_comp_def)
  then show ?thesis using s4(3) all by blast
qed

text \<open>
  C7: The background part of an update runs to its end and loses nothing. Whatever the tasks find,
  whatever fetch fails and in whatever order the futures finish, no exception leaves the dispatcher: no
  future is taken twice and no future is left pending. The tasks of the run's own are the factor and
  daily tasks of the codes, in order, and the final flush; every other task is a refetch. The run
  records are those of all futures, each once, in the order of submission.
\<close>

theorem background_run_completes_in_order:
  fixes w :: "('n::{one,times}, 'r, 'db) worker"
  assumes "2 * max_pending (worker_pool w r sc) + 2 \<le> n"
    and "\<forall>c \<in> set codes. needs_factors (dr_targets r) \<and> \<not> should_fetch_factor r c \<longrightarrow> dr_use_existing r c = None"
  shows "\<exists>s. run_background n (worker_pool w r sc) r codes (start_dispatcher base) = (Inr (), s) \<and> dd_pending s = [] \<and>
    own_tasks (dd_tasks s) = concat (map (code_tasks r) codes) @ [FlushTask] \<and> futures_ok (dd_tasks s) \<and>
    dd_run_records s =
      base @ concat (map (\<lambda>f. records_of (worker_pool w r sc) f (dd_tasks s ! f)) [0..<length (dd_tasks s)])"
proof -
  from background_completes [OF assms, of base] obtain s where
    s: "run_background n (worker_pool w r sc) r codes (start_dispatcher base) = (Inr (), s)" "dd_pending s = []"
    and all: "submits w r sc base (start_dispatcher base) (concat (map (code_tasks r) codes) @ [FlushTask]) s" by blast
  from all have "task_pool.booked (worker_pool w r sc) base s" "task_pool.flushed s" by (simp_all add: submits_def)
  from daily_pool.all_recorded [OF this s(2)] all s show ?thesis
    by (simp add: submits_def start_dispatcher_def own_tasks_def daily_pool.in_order_def records_of_result)
qed

section \<open>The worker threads\<close>

text \<open>
  The executor starts queued tasks first in, first out, at most \<open>max_workers\<close> at a time. A daily task
  occupies its thread while it waits for the factor future of its code.
\<close>

definition waits_for :: "('n, 'r) task list \<Rightarrow> nat \<Rightarrow> nat option" where
  "waits_for tasks f = (if f < length tasks then case tasks ! f of DailyTask k c a \<Rightarrow> k | _ \<Rightarrow> None else None)"

record executor =
  ex_submitted :: nat
  ex_queue :: "nat list"
  ex_running :: "nat list"
  ex_done :: "nat list"

definition no_work :: executor where
  "no_work = \<lparr>ex_submitted = 0, ex_queue = [], ex_running = [], ex_done = []\<rparr>"

text \<open>A step of a worker thread: it takes the first task of the queue, or the task it runs returns.\<close>

inductive worker_step :: "nat \<Rightarrow> (nat \<Rightarrow> nat option) \<Rightarrow> executor \<Rightarrow> executor \<Rightarrow> bool" for workers waits where
  take_task: "ex_queue s = f # q \<Longrightarrow> length (ex_running s) < workers \<Longrightarrow>
    worker_step workers waits s (s\<lparr>ex_queue := q, ex_running := ex_running s @ [f]\<rparr>)"
| return_task: "f \<in> set (ex_running s) \<Longrightarrow> (\<And>k. waits f = Some k \<Longrightarrow> k \<in> set (ex_done s)) \<Longrightarrow>
    worker_step workers waits s (s\<lparr>ex_running := remove1 f (ex_running s), ex_done := f # ex_done s\<rparr>)"

inductive executor_reachable :: "nat \<Rightarrow> (nat \<Rightarrow> nat option) \<Rightarrow> executor \<Rightarrow> bool" for workers waits where
  start: "executor_reachable workers waits no_work"
| submit: "executor_reachable workers waits s \<Longrightarrow>
    executor_reachable workers waits (s\<lparr>ex_submitted := Suc (ex_submitted s), ex_queue := ex_queue s @ [ex_submitted s]\<rparr>)"
| work: "executor_reachable workers waits s \<Longrightarrow> worker_step workers waits s t \<Longrightarrow> executor_reachable workers waits t"

inductive_cases worker_stepE: "worker_step workers waits s t"

text \<open>The queue holds the latest submissions, in order; everything before it was started.\<close>

lemma executor_inv:
  assumes "executor_reachable workers waits s"
  shows "\<exists>n \<le> ex_submitted s. ex_queue s = [n..<ex_submitted s] \<and> set (ex_running s) \<union> set (ex_done s) = {..<n} \<and> distinct (ex_running s)"
  using assms
proof induction
  case (work s t)
  from work.IH obtain n where n: "n \<le> ex_submitted s" "ex_queue s = [n..<ex_submitted s]"
    "set (ex_running s) \<union> set (ex_done s) = {..<n}" "distinct (ex_running s)" by blast
  from work.hyps(2) show ?case
  proof (cases rule: worker_step.cases)
    case (take_task f q)
    with n(2) have "[n..<ex_submitted s] = f # q" by simp
    then have fq: "n < ex_submitted s" "f = n" "q = [Suc n..<ex_submitted s]" by (auto simp: upt_eq_Cons_conv)
    have "set (ex_running t) \<union> set (ex_done t) = insert n (set (ex_running s) \<union> set (ex_done s))" using take_task fq by simp
    also have "\<dots> = {..<Suc n}" unfolding n(3) by auto
    finally show ?thesis using take_task(1) fq n by (intro exI [of _ "Suc n"]) (auto simp: Suc_le_eq)
  next
    case (return_task f)
    then have "set (ex_running t) \<union> set (ex_done t) = {..<n}" using n(3,4) by (auto simp: set_remove1_eq)
    with return_task(1) n show ?thesis by (intro exI [of _ n]) (simp add: distinct_remove1)
  qed
next
  case (submit s)
  then show ?case by auto
qed (simp add: no_work_def)

definition work_left :: "executor \<Rightarrow> nat" where
  "work_left s = 2 * length (ex_queue s) + length (ex_running s)"

lemma worker_step_decreases:
  assumes "worker_step workers waits s t"
  shows "work_left t < work_left s"
  using assms
proof (cases rule: worker_step.cases)
  case (return_task f)
  then have "length (ex_running t) = length (ex_running s) - 1" by (simp add: length_remove1)
  with return_task length_pos_if_in_set [OF return_task(2)] have "length (ex_running t) < length (ex_running s)" by linarith
  moreover have "ex_queue t = ex_queue s" using return_task by simp
  ultimately show ?thesis by (simp add: work_left_def)
qed (simp add: work_left_def)

lemma waits_for_earlier: "futures_ok tasks \<Longrightarrow> waits_for tasks f = Some k \<Longrightarrow> k < f"
  by (auto simp: waits_for_def futures_ok_def future_ok_def split: if_splits task.splits)

lemma executor_progress:
  assumes "executor_reachable workers waits s" and "0 < workers" and "\<And>f k. waits f = Some k \<Longrightarrow> k < f"
    and "ex_queue s \<noteq> [] \<or> ex_running s \<noteq> []"
  shows "\<exists>t. worker_step workers waits s t"
proof (cases "ex_running s = []")
  case True
  with assms(4) obtain f q where "ex_queue s = f # q" by (cases "ex_queue s") auto
  from worker_step.take_task [OF this] True assms(2) show ?thesis by auto
next
  case False
  from executor_inv [OF assms(1)] obtain n where n: "set (ex_running s) \<union> set (ex_done s) = {..<n}" by blast
  let ?f = "Min (set (ex_running s))"
  have f: "?f \<in> set (ex_running s)" using False by (intro Min_in) auto
  have "k \<in> set (ex_done s)" if "waits ?f = Some k" for k
  proof -
    have "k < ?f" using that by (rule assms(3))
    then have "k \<notin> set (ex_running s)" by (metis List.finite_set Min_le leD)
    moreover have "?f \<in> {..<n}" using f n by blast
    then have "k \<in> set (ex_running s) \<union> set (ex_done s)" unfolding n using \<open>k < ?f\<close> by simp
    ultimately show ?thesis by simp
  qed
  from worker_step.return_task [OF f this] show ?thesis by blast
qed



section \<open>Instances\<close>

definition demo_daily_run :: "(int, unit) daily_run" where
  "demo_daily_run = \<lparr>dr_full = False, dr_start = Date 1 1 5, dr_end = Date 1 1 9, dr_targets = [UNADJUSTED_DAILY_DATASET],
     dr_include_factor = True, dr_factor_current = (\<lambda>_. False), dr_use_existing = (\<lambda>_. None), dr_fetch_factor = (\<lambda>_. Inr []),
     dr_fetch_bars = (\<lambda>_ _ _. Inr (schema_table [])), dr_now = 0\<rparr>"

definition demo_schedule :: "(int, unit, unit) schedule" where
  "demo_schedule = \<lparr>sc_state = (\<lambda>_. demo_worker_state), sc_seen = (\<lambda>_ _ _. False), sc_first = (\<lambda>_ _. 0), sc_max_pending = 2\<rparr>"

theorem background_run_completes_in_order_witness:
  "\<exists>s. run_background 8 (worker_pool demo_worker demo_daily_run demo_schedule) demo_daily_run [''a'', ''b''] (start_dispatcher []) = (Inr (), s) \<and>
     dd_pending s = [] \<and>
     own_tasks (dd_tasks s) =
       [FactorTask ''a'' (Inr []), DailyTask None ''a'' (Inr (schema_table [])),
        FactorTask ''b'' (Inr []), DailyTask None ''b'' (Inr (schema_table [])), FlushTask]"
  using background_run_completes_in_order [of demo_worker demo_daily_run demo_schedule 8 "[''a'', ''b'']" "[]"]
  by (auto simp: max_pending_def worker_pool_def demo_schedule_def code_tasks_def should_fetch_factor_def demo_daily_run_def daily_answer_def)


end
