(* ===== verification/Daily_Update.thy ===== *)
theory Daily_Update imports Daily_Dispatch begin

text \<open>
  The daily update as a whole (\<open>src/sources/baostock/update_daily.py\<close>): \<open>_update_daily_impl\<close> from the
  dataset selection to the run records, and what follows it (\<open>_can_drain_capital_structure_pending\<close>,
  the counts of \<open>_finish_update_daily\<close>).

  The settings and dates come parsed. Not modelled: logging, the layout of the store, the refresh of the
  registry and of the views, and the drain of the pending queue itself.
\<close>

section \<open>Arguments and surroundings\<close>

record update_args =
  ua_dataset :: string
  ua_mode :: string
  ua_start :: date
  ua_end :: date
  ua_lookback :: int
  ua_code :: code_arg
  ua_resume :: bool
  ua_force :: bool

text \<open>\<open>ue_worker\<close> are the parts of the worker's surroundings that no argument decides.\<close>

record ('n, 'r, 'db) update_env =
  ue_targets :: target_env
  ue_worker :: "('n, 'r, 'db) worker"
  ue_schedule :: "('n, 'r, 'db) schedule"
  ue_use_existing :: "string \<Rightarrow> string option"
  ue_fetch_factor :: "string \<Rightarrow> string + 'n factor_row list"
  ue_fetch_bars :: "string \<Rightarrow> string \<Rightarrow> string \<Rightarrow> string + ('n, 'r) table"
  ue_now :: int

datatype update_error =
    UnsupportedMode string
  | TargetError target_error
  | WindowError calendar_error
  | ProviderOrStoreError string
  | BackgroundError dispatch_error

type_synonym 'a update_comp = "target_state \<Rightarrow> (update_error + 'a) \<times> target_state"

definition raise_as :: "('e \<Rightarrow> update_error) \<Rightarrow> 'e + 'a \<Rightarrow> 'a update_comp" where
  "raise_as f r = lift_res (case r of Inl x \<Rightarrow> Inl (f x) | Inr y \<Rightarrow> Inr y)"

definition run_target :: "'a target_comp \<Rightarrow> 'a update_comp" where
  "run_target m s = (case m s of (Inl x, s') \<Rightarrow> (Inl (ProviderOrStoreError x), s') | (Inr y, s') \<Rightarrow> (Inr y, s'))"

section \<open>The steps\<close>

definition update_lookup :: "target_env \<Rightarrow> update_args \<Rightarrow> target_state \<Rightarrow> checkpoint_lookup option" where
  "update_lookup e a s =
     (if ua_resume a \<and> \<not> ua_force a then Some (checkpoint_index (te_sort e) (md_checkpoints (ts_db s))) else None)"

text \<open>The calendar, fetched if need be, and the window; then the calendar target.\<close>

definition update_window ::
  "target_env \<Rightarrow> update_args \<Rightarrow> bool \<Rightarrow> checkpoint_lookup option \<Rightarrow> (date \<times> date) update_comp" where
  "update_window e a include_calendar lookup s =
     (let full = ua_mode a = ''full''; cal = the_calendar s
      in seq_comp (if full then lift_res (Inr (ua_start a))
                   else raise_as WindowError (trading_calendar_fetch_start (ua_end a) (ua_lookback a))) (\<lambda>calendar_start.
         seq_comp (run_target
           (if full then prepare_full_calendar e cal (ua_start a) (ua_end a)
            else prepare_partial_calendar e cal (ua_end a) (ua_lookback a) calendar_start)) (\<lambda>(cal1, s1, e1, fetched).
           if include_calendar
           then seq_comp (run_target (write_calendar_target e full cal1 fetched (ua_start a) (ua_end a) calendar_start
                  (ua_lookback a) s1 e1 (ua_resume a) (ua_force a) lookup)) (\<lambda>(cal2, s2, e2). lift_res (Inr (s2, e2)))
           else lift_res (Inr (s1, e1)))) s)"

definition update_basic ::
  "target_env \<Rightarrow> update_args \<Rightarrow> date \<Rightarrow> date \<Rightarrow> checkpoint_lookup option \<Rightarrow> unit update_comp" where
  "update_basic e a start_date end_date lookup =
     run_target (write_stock_basic_target e start_date end_date (ua_resume a) (ua_force a) lookup)"

definition selected_codes :: "update_args \<Rightarrow> target_state \<Rightarrow> target_error + string list" where
  "selected_codes a s =
     resolve_codes (case ts_basic s of None \<Rightarrow> [] | Some b \<Rightarrow> b) (ua_code a)
       (if ua_mode a = ''full'' then ''all'' else ''active'') (Some ''1'')"

definition update_run ::
  "('n, 'r, 'db) update_env \<Rightarrow> update_args \<Rightarrow> string list \<Rightarrow> bool \<Rightarrow> date \<Rightarrow> date \<Rightarrow> checkpoint_lookup option \<Rightarrow> ('n, 'r) daily_run" where
  "update_run e a targets include_factor start_date end_date lookup =
     \<lparr>dr_full = (ua_mode a = ''full''), dr_start = start_date, dr_end = end_date, dr_targets = targets, dr_include_factor = include_factor,
      dr_factor_current = (\<lambda>c. case lookup of None \<Rightarrow> False
          | Some lk \<Rightarrow> checkpoint_lookup_succeeded (te_exists (ue_targets e)) lk BAOSTOCK_FACTOR_DATASET c full_history_start (isoformat end_date)),
      dr_use_existing = ue_use_existing e, dr_fetch_factor = ue_fetch_factor e, dr_fetch_bars = ue_fetch_bars e, dr_now = ue_now e\<rparr>"

definition update_worker ::
  "('n, 'r, 'db) update_env \<Rightarrow> update_args \<Rightarrow> string list \<Rightarrow> date \<Rightarrow> date \<Rightarrow> ('n, 'r, 'db) worker" where
  "update_worker e a targets start_date end_date =
     (ue_worker e)\<lparr>wk_full := (ua_mode a = ''full''), wk_start := start_date, wk_end := end_date, wk_retain := needs_factors targets\<rparr>"

text \<open>Fuel for one wait more than the pending futures can weigh.\<close>

definition background_fuel :: "'t pool \<Rightarrow> nat" where
  "background_fuel e = 2 * max_pending e + 2"

definition update_background ::
  "('n::{one,times}, 'r, 'db) update_env \<Rightarrow> update_args \<Rightarrow> string list \<Rightarrow> bool \<Rightarrow> date \<Rightarrow> date \<Rightarrow> checkpoint_lookup option \<Rightarrow>
   string list \<Rightarrow> raw_run list \<Rightarrow> update_error + raw_run list" where
  "update_background e a targets include_factor start_date end_date lookup codes records =
     (let r = update_run e a targets include_factor start_date end_date lookup;
          pool = worker_pool (update_worker e a targets start_date end_date) r (ue_schedule e)
      in case run_background (background_fuel pool) pool r codes (start_dispatcher records) of
           (Inl x, _) \<Rightarrow> Inl (BackgroundError x) | (Inr _, d) \<Rightarrow> Inr (dd_run_records d))"

definition update_codes_of ::
  "('n::{one,times}, 'r, 'db) update_env \<Rightarrow> update_args \<Rightarrow> string list \<Rightarrow> bool \<Rightarrow> date \<Rightarrow> date \<Rightarrow> checkpoint_lookup option \<Rightarrow>
   raw_run list update_comp" where
  "update_codes_of e a targets include_factor start_date end_date lookup s =
     (let needs_code_pool = (targets \<noteq> [] \<or> include_factor);
          needs_factor = (include_factor \<or> needs_factors targets);
          full = ua_mode a = ''full''
      in seq_comp (if needs_code_pool then raise_as TargetError (selected_codes a s) else lift_res (Inr [])) (\<lambda>requested s.
           let codes = prefilter_checkpointed_codes (te_exists (ue_targets e)) requested targets needs_factor full start_date end_date lookup;
               s1 = (if requested \<noteq> [] \<and> codes = [] \<and> lookup \<noteq> None
                     then s\<lparr>ts_records := ts_records s @
                            concat (map (code_skip_records (ue_targets e) targets include_factor full start_date end_date) requested)\<rparr>
                     else s)
           in raise_as id (update_background e a targets include_factor start_date end_date lookup codes (ts_records s1)) s1) s)"

text \<open>The part inside the provider's session. Without a stock list the code pool needs one.\<close>

definition update_with_provider ::
  "('n::{one,times}, 'r, 'db) update_env \<Rightarrow> update_args \<Rightarrow> bool \<Rightarrow> bool \<Rightarrow> bool \<Rightarrow> string list \<Rightarrow> checkpoint_lookup option \<Rightarrow>
   raw_run list update_comp" where
  "update_with_provider e a include_calendar include_basic include_factor targets lookup =
     (let te = ue_targets e
      in seq_comp (update_window te a include_calendar lookup) (\<lambda>(start_date, end_date).
         seq_comp (if include_basic then update_basic te a start_date end_date lookup else lift_res (Inr ())) (\<lambda>_.
         seq_comp (\<lambda>s. if (targets \<noteq> [] \<or> include_factor) \<and> no_code (ua_code a) \<and> ts_basic s = None
                    then update_basic te a start_date end_date lookup s else lift_res (Inr ()) s) (\<lambda>_.
           update_codes_of e a targets include_factor start_date end_date lookup))))"

definition update_daily_impl :: "('n::{one,times}, 'r, 'db) update_env \<Rightarrow> update_args \<Rightarrow> raw_run list update_comp" where
  "update_daily_impl e a s0 =
     (let s = s0\<lparr>ts_records := []\<rparr>; full = ua_mode a = ''full''; te = ue_targets e
      in if ua_mode a \<notin> {''partial'', ''full''} then (Inl (UnsupportedMode (ua_mode a)), s)
         else
           seq_comp (raise_as TargetError (dataset_targets (ua_dataset a))) (\<lambda>(include_calendar, include_basic, include_factor, targets).
           seq_comp (if full then lift_res (Inr (ua_start a))
                     else raise_as WindowError (trading_calendar_fetch_start (ua_end a) (ua_lookback a))) (\<lambda>calendar_start s.
             let lookup = update_lookup te a s;
                 window = resolve_local_window full (the_calendar s) (ua_start a) (ua_end a) (ua_lookback a) calendar_start
             in seq_comp
                  (case window of
                     None \<Rightarrow> lift_res (Inr None)
                   | Some (ws, we) \<Rightarrow> raise_as TargetError (preflight_skip_records te s (ua_code a) full ws we include_calendar include_basic
                       include_factor targets (ua_resume a) (ua_force a) lookup))
                  (\<lambda>skipped.
                    case skipped of
                      Some records \<Rightarrow> lift_res (Inr records)
                    | None \<Rightarrow>
                        update_with_provider e a include_calendar include_basic include_factor targets lookup) s)) s)"

section \<open>After the run\<close>

definition is_failed_status :: "string \<Rightarrow> bool" where
  "is_failed_status status \<longleftrightarrow> status = ''failed'' \<or> starts_with ''failed_'' status"

definition can_drain_capital_structure_pending :: "raw_run list \<Rightarrow> bool" where
  "can_drain_capital_structure_pending records \<longleftrightarrow> \<not> list_ex (\<lambda>r. is_failed_status (run_status r)) records"

text \<open>The success, failed and skipped counts of the log line; the first decides about temporary files.\<close>

definition run_counts :: "raw_run list \<Rightarrow> nat \<times> nat \<times> nat" where
  "run_counts records =
     (length (filter (\<lambda>r. run_status r = ''success'') records), length (filter (\<lambda>r. run_status r = ''failed'') records),
      length (filter (\<lambda>r. starts_with ''skipped'' (run_status r)) records))"

text \<open>\<open>drained\<close> is what \<open>drain_capital_structure_pending\<close> returns or raises.\<close>

definition update_daily ::
  "('n::{one,times}, 'r, 'db) update_env \<Rightarrow> update_args \<Rightarrow> string + raw_run list \<Rightarrow> raw_run list update_comp" where
  "update_daily e a drained =
     seq_comp (update_daily_impl e a) (\<lambda>records.
       if ua_dataset a = BAOSTOCK_FACTOR_DATASET \<and> can_drain_capital_structure_pending records
       then seq_comp (raise_as ProviderOrStoreError drained) (\<lambda>more. lift_res (Inr (records @ more)))
       else lift_res (Inr records))"

section \<open>Properties\<close>

lemma seq_comp_assoc: "seq_comp (seq_comp m f) g = seq_comp m (\<lambda>x. seq_comp (f x) g)"
  by (rule ext) (simp add: seq_comp_def split: prod.split sum.split)

lemma update_codes_append:
  "update_codes n e r (xs @ ys) s = seq_comp (update_codes n e r xs) (\<lambda>_. update_codes n e r ys) s"
proof (induction xs arbitrary: s)
  case (Cons c xs)
  have "update_codes n e r (xs @ ys) = seq_comp (update_codes n e r xs) (\<lambda>_. update_codes n e r ys)" by (rule ext) (rule Cons.IH)
  moreover have "update_codes n e r (c # xs) = seq_comp (use_existing r c) (\<lambda>_. seq_comp (submit_factor n e r c) (\<lambda>k.
     seq_comp (submit_daily n e r c k) (\<lambda>_. seq_comp (drain_completed n e False) (\<lambda>_. update_codes n e r xs))))" by (rule ext) simp
  ultimately show ?case by (simp add: seq_comp_assoc)
qed (simp add: seq_comp_def)

definition unreadable_factor :: "('n, 'r) daily_run \<Rightarrow> string \<Rightarrow> bool" where
  "unreadable_factor r c \<longleftrightarrow> needs_factors (dr_targets r) \<and> \<not> should_fetch_factor r c \<and> dr_use_existing r c \<noteq> None"

lemma update_codes_stops:
  assumes "2 * max_pending (worker_pool w r sc) + 2 \<le> n" and "\<exists>c \<in> set codes. unreadable_factor r c"
  shows "\<exists>c \<in> set codes. \<exists>x s'. unreadable_factor r c \<and> dr_use_existing r c = Some x \<and>
    update_codes n (worker_pool w r sc) r codes (start_dispatcher base) = (Inl (Raised x), s')"
proof -
  from split_list_first_prop [OF assms(2)] obtain xs c ys where
    codes: "codes = xs @ c # ys" "unreadable_factor r c" "\<forall>y \<in> set xs. \<not> unreadable_factor r y" by blast
  then obtain x where x: "dr_use_existing r c = Some x" by (auto simp: unreadable_factor_def)
  from codes(3) have "\<forall>c \<in> set xs. needs_factors (dr_targets r) \<and> \<not> should_fetch_factor r c \<longrightarrow> dr_use_existing r c = None"
    by (auto simp: unreadable_factor_def)
  from update_codes_ok [OF daily_pool.start_ok assms(1) this] obtain s1 where
    "update_codes n (worker_pool w r sc) r xs (start_dispatcher base) = (Inr (), s1)" by blast
  then have "update_codes n (worker_pool w r sc) r codes (start_dispatcher base) = (Inl (Raised x), s1)"
    using codes(2) x by (simp add: codes(1) update_codes_append seq_comp_def use_existing_def unreadable_factor_def lift_res_def)
  with codes x show ?thesis by auto
qed

text \<open>
  C13: One exception ends the background part, and nothing else does. A failed fetch or task is a failed
  record of its code, but the stored factors of a code whose factor checkpoint is current are read
  outside of any handler: the background part raises exactly when such a partition of a selected code
  cannot be read, and the exception is that read's. It never runs out of the fuel of its loops.
\<close>

theorem background_raises_iff_unreadable_factor:
  fixes e :: "('n::{one,times}, 'r, 'db) update_env"
  shows "((\<exists>err. update_background e a targets include_factor start_date end_date lookup codes records = Inl err) \<longleftrightarrow>
      (\<exists>c \<in> set codes. unreadable_factor (update_run e a targets include_factor start_date end_date lookup) c)) \<and>
    (\<forall>err. update_background e a targets include_factor start_date end_date lookup codes records = Inl err \<longrightarrow>
      (\<exists>c \<in> set codes. \<exists>x. ue_use_existing e c = Some x \<and> err = BackgroundError (Raised x)))"
proof -
  let ?r = "update_run e a targets include_factor start_date end_date lookup"
  let ?w = "update_worker e a targets start_date end_date"
  let ?pool = "worker_pool ?w ?r (ue_schedule e)"
  let ?n = "background_fuel ?pool"
  have fuel: "2 * max_pending ?pool + 2 \<le> ?n" by (simp add: background_fuel_def)
  have run: "update_background e a targets include_factor start_date end_date lookup codes records =
      (case run_background ?n ?pool ?r codes (start_dispatcher records) of (Inl x, _) \<Rightarrow> Inl (BackgroundError x) | (Inr _, d) \<Rightarrow> Inr (dd_run_records d))"
    by (simp add: update_background_def Let_def)
  have ok: "\<exists>recs. update_background e a targets include_factor start_date end_date lookup codes records = Inr recs"
    if none: "\<not> (\<exists>c \<in> set codes. unreadable_factor ?r c)"
  proof -
    from none have "\<forall>c \<in> set codes. needs_factors (dr_targets ?r) \<and> \<not> should_fetch_factor ?r c \<longrightarrow> dr_use_existing ?r c = None"
      by (auto simp: unreadable_factor_def)
    from background_completes [OF fuel this, of records] show ?thesis using run by auto
  qed
  have stop: "\<exists>c \<in> set codes. \<exists>x. ue_use_existing e c = Some x \<and>
      update_background e a targets include_factor start_date end_date lookup codes records = Inl (BackgroundError (Raised x))"
    if "\<exists>c \<in> set codes. unreadable_factor ?r c"
  proof -
    from update_codes_stops [OF fuel that, of records] obtain c x s' where
      c: "c \<in> set codes" "dr_use_existing ?r c = Some x" "update_codes ?n ?pool ?r codes (start_dispatcher records) = (Inl (Raised x), s')" by blast
    then have "run_background ?n ?pool ?r codes (start_dispatcher records) = (Inl (Raised x), s')"
      by (simp add: run_background_def seq_comp_def)
    with c run show ?thesis by (auto simp: update_run_def)
  qed
  show ?thesis
  proof (intro conjI allI impI)
    show "(\<exists>err. update_background e a targets include_factor start_date end_date lookup codes records = Inl err) \<longleftrightarrow>
        (\<exists>c \<in> set codes. unreadable_factor ?r c)" using ok stop by (metis sum.distinct(1))
    show "\<exists>c \<in> set codes. \<exists>x. ue_use_existing e c = Some x \<and> err = BackgroundError (Raised x)"
      if "update_background e a targets include_factor start_date end_date lookup codes records = Inl err" for err
      using ok stop that by (metis sum.distinct(1) sum.inject(1))
  qed
qed

section \<open>Calls of the provider on the dispatcher thread\<close>

definition asks :: "string list \<Rightarrow> target_state \<Rightarrow> target_state \<Rightarrow> bool" where
  "asks calls s s' \<longleftrightarrow> ts_calls s' = ts_calls s @ calls"

lemma asks_refl [simp]: "asks [] s s"
  by (simp add: asks_def)

lemma asks_trans: "asks xs s s1 \<Longrightarrow> asks ys s1 s2 \<Longrightarrow> asks (xs @ ys) s s2"
  by (simp add: asks_def)

lemma query_dates_wp: "(\<And>x s'. asks [CALENDAR_DATASET] s s' \<Longrightarrow> Q x s') \<Longrightarrow> (\<And>x s'. asks [CALENDAR_DATASET] s s' \<Longrightarrow> E x s') \<Longrightarrow>
    wp (query_dates e b) s Q E"
  by (auto simp: wp_def query_dates_def asks_def split: sum.split)

lemma write_calendar_wp: "(\<And>x s'. asks [] s s' \<Longrightarrow> Q x s') \<Longrightarrow> (\<And>x s'. asks [] s s' \<Longrightarrow> E x s') \<Longrightarrow> wp (write_calendar e f) s Q E"
  by (auto simp: wp_def write_calendar_def asks_def split: sum.split)

lemma raise_calendar_wp: "(\<And>x. Q x s) \<Longrightarrow> (\<And>x. E x s) \<Longrightarrow> wp (raise_calendar e r) s Q E"
  by (auto simp: raise_calendar_def split: sum.split)

lemma record_rows_wp: "(\<And>s'. asks [] s s' \<and> ts_basic s' = ts_basic s \<Longrightarrow> Q () s') \<Longrightarrow> (\<And>x s'. asks [] s s' \<Longrightarrow> E x s') \<Longrightarrow>
    wp (record_rows e rows) s Q E"
  by (auto simp: wp_def record_rows_def persist_lifecycle_rows_def asks_def split: prod.split option.split)

definition once :: "string \<Rightarrow> target_state \<Rightarrow> target_state \<Rightarrow> bool" where
  "once d s s' \<longleftrightarrow> asks [] s s' \<or> asks [d] s s'"

lemma once_simps: "asks [] s s' \<Longrightarrow> once d s s'" "asks [d] s s' \<Longrightarrow> once d s s'"
  by (simp_all add: once_def)

lemma prepare_partial_wp:
  "wp (prepare_partial_calendar e cal ce lb cs) s
     (\<lambda>(c, s1, e1, f) s'. if f = None then asks [] s s' else asks [CALENDAR_DATASET] s s') (\<lambda>_ s'. once CALENDAR_DATASET s s')"
  by (auto simp: prepare_partial_calendar_def once_def asks_def split: option.split prod.split
      intro!: query_dates_wp write_calendar_wp raise_calendar_wp)

lemma prepare_full_wp:
  "wp (prepare_full_calendar e cal sc ce) s
     (\<lambda>(c, s1, e1, f) s'. if f = None then asks [] s s' else asks [CALENDAR_DATASET] s s') (\<lambda>_ s'. once CALENDAR_DATASET s s')"
  by (auto simp: prepare_full_calendar_def once_def asks_def split: option.split prod.split
      intro!: query_dates_wp write_calendar_wp raise_calendar_wp)

lemma wp_if: "wp (\<lambda>s. if P s then A s else B s) s Q E = (if P s then wp A s Q E else wp B s Q E)"
  by (simp add: wp_def)

lemma write_calendar_target_wp:
  "wp (write_calendar_target e full cal f sc ce cs lb sd ed resume force lookup) s
     (\<lambda>_ s'. if f = None then once CALENDAR_DATASET s s' else asks [] s s')
     (\<lambda>_ s'. if f = None then once CALENDAR_DATASET s s' else asks [] s s')"
  unfolding write_calendar_target_def [abs_def] wp_if
  by (auto simp: once_def asks_def split: option.split prod.split
      intro!: query_dates_wp write_calendar_wp raise_calendar_wp record_rows_wp)

lemma write_basic_wp: "(\<And>s'. asks [] s s' \<Longrightarrow> ts_basic s' \<noteq> None \<Longrightarrow> Q () s') \<Longrightarrow> (\<And>x s'. asks [] s s' \<Longrightarrow> E x s') \<Longrightarrow>
    wp (write_basic e rows) s Q E"
  by (auto simp: wp_def write_basic_def asks_def split: sum.split)

lemma query_basic_wp: "(\<And>x s'. asks [BASIC_DATASET] s s' \<Longrightarrow> Q x s') \<Longrightarrow> (\<And>x s'. asks [BASIC_DATASET] s s' \<Longrightarrow> E x s') \<Longrightarrow>
    wp (query_basic e) s Q E"
  by (auto simp: wp_def query_basic_def asks_def split: sum.split)

lemma write_stock_basic_target_wp:
  "wp (write_stock_basic_target e sd ed resume force lookup) s
     (\<lambda>_ s'. once BASIC_DATASET s s' \<and> ts_basic s' \<noteq> None) (\<lambda>_ s'. once BASIC_DATASET s s')"
  unfolding write_stock_basic_target_def [abs_def] wp_if
  by (auto simp: once_def asks_def skips_target_def should_skip_checkpoint_def lookup_pipeline_succeeded_def lookup_date_succeeded_def
      pipeline_checkpoint_succeeded_def checkpoint_succeeded_for_date_def Let_def split: option.splits if_splits
      intro!: query_basic_wp write_basic_wp record_rows_wp)

lemma wp_run_target [simp]: "wp (run_target m) s Q E = wp m s Q (\<lambda>x s'. E (ProviderOrStoreError x) s')"
  by (auto simp: wp_def run_target_def split: prod.split sum.split)

lemma wp_raise_as: "wp (raise_as f r) s Q E = (case r of Inl x \<Rightarrow> E (f x) s | Inr x \<Rightarrow> Q x s)"
  by (simp add: raise_as_def split: sum.split)

lemma once_refl [simp]: "once d s s"
  by (simp add: once_def)

lemma once_trans: "asks [] s s1 \<Longrightarrow> once d s1 s2 \<Longrightarrow> once d s s2" "once d s s1 \<Longrightarrow> asks [] s1 s2 \<Longrightarrow> once d s s2"
  by (auto simp: once_def asks_def)

lemma update_window_wp:
  "wp (update_window e a include_calendar lookup) s (\<lambda>_ s'. once CALENDAR_DATASET s s') (\<lambda>_ s'. once CALENDAR_DATASET s s')"
proof -
  let ?full = "ua_mode a = ''full''" and ?Q = "\<lambda>_ s'. once CALENDAR_DATASET s s'"
  have prepared: "wp (if ?full then prepare_full_calendar e (the_calendar s) (ua_start a) (ua_end a)
      else prepare_partial_calendar e (the_calendar s) (ua_end a) (ua_lookback a) cs) s
     (\<lambda>(c, s1, e1, f) s'. if f = None then asks [] s s' else asks [CALENDAR_DATASET] s s') ?Q" for cs
    by (simp add: prepare_partial_wp prepare_full_wp)
  have rest: "wp (write_calendar_target e ?full cal f (ua_start a) (ua_end a) cs (ua_lookback a) s1 e1 (ua_resume a) (ua_force a) lookup) s2 ?Q ?Q"
    if "if f = None then asks [] s s2 else asks [CALENDAR_DATASET] s s2" for cal f cs s1 e1 s2
    by (rule wp_mono [OF write_calendar_target_wp]) (use that in \<open>auto simp: once_def asks_def split: if_splits\<close>)
  have "wp (seq_comp (run_target
           (if ?full then prepare_full_calendar e (the_calendar s) (ua_start a) (ua_end a)
            else prepare_partial_calendar e (the_calendar s) (ua_end a) (ua_lookback a) cs)) (\<lambda>(cal1, s1, e1, fetched).
           if include_calendar
           then seq_comp (run_target (write_calendar_target e ?full cal1 fetched (ua_start a) (ua_end a) cs
                  (ua_lookback a) s1 e1 (ua_resume a) (ua_force a) lookup)) (\<lambda>(cal2, s2, e2). lift_res (Inr (s2, e2)))
           else lift_res (Inr (s1, e1)))) s ?Q ?Q" for cs
    unfolding wp_seq wp_run_target
    by (rule wp_mono [OF prepared]) (auto split: if_splits intro!: wp_mono [OF rest] simp: once_simps)
  then have "wp (seq_comp (if ?full then lift_res (Inr (ua_start a))
                   else raise_as WindowError (trading_calendar_fetch_start (ua_end a) (ua_lookback a))) (\<lambda>cs.
         seq_comp (run_target
           (if ?full then prepare_full_calendar e (the_calendar s) (ua_start a) (ua_end a)
            else prepare_partial_calendar e (the_calendar s) (ua_end a) (ua_lookback a) cs)) (\<lambda>(cal1, s1, e1, fetched).
           if include_calendar
           then seq_comp (run_target (write_calendar_target e ?full cal1 fetched (ua_start a) (ua_end a) cs
                  (ua_lookback a) s1 e1 (ua_resume a) (ua_force a) lookup)) (\<lambda>(cal2, s2, e2). lift_res (Inr (s2, e2)))
           else lift_res (Inr (s1, e1))))) s ?Q ?Q"
    unfolding wp_seq [of "if ?full then _ else _"] by (auto simp: wp_raise_as simp del: wp_seq split: sum.split)
  then show ?thesis by (simp only: wp_def update_window_def Let_def)
qed

lemma update_codes_of_wp:
  "wp (update_codes_of e a targets ifac sd ed lookup) s (\<lambda>_ s'. asks [] s s') (\<lambda>_ s'. asks [] s s')"
  unfolding update_codes_of_def [abs_def] Let_def
  by (auto simp: wp_def seq_comp_def raise_as_def lift_res_def asks_def split: sum.split)

lemma update_basic_wp:
  "wp (update_basic e a sd ed lookup) s (\<lambda>_ s'. once BASIC_DATASET s s' \<and> ts_basic s' \<noteq> None) (\<lambda>_ s'. once BASIC_DATASET s s')"
  unfolding update_basic_def wp_run_target by (rule write_stock_basic_target_wp)

definition asked :: "target_state \<Rightarrow> target_state \<Rightarrow> bool" where
  "asked s s' \<longleftrightarrow> (\<exists>c \<in> {[], [CALENDAR_DATASET]}. \<exists>b \<in> {[], [BASIC_DATASET]}. asks (c @ b) s s')"

lemma asked_split: "once CALENDAR_DATASET s s1 \<Longrightarrow> once BASIC_DATASET s1 s2 \<Longrightarrow> asked s s2"
  unfolding once_def asked_def asks_def by fastforce

lemma update_with_provider_wp:
  "wp (update_with_provider e a ic ib ifac targets lookup) s (\<lambda>_ s'. asked s s') (\<lambda>_ s'. asked s s')"
proof -
  let ?te = "ue_targets e" and ?Q = "\<lambda>_ s'. asked s s'"
  have codes: "wp (update_codes_of e a targets ifac sd ed lookup) s2 ?Q ?Q"
    if "once CALENDAR_DATASET s s1" "once BASIC_DATASET s1 s2" for sd ed s1 s2
    by (rule wp_mono [OF update_codes_of_wp]) (use that asked_split once_trans(2) in blast)+
  have missing: "wp (\<lambda>s. if (targets \<noteq> [] \<or> ifac) \<and> no_code (ua_code a) \<and> ts_basic s = None
                    then update_basic ?te a sd ed lookup s else lift_res (Inr ()) s) s2
      (\<lambda>_ s3. wp (update_codes_of e a targets ifac sd ed lookup) s3 ?Q ?Q) ?Q"
    if "once CALENDAR_DATASET s s1" "once BASIC_DATASET s1 s2" "ts_basic s2 = None \<longrightarrow> s2 = s1" for sd ed s1 s2
    unfolding wp_if
    by (auto intro!: wp_mono [OF update_basic_wp] codes [OF that(1,2)] intro: codes [OF that(1)] asked_split [OF that(1)]
        split: if_splits simp: that(3))
  have "wp (if ib then update_basic ?te a sd ed lookup else lift_res (Inr ())) s1
      (\<lambda>_ s2. wp (\<lambda>s. if (targets \<noteq> [] \<or> ifac) \<and> no_code (ua_code a) \<and> ts_basic s = None
                    then update_basic ?te a sd ed lookup s else lift_res (Inr ()) s) s2
      (\<lambda>_ s3. wp (update_codes_of e a targets ifac sd ed lookup) s3 ?Q ?Q) ?Q) ?Q"
    if cal: "once CALENDAR_DATASET s s1" for sd ed s1
  proof (cases ib)
    case True
    show ?thesis
      unfolding if_P [OF True]
    proof (rule wp_mono [OF update_basic_wp])
      fix x :: unit and s2 assume "once BASIC_DATASET s1 s2 \<and> ts_basic s2 \<noteq> None"
      then show "wp (\<lambda>s. if (targets \<noteq> [] \<or> ifac) \<and> no_code (ua_code a) \<and> ts_basic s = None
                    then update_basic ?te a sd ed lookup s else lift_res (Inr ()) s) s2
          (\<lambda>_ s3. wp (update_codes_of e a targets ifac sd ed lookup) s3 ?Q ?Q) ?Q"
        by (intro missing [OF cal]) auto
    qed (rule asked_split [OF cal])
  next
    case False
    show ?thesis unfolding if_not_P [OF False] wp_lift sum.case by (rule missing [OF cal once_refl]) simp
  qed
  then show ?thesis
    unfolding update_with_provider_def Let_def wp_seq
    by (intro wp_mono [OF update_window_wp]) (auto intro: asked_split)
qed

lemma asked_refl [simp]: "asked s s"
  by (simp add: asked_def)

text \<open>
  C14: A daily update asks the provider for its tables sparingly. On every path of the run, errors
  included, the trading calendar is asked for at most once and the stock list at most once, the calendar
  first, although two places may fetch each of them.
\<close>

theorem provider_tables_asked_at_most_once:
  "ts_calls (snd (update_daily_impl e a s)) \<in>
     {ts_calls s, ts_calls s @ [CALENDAR_DATASET], ts_calls s @ [BASIC_DATASET], ts_calls s @ [CALENDAR_DATASET, BASIC_DATASET]}"
proof -
  let ?s = "s\<lparr>ts_records := []\<rparr>"
  let ?Q = "\<lambda>_ s'. asked ?s s'"
  have "wp (update_daily_impl e a) s ?Q ?Q"
    unfolding update_daily_impl_def [abs_def] Let_def
    using update_with_provider_wp [of e a _ _ _ _ _ ?s]
    by (auto simp: wp_def [of "\<lambda>s. if _ then _ else _"] seq_comp_def raise_as_def lift_res_def wp_def split: sum.split option.split prod.split)
  then have "asked ?s (snd (update_daily_impl e a s))" by (simp only: wp_final_state)
  then show ?thesis by (auto simp: asked_def asks_def)
qed

section \<open>Instances\<close>

definition demo_update_env :: "(int, unit, unit) update_env" where
  "demo_update_env = \<lparr>ue_targets = demo_target_env, ue_worker = demo_worker, ue_schedule = demo_schedule,
     ue_use_existing = (\<lambda>_. Some ''unreadable''), ue_fetch_factor = (\<lambda>_. Inr []), ue_fetch_bars = (\<lambda>_ _ _. Inr (schema_table [])), ue_now = 0\<rparr>"

definition demo_args :: update_args where
  "demo_args = \<lparr>ua_dataset = ''baostock_cn_stock_daily_bar_qfq'', ua_mode = ''partial'', ua_start = Date 1 1 5, ua_end = Date 1 1 5,
     ua_lookback = 1, ua_code = OneCode ''a'', ua_resume = True, ua_force = False\<rparr>"

definition factor_index :: checkpoint_lookup where
  "factor_index = \<lparr>lk_pipeline_status = [(''update_daily'', BAOSTOCK_FACTOR_DATASET, ''a'', ''1990-01-01'', ''0001-01-05'') \<mapsto> ''success''],
     lk_date_status = Map.empty\<rparr>"

theorem background_raises_iff_unreadable_factor_witness:
  "\<exists>err. update_background demo_update_env demo_args [''baostock_cn_stock_daily_bar_qfq''] False (Date 1 1 5) (Date 1 1 5) (Some factor_index) [''a''] [] =
     Inl err"
proof -
  have "unreadable_factor (update_run demo_update_env demo_args [''baostock_cn_stock_daily_bar_qfq''] False (Date 1 1 5) (Date 1 1 5) (Some factor_index)) ''a''"
    by code_simp
  then show ?thesis
    using background_raises_iff_unreadable_factor [of demo_update_env demo_args "[''baostock_cn_stock_daily_bar_qfq'']" False "Date 1 1 5"
        "Date 1 1 5" "Some factor_index" "[''a'']" "[]"] by fastforce
qed

end
