(* ===== verification/AkShare_Runtime.thy ===== *)
theory AkShare_Runtime imports QDC_Prelude begin

text \<open>
  The runtime policy of AkShare calls (\<open>src/sources/akshare/core/runtime.py\<close>): retries, the circuit
  breaker of an endpoint and the call timeout.

  A call of the endpoint and the adapter's normalizer are parameters, as are the times the clock shows.
  An exception is its class as the \<open>except\<close> clauses of \<open>fetch\<close> tell them apart; \<open>NoneSubscript\<close> is the
  \<open>TypeError\<close> of subscripting \<open>None\<close>. Jitter and logging are not modelled.
\<close>

section \<open>Endpoint state\<close>

datatype ak_exception = SchemaDrift | EmptyData | Network | NoneSubscript | OtherException

record endpoint_state =
  es_consecutive_failures :: nat
  es_circuit_open_until :: "int option"

definition fresh_endpoint :: endpoint_state where
  "fresh_endpoint = \<lparr>es_consecutive_failures = 0, es_circuit_open_until = None\<rparr>"

record endpoint_config =
  ec_max_retries :: nat
  ec_failure_threshold :: nat
  ec_cooldown :: int

text \<open>The settings as numbers, none when they are missing; the sina quote endpoint has its own defaults.\<close>

definition endpoint_runtime_config :: "string \<Rightarrow> int option \<Rightarrow> int option \<Rightarrow> int option \<Rightarrow> endpoint_config" where
  "endpoint_runtime_config endpoint retries threshold cooldown_minutes =
     (let setting = (\<lambda>v d. case v of None \<Rightarrow> d | Some x \<Rightarrow> x); sina = endpoint = ''stock_zh_a_spot''
      in \<lparr>ec_max_retries = nat (max (setting retries 3) 1),
          ec_failure_threshold = nat (max (setting threshold (if sina then 1 else 5)) 1),
          ec_cooldown = setting cooldown_minutes (if sina then 180 else 30) * 60000000\<rparr>)"

text \<open>\<open>True\<close>: the circuit is open. Past the cooldown the endpoint starts afresh.\<close>

definition check_circuit :: "int \<Rightarrow> endpoint_state \<Rightarrow> bool \<times> endpoint_state" where
  "check_circuit now s =
     (case es_circuit_open_until s of
        None \<Rightarrow> (False, s)
      | Some until \<Rightarrow> if now < until then (True, s) else (False, fresh_endpoint))"

definition record_success :: "endpoint_state \<Rightarrow> endpoint_state" where
  "record_success s = fresh_endpoint"

definition record_failure :: "endpoint_config \<Rightarrow> int \<Rightarrow> endpoint_state \<Rightarrow> endpoint_state" where
  "record_failure c now s =
     (let n = Suc (es_consecutive_failures s)
      in s\<lparr>es_consecutive_failures := n,
           es_circuit_open_until := (if ec_failure_threshold c \<le> n then Some (now + ec_cooldown c) else es_circuit_open_until s)\<rparr>)"

section \<open>Fetching\<close>

datatype 'd fetch_result = Response 'd | Failed ak_exception | CircuitOpen

text \<open>
  One attempt: the call, then the normalizer. In the clause for a subscripted \<open>None\<close> the normalizer gets
  an empty frame, and what it raises there leaves \<open>fetch\<close> past the other clauses.
\<close>

definition call_attempt :: "(nat \<Rightarrow> ak_exception + 'raw) \<Rightarrow> ('raw \<Rightarrow> ak_exception + 'd) \<Rightarrow> nat \<Rightarrow> ak_exception + 'd" where
  "call_attempt call normalizer k = bind_res (call k) normalizer"

fun attempts ::
  "endpoint_config \<Rightarrow> int \<Rightarrow> (nat \<Rightarrow> ak_exception + 'raw) \<Rightarrow> ('raw \<Rightarrow> ak_exception + 'd) \<Rightarrow> 'raw \<Rightarrow> nat \<Rightarrow> nat list \<Rightarrow>
   endpoint_state \<Rightarrow> 'd fetch_result \<times> endpoint_state \<times> nat list" where
  "attempts c now call normalizer no_data tries [] s = (Failed Network, s, [])"
| "attempts c now call normalizer no_data tries (k # ks) s =
     (case call_attempt call normalizer k of
        Inr d \<Rightarrow> (Response d, record_success s, [k])
      | Inl SchemaDrift \<Rightarrow> (Failed SchemaDrift, record_failure c now s, [k])
      | Inl EmptyData \<Rightarrow> (Failed EmptyData, record_failure c now s, [k])
      | Inl NoneSubscript \<Rightarrow>
          (case normalizer no_data of
             Inr d \<Rightarrow> (Response d, record_success s, [k])
           | Inl x \<Rightarrow> (Failed x, s, [k]))
      | Inl _ \<Rightarrow>
          if k < tries then (case attempts c now call normalizer no_data tries ks s of (r, s', calls) \<Rightarrow> (r, s', k # calls))
          else (Failed Network, record_failure c now s, [k]))"

text \<open>\<open>fetch\<close>: the result, the state, and the attempts made. \<open>now\<close> is the time of the check and of the record.\<close>

definition fetch ::
  "endpoint_config \<Rightarrow> int \<Rightarrow> (nat \<Rightarrow> ak_exception + 'raw) \<Rightarrow> ('raw \<Rightarrow> ak_exception + 'd) \<Rightarrow> 'raw \<Rightarrow>
   endpoint_state \<Rightarrow> 'd fetch_result \<times> endpoint_state \<times> nat list" where
  "fetch c now call normalizer no_data s =
     (case check_circuit now s of
        (True, s1) \<Rightarrow> (CircuitOpen, s1, [])
      | (False, s1) \<Rightarrow>
          (let n = max (ec_max_retries c) 1 in attempts c now call normalizer no_data n [1..<Suc n] s1))"

section \<open>Call timeouts\<close>

text \<open>
  The threads that run the calls: how many of them hang. A call that gets a thread runs; \<open>None\<close> is a call
  that does not return. After a timeout a queued call is cancelled, a running one is not.
\<close>

definition call_with_timeout :: "nat \<Rightarrow> (ak_exception + 'raw) option \<Rightarrow> nat \<Rightarrow> (ak_exception + 'raw) \<times> nat" where
  "call_with_timeout workers result hung =
     (if workers \<le> hung then (Inl Network, hung)
      else case result of None \<Rightarrow> (Inl Network, Suc hung) | Some r \<Rightarrow> (r, hung))"

fun calls_with_timeout :: "nat \<Rightarrow> (ak_exception + 'raw) option list \<Rightarrow> nat \<Rightarrow> (ak_exception + 'raw) list \<times> nat" where
  "calls_with_timeout workers [] hung = ([], hung)"
| "calls_with_timeout workers (r # rs) hung =
     (case call_with_timeout workers r hung of
        (x, hung1) \<Rightarrow> (case calls_with_timeout workers rs hung1 of (xs, hung2) \<Rightarrow> (x # xs, hung2)))"

definition resolve_timeout_workers :: "int option \<Rightarrow> nat" where
  "resolve_timeout_workers setting = nat (max (case setting of None \<Rightarrow> 3 | Some n \<Rightarrow> n) 1)"

section \<open>Properties\<close>

lemma attempts_calls: "set (snd (snd (attempts c now call normalizer no_data tries ks s))) \<subseteq> set ks"
  by (induction ks) (auto split: sum.split ak_exception.split prod.split)

lemma attempts_length: "length (snd (snd (attempts c now call normalizer no_data tries ks s))) \<le> length ks"
  by (induction ks) (auto split: sum.split ak_exception.split prod.split)

text \<open>What the attempts do to the endpoint: one success, one failure, or nothing.\<close>

lemma attempts_state:
  assumes "attempts c now call normalizer no_data tries ks s = (r, s', calls)" and "ks \<noteq> []" and "List.last ks \<ge> tries"
  shows "(case r of
      Response d \<Rightarrow> s' = fresh_endpoint
    | Failed x \<Rightarrow> s' = record_failure c now s \<or>
        s' = s \<and> normalizer no_data = Inl x \<and> (\<exists>k \<in> set calls. call_attempt call normalizer k = Inl NoneSubscript)
    | CircuitOpen \<Rightarrow> False)"
  using assms
proof (induction ks arbitrary: r s' calls)
  case (Cons k ks)
  show ?case
  proof (cases "call_attempt call normalizer k = Inl Network \<or> call_attempt call normalizer k = Inl OtherException")
    case True
    show ?thesis
    proof (cases "k < tries")
      case True
      obtain r1 s1 calls1 where rest: "attempts c now call normalizer no_data tries ks s = (r1, s1, calls1)" by (metis prod_cases3)
      have ne: "ks \<noteq> []" using True Cons.prems(3) by (cases ks) auto
      with Cons.prems(3) have "List.last ks \<ge> tries" by simp
      from Cons.IH [OF rest ne this]
      show ?thesis
        using True rest Cons.prems(1) \<open>call_attempt call normalizer k = Inl Network \<or> call_attempt call normalizer k = Inl OtherException\<close>
        by (cases r1) auto
    next
      case False
      then show ?thesis using True Cons.prems(1) by auto
    qed
  next
    case False
    then show ?thesis
      using Cons.prems(1) by (auto simp: record_success_def split: sum.splits ak_exception.splits)
  qed
qed simp

text \<open>
  A fetch counts once. Whatever happens in its attempts, an open circuit is answered without a
  call; otherwise at most the configured number of attempts is made, a response closes the endpoint's
  count, and a failure adds exactly one to the count as it stands after the cooldown check. The only
  failures that are not counted come from an attempt in which \<open>None\<close> was subscripted and the empty frame
  was refused.
\<close>

theorem fetch_counts_once:
  assumes "fetch c now call normalizer no_data s = (r, s', calls)"
  shows "(fst (check_circuit now s) \<longrightarrow> r = CircuitOpen \<and> s' = s \<and> calls = []) \<and>
    (\<not> fst (check_circuit now s) \<longrightarrow> length calls \<le> max (ec_max_retries c) 1 \<and>
       (case r of
          Response d \<Rightarrow> s' = fresh_endpoint
        | Failed x \<Rightarrow> s' = record_failure c now (snd (check_circuit now s)) \<or>
            s' = snd (check_circuit now s) \<and> normalizer no_data = Inl x \<and> (\<exists>k \<in> set calls. call_attempt call normalizer k = Inl NoneSubscript)
        | CircuitOpen \<Rightarrow> False))"
proof (cases "fst (check_circuit now s)")
  case True
  then have "check_circuit now s = (True, s)" by (auto simp: check_circuit_def split: option.splits if_splits)
  with True assms show ?thesis by (simp add: fetch_def)
next
  case False
  then obtain s1 where s1: "check_circuit now s = (False, s1)" by (metis prod.collapse)
  let ?n = "max (ec_max_retries c) 1"
  have run: "attempts c now call normalizer no_data ?n [1..<Suc ?n] s1 = (r, s', calls)" using assms by (simp add: fetch_def s1 Let_def)
  have "length calls \<le> ?n" using attempts_length [of c now call normalizer no_data ?n "[1..<Suc ?n]" s1] unfolding run by simp
  moreover from attempts_state [OF run] have "case r of
          Response d \<Rightarrow> s' = fresh_endpoint
        | Failed x \<Rightarrow> s' = record_failure c now s1 \<or>
            s' = s1 \<and> normalizer no_data = Inl x \<and> (\<exists>k \<in> set calls. call_attempt call normalizer k = Inl NoneSubscript)
        | CircuitOpen \<Rightarrow> False" by simp
  ultimately show ?thesis by (cases r) (simp_all add: s1)
qed

text \<open>
  Threads share an endpoint: their checks and records, each under the state lock, interleave in any
  order, also those of calls that were under way when the circuit opened.
\<close>

inductive breaker_step :: "endpoint_config \<Rightarrow> endpoint_state \<Rightarrow> endpoint_state \<Rightarrow> bool" for c where
  step_check: "breaker_step c s (snd (check_circuit now s))"
| step_success: "breaker_step c s (record_success s)"
| step_failure: "breaker_step c s (record_failure c now s)"

definition breaker_ok :: "endpoint_config \<Rightarrow> endpoint_state \<Rightarrow> bool" where
  "breaker_ok c s = (es_circuit_open_until s \<noteq> None \<longleftrightarrow> ec_failure_threshold c \<le> es_consecutive_failures s)"

lemma breaker_step_ok: "breaker_step c s s' \<Longrightarrow> 0 < ec_failure_threshold c \<Longrightarrow> breaker_ok c s \<Longrightarrow> breaker_ok c s'"
  by (induction rule: breaker_step.induct)
     (auto simp: breaker_ok_def check_circuit_def record_success_def record_failure_def fresh_endpoint_def Let_def
       split: option.split)

lemma breaker_reachable_ok:
  assumes "(breaker_step c)\<^sup>*\<^sup>* fresh_endpoint s" and "0 < ec_failure_threshold c"
  shows "breaker_ok c s"
  using assms(1)
proof (induction rule: rtranclp_induct)
  case base
  then show ?case using assms(2) by (simp add: breaker_ok_def fresh_endpoint_def)
next
  case (step s s')
  then show ?case using breaker_step_ok assms(2) by blast
qed

lemma threshold_positive: "0 < ec_failure_threshold (endpoint_runtime_config endpoint retries threshold cooldown)"
  by (simp add: endpoint_runtime_config_def Let_def)

text \<open>Whether the next fetch is refused.\<close>

definition refuses :: "endpoint_state \<Rightarrow> int \<Rightarrow> bool" where
  "refuses s now = fst (check_circuit now s)"


section \<open>Sequences of fetches\<close>

fun fetches ::
  "endpoint_config \<Rightarrow> (int \<times> (nat \<Rightarrow> ak_exception + 'raw)) list \<Rightarrow> ('raw \<Rightarrow> ak_exception + 'd) \<Rightarrow> 'raw \<Rightarrow> endpoint_state \<Rightarrow>
   'd fetch_result list \<times> endpoint_state" where
  "fetches c [] normalizer no_data s = ([], s)"
| "fetches c ((now, call) # rest) normalizer no_data s =
     (case fetch c now call normalizer no_data s of
        (r, s1, calls) \<Rightarrow> (case fetches c rest normalizer no_data s1 of (rs, s2) \<Rightarrow> (r # rs, s2)))"

lemma fetch_none_subscript:
  assumes "call 1 = Inl NoneSubscript" and "normalizer no_data = Inl x" and "es_circuit_open_until s = None"
  shows "fetch c now call normalizer no_data s = (Failed x, s, [1])"
proof -
  have "[1..<Suc (max (ec_max_retries c) 1)] = 1 # [2..<Suc (max (ec_max_retries c) 1)]"
    by (subst upt_conv_Cons) (simp_all add: numeral_2_eq_2)
  then show ?thesis
    using assms by (simp add: fetch_def check_circuit_def call_attempt_def Let_def del: One_nat_def upt_Suc)
qed

text \<open>
  Answers that subscript a \<open>None\<close> never open the circuit. However many fetches end that way when the
  endpoint's normalizer refuses an empty frame, and whatever the threshold is, every one of them fails
  after a call of the source and the endpoint counts no failure.
\<close>

theorem none_answers_never_trip:
  assumes "\<And>now call. (now, call) \<in> set runs \<Longrightarrow> call 1 = Inl NoneSubscript" and "normalizer no_data = Inl x"
  shows "fetches c runs normalizer no_data fresh_endpoint = (map (\<lambda>_. Failed x) runs, fresh_endpoint)"
  using assms(1)
proof (induction runs)
  case (Cons r runs)
  obtain now call where r: "r = (now, call)" by force
  have "fetch c now call normalizer no_data fresh_endpoint = (Failed x, fresh_endpoint, [1])"
    using Cons.prems [of now call] assms(2) by (intro fetch_none_subscript) (simp_all add: r fresh_endpoint_def)
  moreover have "fetches c runs normalizer no_data fresh_endpoint = (map (\<lambda>_. Failed x) runs, fresh_endpoint)"
    using Cons.prems by (intro Cons.IH) (metis list.set_intros(2))
  ultimately show ?case by (simp add: r)
qed simp

section \<open>The timeout pool\<close>

lemma calls_append:
  "calls_with_timeout w (rs @ rs') hung =
     (case calls_with_timeout w rs hung of
        (xs, hung1) \<Rightarrow> (case calls_with_timeout w rs' hung1 of (xs', hung2) \<Rightarrow> (xs @ xs', hung2)))"
  by (induction rs arbitrary: hung) (auto split: prod.split)

lemma calls_length: "length (fst (calls_with_timeout w rs hung)) = length rs"
  by (induction rs arbitrary: hung) (simp_all add: case_prod_beta)

lemma calls_hung: "snd (calls_with_timeout w rs hung) = (if w \<le> hung then hung else min w (hung + count_list rs None))"
  by (induction rs arbitrary: hung) (auto simp: call_with_timeout_def case_prod_beta split: option.split)

lemma calls_starved: "w \<le> hung \<Longrightarrow> calls_with_timeout w rs hung = (map (\<lambda>_. Inl Network) rs, hung)"
  by (induction rs) (auto simp: call_with_timeout_def)

lemma calls_unstarved:
  assumes "hung + count_list rs None < w"
  shows "fst (calls_with_timeout w rs hung) = map (case_option (Inl Network) id) rs"
  using assms by (induction rs arbitrary: hung) (auto simp: call_with_timeout_def case_prod_beta split: option.split)

text \<open>
  Calls that hang use up the timeout threads. While fewer calls hang than there are threads, every
  other call gets its own answer; after as many calls have hung as there are threads, whatever endpoint
  they were for, every later call is answered as a network error, also when the source would answer it.
\<close>

theorem hung_calls_starve_pool:
  "if count_list before None < resolve_timeout_workers setting
   then fst (calls_with_timeout (resolve_timeout_workers setting) before 0) = map (case_option (Inl Network) id) before
   else drop (length before) (fst (calls_with_timeout (resolve_timeout_workers setting) (before @ later) 0))
          = map (\<lambda>_. Inl Network) later"
proof (cases "count_list before None < resolve_timeout_workers setting")
  case True
  then show ?thesis by (simp add: calls_unstarved)
next
  case False
  let ?w = "resolve_timeout_workers setting"
  obtain xs h where run: "calls_with_timeout ?w before 0 = (xs, h)" by force
  have "h = (if ?w \<le> 0 then 0 else min ?w (count_list before None))" using calls_hung [of ?w before 0] by (simp add: run)
  then have "?w \<le> h" using False by auto
  moreover have "length xs = length before" using calls_length [of ?w before 0] by (simp add: run)
  ultimately show ?thesis using False by (simp add: calls_append run calls_starved)
qed


section \<open>Concrete fetches\<close>

theorem fetch_counts_once_witness:
  "(let c = endpoint_runtime_config ''stock_zh_a_spot'' None None None;
        call = (\<lambda>k. if k < 3 then Inl Network else Inr ''rows''); s = \<lparr>es_consecutive_failures = 4, es_circuit_open_until = Some 10\<rparr>
    in fetch c 10 call Inr [] s = (Response ''rows'', fresh_endpoint, [1, 2, 3]) \<and>
       fetch c 9 call Inr [] s = (CircuitOpen, s, []) \<and> \<not> fst (check_circuit 10 s) \<and> length [1, 2, 3 :: nat] \<le> max (ec_max_retries c) 1)"
proof -
  let ?c = "endpoint_runtime_config ''stock_zh_a_spot'' None None None"
  let ?s = "\<lparr>es_consecutive_failures = 4, es_circuit_open_until = Some 10\<rparr>"
  let ?call = "\<lambda>k. if k < 3 then Inl Network else Inr ''rows''"
  have run: "fetch ?c 10 ?call Inr [] ?s = (Response ''rows'', fresh_endpoint, [1, 2, 3])" by code_simp
  moreover have "fetch ?c 9 ?call Inr [] ?s = (CircuitOpen, ?s, [])" by code_simp
  moreover have "\<not> fst (check_circuit 10 ?s)" by code_simp
  ultimately show ?thesis using fetch_counts_once [OF run] by (simp only: Let_def) simp
qed


theorem none_answers_never_trip_witness:
  "fetches (endpoint_runtime_config ''stock_zh_a_spot'' None None None)
     [(0, \<lambda>_. Inl NoneSubscript), (5, \<lambda>_. Inl NoneSubscript), (9, \<lambda>_. Inl NoneSubscript)]
     (\<lambda>rows :: string. if rows = [] then Inl EmptyData else Inr rows) [] fresh_endpoint
   = (replicate 3 (Failed EmptyData), fresh_endpoint)"
  using none_answers_never_trip [of "[(0, \<lambda>_. Inl NoneSubscript), (5, \<lambda>_. Inl NoneSubscript), (9, \<lambda>_. Inl NoneSubscript)]"
      "\<lambda>rows :: string. if rows = [] then Inl EmptyData else Inr rows" "[]" EmptyData]
  by (auto simp: eval_nat_numeral)

end
