(* ===== verification/AkShare_Execution.thy ===== *)
theory AkShare_Execution imports Computation "HOL-Library.Multiset" begin

text \<open>
  The execution kernel of the AkShare modules (\<open>src/sources/akshare/pipeline/execution.py\<close>): planning,
  sequential and concurrent fetching, the stop when a circuit opens, progress, and the update lock; with
  the concurrency policy and its adaptive controller, and the registry of targets.

  A module is a record of its operations, each a computation on a context (store, client, metadata
  batch). What a fetch answers and which of the pending fetches a wait finds done is the environment.
  Logging hooks are not modelled.
\<close>

section \<open>Adaptive concurrency\<close>

record adaptive_controller =
  ac_max_workers :: nat
  ac_target_workers :: nat
  ac_window_size :: nat
  ac_failure_percent :: nat
  ac_recovery_successes :: nat
  ac_failure_threshold :: nat
  ac_recent :: "bool list"
  ac_successes :: nat
  ac_failures :: nat

text \<open>The controller with its default parameters; the failure rate 0.15 is kept in percent.\<close>

definition new_controller :: "int \<Rightarrow> adaptive_controller" where
  "new_controller max_workers =
     (let m = nat (max max_workers 1)
      in \<lparr>ac_max_workers = m, ac_target_workers = m, ac_window_size = 20, ac_failure_percent = 15,
          ac_recovery_successes = 50, ac_failure_threshold = 3, ac_recent = [], ac_successes = 0, ac_failures = 0\<rparr>)"

definition push_recent :: "nat \<Rightarrow> bool \<Rightarrow> bool list \<Rightarrow> bool list" where
  "push_recent window b xs = (let ys = xs @ [b] in drop (length ys - window) ys)"

definition decrease :: "adaptive_controller \<Rightarrow> adaptive_controller" where
  "decrease c = (let c1 = c\<lparr>ac_successes := 0\<rparr>
     in if 1 < ac_target_workers c1 then c1\<lparr>ac_target_workers := ac_target_workers c1 - 1\<rparr> else c1)"

definition increase :: "adaptive_controller \<Rightarrow> adaptive_controller" where
  "increase c = (if ac_target_workers c < ac_max_workers c then c\<lparr>ac_target_workers := Suc (ac_target_workers c)\<rparr> else c)"

definition record_fetch_result :: "bool \<Rightarrow> adaptive_controller \<Rightarrow> adaptive_controller" where
  "record_fetch_result success c0 =
     (let c = c0\<lparr>ac_recent := push_recent (ac_window_size c0) success (ac_recent c0),
                 ac_successes := (if success then Suc (ac_successes c0) else 0),
                 ac_failures := (if success then 0 else Suc (ac_failures c0))\<rparr>
      in if \<not> success \<and> ac_failure_threshold c \<le> ac_failures c then (decrease c)\<lparr>ac_failures := 0, ac_recent := []\<rparr>
         else if length (ac_recent c) = ac_window_size c \<and>
                 ac_failure_percent c * ac_window_size c < 100 * length (filter Not (ac_recent c))
         then (decrease c)\<lparr>ac_recent := []\<rparr>
         else if success \<and> ac_recovery_successes c \<le> ac_successes c
         then (increase c)\<lparr>ac_successes := 0, ac_recent := []\<rparr>
         else c)"

section \<open>Policies, progress and modules\<close>

record concurrency_policy =
  pol_workers :: nat
  pol_controller :: "adaptive_controller option"
  pol_stop_on_circuit_open :: bool

definition target_workers :: "concurrency_policy \<Rightarrow> nat" where
  "target_workers p = (case pol_controller p of None \<Rightarrow> pol_workers p | Some c \<Rightarrow> ac_target_workers c)"

definition policy_record :: "bool \<Rightarrow> concurrency_policy \<Rightarrow> concurrency_policy" where
  "policy_record success p = p\<lparr>pol_controller := map_option (record_fetch_result success) (pol_controller p)\<rparr>"

record progress =
  pg_total :: nat
  pg_processed :: nat
  pg_success :: nat
  pg_failed :: nat
  pg_skipped :: nat

definition record_progress :: "string \<Rightarrow> progress \<Rightarrow> progress" where
  "record_progress status p0 =
     (let p = p0\<lparr>pg_processed := Suc (pg_processed p0)\<rparr>
      in if status = ''success'' then p\<lparr>pg_success := Suc (pg_success p)\<rparr>
         else if status = ''failed'' then p\<lparr>pg_failed := Suc (pg_failed p)\<rparr>
         else if starts_with ''skipped'' status then p\<lparr>pg_skipped := Suc (pg_skipped p)\<rparr>
         else p)"

text \<open>Exceptions, as far as the kernel tells them apart.\<close>

datatype ak_raise = CircuitOpenRaised | RuntimeRaised string | ValueRaised string

record ('t, 'd) fetched =
  fd_task :: 't
  fd_response :: "'d option"
  fd_error :: "ak_raise option"
  fd_skipped :: bool
  fd_skip_status :: string
  fd_skip_reason :: string

definition failed_fetch :: "'t \<Rightarrow> ak_raise \<Rightarrow> ('t, 'd) fetched" where
  "failed_fetch t x = \<lparr>fd_task = t, fd_response = None, fd_error = Some x, fd_skipped = False,
     fd_skip_status = ''skipped_checkpoint'', fd_skip_reason = ''checkpoint''\<rparr>"

definition is_circuit_open :: "('t, 'd) fetched \<Rightarrow> bool" where
  "is_circuit_open r = (fd_error r = Some CircuitOpenRaised)"

record ak_request =
  rq_target :: string
  rq_mode :: string
  rq_adjustment :: "string option"
  rq_codes :: "string list"
  rq_include_inactive :: bool
  rq_market :: "string option"
  rq_max_tasks :: "int option"
  rq_workers :: "int option"
  rq_resume :: bool
  rq_force :: bool
  rq_build_views :: bool
  rq_periods :: "string list"

record ('t, 'd, 'row, 'c) ak_module =
  am_plan :: "ak_request \<Rightarrow> 'c \<Rightarrow> (ak_raise + 't list) \<times> 'c"
  am_prefilter :: "'t list \<Rightarrow> 'c \<Rightarrow> (ak_raise + 't list) \<times> 'c"
  am_concurrency :: "ak_request \<Rightarrow> 'c \<Rightarrow> (ak_raise + concurrency_policy) \<times> 'c"
  am_fetch :: "nat \<Rightarrow> 't \<Rightarrow> ak_raise + ('t, 'd) fetched"
  am_record_result :: "('t, 'd) fetched \<Rightarrow> 'c \<Rightarrow> (ak_raise + 'row list) \<times> 'c"
  am_record_skip :: "'t \<Rightarrow> string \<Rightarrow> string \<Rightarrow> 'c \<Rightarrow> (ak_raise + 'row list) \<times> 'c"
  am_row_status :: "'t \<Rightarrow> 'row list \<Rightarrow> string"
  am_after_completed :: "ak_request \<Rightarrow> progress \<Rightarrow> 'c \<Rightarrow> (ak_raise + unit) \<times> 'c"

section \<open>The run of a module\<close>

record ('row, 'c) module_run =
  mr_context :: 'c
  mr_records :: "'row list"
  mr_progress :: progress
  mr_policy :: concurrency_policy

type_synonym ('row, 'c, 'z, 'a) run_comp = "('row, 'c, 'z) module_run_scheme \<Rightarrow> (ak_raise + 'a) \<times> ('row, 'c, 'z) module_run_scheme"

definition in_context :: "('c \<Rightarrow> (ak_raise + 'a) \<times> 'c) \<Rightarrow> ('row, 'c, 'z, 'a) run_comp" where
  "in_context m s = (case m (mr_context s) of (r, c) \<Rightarrow> (r, s\<lparr>mr_context := c\<rparr>))"

text \<open>Rows are appended to the records and the task is counted in the progress.\<close>

definition log_rows :: "('t, 'd, 'row, 'c) ak_module \<Rightarrow> 't \<Rightarrow> 'row list \<Rightarrow> ('row, 'c, 'z) module_run_scheme \<Rightarrow> ('row, 'c, 'z) module_run_scheme" where
  "log_rows m t rows s =
     s\<lparr>mr_records := mr_records s @ rows, mr_progress := record_progress (am_row_status m t rows) (mr_progress s)\<rparr>"

definition record_skip :: "('t, 'd, 'row, 'c) ak_module \<Rightarrow> 't \<Rightarrow> ('row, 'c, 'z, unit) run_comp" where
  "record_skip m t =
     seq_comp (in_context (am_record_skip m t ''skipped_circuit_open'' ''circuit_open''))
       (\<lambda>rows s. (Inr (), log_rows m t rows s))"

definition settle_result :: "('t, 'd, 'row, 'c) ak_module \<Rightarrow> 't \<Rightarrow> ('t, 'd) fetched \<Rightarrow> ('row, 'c, 'z, unit) run_comp" where
  "settle_result m t r =
     seq_comp (in_context (am_record_result m r))
       (\<lambda>rows s. (Inr (), (log_rows m t rows s)\<lparr>mr_policy := policy_record (fd_error r = None) (mr_policy s)\<rparr>))"

fun skip_all :: "('t, 'd, 'row, 'c) ak_module \<Rightarrow> 't list \<Rightarrow> ('row, 'c, 'z, unit) run_comp" where
  "skip_all m [] s = (Inr (), s)"
| "skip_all m (t # ts) s = seq_comp (record_skip m t) (\<lambda>_. skip_all m ts) s"

text \<open>One worker: the tasks in order; what \<open>fetch\<close> raises leaves the loop.\<close>

fun run_sequential :: "('t, 'd, 'row, 'c) ak_module \<Rightarrow> nat \<Rightarrow> 't list \<Rightarrow> ('row, 'c, 'z, unit) run_comp" where
  "run_sequential m k [] s = (Inr (), s)"
| "run_sequential m k (t # ts) s =
     (case am_fetch m k t of
        Inl x \<Rightarrow> (Inl x, s)
      | Inr r \<Rightarrow>
          seq_comp (settle_result m t r)
            (\<lambda>_ s. if pol_stop_on_circuit_open (mr_policy s) \<and> is_circuit_open r then skip_all m ts s
                   else run_sequential m (Suc k) ts s) s)"

section \<open>Concurrent fetches\<close>

text \<open>A future is the position of its task and the task.\<close>

record ('t, 'row, 'c) fetch_run = "('row, 'c) module_run" +
  fr_pending :: "(nat \<times> 't) list"
  fr_index :: nat
  fr_stop :: bool
  fr_opened :: bool
  fr_waits :: nat

type_synonym 't waits = "nat \<Rightarrow> (nat \<times> 't) list \<Rightarrow> (nat \<times> 't) list"

function submit_until_target :: "'t list \<Rightarrow> ('t, 'row, 'c) fetch_run \<Rightarrow> ('t, 'row, 'c) fetch_run" where
  "submit_until_target tasks s =
     (if \<not> fr_stop s \<and> fr_index s < length tasks \<and> length (fr_pending s) < target_workers (mr_policy s)
      then submit_until_target tasks
             (s\<lparr>fr_pending := fr_pending s @ [(fr_index s, tasks ! fr_index s)], fr_index := Suc (fr_index s)\<rparr>)
      else s)"
  by pat_completeness auto
termination by (relation "measure (\<lambda>(tasks, s). length tasks - fr_index s)") auto

declare submit_until_target.simps [simp del]

text \<open>A wait finds at least one pending future done, in an arbitrary order.\<close>

definition done_round :: "'t waits \<Rightarrow> ('t, 'row, 'c) fetch_run \<Rightarrow> (nat \<times> 't) list" where
  "done_round e s =
     (let p = fr_pending s; fs = remdups (filter (\<lambda>f. f \<in> set p) (e (fr_waits s) p)) in if fs = [] then [hd p] else fs)"

definition future_result :: "('t, 'd, 'row, 'c) ak_module \<Rightarrow> nat \<times> 't \<Rightarrow> ('t, 'd) fetched" where
  "future_result m f = (case am_fetch m (fst f) (snd f) of Inl x \<Rightarrow> failed_fetch (snd f) x | Inr r \<Rightarrow> r)"

text \<open>The circuit opened: no further submissions, the tasks not submitted are skipped.\<close>

definition open_circuit :: "('t, 'd, 'row, 'c) ak_module \<Rightarrow> 't list \<Rightarrow> ('t, 'row, 'c) fetch_run \<Rightarrow> (ak_raise + unit) \<times> ('t, 'row, 'c) fetch_run" where
  "open_circuit m tasks s =
     skip_all m (drop (fr_index s) tasks) (s\<lparr>fr_opened := True, fr_stop := True, fr_index := length tasks\<rparr>)"

definition collect_one :: "('t, 'd, 'row, 'c) ak_module \<Rightarrow> 't list \<Rightarrow> nat \<times> 't \<Rightarrow> ('t, 'row, 'c) fetch_run \<Rightarrow> (ak_raise + unit) \<times> ('t, 'row, 'c) fetch_run" where
  "collect_one m tasks f s0 =
     (let s = s0\<lparr>fr_pending := remove1 f (fr_pending s0)\<rparr>; r = future_result m f
      in if fr_opened s \<and> is_circuit_open r then record_skip m (snd f) s
         else seq_comp (settle_result m (snd f) r)
                (\<lambda>_ s. if pol_stop_on_circuit_open (mr_policy s) \<and> is_circuit_open r then open_circuit m tasks s
                       else (Inr (), s)) s)"

fun collect_done :: "('t, 'd, 'row, 'c) ak_module \<Rightarrow> 't list \<Rightarrow> (nat \<times> 't) list \<Rightarrow> ('t, 'row, 'c) fetch_run \<Rightarrow> (ak_raise + unit) \<times> ('t, 'row, 'c) fetch_run" where
  "collect_done m tasks [] s = (Inr (), s)"
| "collect_done m tasks (f # fs) s = seq_comp (collect_one m tasks f) (\<lambda>_. collect_done m tasks fs) s"

lemma in_context_frame: "in_context m s = (x, s') \<Longrightarrow> \<exists>c. s' = s\<lparr>mr_context := c\<rparr>"
  by (auto simp: in_context_def split: prod.splits)

text \<open>How a task is settled, with the rows it gives.\<close>

datatype ('t, 'd) settlement = Recorded 't "('t, 'd) fetched" | SkippedOpen 't

fun settled_task :: "('t, 'd) settlement \<Rightarrow> 't" where
  "settled_task (Recorded t r) = t"
| "settled_task (SkippedOpen t) = t"

fun settle_op :: "('t, 'd, 'row, 'c) ak_module \<Rightarrow> ('t, 'd) settlement \<Rightarrow> ('row, 'c, 'z, unit) run_comp" where
  "settle_op m (Recorded t r) s = settle_result m t r s"
| "settle_op m (SkippedOpen t) s = record_skip m t s"

fun settle_all :: "('t, 'd, 'row, 'c) ak_module \<Rightarrow> ('t, 'd) settlement list \<Rightarrow> ('row, 'c, 'z, unit) run_comp" where
  "settle_all m [] s = (Inr (), s)"
| "settle_all m (p # ps) s = seq_comp (settle_op m p) (\<lambda>_. settle_all m ps) s"

lemma settle_all_append: "settle_all m (ps @ qs) s = seq_comp (settle_all m ps) (\<lambda>_. settle_all m qs) s"
  by (induction ps arbitrary: s) (auto simp: seq_comp_def split: prod.split sum.split)

lemma skip_all_settles: "skip_all m ts s = settle_all m (map SkippedOpen ts) s"
  by (induction ts arbitrary: s) (auto simp: seq_comp_def split: prod.split sum.split)

lemma op_frame:
  fixes s :: "('t, 'row, 'c) fetch_run"
  assumes "settle_op m p s = (x, s')"
  shows "fr_pending s' = fr_pending s \<and> fr_index s' = fr_index s \<and> fr_stop s' = fr_stop s \<and>
    fr_opened s' = fr_opened s \<and> fr_waits s' = fr_waits s"
  using assms
  by (cases p) (auto simp: settle_result_def record_skip_def seq_comp_def in_context_def log_rows_def split: prod.splits sum.splits)

lemma ops_frame:
  fixes s :: "('t, 'row, 'c) fetch_run"
  assumes "settle_all m ps s = (x, s')"
  shows "fr_pending s' = fr_pending s \<and> fr_index s' = fr_index s \<and> fr_stop s' = fr_stop s \<and>
    fr_opened s' = fr_opened s \<and> fr_waits s' = fr_waits s"
  using assms
proof (induction ps arbitrary: s)
  case (Cons p ps)
  then show ?case by (auto simp: seq_comp_def split: prod.splits sum.splits dest!: op_frame Cons.IH)
qed simp

abbreviation core :: "('t, 'row, 'c) fetch_run \<Rightarrow> ('row, 'c) module_run" where
  "core s \<equiv> module_run.truncate s"

lemma op_core: "settle_op m p (core s) = apsnd core (settle_op m p s)"
  by (cases p)
     (auto simp: settle_result_def record_skip_def seq_comp_def in_context_def log_rows_def module_run.defs split: prod.splits sum.splits)

lemma ops_core: "settle_all m ps (core s) = apsnd core (settle_all m ps s)"
  by (induction ps arbitrary: s) (auto simp: seq_comp_def op_core split: prod.splits sum.splits)

lemma core_update [simp]:
  "core (s\<lparr>fr_pending := p\<rparr>) = core s" "core (s\<lparr>fr_index := i\<rparr>) = core s" "core (s\<lparr>fr_stop := b\<rparr>) = core s"
  "core (s\<lparr>fr_opened := b\<rparr>) = core s" "core (s\<lparr>fr_waits := w\<rparr>) = core s"
  by (simp_all add: module_run.defs)

lemma collect_one_frame:
  assumes "collect_one m tasks f s = (x, s')"
  shows "fr_pending s' = remove1 f (fr_pending s) \<and> (fr_index s' = fr_index s \<or> fr_index s' = length tasks) \<and> fr_waits s' = fr_waits s"
  using assms unfolding collect_one_def open_circuit_def skip_all_settles Let_def
  by (auto simp: seq_comp_def simp flip: settle_op.simps split: if_splits prod.splits sum.splits dest!: op_frame ops_frame)

lemma collect_done_frame:
  "collect_done m tasks fs s = (Inr u, s') \<Longrightarrow>
   fr_pending s' = fold remove1 fs (fr_pending s) \<and> (fr_index s' = fr_index s \<or> fr_index s' = length tasks)"
proof (induction fs arbitrary: s)
  case (Cons f fs)
  then show ?case by (auto simp: seq_comp_def split: prod.splits sum.splits dest!: collect_one_frame Cons.IH)
qed simp

lemma length_fold_remove1: "length (fold remove1 fs xs) \<le> length xs"
proof (induction fs arbitrary: xs)
  case (Cons f fs)
  have "length (fold remove1 fs (remove1 f xs)) \<le> length (remove1 f xs)" by (rule Cons.IH)
  also have "\<dots> \<le> length xs" by (simp add: length_remove1)
  finally show ?case by simp
qed simp

lemma length_fold_remove1_less:
  assumes "fs \<noteq> []" and "hd fs \<in> set xs"
  shows "length (fold remove1 fs xs) < length xs"
proof -
  obtain f fs' where fs: "fs = f # fs'" "f \<in> set xs" using assms by (cases fs) auto
  have "length (fold remove1 fs' (remove1 f xs)) \<le> length (remove1 f xs)" by (rule length_fold_remove1)
  also have "\<dots> < length xs" using fs(2) by (auto simp: length_remove1 dest: length_pos_if_in_set)
  finally show ?thesis by (simp add: fs)
qed

lemma done_round_pending: "fr_pending s \<noteq> [] \<Longrightarrow> done_round e s \<noteq> [] \<and> set (done_round e s) \<subseteq> set (fr_pending s)"
  by (auto simp: done_round_def Let_def)

lemma submit_measure:
  "2 * (length tasks - fr_index (submit_until_target tasks s)) + length (fr_pending (submit_until_target tasks s))
     \<le> 2 * (length tasks - fr_index s) + length (fr_pending s)"
proof (induction tasks s rule: submit_until_target.induct)
  case (1 tasks s)
  show ?case
  proof (cases "\<not> fr_stop s \<and> fr_index s < length tasks \<and> length (fr_pending s) < target_workers (mr_policy s)")
    case True
    then show ?thesis
      unfolding submit_until_target.simps [of tasks s] if_P [OF True] using 1 [OF True]
      by (elim order_trans) (simp; arith)
  next
    case False
    then show ?thesis unfolding submit_until_target.simps [of tasks s] if_not_P [OF False] by simp
  qed
qed

text \<open>The loop over the pending futures.\<close>

function fetch_loop :: "('t, 'd, 'row, 'c) ak_module \<Rightarrow> 't waits \<Rightarrow> 't list \<Rightarrow> ('t, 'row, 'c) fetch_run \<Rightarrow> (ak_raise + unit) \<times> ('t, 'row, 'c) fetch_run" where
  "fetch_loop m e tasks s =
     (if fr_pending s = [] then (Inr (), s)
      else
        (case collect_done m tasks (done_round e s) (s\<lparr>fr_waits := Suc (fr_waits s)\<rparr>) of
           (Inl x, s') \<Rightarrow> (Inl x, s')
         | (Inr _, s') \<Rightarrow> fetch_loop m e tasks (submit_until_target tasks s')))"
  by pat_completeness auto
termination
proof (relation "measure (\<lambda>(m, e, tasks, s). 2 * (length tasks - fr_index s) + length (fr_pending s))", goal_cases)
  case (2 m e tasks s r s' u)
  then have run: "collect_done m tasks (done_round e s) (s\<lparr>fr_waits := Suc (fr_waits s)\<rparr>) = (Inr u, s')" by auto
  from collect_done_frame [OF run] have p: "fr_pending s' = fold remove1 (done_round e s) (fr_pending s)"
    and i: "fr_index s' = fr_index s \<or> fr_index s' = length tasks" by auto
  have "hd (done_round e s) \<in> set (fr_pending s)" and "done_round e s \<noteq> []"
    using done_round_pending [OF 2(1), of e] by (meson hd_in_set subsetD, simp)
  then have "length (fr_pending s') < length (fr_pending s)" by (simp add: p length_fold_remove1_less)
  with i submit_measure [of tasks s'] show ?case by auto
qed simp

declare fetch_loop.simps [simp del]

definition start_fetches :: "('row, 'c) module_run \<Rightarrow> ('t, 'row, 'c) fetch_run" where
  "start_fetches s = module_run.extend s (fetch_run.fields [] 0 False False 0)"

definition run_concurrent_fetches :: "('t, 'd, 'row, 'c) ak_module \<Rightarrow> 't waits \<Rightarrow> 't list \<Rightarrow> ('row, 'c) module_run \<Rightarrow> (ak_raise + unit) \<times> ('row, 'c) module_run" where
  "run_concurrent_fetches m e tasks s =
     apsnd module_run.truncate (fetch_loop m e tasks (submit_until_target tasks (start_fetches s)))"

definition start_run :: "nat \<Rightarrow> concurrency_policy \<Rightarrow> 'c \<Rightarrow> ('row, 'c) module_run" where
  "start_run n policy c =
     \<lparr>mr_context = c, mr_records = [],
      mr_progress = \<lparr>pg_total = n, pg_processed = 0, pg_success = 0, pg_failed = 0, pg_skipped = 0\<rparr>, mr_policy = policy\<rparr>"

text \<open>The tasks of a module under its policy.\<close>

definition run_tasks :: "('t, 'd, 'row, 'c) ak_module \<Rightarrow> 't waits \<Rightarrow> 't list \<Rightarrow> ('row, 'c) module_run \<Rightarrow> (ak_raise + unit) \<times> ('row, 'c) module_run" where
  "run_tasks m e tasks s =
     (if pol_workers (mr_policy s) \<le> 1 then run_sequential m 0 tasks s else run_concurrent_fetches m e tasks s)"

text \<open>\<open>_run_module\<close>: the records and the number of successes.\<close>

definition run_module :: "('t, 'd, 'row, 'c) ak_module \<Rightarrow> 't waits \<Rightarrow> ak_request \<Rightarrow> 'c \<Rightarrow> (ak_raise + 'row list \<times> nat) \<times> 'c" where
  "run_module m e rq =
     seq_comp (am_plan m rq)
       (\<lambda>tasks. seq_comp (am_prefilter m tasks)
         (\<lambda>selected. seq_comp (am_concurrency m rq)
           (\<lambda>policy c.
              case run_tasks m e selected (start_run (length selected) policy c) of
                (Inl x, s) \<Rightarrow> (Inl x, mr_context s)
              | (Inr _, s) \<Rightarrow>
                  seq_comp (am_after_completed m rq (mr_progress s))
                    (\<lambda>_ c. (Inr (mr_records s, pg_success (mr_progress s)), c)) (mr_context s))))"

section \<open>Targets\<close>

record ak_spec =
  sp_target :: string
  sp_order :: nat
  sp_supports_adjustment :: bool
  sp_supports_period :: bool
  sp_supports_market :: bool
  sp_included_in_all :: bool

definition plain_spec :: "string \<Rightarrow> nat \<Rightarrow> ak_spec" where
  "plain_spec target order = \<lparr>sp_target = target, sp_order = order, sp_supports_adjustment = False,
     sp_supports_period = False, sp_supports_market = False, sp_included_in_all = True\<rparr>"

definition build_specs :: "ak_spec list" where
  "build_specs =
     [plain_spec ''valuation'' 10, plain_spec ''capital_structure'' 20,
      (plain_spec ''delist'' 30)\<lparr>sp_supports_market := True\<rparr>, plain_spec ''spot_quote'' 40,
      (plain_spec ''report_disclosure'' 50)\<lparr>sp_supports_period := True, sp_supports_market := True\<rparr>,
      (plain_spec ''yysj_em'' 60)\<lparr>sp_supports_period := True, sp_supports_market := True\<rparr>,
      (plain_spec ''yjyg_em'' 70)\<lparr>sp_supports_period := True\<rparr>, plain_spec ''financial_report'' 80,
      (plain_spec ''daily_bar'' 90)\<lparr>sp_supports_adjustment := True\<rparr>]"

definition ordered_specs :: "ak_spec list" where
  "ordered_specs = sort_key sp_order build_specs"

definition target_choices :: "bool \<Rightarrow> string list" where
  "target_choices include_all = map sp_target ordered_specs @ (if include_all then [''all''] else [])"

definition spec_for_target :: "string \<Rightarrow> ak_raise + ak_spec" where
  "spec_for_target target =
     (case find (\<lambda>s. sp_target s = target) build_specs of
        None \<Rightarrow> Inl (ValueRaised (''Unsupported AkShare update target: '' @ target))
      | Some s \<Rightarrow> Inr s)"

definition modules_for_target :: "string \<Rightarrow> ak_raise + string list" where
  "modules_for_target target =
     (if target = ''all'' then Inr (map sp_target (filter sp_included_in_all ordered_specs))
      else bind_res (spec_for_target target) (\<lambda>s. Inr [sp_target s]))"

definition validate_request_target_options :: "ak_request \<Rightarrow> ak_raise + unit" where
  "validate_request_target_options rq =
     bind_res (if rq_target rq = ''all'' then Inr None else bind_res (spec_for_target (rq_target rq)) (\<lambda>s. Inr (Some s)))
       (\<lambda>spec.
          let supports = (\<lambda>f. case spec of None \<Rightarrow> False | Some s \<Rightarrow> f s)
          in if rq_adjustment rq \<noteq> None \<and> \<not> supports sp_supports_adjustment
             then Inl (ValueRaised ''--adjustment is only valid for --target daily_bar'')
             else if rq_periods rq \<noteq> [] \<and> \<not> supports sp_supports_period
             then Inl (ValueRaised ''--period is only valid for --target report_disclosure, yysj_em, or yjyg_em'')
             else if rq_market rq \<noteq> None \<and> \<not> supports sp_supports_market
             then Inl (ValueRaised ''--market is only valid for --target delist, report_disclosure, or yysj_em'')
             else Inr ())"

section \<open>The update\<close>

text \<open>The lock file, with the text of its owner, and what the run works on.\<close>

record 'c ak_update =
  au_lock :: "string option"
  au_context :: 'c

record ('t, 'd, 'row, 'c) ak_env =
  ae_owner :: string
  ae_load_lookup :: "'c \<Rightarrow> (ak_raise + unit) \<times> 'c"
  ae_open_client :: "ak_request \<Rightarrow> 'c \<Rightarrow> (ak_raise + unit) \<times> 'c"
  ae_module :: "string \<Rightarrow> ('t, 'd, 'row, 'c) ak_module"
  ae_waits :: "string \<Rightarrow> 't waits"
  ae_finish :: "'c \<Rightarrow> (ak_raise + unit) \<times> 'c"
  ae_build_views :: "bool \<Rightarrow> 'c \<Rightarrow> (ak_raise + unit) \<times> 'c"

definition acquire_update_lock :: "string \<Rightarrow> ak_request \<Rightarrow> 'c ak_update \<Rightarrow> (ak_raise + bool) \<times> 'c ak_update" where
  "acquire_update_lock owner_text rq s =
     (if rq_target rq \<notin> {''financial_report'', ''all''} then (Inr False, s)
      else
        (case au_lock s of
           Some holder \<Rightarrow> (Inl (RuntimeRaised (''AkShare financial_report update is already running: '' @ py_strip holder)), s)
         | None \<Rightarrow> (Inr True, s\<lparr>au_lock := Some owner_text\<rparr>)))"

definition release_update_lock :: "bool \<Rightarrow> 'c ak_update \<Rightarrow> 'c ak_update" where
  "release_update_lock held s = (if held then s\<lparr>au_lock := None\<rparr> else s)"

definition uses_checkpoint_lookup :: "ak_request \<Rightarrow> bool" where
  "uses_checkpoint_lookup rq = (\<not> (rq_target rq = ''financial_report'' \<and> rq_mode rq = ''full''))"

text \<open>The modules of the target, one after the other.\<close>

fun run_modules :: "('t, 'd, 'row, 'c) ak_env \<Rightarrow> ak_request \<Rightarrow> string list \<Rightarrow> 'c \<Rightarrow> (ak_raise + 'row list \<times> nat) \<times> 'c" where
  "run_modules env rq [] c = (Inr ([], 0), c)"
| "run_modules env rq (t # ts) c =
     seq_comp (run_module (ae_module env t) (ae_waits env t) rq)
       (\<lambda>(rows, n). seq_comp (run_modules env rq ts) (\<lambda>(rows', n') c. (Inr (rows @ rows', n + n'), c))) c"

definition update_body :: "('t, 'd, 'row, 'c) ak_env \<Rightarrow> ak_request \<Rightarrow> 'c \<Rightarrow> (ak_raise + 'row list \<times> nat) \<times> 'c" where
  "update_body env rq =
     seq_comp (\<lambda>c. if rq_resume rq \<and> \<not> rq_force rq \<and> uses_checkpoint_lookup rq then ae_load_lookup env c else (Inr (), c))
       (\<lambda>_. seq_comp (ae_open_client env rq)
       (\<lambda>_. seq_comp (lift_res (modules_for_target (rq_target rq)))
         (\<lambda>targets. seq_comp (run_modules env rq targets)
           (\<lambda>out. seq_comp (ae_finish env) (\<lambda>_ c. (Inr out, c))))))"

definition update_akshare_impl :: "('t, 'd, 'row, 'c) ak_env \<Rightarrow> ak_request \<Rightarrow> 'c ak_update \<Rightarrow> (ak_raise + 'row list) \<times> 'c ak_update" where
  "update_akshare_impl env rq s =
     (case validate_request_target_options rq of
        Inl x \<Rightarrow> (Inl x, s)
      | Inr _ \<Rightarrow>
          (case acquire_update_lock (ae_owner env) rq s of
             (Inl x, s1) \<Rightarrow> (Inl x, s1)
           | (Inr held, s1) \<Rightarrow>
               (case update_body env rq (au_context s1) of
                  (Inl x, c) \<Rightarrow> (Inl x, release_update_lock held (s1\<lparr>au_context := c\<rparr>))
                | (Inr (records, n), c) \<Rightarrow>
                    (let s2 = release_update_lock held (s1\<lparr>au_context := c\<rparr>)
                     in if rq_build_views rq
                        then (case ae_build_views env (0 < n) (au_context s2) of
                                (Inl x, c') \<Rightarrow> (Inl x, s2\<lparr>au_context := c'\<rparr>)
                              | (Inr _, c') \<Rightarrow> (Inr records, s2\<lparr>au_context := c'\<rparr>))
                        else (Inr records, s2)))))"

section \<open>Properties\<close>

definition controller_ok :: "adaptive_controller \<Rightarrow> bool" where
  "controller_ok c \<longleftrightarrow> 1 \<le> ac_target_workers c \<and> ac_target_workers c \<le> ac_max_workers c"

lemma new_controller_ok: "controller_ok (new_controller w)"
  by (simp add: controller_ok_def new_controller_def Let_def)

lemma record_fetch_result_ok: "controller_ok c \<Longrightarrow> controller_ok (record_fetch_result b c) \<and> ac_max_workers (record_fetch_result b c) = ac_max_workers c"
  by (auto simp: controller_ok_def record_fetch_result_def decrease_def increase_def Let_def)

definition policy_ok :: "concurrency_policy \<Rightarrow> bool" where
  "policy_ok p \<longleftrightarrow> (case pol_controller p of None \<Rightarrow> 1 \<le> pol_workers p | Some c \<Rightarrow> controller_ok c)"

lemma policy_record_ok [simp]: "policy_ok p \<Longrightarrow> policy_ok (policy_record b p)"
  by (auto simp: policy_ok_def policy_record_def record_fetch_result_ok split: option.splits)

lemma policy_record_stop [simp]: "pol_stop_on_circuit_open (policy_record b p) = pol_stop_on_circuit_open p"
  by (simp add: policy_record_def)

lemma policy_target: "policy_ok p \<Longrightarrow> 0 < target_workers p"
  by (auto simp: policy_ok_def target_workers_def controller_ok_def split: option.splits)

text \<open>The policy after some settlements.\<close>

lemma op_policy: "settle_op m p s = (x, s') \<Longrightarrow> mr_policy s' = mr_policy s \<or> (\<exists>b. mr_policy s' = policy_record b (mr_policy s))"
  by (cases p) (auto simp: settle_result_def record_skip_def seq_comp_def in_context_def log_rows_def split: prod.splits sum.splits)

definition same_policy :: "concurrency_policy \<Rightarrow> concurrency_policy \<Rightarrow> bool" where
  "same_policy p q \<longleftrightarrow> pol_stop_on_circuit_open q = pol_stop_on_circuit_open p \<and> (policy_ok p \<longrightarrow> policy_ok q)"

lemma ops_policy: "settle_all m ps s = (x, s') \<Longrightarrow> same_policy (mr_policy s) (mr_policy s')"
proof (induction ps arbitrary: s)
  case (Cons p ps)
  have "settle_op m p s = (y, t) \<Longrightarrow> same_policy (mr_policy s) (mr_policy t)" for y t
    by (drule op_policy) (auto simp: same_policy_def)
  with Cons show ?case by (auto simp: seq_comp_def same_policy_def split: prod.splits sum.splits)
qed (simp add: same_policy_def)

text \<open>What a run has done so far: the settlements that gave its state.\<close>

definition answer_of :: "('t, 'd, 'row, 'c) ak_module \<Rightarrow> 't list \<Rightarrow> ('t, 'd) settlement \<Rightarrow> bool" where
  "answer_of m tasks p = (case p of
     Recorded t r \<Rightarrow> (\<exists>k < length tasks. tasks ! k = t \<and> r = future_result m (k, t))
   | SkippedOpen t \<Rightarrow> True)"

lemma answer_of_skipped [simp]: "answer_of m tasks (SkippedOpen t)"
  by (simp add: answer_of_def)

fun opened_by :: "('t, 'd) settlement \<Rightarrow> bool" where
  "opened_by (Recorded t r) = is_circuit_open r"
| "opened_by (SkippedOpen t) = False"

definition run_inv :: "('t, 'd, 'row, 'c) ak_module \<Rightarrow> 't list \<Rightarrow> ('row, 'c) module_run \<Rightarrow> ('t, 'd) settlement list \<Rightarrow> ('t, 'row, 'c) fetch_run \<Rightarrow> bool" where
  "run_inv m tasks s0 ps s \<longleftrightarrow>
     settle_all m ps s0 = (Inr (), core s) \<and>
     mset (map settled_task ps) + mset (map snd (fr_pending s)) + mset (drop (fr_index s) tasks) = mset tasks \<and>
     fr_opened s = fr_stop s \<and> (fr_stop s \<longrightarrow> fr_index s = length tasks) \<and>
     (\<forall>k t. (k, t) \<in> set (fr_pending s) \<longrightarrow> k < length tasks \<and> tasks ! k = t) \<and>
     (\<forall>p \<in> set ps. answer_of m tasks p) \<and>
     (pol_stop_on_circuit_open (mr_policy s0) \<longrightarrow> length (filter opened_by ps) = (if fr_opened s then 1 else 0)) \<and>
     (\<not> pol_stop_on_circuit_open (mr_policy s0) \<longrightarrow> \<not> fr_opened s) \<and>
     (\<forall>t. SkippedOpen t \<in> set ps \<longrightarrow> fr_opened s)"

lemma submit_inv: "run_inv m tasks s0 ps s \<Longrightarrow> run_inv m tasks s0 ps (submit_until_target tasks s)"
proof (induction tasks s rule: submit_until_target.induct)
  case (1 tasks s)
  show ?case
  proof (cases "\<not> fr_stop s \<and> fr_index s < length tasks \<and> length (fr_pending s) < target_workers (mr_policy s)")
    case True
    then have d: "drop (fr_index s) tasks = tasks ! fr_index s # drop (Suc (fr_index s)) tasks" by (simp add: Cons_nth_drop_Suc)
    show ?thesis
      unfolding submit_until_target.simps [of tasks s] if_P [OF True]
      by (rule 1(1) [OF True], use 1(2) True d in \<open>auto simp: run_inv_def\<close>)
  next
    case False
    then show ?thesis unfolding submit_until_target.simps [of tasks s] if_not_P [OF False] using 1(2) by simp
  qed
qed

lemma submit_saturates:
  "policy_ok (mr_policy s) \<Longrightarrow> run_inv m tasks s0 ps s \<Longrightarrow> fr_pending (submit_until_target tasks s) = [] \<Longrightarrow>
   length tasks \<le> fr_index (submit_until_target tasks s)"
proof (induction tasks s rule: submit_until_target.induct)
  case (1 tasks s)
  show ?case
  proof (cases "\<not> fr_stop s \<and> fr_index s < length tasks \<and> length (fr_pending s) < target_workers (mr_policy s)")
    case True
    then have d: "drop (fr_index s) tasks = tasks ! fr_index s # drop (Suc (fr_index s)) tasks" by (simp add: Cons_nth_drop_Suc)
    show ?thesis
      unfolding submit_until_target.simps [of tasks s] if_P [OF True]
      by (rule 1(1) [OF True], use 1(2-) True d in \<open>auto simp: run_inv_def submit_until_target.simps [of tasks s]\<close>)
  next
    case False
    then show ?thesis
      using 1(2-) policy_target [of "mr_policy s"] unfolding submit_until_target.simps [of tasks s] if_not_P [OF False]
      by (auto simp: run_inv_def)
  qed
qed


lemma settle_snoc: "settle_all m ps s0 = (Inr (), core s) \<Longrightarrow> settle_op m p s = (x, s') \<Longrightarrow> settle_all m (ps @ [p]) s0 = (x, core s')"
  using op_core [of m p s] by (cases x) (auto simp: settle_all_append seq_comp_def)

lemma settle_snocs:
  "settle_all m ps s0 = (Inr (), core s) \<Longrightarrow> settle_all m qs s = (x, s') \<Longrightarrow> settle_all m (ps @ qs) s0 = (x, core s')"
  using ops_core [of m qs s] by (auto simp: settle_all_append seq_comp_def)

lemma mset_pending:
  "f \<in> set p \<Longrightarrow> mset (map snd p) = add_mset (snd f) (mset (map snd (remove1 f p)))"
  by (metis image_mset_add_mset insert_DiffM mset_map mset_remove1 set_mset_mset)

lemma settled_skipped [simp]: "settled_task \<circ> SkippedOpen = id"
  by (simp add: fun_eq_iff)

lemma settled_skipped_mset [simp]: "image_mset settled_task (image_mset SkippedOpen M) = M"
  by (simp add: multiset.map_comp)

lemma collect_one_inv:
  assumes inv: "run_inv m tasks s0 ps s" and mem: "f \<in> set (fr_pending s)"
  shows "wp (collect_one m tasks f) s
    (\<lambda>_ s'. \<exists>qs. run_inv m tasks s0 qs s')
    (\<lambda>x s'. \<exists>qs. settle_all m qs s0 = (Inl x, core s') \<and> mset (map settled_task qs) \<subseteq># mset tasks)"
proof -
  obtain k t where f: "f = (k, t)" by force
  define s1 where "s1 = s\<lparr>fr_pending := remove1 f (fr_pending s)\<rparr>"
  define r where "r = future_result m f"
  have c1: "core s1 = core s" by (simp add: s1_def)
  have run: "settle_all m ps s0 = (Inr (), core s1)" using inv by (simp add: run_inv_def c1)
  have k: "k < length tasks" "tasks ! k = t" using inv mem by (auto simp: run_inv_def f)
  have ms: "add_mset t (mset (map settled_task ps)) + mset (map snd (fr_pending s1)) + mset (drop (fr_index s1) tasks) = mset tasks"
    using inv mset_pending [OF mem] by (simp add: run_inv_def s1_def f)
  have sub: "add_mset t (mset (map settled_task ps)) \<subseteq># mset tasks" by (metis (no_types, lifting) ms mset_subset_eq_add_left union_assoc)
  have inv1: "fr_opened s1 = fr_stop s1" "fr_stop s1 \<longrightarrow> fr_index s1 = length tasks"
    "\<forall>k t. (k, t) \<in> set (fr_pending s1) \<longrightarrow> k < length tasks \<and> tasks ! k = t" "\<forall>p \<in> set ps. answer_of m tasks p"
    "pol_stop_on_circuit_open (mr_policy s0) \<longrightarrow> length (filter opened_by ps) = (if fr_opened s1 then 1 else 0)"
    "\<not> pol_stop_on_circuit_open (mr_policy s0) \<longrightarrow> \<not> fr_opened s1"
    "\<forall>t. SkippedOpen t \<in> set ps \<longrightarrow> fr_opened s1"
    using inv by (auto simp: run_inv_def s1_def dest: in_set_remove1 notin_set_remove1)
  have stop: "pol_stop_on_circuit_open (mr_policy s') = pol_stop_on_circuit_open (mr_policy s0)"
    if "settle_all m qs s0 = (x, core s')" for qs x s'
    using ops_policy [OF that] by (simp add: same_policy_def module_run.defs)
  show ?thesis
  proof (cases "fr_opened s1 \<and> is_circuit_open r")
    case True
    obtain x s2 where op: "settle_op m (SkippedOpen t) s1 = (x, s2)" by force
    from settle_snoc [OF run op] have run2: "settle_all m (ps @ [SkippedOpen t]) s0 = (x, core s2)" .
    have "wp (collect_one m tasks f) s Q E \<longleftrightarrow> (case x of Inr u \<Rightarrow> Q u s2 | Inl e \<Rightarrow> E e s2)" for Q E
      using True op by (simp add: wp_def collect_one_def Let_def f s1_def r_def)
    moreover have "run_inv m tasks s0 (ps @ [SkippedOpen t]) s2" if "x = Inr ()"
      using run2 that ms inv1 True op_frame [OF op] by (auto simp: run_inv_def)
    ultimately show ?thesis using run2 sub by (cases x) (auto intro!: exI [of _ "ps @ [SkippedOpen t]"])
  next
    case False
    obtain x s2 where op: "settle_op m (Recorded t r) s1 = (x, s2)" by force
    from settle_snoc [OF run op] have run2: "settle_all m (ps @ [Recorded t r]) s0 = (x, core s2)" .
    have ans: "answer_of m tasks (Recorded t r)" using k by (auto simp: answer_of_def r_def f)
    show ?thesis
    proof (cases x)
      case (Inl e)
      then show ?thesis
        using False op run2 sub by (auto simp: wp_def collect_one_def Let_def f s1_def r_def seq_comp_def intro!: exI [of _ "ps @ [Recorded t r]"])
    next
      case (Inr u)
      show ?thesis
      proof (cases "pol_stop_on_circuit_open (mr_policy s2) \<and> is_circuit_open r")
        case True
        define s3 where "s3 = s2\<lparr>fr_opened := True, fr_stop := True, fr_index := length tasks\<rparr>"
        have run3: "settle_all m (ps @ [Recorded t r]) s0 = (Inr (), core s3)" using run2 Inr by (simp add: s3_def)
        let ?skips = "map SkippedOpen (drop (fr_index s1) tasks)"
        obtain y s4 where skips: "settle_all m ?skips s3 = (y, s4)" by force
        from settle_snocs [OF run3 skips] have run4: "settle_all m ((ps @ [Recorded t r]) @ ?skips) s0 = (y, core s4)" .
        have wp: "wp (collect_one m tasks f) s Q E \<longleftrightarrow> (case y of Inr u \<Rightarrow> Q u s4 | Inl e \<Rightarrow> E e s4)" for Q E
          using False True op skips Inr op_frame [OF op]
          by (simp add: wp_def collect_one_def Let_def f s1_def r_def seq_comp_def open_circuit_def skip_all_settles s3_def)
        have st: "map settled_task ?skips = drop (fr_index s1) tasks" by simp
        have no: "filter opened_by ?skips = []" by (auto simp: filter_empty_conv)
        have "run_inv m tasks s0 ((ps @ [Recorded t r]) @ ?skips) s4" if "y = Inr ()"
          using run4 that ms inv1 ans False True ops_frame [OF skips] op_frame [OF op] st no stop [OF run2]
          by (auto simp: run_inv_def s3_def answer_of_def ac_simps)
        moreover have "mset (map settled_task ((ps @ [Recorded t r]) @ ?skips)) + mset (map snd (fr_pending s1)) = mset tasks"
          using ms by (simp add: ac_simps)
        then have "mset (map settled_task ((ps @ [Recorded t r]) @ ?skips)) \<subseteq># mset tasks" by (metis mset_subset_eq_add_left)
        ultimately show ?thesis using run4 unfolding wp by (cases y) (auto intro!: exI [of _ "(ps @ [Recorded t r]) @ ?skips"])
      next
        case F2: False
        have wp: "wp (collect_one m tasks f) s Q E \<longleftrightarrow> Q () s2" for Q :: "unit \<Rightarrow> _" and E
          using False F2 op Inr by (auto simp: wp_def collect_one_def Let_def f s1_def r_def seq_comp_def)
        have "run_inv m tasks s0 (ps @ [Recorded t r]) s2"
          using run2 Inr ms inv1 ans F2 op_frame [OF op] stop [OF run2] by (auto simp: run_inv_def)
        then show ?thesis unfolding wp by blast
      qed
    qed
  qed
qed


definition raised_by :: "('t, 'd, 'row, 'c) ak_module \<Rightarrow> 't list \<Rightarrow> ('row, 'c) module_run \<Rightarrow> ak_raise \<Rightarrow> ('t, 'row, 'c) fetch_run \<Rightarrow> bool" where
  "raised_by m tasks s0 x s' \<longleftrightarrow> (\<exists>qs. settle_all m qs s0 = (Inl x, core s') \<and> mset (map settled_task qs) \<subseteq># mset tasks)"

lemma collect_done_inv:
  assumes "run_inv m tasks s0 ps s" and "set fs \<subseteq> set (fr_pending s)" and "distinct fs"
  shows "wp (collect_done m tasks fs) s (\<lambda>_ s'. \<exists>qs. run_inv m tasks s0 qs s') (raised_by m tasks s0)"
  using assms
proof (induction fs arbitrary: s ps)
  case (Cons f fs)
  have "wp (collect_one m tasks f) s
      (\<lambda>_ s'. (\<exists>qs. run_inv m tasks s0 qs s') \<and> fr_pending s' = remove1 f (fr_pending s)) (raised_by m tasks s0)"
    using collect_one_inv [OF Cons.prems(1), of f] Cons.prems(2) collect_one_frame [of m tasks f s]
    by (cases "collect_one m tasks f s") (auto simp: wp_def raised_by_def split: sum.splits)
  moreover have "collect_done m tasks (f # fs) = seq_comp (collect_one m tasks f) (\<lambda>_. collect_done m tasks fs)"
    by (rule ext) simp
  moreover have "set fs \<subseteq> set (remove1 f (fr_pending s))"
    using Cons.prems(2,3) by (metis distinct.simps(2) in_set_remove1 list.set_intros(2) subset_code(1))
  ultimately show ?case
    using Cons.prems(3) by (auto elim!: wp_mono intro!: Cons.IH)
qed (auto simp: wp_def)

lemma fetch_loop_inv:
  assumes "run_inv m tasks s0 ps s" and "policy_ok (mr_policy s0)" and "fr_pending s = [] \<longrightarrow> length tasks \<le> fr_index s"
  shows "wp (fetch_loop m e tasks) s
    (\<lambda>_ s'. \<exists>qs. run_inv m tasks s0 qs s' \<and> mset (map settled_task qs) = mset tasks) (raised_by m tasks s0)"
  using assms
proof (induction m e tasks s arbitrary: ps rule: fetch_loop.induct)
  case (1 m e tasks s)
  show ?case
  proof (cases "fr_pending s = []")
    case True
    then show ?thesis using 1(2,4) by (auto simp: wp_def fetch_loop.simps [of m e tasks s] run_inv_def)
  next
    case False
    let ?s = "s\<lparr>fr_waits := Suc (fr_waits s)\<rparr>"
    have inv: "run_inv m tasks s0 ps ?s" using 1(2) by (auto simp: run_inv_def)
    have fs: "set (done_round e s) \<subseteq> set (fr_pending ?s)" "distinct (done_round e s)"
      using done_round_pending [OF False] by (auto simp: done_round_def Let_def)
    obtain x s' where run: "collect_done m tasks (done_round e s) ?s = (x, s')" by force
    note collected = collect_done_inv [OF inv fs]
    show ?thesis
    proof (cases x)
      case (Inl err)
      then show ?thesis using collected run False by (simp add: wp_def fetch_loop.simps [of m e tasks s])
    next
      case (Inr u)
      with collected run obtain qs where inv': "run_inv m tasks s0 qs s'" by (auto simp: wp_def)
      then have "same_policy (mr_policy s0) (mr_policy s')" using ops_policy [of m qs s0] by (simp add: run_inv_def module_run.defs)
      then have "policy_ok (mr_policy s')" using 1(3) by (simp add: same_policy_def)
      from submit_saturates [OF this inv'] submit_inv [OF inv']
      have "wp (fetch_loop m e tasks) (submit_until_target tasks s')
          (\<lambda>_ s'. \<exists>qs. run_inv m tasks s0 qs s' \<and> mset (map settled_task qs) = mset tasks) (raised_by m tasks s0)"
        using 1(1) [OF False run [symmetric] Inr, of qs] 1(3) by simp
      then show ?thesis using run False Inr by (simp add: wp_def fetch_loop.simps [of m e tasks s])
    qed
  qed
qed


text \<open>What the settlements of a finished run are.\<close>

definition settles :: "('t, 'd, 'row, 'c) ak_module \<Rightarrow> 't list \<Rightarrow> bool \<Rightarrow> ('t, 'd) settlement list \<Rightarrow> bool" where
  "settles m tasks stop ps \<longleftrightarrow>
     mset (map settled_task ps) = mset tasks \<and> (\<forall>p \<in> set ps. answer_of m tasks p) \<and>
     (stop \<longrightarrow> length (filter opened_by ps) \<le> 1) \<and>
     (\<forall>t. SkippedOpen t \<in> set ps \<longrightarrow> stop \<and> (\<exists>p \<in> set ps. opened_by p))"

lemma run_concurrent_settles:
  assumes "policy_ok (mr_policy s0)"
  shows "case run_concurrent_fetches m e tasks s0 of
      (Inr _, s') \<Rightarrow> \<exists>ps. settle_all m ps s0 = (Inr (), s') \<and> settles m tasks (pol_stop_on_circuit_open (mr_policy s0)) ps
    | (Inl x, s') \<Rightarrow> \<exists>ps. settle_all m ps s0 = (Inl x, s') \<and> mset (map settled_task ps) \<subseteq># mset tasks"
proof -
  have c: "core (start_fetches s0) = s0" by (simp add: start_fetches_def module_run.defs fetch_run.defs)
  have p: "mr_policy (start_fetches s0) = mr_policy s0" by (simp add: start_fetches_def module_run.defs)
  have start: "run_inv m tasks s0 [] (start_fetches s0)"
    using c by (simp add: run_inv_def start_fetches_def module_run.defs fetch_run.defs)
  have loop: "wp (fetch_loop m e tasks) (submit_until_target tasks (start_fetches s0))
    (\<lambda>_ s'. \<exists>qs. run_inv m tasks s0 qs s' \<and> mset (map settled_task qs) = mset tasks) (raised_by m tasks s0)"
    by (rule fetch_loop_inv [OF submit_inv [OF start] assms], rule impI, rule submit_saturates [OF _ start])
       (simp_all add: assms p)
  have settled: "settle_all m qs s0 = (Inr (), core s') \<and> settles m tasks (pol_stop_on_circuit_open (mr_policy s0)) qs"
    if "run_inv m tasks s0 qs s'" "mset (map settled_task qs) = mset tasks" for qs s'
    using that by (auto simp: run_inv_def settles_def filter_eq_Cons_iff length_Suc_conv split: if_splits)
  obtain x s' where run: "fetch_loop m e tasks (submit_until_target tasks (start_fetches s0)) = (x, s')" by force
  show ?thesis
  proof (cases x)
    case (Inl err)
    then show ?thesis using loop by (simp add: wp_def run run_concurrent_fetches_def raised_by_def)
  next
    case (Inr u)
    then obtain qs where "run_inv m tasks s0 qs s'" "mset (map settled_task qs) = mset tasks" using loop by (auto simp: wp_def run)
    from settled [OF this] show ?thesis using Inr by (auto simp: run run_concurrent_fetches_def)
  qed
qed

lemma run_sequential_settles:
  assumes "ts = drop k tasks" and "k \<le> length tasks"
  shows "case run_sequential m k ts s0 of
      (Inr _, s') \<Rightarrow> \<exists>ps. settle_all m ps s0 = (Inr (), s') \<and> mset (map settled_task ps) = mset ts \<and>
        (\<forall>p \<in> set ps. answer_of m tasks p) \<and>
        (pol_stop_on_circuit_open (mr_policy s0) \<longrightarrow> length (filter opened_by ps) \<le> 1) \<and>
        (\<forall>t. SkippedOpen t \<in> set ps \<longrightarrow> pol_stop_on_circuit_open (mr_policy s0) \<and> (\<exists>p \<in> set ps. opened_by p))
    | (Inl x, s') \<Rightarrow> \<exists>ps. mset (map settled_task ps) \<subseteq># mset ts \<and>
        (settle_all m ps s0 = (Inl x, s') \<or>
         settle_all m ps s0 = (Inr (), s') \<and> (\<exists>j < length tasks. am_fetch m j (tasks ! j) = Inl x))"
  using assms
proof (induction ts arbitrary: k s0)
  case Nil
  then show ?case by (auto intro!: exI [of _ "[]"])
next
  case (Cons t ts)
  have k: "k < length tasks" "tasks ! k = t" "ts = drop (Suc k) tasks"
    using Cons.prems by (metis drop_eq_Nil leI list.discI, metis nth_via_drop, metis drop_Suc list.sel(3) tl_drop)
  show ?case
  proof (cases "am_fetch m k t")
    case (Inl x)
    then show ?thesis using k by (auto intro!: exI [of _ "[]"])
  next
    case (Inr r)
    obtain x s1 where op: "settle_op m (Recorded t r) s0 = (x, s1)" by force
    have ans: "answer_of m tasks (Recorded t r)" using k Inr by (auto simp: answer_of_def future_result_def)
    show ?thesis
    proof (cases x)
      case (Inl e)
      then show ?thesis using op \<open>am_fetch m k t = Inr r\<close> by (auto simp: seq_comp_def intro!: exI [of _ "[Recorded t r]"])
    next
      case x: (Inr u)
      have stop: "pol_stop_on_circuit_open (mr_policy s1) = pol_stop_on_circuit_open (mr_policy s0)"
        using ops_policy [of m "[Recorded t r]" s0] op x by (simp add: same_policy_def seq_comp_def)
      have step: "settle_all m (Recorded t r # ps) s0 = settle_all m ps s1" for ps using op x by (simp add: seq_comp_def)
      show ?thesis
      proof (cases "pol_stop_on_circuit_open (mr_policy s1) \<and> is_circuit_open r")
        case True
        obtain y s2 where skips: "settle_all m (map SkippedOpen ts) s1 = (y, s2)" by force
        have no: "filter opened_by (map SkippedOpen ts) = []" by (auto simp: filter_empty_conv)
        show ?thesis
          using True Inr op x skips step [of "map SkippedOpen ts"] ans stop no
          by (cases y) (auto simp: seq_comp_def skip_all_settles intro!: exI [of _ "Recorded t r # map SkippedOpen ts"])
      next
        case False
        have run: "run_sequential m k (t # ts) s0 = run_sequential m (Suc k) ts s1" using False Inr op x by (auto simp: seq_comp_def)
        from Cons.IH [OF k(3), of s1] k(1)
        show ?thesis
          unfolding run
        proof (cases "run_sequential m (Suc k) ts s1", goal_cases)
          case (1 y s2)
          then show ?case
          proof (cases y)
            case (Inl e)
            with 1 obtain ps where "mset (map settled_task ps) \<subseteq># mset ts"
              "settle_all m ps s1 = (Inl e, s2) \<or> settle_all m ps s1 = (Inr (), s2) \<and> (\<exists>j < length tasks. am_fetch m j (tasks ! j) = Inl e)"
              by auto
            then show ?thesis using 1 Inl step [of ps] by (auto intro!: exI [of _ "Recorded t r # ps"])
          next
            case (Inr u)
            with 1 obtain ps where ps: "settle_all m ps s1 = (Inr (), s2)" "mset (map settled_task ps) = mset ts"
              "\<forall>p \<in> set ps. answer_of m tasks p" "pol_stop_on_circuit_open (mr_policy s1) \<longrightarrow> length (filter opened_by ps) \<le> 1"
              "\<forall>t. SkippedOpen t \<in> set ps \<longrightarrow> pol_stop_on_circuit_open (mr_policy s1) \<and> (\<exists>p \<in> set ps. opened_by p)"
              by auto
            then show ?thesis using 1 Inr step [of ps] ans False stop by (auto intro!: exI [of _ "Recorded t r # ps"])
          qed
        qed
      qed
    qed
  qed
qed

section \<open>Policies of the modules\<close>

definition resolve_workers :: "int \<Rightarrow> int option \<Rightarrow> nat" where
  "resolve_workers setting workers = nat (max (case workers of None \<Rightarrow> setting | Some n \<Rightarrow> n) 1)"

definition valuation_policy :: "nat \<Rightarrow> concurrency_policy" where
  "valuation_policy workers =
     (if workers \<le> 1 then \<lparr>pol_workers = 1, pol_controller = None, pol_stop_on_circuit_open = False\<rparr>
      else \<lparr>pol_workers = workers, pol_controller = Some (new_controller (int workers)), pol_stop_on_circuit_open = True\<rparr>)"

definition capital_structure_policy :: "nat \<Rightarrow> concurrency_policy" where
  "capital_structure_policy workers =
     \<lparr>pol_workers = workers, pol_controller = None, pol_stop_on_circuit_open = True\<rparr>"

lemma policies_ok [simp]: "policy_ok (valuation_policy (resolve_workers setting w))" "policy_ok (capital_structure_policy (resolve_workers setting w))"
  by (auto simp: policy_ok_def valuation_policy_def capital_structure_policy_def new_controller_ok resolve_workers_def)

lemma ops_processed: "settle_all m ps s = (Inr (), s') \<Longrightarrow> pg_processed (mr_progress s') = pg_processed (mr_progress s) + length ps"
proof (induction ps arbitrary: s)
  case (Cons p ps)
  have "pg_processed (mr_progress t) = Suc (pg_processed (mr_progress s))" if "settle_op m p s = (Inr (), t)" for t
    using that by (cases p) (auto simp: settle_result_def record_skip_def seq_comp_def in_context_def log_rows_def
        record_progress_def Let_def split: prod.splits sum.splits)
  with Cons show ?case by (auto simp: seq_comp_def split: prod.splits sum.splits)
qed simp


section \<open>Recovery of the adaptive controller\<close>

definition controller_inv :: "nat \<Rightarrow> adaptive_controller \<Rightarrow> bool" where
  "controller_inv w c \<longleftrightarrow> controller_ok c \<and> ac_max_workers c = w \<and> ac_window_size c = 20 \<and> ac_failure_percent c = 15 \<and>
     ac_recovery_successes c = 50 \<and> ac_failure_threshold c = 3 \<and> length (ac_recent c) \<le> 20 \<and> ac_successes c < 50"

lemma controller_inv_step: "controller_inv w c \<Longrightarrow> controller_inv w (record_fetch_result b c)"
  by (auto simp: controller_inv_def controller_ok_def record_fetch_result_def decrease_def increase_def push_recent_def Let_def)

lemma controller_inv_steps: "controller_inv w c \<Longrightarrow> controller_inv w (fold record_fetch_result bs c)"
  by (induction bs arbitrary: c) (simp_all add: controller_inv_step)

lemma controller_inv_new: "controller_inv (nat (max w 1)) (new_controller w)"
  using new_controller_ok [of w] by (simp add: controller_inv_def) (simp add: new_controller_def Let_def)


definition clean :: "adaptive_controller \<Rightarrow> bool" where
  "clean c \<longleftrightarrow> list_all id (ac_recent c)"

definition trailing :: "adaptive_controller \<Rightarrow> nat" where
  "trailing c = length (takeWhile id (rev (ac_recent c)))"

lemma takeWhile_take_length: "length (takeWhile P (take n xs)) = min n (length (takeWhile P xs))"
proof (induction xs arbitrary: n)
  case (Cons x xs)
  then show ?case by (cases n) auto
qed simp

lemma trailing_push:
  "length xs \<le> 20 \<Longrightarrow> length (takeWhile id (rev (push_recent 20 True xs))) = min 20 (Suc (length (takeWhile id (rev xs))))"
  using length_takeWhile_le [of id "rev xs"] by (simp add: push_recent_def Let_def rev_drop takeWhile_take_length)

lemma clean_no_failures: "clean c \<Longrightarrow> filter Not (push_recent n True (ac_recent c)) = []"
  by (auto simp: clean_def push_recent_def Let_def filter_empty_conv list_all_iff dest!: in_set_dropD)

lemma clean_step:
  assumes "controller_inv w c" and "clean c"
  shows "clean (record_fetch_result True c) \<and>
    (if ac_successes c = 49
     then ac_target_workers (record_fetch_result True c) = min w (Suc (ac_target_workers c)) \<and> ac_successes (record_fetch_result True c) = 0
     else ac_target_workers (record_fetch_result True c) = ac_target_workers c \<and>
          ac_successes (record_fetch_result True c) = Suc (ac_successes c))"
proof -
  have "list_all id (push_recent (ac_window_size c) True (ac_recent c))"
    using assms(2) by (auto simp: clean_def push_recent_def Let_def list_all_iff dest!: in_set_dropD)
  then show ?thesis
    using assms clean_no_failures [OF assms(2), of "ac_window_size c"]
    by (auto simp: record_fetch_result_def increase_def controller_inv_def controller_ok_def clean_def Let_def)
qed

lemma clean_run:
  assumes "controller_inv w c" and "clean c"
  shows "ac_target_workers (fold record_fetch_result (replicate n True) c) = w \<or>
    50 * ac_target_workers (fold record_fetch_result (replicate n True) c) + ac_successes (fold record_fetch_result (replicate n True) c)
      = 50 * ac_target_workers c + ac_successes c + n"
  using assms
proof (induction n arbitrary: c)
  case (Suc n)
  let ?c = "record_fetch_result True c"
  have inv: "controller_inv w ?c" "clean ?c" using Suc.prems controller_inv_step clean_step by blast+
  have top: "ac_target_workers (fold record_fetch_result (replicate n True) d) = w"
    if "controller_inv w d" "clean d" "ac_target_workers d = w" for d
    using that
  proof (induction n arbitrary: d)
    case (Suc n)
    have "controller_inv w (record_fetch_result True d)" "clean (record_fetch_result True d)"
      using Suc.prems controller_inv_step clean_step by blast+
    moreover have "ac_target_workers (record_fetch_result True d) = w"
      using clean_step [OF Suc.prems(1,2)] Suc.prems(3) by (auto split: if_splits)
    ultimately show ?case using Suc.IH by simp
  qed simp
  show ?case
  proof (cases "ac_target_workers ?c = w")
    case True
    then show ?thesis using top [OF inv] by simp
  next
    case False
    then show ?thesis using Suc.IH [OF inv] clean_step [OF Suc.prems] by (auto split: if_splits)
  qed
qed simp

lemma clean_after_window:
  assumes "controller_inv w c"
  shows "clean (fold record_fetch_result (replicate n True) c) \<or>
    min 20 (trailing c + n) \<le> trailing (fold record_fetch_result (replicate n True) c)"
  using assms
proof (induction n arbitrary: c)
  case (Suc n)
  let ?c = "record_fetch_result True c"
  have inv: "controller_inv w ?c" using Suc.prems by (rule controller_inv_step)
  have "clean ?c \<or> trailing ?c = min 20 (Suc (trailing c))"
    using Suc.prems trailing_push [of "ac_recent c"]
    by (auto simp: record_fetch_result_def decrease_def increase_def controller_inv_def clean_def trailing_def Let_def)
  moreover have "clean (fold record_fetch_result (replicate n True) d)" if "controller_inv w d" "clean d" for d
    using that
  proof (induction n arbitrary: d)
    case (Suc n)
    then show ?case using controller_inv_step clean_step by simp
  qed simp
  ultimately show ?case using Suc.IH [OF inv] inv by auto
qed simp

lemma trailing_clean: "controller_inv w c \<Longrightarrow> 20 \<le> trailing c \<Longrightarrow> clean c"
proof -
  assume "controller_inv w c" "20 \<le> trailing c"
  then have "length (takeWhile id (rev (ac_recent c))) = length (rev (ac_recent c))"
    using length_takeWhile_le [of id "rev (ac_recent c)"] by (simp add: trailing_def controller_inv_def)
  then have "takeWhile id (rev (ac_recent c)) = rev (ac_recent c)" by (metis takeWhile_eq_take take_all_iff order_refl)
  then show ?thesis by (auto simp: clean_def list_all_iff takeWhile_eq_all_conv)
qed

text \<open>
  C19: The adaptive concurrency. After any results the number of workers to use is at least one and at
  most the configured one, and from there enough successes in a row (a window and fifty per worker)
  bring it back to the configured one.
\<close>

theorem adaptive_target_recovers:
  "let m = nat (max workers 1); c = fold record_fetch_result results (new_controller workers)
   in 1 \<le> ac_target_workers c \<and> ac_target_workers c \<le> m \<and>
      ac_target_workers (fold record_fetch_result (replicate (20 + 50 * m) True) c) = m"
proof -
  define w where "w = nat (max workers 1)"
  define c where "c = fold record_fetch_result results (new_controller workers)"
  have inv: "controller_inv w c" unfolding w_def c_def by (intro controller_inv_steps controller_inv_new)
  define d where "d = fold record_fetch_result (replicate 20 True) c"
  have d: "controller_inv w d" unfolding d_def by (rule controller_inv_steps [OF inv])
  have "clean d" using clean_after_window [OF inv, of 20] trailing_clean [OF d] by (auto simp: d_def)
  from clean_run [OF d this, of "50 * w"]
  have "ac_target_workers (fold record_fetch_result (replicate (50 * w) True) d) = w"
    using controller_inv_steps [OF d, of "replicate (50 * w) True"] by (auto simp: controller_inv_def controller_ok_def)
  moreover have "fold record_fetch_result (replicate (50 * w) True) d = fold record_fetch_result (replicate (20 + 50 * w) True) c"
    by (simp only: d_def replicate_add fold_append comp_apply)
  ultimately show ?thesis using inv by (simp add: controller_inv_def controller_ok_def Let_def flip: w_def c_def)
qed

section \<open>The lock\<close>

definition takes_lock :: "ak_request \<Rightarrow> bool" where
  "takes_lock rq \<longleftrightarrow> rq_target rq \<in> {''financial_report'', ''all''} \<and> validate_request_target_options rq = Inr ()"

fun run_updates :: "('t, 'd, 'row, 'c) ak_env \<Rightarrow> ak_request list \<Rightarrow> 'c ak_update \<Rightarrow> (ak_raise + 'row list) list \<times> 'c ak_update" where
  "run_updates env [] s = ([], s)"
| "run_updates env (rq # rqs) s =
     (case update_akshare_impl env rq s of (r, s1) \<Rightarrow> (case run_updates env rqs s1 of (rs, s2) \<Rightarrow> (r # rs, s2)))"



section \<open>Concrete runs\<close>

text \<open>A module whose tasks are numbers: its third fetch finds the circuit open, its rows are statuses.\<close>

definition sample_module :: "(nat, unit, string, nat) ak_module" where
  "sample_module =
     \<lparr>am_plan = (\<lambda>rq c. (Inr [1, 2, 3, 4, 5], c)), am_prefilter = (\<lambda>ts c. (Inr ts, c)),
      am_concurrency = (\<lambda>rq c. (Inr (capital_structure_policy 2), c)),
      am_fetch = (\<lambda>k t. Inr (if k = 2 then failed_fetch t CircuitOpenRaised
        else \<lparr>fd_task = t, fd_response = Some (), fd_error = None, fd_skipped = False, fd_skip_status = [], fd_skip_reason = []\<rparr>)),
      am_record_result = (\<lambda>r c. (Inr [if fd_error r = None then ''success'' else ''failed''], Suc c)),
      am_record_skip = (\<lambda>t status reason c. (Inr [status], c)),
      am_row_status = (\<lambda>t rows. if rows = [] then [] else List.last rows),
      am_after_completed = (\<lambda>rq p c. (Inr (), c))\<rparr>"

definition sample_request :: "string \<Rightarrow> ak_request" where
  "sample_request target = \<lparr>rq_target = target, rq_mode = ''full'', rq_adjustment = None, rq_codes = [],
     rq_include_inactive = False, rq_market = None, rq_max_tasks = None, rq_workers = None, rq_resume = True,
     rq_force = False, rq_build_views = False, rq_periods = []\<rparr>"

definition sample_env :: "(nat, unit, string, nat) ak_env" where
  "sample_env = \<lparr>ae_owner = ''pid=7'', ae_load_lookup = (\<lambda>c. (Inr (), c)), ae_open_client = (\<lambda>rq c. (Inr (), c)),
     ae_module = (\<lambda>_. sample_module), ae_waits = (\<lambda>_ _ p. p), ae_finish = (\<lambda>c. (Inr (), c)),
     ae_build_views = (\<lambda>b c. (Inr (), c))\<rparr>"

lemma sample_run: "fst (update_akshare_impl sample_env (sample_request ''capital_structure'') \<lparr>au_lock = None, au_context = 0\<rparr>)
    = Inr [''success'', ''success'', ''failed'', ''skipped_circuit_open'', ''success'']"
  by code_simp



end
