(* ===== verification/Pending_Queue.thy ===== *)
theory Pending_Queue imports Computation begin

text \<open>
  The queue of capital structure refreshes (\<open>src/sources/akshare/pipeline/capital_structure_pending.py\<close>):
  codes whose dividend factors changed, kept in a file until an update of their capital structure has
  succeeded. One lock serialises the operations of a process.

  Times are milliseconds. What writing the file, moving a corrupt one aside and updating a code do is
  given by the environment.
\<close>

section \<open>Rows and the file\<close>

record pending_row =
  pr_code :: "string option"
  pr_trigger_dataset :: "string option"
  pr_trigger_reason :: "string option"
  pr_triggered_at :: "int option"
  pr_status :: "string option"
  pr_last_attempt_at :: "int option"
  pr_error_stack :: "string option"

datatype pending_file = NoFile | Corrupt | Stored "pending_row list"

definition retryable_statuses :: "string set" where
  "retryable_statuses = {''pending'', ''failed_retryable''}"

definition retryable :: "pending_row \<Rightarrow> bool" where
  "retryable r = (case pr_status r of None \<Rightarrow> False | Some st \<Rightarrow> st \<in> retryable_statuses)"

text \<open>Missing statuses and errors are filled in.\<close>

definition clean_row :: "pending_row \<Rightarrow> pending_row" where
  "clean_row r = r\<lparr>pr_status := Some (case pr_status r of None \<Rightarrow> ''pending'' | Some st \<Rightarrow> st),
                   pr_error_stack := Some (case pr_error_stack r of None \<Rightarrow> [] | Some e \<Rightarrow> e)\<rparr>"

definition clean_pending :: "pending_row list \<Rightarrow> pending_row list" where
  "clean_pending rows = map clean_row rows"

text \<open>A corrupt file is moved aside, when it can be, and the queue starts empty.\<close>

definition quarantine_corrupt_pending :: "bool \<Rightarrow> pending_file" where
  "quarantine_corrupt_pending movable = (if movable then NoFile else Corrupt)"

definition read_pending :: "bool \<Rightarrow> pending_file \<Rightarrow> pending_row list \<times> pending_file" where
  "read_pending movable f =
     (case f of
        NoFile \<Rightarrow> ([], NoFile)
      | Corrupt \<Rightarrow> ([], quarantine_corrupt_pending movable)
      | Stored rows \<Rightarrow> (clean_pending rows, f))"

text \<open>The new file replaces the old one, or an error leaves the old one.\<close>

definition write_pending :: "string option \<Rightarrow> pending_row list \<Rightarrow> pending_file \<Rightarrow> (string + unit) \<times> pending_file" where
  "write_pending write_error rows f =
     (case write_error of None \<Rightarrow> (Inr (), Stored (clean_pending rows)) | Some e \<Rightarrow> (Inl e, f))"

section \<open>Operations\<close>

definition normalize_akshare_code :: "string \<Rightarrow> string + string" where
  "normalize_akshare_code code =
     (let v = py_strip code
      in if length v = 6 \<and> list_all is_digit v then Inr v
         else Inl (''AkShare stock code must be 6 digits, got: '' @ repr_str v))"

definition normalize_trigger_code :: "string \<Rightarrow> string + string" where
  "normalize_trigger_code code =
     (let v = py_strip code
      in normalize_akshare_code (if CHR ''.'' \<in> set v then snd (split_first (CHR ''.'') v) else v))"

definition new_pending_row :: "string \<Rightarrow> string \<Rightarrow> string \<Rightarrow> int \<Rightarrow> pending_row" where
  "new_pending_row code dataset reason now =
     \<lparr>pr_code = Some code, pr_trigger_dataset = Some dataset, pr_trigger_reason = Some reason,
      pr_triggered_at = Some now, pr_status = Some ''pending'', pr_last_attempt_at = None, pr_error_stack = Some []\<rparr>"

definition active_row :: "string \<Rightarrow> pending_row \<Rightarrow> bool" where
  "active_row code r = (pr_code r = Some code \<and> retryable r)"

definition enqueue_rows :: "string \<Rightarrow> pending_row \<Rightarrow> pending_row list \<Rightarrow> pending_row list" where
  "enqueue_rows code row rows =
     (if list_ex (active_row code) rows then map (\<lambda>r. if active_row code r then row else r) rows else rows @ [row])"

record pending_env =
  pe_movable :: bool
  pe_write_error :: "string option"
  pe_now :: int

definition enqueue_capital_structure_pending ::
  "pending_env \<Rightarrow> string \<Rightarrow> string \<Rightarrow> string \<Rightarrow> pending_file \<Rightarrow> (string + unit) \<times> pending_file" where
  "enqueue_capital_structure_pending env code dataset reason f =
     (case normalize_trigger_code code of
        Inl e \<Rightarrow> (Inl e, f)
      | Inr c \<Rightarrow>
          (case read_pending (pe_movable env) f of
             (rows, f1) \<Rightarrow> write_pending (pe_write_error env) (enqueue_rows c (new_pending_row c dataset reason (pe_now env)) rows) f1))"

text \<open>What an update of one code does: its run records, an exception, or an interrupt of the process.\<close>

datatype 'r update_answer = Updated "'r list" | UpdateRaised string | Interrupted

text \<open>\<open>failed\<close> tells the run records with status \<open>failed\<close>.\<close>

definition update_ok :: "('r \<Rightarrow> bool) \<Rightarrow> 'r update_answer \<Rightarrow> bool" where
  "update_ok failed a = (case a of Updated rs \<Rightarrow> \<not> list_ex failed rs | _ \<Rightarrow> False)"

definition code_text :: "pending_row \<Rightarrow> string" where
  "code_text r = (case pr_code r of None \<Rightarrow> ''<NA>'' | Some c \<Rightarrow> c)"

definition settle_row :: "('r \<Rightarrow> bool) \<Rightarrow> int \<Rightarrow> 'r update_answer \<Rightarrow> pending_row \<Rightarrow> pending_row" where
  "settle_row failed now a r =
     (if update_ok failed a then r\<lparr>pr_status := Some ''success'', pr_error_stack := Some [], pr_last_attempt_at := Some now\<rparr>
      else r\<lparr>pr_status := Some ''failed_retryable'',
             pr_error_stack := Some (case a of UpdateRaised e \<Rightarrow> e
               | _ \<Rightarrow> ''capital_structure update failed for '' @ code_text r),
             pr_last_attempt_at := Some now\<rparr>)"

text \<open>The rows that may be retried, in order; an interrupt leaves the loop.\<close>

fun drain_rows ::
  "('r \<Rightarrow> bool) \<Rightarrow> (string \<Rightarrow> 'w \<Rightarrow> 'r update_answer \<times> 'w) \<Rightarrow> int \<Rightarrow> pending_row list \<Rightarrow> 'w \<Rightarrow>
   (string + pending_row list \<times> 'r list) \<times> 'w" where
  "drain_rows failed updater now [] w = (Inr ([], []), w)"
| "drain_rows failed updater now (r # rs) w =
     (if \<not> retryable r
      then seq_comp (drain_rows failed updater now rs) (\<lambda>(rows, records) w. (Inr (r # rows, records), w)) w
      else
        (case updater (code_text r) w of
           (Interrupted, w1) \<Rightarrow> (Inl ''KeyboardInterrupt'', w1)
         | (a, w1) \<Rightarrow>
             seq_comp (drain_rows failed updater now rs)
               (\<lambda>(rows, records) w.
                  (Inr (settle_row failed now a r # rows,
                        (case a of Updated new \<Rightarrow> if update_ok failed a then new @ records else records | _ \<Rightarrow> records)), w)) w1))"

definition drain_capital_structure_pending ::
  "pending_env \<Rightarrow> ('r \<Rightarrow> bool) \<Rightarrow> (string \<Rightarrow> 'w \<Rightarrow> 'r update_answer \<times> 'w) \<Rightarrow> pending_file \<times> 'w \<Rightarrow>
   (string + 'r list) \<times> pending_file \<times> 'w" where
  "drain_capital_structure_pending env failed updater s =
     (case s of (f, w) \<Rightarrow>
        (case read_pending (pe_movable env) f of
           (rows, f1) \<Rightarrow>
             if rows = [] then (Inr [], f1, w)
             else
               (case drain_rows failed updater (pe_now env) rows w of
                  (Inl e, w1) \<Rightarrow> (Inl e, f1, w1)
                | (Inr (rows', records), w1) \<Rightarrow>
                    (case write_pending (pe_write_error env) rows' f1 of
                       (Inl e, f2) \<Rightarrow> (Inl e, f2, w1)
                     | (Inr _, f2) \<Rightarrow> (Inr records, f2, w1)))))"

section \<open>The queue as a set of codes\<close>

definition queue_rows :: "pending_file \<Rightarrow> pending_row list" where
  "queue_rows f = (case f of Stored rows \<Rightarrow> filter retryable (clean_pending rows) | _ \<Rightarrow> [])"

definition queue_codes :: "pending_file \<Rightarrow> string list" where
  "queue_codes f = map code_text (queue_rows f)"

text \<open>Every code waits at most once.\<close>

definition queue_ok :: "pending_file \<Rightarrow> bool" where
  "queue_ok f \<longleftrightarrow> distinct (queue_codes f) \<and> None \<notin> pr_code ` set (queue_rows f)"

text \<open>What a process may find, with the updates it runs.\<close>

inductive pending_reachable :: "('r \<Rightarrow> bool) \<Rightarrow> (string \<Rightarrow> 'w \<Rightarrow> 'r update_answer \<times> 'w) \<Rightarrow> pending_file \<Rightarrow> bool" for failed updater where
  no_file: "pending_reachable failed updater NoFile"
| damaged: "pending_reachable failed updater Corrupt"
| enqueued: "pending_reachable failed updater f \<Longrightarrow>
    pending_reachable failed updater (snd (enqueue_capital_structure_pending env code dataset reason f))"
| drained: "pending_reachable failed updater f \<Longrightarrow>
    pending_reachable failed updater (fst (snd (drain_capital_structure_pending env failed updater (f, w))))"

section \<open>Lemmas\<close>

lemma clean_row_idem [simp]: "clean_row (clean_row r) = clean_row r"
  by (simp add: clean_row_def)

lemma clean_row_comp [simp]: "clean_row \<circ> clean_row = clean_row"
  by (simp add: fun_eq_iff)

lemma clean_row_code [simp]: "pr_code (clean_row r) = pr_code r" "code_text (clean_row r) = code_text r"
  by (simp_all add: clean_row_def code_text_def)

definition waiting :: "pending_row list \<Rightarrow> pending_row list" where
  "waiting rows = filter retryable (clean_pending rows)"

lemma queue_rows_Stored [simp]: "queue_rows (Stored (clean_pending rows)) = waiting rows"
  by (simp add: queue_rows_def waiting_def clean_pending_def comp_def)

lemma waiting_Cons [simp]: "waiting (r # rows) = (if retryable (clean_row r) then clean_row r # waiting rows else waiting rows)"
  by (simp add: waiting_def clean_pending_def)

lemma waiting_clean [simp]: "waiting (clean_pending rows) = waiting rows"
  by (simp add: waiting_def clean_pending_def comp_def)

lemma clean_clean [simp]: "clean_pending (clean_pending rows) = clean_pending rows"
  by (simp add: clean_pending_def)

lemma read_pending_queue:
  assumes "read_pending movable f = (rows, f1)"
  shows "queue_rows f1 = queue_rows f" and "waiting rows = queue_rows f" and "clean_pending rows = rows"
  using assms
  by (auto simp: read_pending_def queue_rows_def quarantine_corrupt_pending_def waiting_def clean_pending_def split: pending_file.splits if_splits)

lemma clean_new [simp]: "clean_row (new_pending_row c d r n) = new_pending_row c d r n"
  by (simp add: clean_row_def new_pending_row_def)

lemma new_retryable [simp]: "retryable (new_pending_row c d r n)"
  by (simp add: retryable_def retryable_statuses_def new_pending_row_def)

lemma waiting_enqueue:
  assumes "clean_pending rows = rows" and "distinct (map code_text (waiting rows))" and "None \<notin> pr_code ` set (waiting rows)"
    and rows'_def: "rows' = enqueue_rows c (new_pending_row c d reason now) rows"
  shows "set (map code_text (waiting rows')) = insert c (set (map code_text (waiting rows))) \<and>
    distinct (map code_text (waiting rows')) \<and> None \<notin> pr_code ` set (waiting rows')"
proof -
  have w: "waiting rows = filter retryable rows" using assms(1) by (simp add: waiting_def)
  show ?thesis
  proof (cases "list_ex (active_row c) rows")
    case True
    let ?g = "\<lambda>r. if active_row c r then new_pending_row c d reason now else r"
    have "clean_row r = r" if "r \<in> set rows" for r
      using assms(1) that unfolding clean_pending_def by (metis (no_types, lifting) list.map_id0 id_apply map_eq_conv)
    then have clean: "clean_pending (map ?g rows) = map ?g rows" by (simp add: clean_pending_def)
    have same: "filter retryable (map ?g xs) = map ?g (filter retryable xs)" for xs
      by (induction xs) (auto simp: active_row_def)
    have code: "code_text (?g r) = code_text r" for r
      by (simp add: active_row_def code_text_def new_pending_row_def)
    have w': "waiting rows' = map ?g (filter retryable rows)"
      using True clean same by (simp add: rows'_def enqueue_rows_def waiting_def)
    have "map code_text (waiting rows') = map code_text (waiting rows)"
      unfolding w' w list.map_comp by (rule map_cong [OF refl]) (use code in simp)
    moreover have "c \<in> set (map code_text (waiting rows))"
      using True by (force simp: list_ex_iff active_row_def w code_text_def image_iff)
    moreover have "None \<notin> pr_code ` set (waiting rows')"
      using assms(3) unfolding w' w by (auto simp: new_pending_row_def)
    ultimately show ?thesis using assms(2) by (simp add: insert_absorb)
  next
    case False
    have "waiting rows' = waiting rows @ [new_pending_row c d reason now]"
      using False assms(1) by (simp add: rows'_def enqueue_rows_def waiting_def w clean_pending_def)
    moreover have "c \<notin> set (map code_text (waiting rows))"
    proof
      assume "c \<in> set (map code_text (waiting rows))"
      then obtain r where r: "r \<in> set rows" "retryable r" "code_text r = c" by (auto simp: w)
      then have "pr_code r \<noteq> None" using assms(3) unfolding w by force
      with r False show False by (auto simp: list_ex_iff active_row_def code_text_def split: option.splits)
    qed
    moreover have "code_text (new_pending_row c d reason now) = c" "pr_code (new_pending_row c d reason now) = Some c"
      by (simp_all add: code_text_def new_pending_row_def)
    ultimately show ?thesis using assms(2,3) by auto
  qed
qed

text \<open>The answers of the updates of some codes, one after the other.\<close>

fun update_answers :: "(string \<Rightarrow> 'w \<Rightarrow> 'r update_answer \<times> 'w) \<Rightarrow> string list \<Rightarrow> 'w \<Rightarrow> 'r update_answer list \<times> 'w" where
  "update_answers updater [] w = ([], w)"
| "update_answers updater (c # cs) w =
     (case updater c w of (a, w1) \<Rightarrow> (case update_answers updater cs w1 of (as, w2) \<Rightarrow> (a # as, w2)))"

definition new_records :: "('r \<Rightarrow> bool) \<Rightarrow> 'r update_answer \<Rightarrow> 'r list" where
  "new_records failed a = (case a of Updated rs \<Rightarrow> if update_ok failed a then rs else [] | _ \<Rightarrow> [])"

lemma settle_row_clean [simp]: "clean_row (settle_row failed now a r) = settle_row failed now a r"
  by (simp add: clean_row_def settle_row_def)

lemma settle_row_code [simp]: "code_text (settle_row failed now a r) = code_text r" "pr_code (settle_row failed now a r) = pr_code r"
  by (simp_all add: settle_row_def code_text_def)

lemma settle_row_retryable [simp]: "retryable (settle_row failed now a r) \<longleftrightarrow> \<not> update_ok failed a"
  by (simp add: settle_row_def retryable_def retryable_statuses_def)

lemma drain_rows_Inr:
  assumes "drain_rows failed updater now rows w = (Inr (rows', records), w')" and "clean_pending rows = rows"
  shows "case update_answers updater (map code_text (waiting rows)) w of (answers, w2) \<Rightarrow>
      w2 = w' \<and> records = concat (map (new_records failed) answers) \<and> clean_pending rows' = rows' \<and>
      map code_text (waiting rows') = map fst (filter (\<lambda>(c, a). \<not> update_ok failed a) (zip (map code_text (waiting rows)) answers)) \<and>
      pr_code ` set (waiting rows') \<subseteq> pr_code ` set (waiting rows)"
  using assms
proof (induction rows arbitrary: rows' records w)
  case (Cons r rows)
  have clean: "clean_row r = r" "clean_pending rows = rows" using Cons.prems(2) by (simp_all add: clean_pending_def)
  show ?case
  proof (cases "retryable r")
    case False
    with Cons.prems(1) obtain rows1 where rest: "drain_rows failed updater now rows w = (Inr (rows1, records), w')"
      and out: "rows' = r # rows1"
      by (auto simp: seq_comp_def split: prod.splits sum.splits)
    from Cons.IH [OF rest clean(2)] show ?thesis
      using False clean by (auto simp: out clean_pending_def split: prod.splits)
  next
    case True
    obtain a w1 where a: "updater (code_text r) w = (a, w1)" by force
    with True Cons.prems(1) have "a \<noteq> Interrupted" by auto
    with True Cons.prems(1) a obtain rows1 records1 where
      rest: "drain_rows failed updater now rows w1 = (Inr (rows1, records1), w')"
      and out: "rows' = settle_row failed now a r # rows1" "records = new_records failed a @ records1"
      by (cases a) (auto simp: seq_comp_def new_records_def split: prod.splits sum.splits)
    from Cons.IH [OF rest clean(2)] show ?thesis
      using True clean by (auto simp: a out clean_pending_def split: prod.splits)
  qed
qed (simp add: waiting_def clean_pending_def)

lemma map_fst_filter_zip_distinct: "distinct xs \<Longrightarrow> distinct (map fst (filter P (zip xs ys)))"
proof (induction xs arbitrary: ys)
  case (Cons x xs)
  then show ?case by (cases ys) (auto dest: set_zip_leftD)
qed simp


lemma enqueue_queue:
  assumes "queue_ok f"
  shows "case enqueue_capital_structure_pending env code dataset reason f of
      (Inr _, f') \<Rightarrow> queue_ok f' \<and> (\<exists>c. normalize_trigger_code code = Inr c \<and> set (queue_codes f') = insert c (set (queue_codes f)))
    | (Inl _, f') \<Rightarrow> queue_rows f' = queue_rows f"
proof (cases "normalize_trigger_code code")
  case (Inr c)
  obtain rows f1 where read: "read_pending (pe_movable env) f = (rows, f1)" by force
  note r = read_pending_queue [OF read]
  have "distinct (map code_text (waiting rows))" "None \<notin> pr_code ` set (waiting rows)"
    using assms by (simp_all add: r(2) queue_ok_def queue_codes_def)
  from waiting_enqueue [OF r(3) this refl, of c dataset reason "pe_now env"] show ?thesis
    using Inr by (simp add: enqueue_capital_structure_pending_def read write_pending_def queue_ok_def queue_codes_def r split: option.split)
qed (simp add: enqueue_capital_structure_pending_def)

lemma drain_queue:
  assumes "queue_ok f"
  shows "case drain_capital_structure_pending env failed updater (f, w) of
      (Inr records, f', w') \<Rightarrow> queue_ok f' \<and>
        (case update_answers updater (queue_codes f) w of (answers, w2) \<Rightarrow>
           w' = w2 \<and> records = concat (map (new_records failed) answers) \<and>
           queue_codes f' = map fst (filter (\<lambda>(c, a). \<not> update_ok failed a) (zip (queue_codes f) answers)))
    | (Inl _, f', w') \<Rightarrow> queue_rows f' = queue_rows f"
proof -
  obtain rows f1 where read: "read_pending (pe_movable env) f = (rows, f1)" by force
  note r = read_pending_queue [OF read]
  show ?thesis
  proof (cases "rows = []")
    case True
    then have none: "queue_rows f = []" using r(2) by (simp add: waiting_def clean_pending_def)
    then show ?thesis using True r(1) by (simp add: drain_capital_structure_pending_def read queue_ok_def queue_codes_def)
  next
    case False
    obtain x w1 where run: "drain_rows failed updater (pe_now env) rows w = (x, w1)" by force
    show ?thesis
    proof (cases x)
      case (Inl e)
      then show ?thesis using False r(1) by (simp add: drain_capital_structure_pending_def read run)
    next
      case (Inr out)
      obtain rows' records where out: "out = (rows', records)" by force
      from drain_rows_Inr [OF run [unfolded Inr out] r(3)] r(2)
      have d: "case update_answers updater (queue_codes f) w of (answers, w2) \<Rightarrow>
          w2 = w1 \<and> records = concat (map (new_records failed) answers) \<and> clean_pending rows' = rows' \<and>
          map code_text (waiting rows') = map fst (filter (\<lambda>(c, a). \<not> update_ok failed a) (zip (queue_codes f) answers)) \<and>
          pr_code ` set (waiting rows') \<subseteq> pr_code ` set (queue_rows f)"
        by (simp add: queue_codes_def)
      then have "None \<notin> pr_code ` set (waiting rows')" "distinct (map code_text (waiting rows'))"
        using assms by (auto simp: queue_ok_def map_fst_filter_zip_distinct split: prod.splits)
      with d False Inr out r(1) show ?thesis
        by (auto simp: drain_capital_structure_pending_def read run write_pending_def queue_ok_def queue_codes_def split: option.split prod.splits)
    qed
  qed
qed

lemma reachable_queue_ok: "pending_reachable failed updater f \<Longrightarrow> queue_ok f"
proof (induction rule: pending_reachable.induct)
  case (enqueued f env code dataset reason)
  from enqueue_queue [OF enqueued.IH, where env = env and code = code and dataset = dataset and reason = reason] enqueued.IH show ?case
    by (auto simp: queue_ok_def queue_codes_def split: prod.splits sum.splits)
next
  case (drained f env w)
  from drain_queue [OF drained.IH, where env = env and failed = failed and updater = updater and w = w] drained.IH show ?case
    by (auto simp: queue_ok_def queue_codes_def split: prod.splits sum.splits)
qed (simp_all add: queue_ok_def queue_codes_def queue_rows_def)

text \<open>
  C20: The pending queue is a set of codes, and no trigger is lost. After any sequence of enqueues and
  drains, failed writes and corrupt files every code waits at most once. Enqueuing adds the normalized
  code, or fails and changes nothing. A drain that returns has updated each waiting code once, in order,
  and leaves waiting exactly the codes whose update failed; a drain that is interrupted, or cannot write
  the file, leaves every code waiting.
\<close>

theorem pending_queue_refines_set:
  assumes "pending_reachable failed updater f"
  shows "distinct (queue_codes f) \<and>
    (case enqueue_capital_structure_pending env code dataset reason f of
       (Inr _, f') \<Rightarrow> (case normalize_trigger_code code of Inr c \<Rightarrow> set (queue_codes f') = insert c (set (queue_codes f)) | Inl _ \<Rightarrow> False)
     | (Inl _, f') \<Rightarrow> queue_codes f' = queue_codes f) \<and>
    (case drain_capital_structure_pending env failed updater (f, w) of
       (Inr records, f', w') \<Rightarrow>
         (case update_answers updater (queue_codes f) w of (answers, w2) \<Rightarrow>
            w' = w2 \<and> records = concat (map (new_records failed) answers) \<and>
            queue_codes f' = map fst (filter (\<lambda>(c, a). \<not> update_ok failed a) (zip (queue_codes f) answers)))
     | (Inl _, f', w') \<Rightarrow> queue_codes f' = queue_codes f)"
proof -
  have ok: "queue_ok f" using assms by (rule reachable_queue_ok)
  show ?thesis
    using ok enqueue_queue [OF ok, where env = env and code = code and dataset = dataset and reason = reason] drain_queue [OF ok, where env = env and failed = failed and updater = updater and w = w]
    by (auto simp: queue_ok_def queue_codes_def split: prod.splits sum.splits)
qed

theorem pending_queue_refines_set_witness:
  "(let env = \<lparr>pe_movable = True, pe_write_error = None, pe_now = 5\<rparr>;
        f = snd (enqueue_capital_structure_pending env ''sh.600000'' ''d'' ''r'' NoFile);
        updater = (\<lambda>code n. (if code = ''600000'' then UpdateRaised ''no answer'' else Updated [True], Suc n))
    in distinct (queue_codes f) \<and> queue_codes f = [''600000''] \<and>
       queue_codes (snd (enqueue_capital_structure_pending env ''600000'' ''d2'' ''r2'' f)) = [''600000''] \<and>
       queue_codes (fst (snd (drain_capital_structure_pending env Not updater (f, 0 :: nat)))) = [''600000''])"
proof -
  let ?env = "\<lparr>pe_movable = True, pe_write_error = None, pe_now = 5\<rparr>"
  let ?f = "snd (enqueue_capital_structure_pending ?env ''sh.600000'' ''d'' ''r'' NoFile)"
  let ?updater = "\<lambda>code n. (if code = ''600000'' then UpdateRaised ''no answer'' else Updated [True], Suc n)"
  have f: "queue_codes ?f = [''600000'']" by code_simp
  have "pending_reachable Not ?updater ?f" by (intro pending_reachable.intros)
  from conjunct1 [OF pending_queue_refines_set [OF this]] have "distinct (queue_codes ?f)" .
  moreover have "queue_codes (snd (enqueue_capital_structure_pending ?env ''600000'' ''d2'' ''r2'' ?f)) = [''600000'']" by code_simp
  moreover have "queue_codes (fst (snd (drain_capital_structure_pending ?env Not ?updater (?f, 0 :: nat)))) = [''600000'']" by code_simp
  ultimately show ?thesis using f by (simp only: Let_def)
qed

end
