(* ===== verification/Parquet_Store.thy ===== *)
theory Parquet_Store imports Computation Dataset_Catalog Adjustments "HOL-Library.Multiset" begin

text \<open>
  The Parquet store (\<open>src/storage/parquet_store.py\<close>): cleaning a frame to its schema, partitions, the
  write modes replace, merge and upsert, atomic replacement with retries, and the ledger of written
  partitions (\<open>src/storage/partition_manifest.py\<close>).

  A cell is a value or null; a row maps column names to cells. What pandas, PyArrow and the file system
  do is the environment: coercion to a column type, the text of a value, sorting on one column (which
  pandas does with an unstable quicksort), the digest of a frame, and which writes fail. Sorting on
  several columns is stable in pandas and is modelled as such.
\<close>

section \<open>Frames, store and environment\<close>

type_synonym 'v row = "string \<Rightarrow> 'v option"

record 'v raw_frame =
  rf_columns :: "string list"
  rf_rows :: "'v row list"

datatype store_error =
    CatalogFailure catalog_error
  | PartitionFailure string
  | FixedColumnMismatch string
  | WriteModeFailure string
  | ValidationFailure string
  | OsFailure
  | ReadFailure string
  | WriteFailure string
  | ManifestFailure string

datatype write_outcome = Written | OsErrorRaised | OtherRaised string
datatype read_outcome = ReadOk | PermissionDenied | ReadRaised string

record ('v, 'h) store_env =
  se_coerce :: "arrow_type \<Rightarrow> 'v option \<Rightarrow> 'v option"
  se_text :: "'v \<Rightarrow> string"
  se_of_text :: "string \<Rightarrow> 'v"
  se_less_eq :: "'v \<Rightarrow> 'v \<Rightarrow> bool"
  se_quicksort :: "string \<Rightarrow> 'v row list \<Rightarrow> 'v row list"
  se_validator :: "string \<Rightarrow> 'v row list \<Rightarrow> string option"
  se_digest :: "arrow_schema \<Rightarrow> 'v row list \<Rightarrow> 'h"
  se_read :: "nat \<Rightarrow> read_outcome"
  se_write :: "nat \<Rightarrow> write_outcome"
  se_manifest_error :: "nat \<Rightarrow> string option"
  se_staging :: bool

text \<open>A row of the ledger: where the partition is, how many rows it has and their digest.\<close>

record 'h manifest_entry =
  me_row_count :: nat
  me_content_hash :: 'h
  me_semantic_hash :: 'h

record ('v, 'h) parquet_store =
  ps_files :: "string \<times> string \<Rightarrow> 'v row list option"
  ps_manifest :: "string \<times> string \<times> string \<Rightarrow> 'h manifest_entry option"
  ps_legacy :: "(string \<times> string) list"
  ps_dirty :: "string list"
  ps_attempts :: nat

type_synonym ('v, 'h, 'a) store_comp = "('v, 'h) parquet_store \<Rightarrow> (store_error + 'a) \<times> ('v, 'h) parquet_store"

type_synonym 'v partition = "(string \<times> 'v option) list"

section \<open>Cleaning\<close>

text \<open>A column is renamed to its alias when the schema asks for the alias and the frame lacks it.\<close>

definition renamed_column :: "arrow_schema \<Rightarrow> string list \<Rightarrow> string \<Rightarrow> string" where
  "renamed_column schema cols c =
     (case map_of COLUMN_ALIASES c of
        None \<Rightarrow> c
      | Some new \<Rightarrow> if new \<in> set (field_names schema) \<and> new \<notin> set cols then new else c)"

definition clean_cells :: "('v, 'h) store_env \<Rightarrow> arrow_schema \<Rightarrow> string list \<Rightarrow> 'v row \<Rightarrow> 'v row" where
  "clean_cells env schema cols r =
     (\<lambda>c. case map_of schema c of
            None \<Rightarrow> None
          | Some ty \<Rightarrow> se_coerce env ty
              (case find (\<lambda>col. renamed_column schema cols col = c) cols of None \<Rightarrow> None | Some col \<Rightarrow> r col))"

definition normalize_optional_adjustment :: "('v, 'h) store_env \<Rightarrow> 'v option \<Rightarrow> store_error + 'v option" where
  "normalize_optional_adjustment env v =
     (case v of
        None \<Rightarrow> Inr None
      | Some x \<Rightarrow> (case normalize_adjustment (se_text env x) of
                     Inl e \<Rightarrow> Inl (CatalogFailure e)
                   | Inr a \<Rightarrow> Inr (Some (se_of_text env a))))"

definition normalize_row :: "('v, 'h) store_env \<Rightarrow> arrow_schema \<Rightarrow> 'v row \<Rightarrow> store_error + 'v row" where
  "normalize_row env schema r =
     (if ''adjustment'' \<in> set (field_names schema)
      then bind_res (normalize_optional_adjustment env (r ''adjustment'')) (\<lambda>a. Inr (r(''adjustment'' := a)))
      else Inr r)"

definition clean_dataframe_for_schema :: "('v, 'h) store_env \<Rightarrow> arrow_schema \<Rightarrow> 'v raw_frame \<Rightarrow> store_error + 'v row list" where
  "clean_dataframe_for_schema env schema df =
     traverse (\<lambda>r. normalize_row env schema (clean_cells env schema (rf_columns df) r)) (rf_rows df)"

definition frame_of :: "arrow_schema \<Rightarrow> 'v row list \<Rightarrow> 'v raw_frame" where
  "frame_of schema rows = \<lparr>rf_columns = field_names schema, rf_rows = rows\<rparr>"

text \<open>A row written out: the columns that are not listed are null.\<close>

definition row_of :: "(string \<times> 'v option) list \<Rightarrow> 'v row" where
  "row_of kvs c = (case map_of kvs c of None \<Rightarrow> None | Some v \<Rightarrow> v)"

section \<open>Partitions\<close>

definition akshare_partition_code :: "('v, 'h) store_env \<Rightarrow> 'v option \<Rightarrow> store_error + string" where
  "akshare_partition_code env v =
     (case v of
        None \<Rightarrow> Inl (PartitionFailure ''AkShare partition code must be a 6-digit string'')
      | Some x \<Rightarrow>
          (let t = py_strip (se_text env x)
           in if length t = 6 \<and> list_all is_digit t then Inr t
              else Inl (PartitionFailure (''AkShare partition code must be 6 digits, got: '' @ repr_str t))))"

definition normalize_partition_value :: "('v, 'h) store_env \<Rightarrow> dataset_definition \<Rightarrow> string \<Rightarrow> 'v option \<Rightarrow> store_error + string" where
  "normalize_partition_value env d column v =
     (if column = ''code'' \<and> ds_code_format d = ''six_digit'' then akshare_partition_code env v
      else case v of
             None \<Rightarrow> Inl (PartitionFailure (ds_id d @ '' requires partition '' @ column))
           | Some x \<Rightarrow>
               (let t = py_strip (se_text env x)
                in if t = [] then Inl (PartitionFailure (ds_id d @ '' requires partition '' @ column)) else Inr t))"

definition partition_value :: "('v, 'h) store_env \<Rightarrow> dataset_definition \<Rightarrow> 'v partition option \<Rightarrow> store_error + string" where
  "partition_value env d p =
     (let unexpected = (\<lambda>keys. Inl (PartitionFailure (ds_id d @ '' unexpected partition fields: '' @ join_with '', '' (sort keys))))
      in case ds_partition_column d of
           None \<Rightarrow> (case p of None \<Rightarrow> Inr [] | Some [] \<Rightarrow> Inr [] | Some kvs \<Rightarrow> unexpected (map fst kvs))
         | Some column \<Rightarrow>
             (case p of
                None \<Rightarrow> Inl (PartitionFailure (ds_id d @ '' requires partition '' @ column))
              | Some kvs \<Rightarrow>
                  (case map_of kvs column of
                     None \<Rightarrow> unexpected (map fst kvs)
                   | Some v \<Rightarrow>
                       (case filter (\<lambda>k. k \<noteq> column) (map fst kvs) of
                          [] \<Rightarrow> normalize_partition_value env d column v
                        | ks \<Rightarrow> unexpected ks))))"

definition require_partition_value :: "('v, 'h) store_env \<Rightarrow> 'v row list \<Rightarrow> string \<Rightarrow> string \<Rightarrow> string \<Rightarrow> store_error + unit" where
  "require_partition_value env rows column expected ctxt =
     (if list_ex (\<lambda>r. r column = None) rows
      then Inl (PartitionFailure (ctxt @ '' missing '' @ column @ '' for '' @ expected))
      else if rows \<noteq> [] \<and> list_ex (\<lambda>r. map_option (se_text env) (r column) \<noteq> Some expected) rows
      then Inl (PartitionFailure (ctxt @ '' mismatch for '' @ expected))
      else Inr ())"

section \<open>Preparing a frame\<close>

text \<open>Fixed columns are stripped, filled in, and must hold the fixed value.\<close>

definition fix_cell :: "('v, 'h) store_env \<Rightarrow> string \<Rightarrow> string \<Rightarrow> 'v row \<Rightarrow> store_error + 'v row" where
  "fix_cell env column expected r =
     (let t = (case r column of None \<Rightarrow> [] | Some x \<Rightarrow> py_strip (se_text env x))
      in if t = [] \<or> t = expected then Inr (r(column := Some (se_of_text env expected)))
         else Inl (FixedColumnMismatch column))"

fun apply_fixed_column_values :: "('v, 'h) store_env \<Rightarrow> (string \<times> string) list \<Rightarrow> 'v row list \<Rightarrow> store_error + 'v row list" where
  "apply_fixed_column_values env [] rows = Inr rows"
| "apply_fixed_column_values env ((column, expected) # fixed) rows =
     bind_res (traverse (fix_cell env column expected) rows) (apply_fixed_column_values env fixed)"

text \<open>Null cells sort last; rows that agree on all columns keep their order.\<close>

fun row_less_eq :: "('v, 'h) store_env \<Rightarrow> string list \<Rightarrow> 'v row \<Rightarrow> 'v row \<Rightarrow> bool" where
  "row_less_eq env [] r r' = True"
| "row_less_eq env (c # cs) r r' =
     (case (r c, r' c) of
        (None, None) \<Rightarrow> row_less_eq env cs r r'
      | (None, Some y) \<Rightarrow> False
      | (Some x, None) \<Rightarrow> True
      | (Some x, Some y) \<Rightarrow> if x = y then row_less_eq env cs r r' else se_less_eq env x y)"

fun insert_row :: "('a \<Rightarrow> 'a \<Rightarrow> bool) \<Rightarrow> 'a \<Rightarrow> 'a list \<Rightarrow> 'a list" where
  "insert_row le x [] = [x]"
| "insert_row le x (y # ys) = (if le x y then x # y # ys else y # insert_row le x ys)"

definition stable_sort :: "('a \<Rightarrow> 'a \<Rightarrow> bool) \<Rightarrow> 'a list \<Rightarrow> 'a list" where
  "stable_sort le xs = foldr (insert_row le) xs []"

definition sort_dataset_frame :: "('v, 'h) store_env \<Rightarrow> dataset_definition \<Rightarrow> 'v row list \<Rightarrow> 'v row list" where
  "sort_dataset_frame env d rows =
     (let cs = filter (\<lambda>c. c \<in> set (field_names (ds_schema d))) (ds_sort_columns d)
      in if rows = [] then rows
         else case cs of
                [] \<Rightarrow> rows
              | [c] \<Rightarrow> se_quicksort env c rows
              | _ \<Rightarrow> stable_sort (row_less_eq env cs) rows)"

definition prepare_dataset_frame ::
  "('v, 'h) store_env \<Rightarrow> dataset_definition \<Rightarrow> 'v raw_frame \<Rightarrow> 'v partition option \<Rightarrow> bool \<Rightarrow> store_error + 'v row list" where
  "prepare_dataset_frame env d df p validate =
     bind_res (clean_dataframe_for_schema env (ds_schema d) df)
       (\<lambda>cleaned. bind_res
          (if cleaned = [] then Inr cleaned
           else bind_res (apply_fixed_column_values env (ds_fixed_column_values d) cleaned)
             (\<lambda>rows. bind_res
               (case (ds_partition_column d, p) of
                  (Some column, Some _) \<Rightarrow>
                    bind_res (partition_value env d p)
                      (\<lambda>v. require_partition_value env rows column v (ds_id d @ '' partition '' @ column))
                | _ \<Rightarrow> Inr ())
               (\<lambda>_. Inr (sort_dataset_frame env d rows))))
          (\<lambda>rows. if validate
                  then (case se_validator env (ds_id d) rows of Some e \<Rightarrow> Inl (ValidationFailure e) | None \<Rightarrow> Inr rows)
                  else Inr rows))"

text \<open>The key of a row: null cells count as equal.\<close>

definition unique_key :: "dataset_definition \<Rightarrow> 'v row \<Rightarrow> 'v option list" where
  "unique_key d r = map r (ds_unique_columns d)"

definition deduplicate_dataset_frame :: "dataset_definition \<Rightarrow> 'v row list \<Rightarrow> 'v row list" where
  "deduplicate_dataset_frame d rows = (if ds_unique_columns d = [] then rows else keep_last (unique_key d) rows)"

definition incoming_keys_exist :: "('v, 'h) store_env \<Rightarrow> dataset_definition \<Rightarrow> 'v row list \<Rightarrow> 'v row list \<Rightarrow> bool" where
  "incoming_keys_exist env d existing fresh =
     (let key = (\<lambda>r. map (map_option (se_text env)) (unique_key d r))
      in existing \<noteq> [] \<and> fresh \<noteq> [] \<and> ds_unique_columns d \<noteq> [] \<and> set (map key fresh) \<subseteq> set (map key existing))"

section \<open>Reading and writing\<close>

definition PARQUET_READ_MAX_RETRIES :: nat where "PARQUET_READ_MAX_RETRIES = 3"
definition PARQUET_WRITE_MAX_RETRIES :: nat where "PARQUET_WRITE_MAX_RETRIES = 3"

text \<open>Reading again while permission is denied; the last denial is raised.\<close>

fun safe_read_parquet :: "('v, 'h) store_env \<Rightarrow> nat \<Rightarrow> 'v row list \<Rightarrow> ('v, 'h, 'v row list) store_comp" where
  "safe_read_parquet env 0 rows s = (Inl OsFailure, s)"
| "safe_read_parquet env (Suc n) rows s =
     (let s' = s\<lparr>ps_attempts := Suc (ps_attempts s)\<rparr>
      in case se_read env (ps_attempts s) of
           ReadOk \<Rightarrow> (Inr rows, s')
         | PermissionDenied \<Rightarrow> safe_read_parquet env n rows s'
         | ReadRaised e \<Rightarrow> (Inl (ReadFailure e), s'))"

definition dataset_path :: "('v, 'h) store_env \<Rightarrow> dataset_definition \<Rightarrow> 'v partition option \<Rightarrow> store_error + string \<times> string" where
  "dataset_path env d p = bind_res (partition_value env d p) (\<lambda>v. Inr (ds_id d, v))"

definition read_dataset :: "('v, 'h) store_env \<Rightarrow> dataset_definition \<Rightarrow> string \<times> string \<Rightarrow> ('v, 'h, 'v row list) store_comp" where
  "read_dataset env d path s =
     (case ps_files s path of
        None \<Rightarrow> (Inr [], s)
      | Some stored \<Rightarrow>
          seq_comp (safe_read_parquet env PARQUET_READ_MAX_RETRIES stored)
            (\<lambda>rows. lift_res (clean_dataframe_for_schema env (ds_schema d) (frame_of (ds_schema d) rows))) s)"

text \<open>A temporary file is written and renamed over the destination; an \<open>OSError\<close> is tried again.\<close>

fun atomic_write :: "('v, 'h) store_env \<Rightarrow> nat \<Rightarrow> 'v row list \<Rightarrow> string \<times> string \<Rightarrow> ('v, 'h, unit) store_comp" where
  "atomic_write env 0 rows path s = (Inl OsFailure, s)"
| "atomic_write env (Suc n) rows path s =
     (let s' = s\<lparr>ps_attempts := Suc (ps_attempts s)\<rparr>
      in case se_write env (ps_attempts s) of
           Written \<Rightarrow> (Inr (), s'\<lparr>ps_files := (ps_files s')(path \<mapsto> rows)\<rparr>)
         | OsErrorRaised \<Rightarrow> atomic_write env n rows path s'
         | OtherRaised e \<Rightarrow> (Inl (WriteFailure e), s'))"

definition cleanup_legacy_partitions :: "dataset_definition \<Rightarrow> ('v, 'h) parquet_store \<Rightarrow> ('v, 'h) parquet_store" where
  "cleanup_legacy_partitions d s =
     s\<lparr>ps_legacy := filter (\<lambda>(ds, dir). \<not> (ds = ds_id d \<and> list_ex (\<lambda>p. starts_with p dir) (ds_legacy_partition_prefixes d))) (ps_legacy s)\<rparr>"

definition SEMANTIC_EXCLUDED_COLUMNS :: "string list" where
  "SEMANTIC_EXCLUDED_COLUMNS =
     [''fetched_at'', ''updated_at'', ''created_at'', ''ingested_at'', ''downloaded_at'', ''collected_at'', ''run_id'',
      ''writer_pid'', ''writer_thread'']"

definition dataframe_content_hash :: "('v, 'h) store_env \<Rightarrow> arrow_schema \<Rightarrow> 'v row list \<Rightarrow> 'h" where
  "dataframe_content_hash env schema rows = se_digest env schema rows"

definition dataframe_semantic_hash :: "('v, 'h) store_env \<Rightarrow> arrow_schema \<Rightarrow> 'v row list \<Rightarrow> 'h" where
  "dataframe_semantic_hash env schema rows =
     se_digest env (filter (\<lambda>f. fst f \<notin> set SEMANTIC_EXCLUDED_COLUMNS) schema) rows"

definition dataset_partition_manifest_row :: "('v, 'h) store_env \<Rightarrow> arrow_schema \<Rightarrow> 'v row list \<Rightarrow> 'h manifest_entry" where
  "dataset_partition_manifest_row env schema rows =
     \<lparr>me_row_count = length rows, me_content_hash = dataframe_content_hash env schema rows,
      me_semantic_hash = dataframe_semantic_hash env schema rows\<rparr>"

definition partition_manifest_key :: "dataset_definition \<Rightarrow> string \<Rightarrow> string \<times> string \<times> string" where
  "partition_manifest_key d v = (ds_id d, case ds_partition_column d of None \<Rightarrow> [] | Some c \<Rightarrow> c, v)"

definition upsert_partition_manifest_after_write ::
  "('v, 'h) store_env \<Rightarrow> dataset_definition \<Rightarrow> 'v row list \<Rightarrow> 'v partition option \<Rightarrow> ('v, 'h, unit) store_comp" where
  "upsert_partition_manifest_after_write env d rows p s =
     (if se_staging env then (Inr (), s)
      else
        (case partition_value env d p of
           Inl e \<Rightarrow> (Inl e, s)
         | Inr v \<Rightarrow>
             (case se_manifest_error env (ps_attempts s) of
                Some e \<Rightarrow> (Inl (ManifestFailure e), s)
              | None \<Rightarrow> (Inr (), s\<lparr>ps_manifest :=
                  (ps_manifest s)(partition_manifest_key d v \<mapsto> dataset_partition_manifest_row env (ds_schema d) rows)\<rparr>))))"

definition mark_dataset_dirty :: "string \<Rightarrow> ('v, 'h) parquet_store \<Rightarrow> ('v, 'h) parquet_store" where
  "mark_dataset_dirty i s = s\<lparr>ps_dirty := List.insert i (ps_dirty s)\<rparr>"

definition write_prepared_dataset ::
  "('v, 'h) store_env \<Rightarrow> dataset_definition \<Rightarrow> 'v row list \<Rightarrow> string \<times> string \<Rightarrow> 'v partition option \<Rightarrow> ('v, 'h, unit) store_comp" where
  "write_prepared_dataset env d rows path p s =
     seq_comp (atomic_write env PARQUET_WRITE_MAX_RETRIES rows path)
       (\<lambda>_. seq_comp (upsert_partition_manifest_after_write env d rows p)
         (\<lambda>_ s. (Inr (), mark_dataset_dirty (ds_id d) s))) (cleanup_legacy_partitions d s)"

section \<open>Write modes\<close>

record dataset_write_result =
  wr_paths :: "(string \<times> string) list"
  wr_row_count :: nat
  wr_updated :: nat
  wr_skipped :: nat

definition primary_path :: "dataset_write_result \<Rightarrow> store_error + string \<times> string" where
  "primary_path r =
     (case wr_paths r of [x] \<Rightarrow> Inr x | xs \<Rightarrow> Inl (PartitionFailure (''Expected exactly one dataset path, got '' @ show_nat (length xs))))"

text \<open>The stored rows with the fresh ones: sorted, then the last row of each key, then sorted again.\<close>

definition combine_frames ::
  "('v, 'h) store_env \<Rightarrow> dataset_definition \<Rightarrow> 'v row list \<Rightarrow> 'v row list \<Rightarrow> 'v partition option \<Rightarrow> store_error + 'v row list" where
  "combine_frames env d existing fresh p =
     bind_res (prepare_dataset_frame env d (frame_of (ds_schema d) (existing @ fresh)) p False)
       (\<lambda>rows. let combined = sort_dataset_frame env d (deduplicate_dataset_frame d rows)
               in case se_validator env (ds_id d) combined of Some e \<Rightarrow> Inl (ValidationFailure e) | None \<Rightarrow> Inr combined)"

definition write_dataset_upsert_partition ::
  "('v, 'h) store_env \<Rightarrow> dataset_definition \<Rightarrow> 'v raw_frame \<Rightarrow> 'v partition option \<Rightarrow> string \<times> string \<Rightarrow> bool \<Rightarrow>
   ('v, 'h, dataset_write_result) store_comp" where
  "write_dataset_upsert_partition env d df p path skip_existing =
     seq_comp (lift_res (prepare_dataset_frame env d df p True))
       (\<lambda>fresh. seq_comp (read_dataset env d path)
         (\<lambda>existing.
            if skip_existing \<and> incoming_keys_exist env d existing fresh
            then Pair (Inr \<lparr>wr_paths = [path], wr_row_count = 0, wr_updated = 0, wr_skipped = 1\<rparr>)
            else
              seq_comp (lift_res (combine_frames env d existing fresh p))
                (\<lambda>combined. seq_comp (write_prepared_dataset env d combined path p)
                  (\<lambda>_. Pair (Inr \<lparr>wr_paths = [path], wr_row_count = length fresh, wr_updated = 1, wr_skipped = 0\<rparr>)))))"

text \<open>The partitions of a frame, in the order in which their values first appear.\<close>

fun upsert_groups ::
  "('v, 'h) store_env \<Rightarrow> dataset_definition \<Rightarrow> string \<Rightarrow> 'v row list \<Rightarrow> bool \<Rightarrow> 'v option list \<Rightarrow> ('v, 'h, dataset_write_result) store_comp" where
  "upsert_groups env d column rows skip_existing [] s =
     (Inr \<lparr>wr_paths = [], wr_row_count = 0, wr_updated = 0, wr_skipped = 0\<rparr>, s)"
| "upsert_groups env d column rows skip_existing (v # vs) s =
     (if v = None \<or> map_option (\<lambda>x. py_strip (se_text env x)) v = Some []
      then (Inl (PartitionFailure (ds_id d @ '' requires partition '' @ column)), s)
      else
        (case normalize_partition_value env d column v of
           Inl e \<Rightarrow> (Inl e, s)
         | Inr t \<Rightarrow>
             (let p = Some [(column, Some (se_of_text env t))]
              in seq_comp (lift_res (dataset_path env d p))
                   (\<lambda>path. seq_comp
                     (write_dataset_upsert_partition env d (frame_of (ds_schema d) (filter (\<lambda>r. r column = v) rows)) p path skip_existing)
                     (\<lambda>r. seq_comp (upsert_groups env d column rows skip_existing vs)
                       (\<lambda>r'. Pair (Inr \<lparr>wr_paths = wr_paths r @ wr_paths r', wr_row_count = wr_row_count r + wr_row_count r',
                                       wr_updated = wr_updated r + wr_updated r', wr_skipped = wr_skipped r + wr_skipped r'\<rparr>)))) s)))"

definition write_dataset_upsert ::
  "('v, 'h) store_env \<Rightarrow> dataset_definition \<Rightarrow> 'v raw_frame \<Rightarrow> 'v partition option \<Rightarrow> bool \<Rightarrow> ('v, 'h, dataset_write_result) store_comp" where
  "write_dataset_upsert env d df p skip_existing =
     (case (ds_partition_column d, p) of
        (Some column, None) \<Rightarrow>
          if rf_rows df = [] then Pair (Inr \<lparr>wr_paths = [], wr_row_count = 0, wr_updated = 0, wr_skipped = 0\<rparr>)
          else seq_comp (lift_res (prepare_dataset_frame env d df None True))
                 (\<lambda>rows. upsert_groups env d column rows skip_existing (dedup_first (map (\<lambda>r. r column) rows)))
      | _ \<Rightarrow> seq_comp (lift_res (dataset_path env d p)) (\<lambda>path. write_dataset_upsert_partition env d df p path skip_existing))"

definition write_dataset ::
  "('v, 'h) store_env \<Rightarrow> string \<Rightarrow> 'v raw_frame \<Rightarrow> 'v partition option \<Rightarrow> write_mode option \<Rightarrow> bool \<Rightarrow> ('v, 'h, dataset_write_result) store_comp" where
  "write_dataset env dataset_id df p mode skip_existing =
     seq_comp (lift_res (case dataset_definition_of dataset_id of Inl e \<Rightarrow> Inl (CatalogFailure e) | Inr d \<Rightarrow> Inr d))
       (\<lambda>d. let write_mode = (case mode of None \<Rightarrow> ds_default_write_mode d | Some m \<Rightarrow> m)
            in if skip_existing \<and> write_mode \<noteq> Upsert
               then Pair (Inl (WriteModeFailure ''skip_existing is only supported for upsert writes''))
               else if write_mode = Upsert then write_dataset_upsert env d df p skip_existing
               else
                 seq_comp (lift_res (dataset_path env d p))
                   (\<lambda>path. seq_comp (lift_res (prepare_dataset_frame env d df p True))
                     (\<lambda>incoming. seq_comp
                       (\<lambda>s. if write_mode = Merge \<and> ps_files s path \<noteq> None
                            then seq_comp (read_dataset env d path)
                                   (\<lambda>existing. lift_res (combine_frames env d existing incoming p)) s
                            else (Inr incoming, s))
                       (\<lambda>rows. seq_comp (write_prepared_dataset env d rows path p)
                         (\<lambda>_. Pair (Inr \<lparr>wr_paths = [path], wr_row_count = length rows, wr_updated = 1, wr_skipped = 0\<rparr>))))))"

section \<open>The environment's contract and the rows of the store\<close>

text \<open>
  Coercing twice is coercing once; texts of columns of texts are read back; values are linearly ordered; sorting on one column gives
  the rows in some order. Nothing is said of the order of rows that agree on that column.
\<close>

definition env_ok :: "('v, 'h) store_env \<Rightarrow> bool" where
  "env_ok env \<longleftrightarrow>
     (\<forall>ty v. se_coerce env ty (se_coerce env ty v) = se_coerce env ty v) \<and>
     (\<forall>t. se_coerce env StringT (Some (se_of_text env t)) = Some (se_of_text env t)) \<and>
     (\<forall>t. se_text env (se_of_text env t) = t) \<and>
     (\<forall>x y. se_less_eq env x y \<or> se_less_eq env y x) \<and>
     (\<forall>x y z. se_less_eq env x y \<longrightarrow> se_less_eq env y z \<longrightarrow> se_less_eq env x z) \<and>
     (\<forall>x y. se_less_eq env x y \<longrightarrow> se_less_eq env y x \<longrightarrow> x = y) \<and>
     (\<forall>c rows. mset (se_quicksort env c rows) = mset rows \<and> sorted_wrt (row_less_eq env [c]) (se_quicksort env c rows))"

text \<open>What preparing a frame leaves in every row.\<close>

definition normal_row :: "('v, 'h) store_env \<Rightarrow> dataset_definition \<Rightarrow> 'v row \<Rightarrow> bool" where
  "normal_row env d r \<longleftrightarrow>
     clean_cells env (ds_schema d) (field_names (ds_schema d)) r = r \<and> normalize_row env (ds_schema d) r = Inr r \<and>
     (\<forall>(c, e) \<in> set (ds_fixed_column_values d). r c = Some (se_of_text env e))"

definition text_columns_ok :: "dataset_definition \<Rightarrow> bool" where
  "text_columns_ok d \<longleftrightarrow>
     map_of (ds_schema d) ''adjustment'' \<in> {None, Some StringT} \<and> distinct (field_names (ds_schema d)) \<and>
     ds_unique_columns d \<noteq> [] \<and> length (ds_fixed_column_values d) \<le> 1 \<and>
     list_all (\<lambda>(c, e). c = ''adjustment'' \<and> map_of (ds_schema d) c = Some StringT \<and> normalize_adjustment e = Inr e \<and> py_strip e = e \<and> e \<noteq> [])
       (ds_fixed_column_values d)"

lemma catalog_text_columns: "list_all text_columns_ok (map snd DATASET_CATALOG)"
  by code_simp

lemma definition_text_columns: "dataset_definition_of i = Inr d \<Longrightarrow> text_columns_ok d \<and> ds_id d = i"
proof -
  assume d: "dataset_definition_of i = Inr d"
  then have m: "map_of DATASET_CATALOG i = Some d" by (simp add: dataset_definition_of_def split: option.splits)
  then have "(i, d) \<in> set DATASET_CATALOG" by (rule map_of_SomeD)
  moreover have "list_all (\<lambda>(i, d). ds_id d = i) DATASET_CATALOG" by code_simp
  ultimately show ?thesis using catalog_text_columns by (force simp: list_all_iff)
qed

lemma renamed_id: "c \<in> set (field_names schema) \<Longrightarrow> renamed_column schema (field_names schema) c = c"
  by (simp add: renamed_column_def split: option.split)

lemma find_renamed:
  "c \<in> set (field_names schema) \<Longrightarrow> find (\<lambda>col. renamed_column schema (field_names schema) col = c) (field_names schema) = Some c"
proof -
  assume c: "c \<in> set (field_names schema)"
  have "find (\<lambda>col. renamed_column schema (field_names schema) col = c) xs = find (\<lambda>col. col = c) xs" if "set xs \<subseteq> set (field_names schema)" for xs
    using that by (induction xs) (auto simp: renamed_id)
  moreover have "find (\<lambda>col. col = c) xs = Some c" if "c \<in> set xs" for xs using that by (induction xs) auto
  ultimately show ?thesis using c by simp
qed

lemma clean_cells_own:
  "clean_cells env schema (field_names schema) r = (\<lambda>c. case map_of schema c of None \<Rightarrow> None | Some ty \<Rightarrow> se_coerce env ty (r c))"
proof
  fix c
  show "clean_cells env schema (field_names schema) r c = (case map_of schema c of None \<Rightarrow> None | Some ty \<Rightarrow> se_coerce env ty (r c))"
  proof (cases "map_of schema c")
    case (Some ty)
    then have "c \<in> set (field_names schema)" by (force simp: field_names_def dest: map_of_SomeD)
    then show ?thesis using Some by (simp add: clean_cells_def find_renamed)
  qed (simp add: clean_cells_def)
qed

text \<open>A cell of the schema is coerced; other columns are absent.\<close>

definition coerced_row :: "('v, 'h) store_env \<Rightarrow> arrow_schema \<Rightarrow> 'v row \<Rightarrow> bool" where
  "coerced_row env schema r \<longleftrightarrow> (\<forall>c. case map_of schema c of None \<Rightarrow> r c = None | Some ty \<Rightarrow> se_coerce env ty (r c) = r c)"

lemma coerced_clean: "coerced_row env schema r \<longleftrightarrow> clean_cells env schema (field_names schema) r = r"
  by (auto simp: coerced_row_def clean_cells_own fun_eq_iff split: option.splits)

lemma clean_cells_coerced: "env_ok env \<Longrightarrow> coerced_row env schema (clean_cells env schema cols r)"
  by (auto simp: coerced_row_def clean_cells_def env_ok_def split: option.splits)

lemma coerced_update:
  assumes "env_ok env" and "coerced_row env schema r" and "map_of schema c = Some StringT"
  shows "coerced_row env schema (r(c := Some (se_of_text env t)))"
proof -
  have "se_coerce env StringT (Some (se_of_text env t)) = Some (se_of_text env t)" using assms(1) by (simp add: env_ok_def)
  then have "case map_of schema ca of None \<Rightarrow> (r(c := Some (se_of_text env t))) ca = None
      | Some ty \<Rightarrow> se_coerce env ty ((r(c := Some (se_of_text env t))) ca) = (r(c := Some (se_of_text env t))) ca" for ca
    using assms(2) [unfolded coerced_row_def, rule_format, of ca] assms(3) by (cases "ca = c") (simp_all split: option.splits)
  then show ?thesis by (simp only: coerced_row_def simp_thms)
qed

lemma normalize_adjustment_fixed:
  "normalize_adjustment ''unadjusted'' = Inr ''unadjusted''" "normalize_adjustment ''qfq'' = Inr ''qfq''"
  "normalize_adjustment ''hfq'' = Inr ''hfq''"
  by code_simp+

lemma normalize_adjustment_idem: "normalize_adjustment a = Inr n \<Longrightarrow> normalize_adjustment n = Inr n"
  using normalize_adjustment_Inr [of a n] by (auto simp: normalize_adjustment_fixed)

lemma normalize_row_twice:
  assumes "env_ok env" and "text_columns_ok d" and "coerced_row env (ds_schema d) r" and "normalize_row env (ds_schema d) r = Inr r'"
  shows "coerced_row env (ds_schema d) r' \<and> normalize_row env (ds_schema d) r' = Inr r'"
proof (cases "''adjustment'' \<in> set (field_names (ds_schema d))")
  case False
  then show ?thesis using assms by (simp add: normalize_row_def)
next
  case True
  then have ty: "map_of (ds_schema d) ''adjustment'' = Some StringT"
    using assms(2) by (auto simp: text_columns_ok_def field_names_def map_of_eq_None_iff)
  show ?thesis
    using assms True ty normalize_adjustment_idem
    by (cases "r ''adjustment''")
       (auto simp: normalize_row_def normalize_optional_adjustment_def coerced_update env_ok_def fun_upd_idem split: sum.splits
         intro!: coerced_update)
qed

lemma fix_cell_normal:
  assumes "env_ok env" and "text_columns_ok d" and "(c, e) \<in> set (ds_fixed_column_values d)"
    and "coerced_row env (ds_schema d) r" and "fix_cell env c e r = Inr r'"
  shows "coerced_row env (ds_schema d) r' \<and> normalize_row env (ds_schema d) r' = Inr r' \<and> r' c = Some (se_of_text env e)"
proof -
  from assms(2,3) have e: "c = ''adjustment''" "map_of (ds_schema d) c = Some StringT" "normalize_adjustment e = Inr e"
    by (auto simp: text_columns_ok_def list_all_iff)
  from assms(5) have r': "r' = r(c := Some (se_of_text env e))" by (auto simp: fix_cell_def Let_def split: if_splits)
  have "normalize_row env (ds_schema d) r' = Inr r'"
    using assms(1) e by (simp add: normalize_row_def normalize_optional_adjustment_def r' env_ok_def)
  then show ?thesis using coerced_update [OF assms(1,4) e(2)] by (simp add: r')
qed

lemma apply_fixed_normal:
  assumes "env_ok env" and "text_columns_ok d"
    and "\<forall>r \<in> set rows. coerced_row env (ds_schema d) r \<and> normalize_row env (ds_schema d) r = Inr r"
    and "apply_fixed_column_values env (ds_fixed_column_values d) rows = Inr rows'"
  shows "\<forall>r \<in> set rows'. normal_row env d r"
proof (cases "ds_fixed_column_values d")
  case Nil
  then show ?thesis using assms by (simp add: normal_row_def coerced_clean)
next
  case (Cons ce fixed)
  obtain c e where ce: "ce = (c, e)" by force
  have none: "fixed = []" using assms(2) Cons by (simp add: text_columns_ok_def)
  then have t: "traverse (fix_cell env c e) rows = Inr rows'" using assms(4) by (auto simp: Cons ce)
  show ?thesis
  proof
    fix r' assume "r' \<in> set rows'"
    then obtain r where "r \<in> set rows" "fix_cell env c e r = Inr r'" using traverse_Inr_mem [OF t] by blast
    with fix_cell_normal [OF assms(1,2), of c e r r'] assms(3) show "normal_row env d r'"
      by (simp add: normal_row_def coerced_clean Cons ce none)
  qed
qed

section \<open>Sorting\<close>

lemma mset_insert_row [simp]: "mset (insert_row le x ys) = add_mset x (mset ys)"
  by (induction ys) auto

lemma mset_stable_sort [simp]: "mset (stable_sort le xs) = mset xs"
  by (induction xs) (simp_all add: stable_sort_def)

lemma filter_insert_row:
  assumes "\<forall>y \<in> set ys. P x \<longrightarrow> P y \<longrightarrow> le x y"
  shows "filter P (insert_row le x ys) = filter P (x # ys)"
  using assms by (induction ys) auto

lemma filter_stable_sort:
  assumes "\<forall>x \<in> set xs. \<forall>y \<in> set xs. P x \<longrightarrow> P y \<longrightarrow> le x y"
  shows "filter P (stable_sort le xs) = filter P xs"
  using assms
proof (induction xs)
  case (Cons x xs)
  have "set (stable_sort le xs) = set xs" by (metis mset_stable_sort set_mset_mset)
  then have "filter P (insert_row le x (stable_sort le xs)) = filter P (x # stable_sort le xs)"
    using Cons.prems by (intro filter_insert_row) simp
  with Cons show ?case by (simp add: stable_sort_def)
qed (simp add: stable_sort_def)

lemma mset_sort_frame: "env_ok env \<Longrightarrow> mset (sort_dataset_frame env d rows) = mset rows"
  by (auto simp: sort_dataset_frame_def Let_def env_ok_def split: list.split)

lemma set_sort_frame: "env_ok env \<Longrightarrow> set (sort_dataset_frame env d rows) = set rows"
  by (metis mset_sort_frame set_mset_mset)

lemma row_less_eq_agree: "\<forall>c \<in> set cs. r c = r' c \<Longrightarrow> row_less_eq env cs r r'"
  by (induction cs) (auto split: option.split)

text \<open>The datasets whose rows are sorted stably, by columns of the unique key.\<close>

definition sorts_stably :: "dataset_definition \<Rightarrow> bool" where
  "sorts_stably d \<longleftrightarrow>
     length (filter (\<lambda>c. c \<in> set (field_names (ds_schema d))) (ds_sort_columns d)) \<noteq> 1 \<and>
     set (ds_sort_columns d) \<subseteq> set (ds_unique_columns d)"

lemma unique_key_columns: "unique_key d r = unique_key d r' \<Longrightarrow> c \<in> set (ds_unique_columns d) \<Longrightarrow> r c = r' c"
  by (auto simp: unique_key_def)

lemma last_by_sort_frame:
  assumes "sorts_stably d"
  shows "last_by (unique_key d) (sort_dataset_frame env d rows) k = last_by (unique_key d) rows k"
proof -
  let ?cs = "filter (\<lambda>c. c \<in> set (field_names (ds_schema d))) (ds_sort_columns d)"
  let ?P = "\<lambda>r. unique_key d r = k"
  have "filter ?P (stable_sort (row_less_eq env ?cs) rows) = filter ?P rows"
    using assms unique_key_columns by (intro filter_stable_sort) (fastforce simp: sorts_stably_def intro!: row_less_eq_agree)
  then have "filter ?P (sort_dataset_frame env d rows) = filter ?P rows"
    using assms by (auto simp: sort_dataset_frame_def sorts_stably_def Let_def split: list.splits)
  then show ?thesis
    using last_by_filter [of "sort_dataset_frame env d rows" "unique_key d" k ?P] last_by_filter [of rows "unique_key d" k ?P] by simp
qed

section \<open>Prepared frames\<close>

lemma clean_normal:
  assumes "env_ok env" and "text_columns_ok d" and "clean_dataframe_for_schema env (ds_schema d) df = Inr rows"
  shows "\<forall>r \<in> set rows. coerced_row env (ds_schema d) r \<and> normalize_row env (ds_schema d) r = Inr r"
proof
  fix r assume "r \<in> set rows"
  then obtain r0 where "normalize_row env (ds_schema d) (clean_cells env (ds_schema d) (rf_columns df) r0) = Inr r"
    using traverse_Inr_mem [OF assms(3) [unfolded clean_dataframe_for_schema_def]] by blast
  with normalize_row_twice [OF assms(1,2) clean_cells_coerced [OF assms(1)]]
  show "coerced_row env (ds_schema d) r \<and> normalize_row env (ds_schema d) r = Inr r" by blast
qed

lemma prepare_normal:
  assumes "env_ok env" and "text_columns_ok d" and "prepare_dataset_frame env d df p v = Inr rows"
  shows "\<forall>r \<in> set rows. normal_row env d r"
proof -
  obtain cleaned where c: "clean_dataframe_for_schema env (ds_schema d) df = Inr cleaned"
    using assms(3) by (auto simp: prepare_dataset_frame_def)
  show ?thesis
  proof (cases "cleaned = []")
    case True
    then show ?thesis using assms(3) c by (auto simp: prepare_dataset_frame_def split: if_splits option.splits)
  next
    case False
    then obtain fixed where f: "apply_fixed_column_values env (ds_fixed_column_values d) cleaned = Inr fixed"
      and rows: "rows = sort_dataset_frame env d fixed"
      using assms(3) c by (auto simp: prepare_dataset_frame_def split: if_splits option.splits)
    show ?thesis
      using apply_fixed_normal [OF assms(1,2) clean_normal [OF assms(1,2) c] f] by (simp add: rows set_sort_frame [OF assms(1)])
  qed
qed

lemma traverse_same: "\<forall>x \<in> set xs. f x = Inr x \<Longrightarrow> traverse f xs = Inr xs"
  by (induction xs) auto

lemma clean_normal_rows:
  "\<forall>r \<in> set rows. normal_row env d r \<Longrightarrow> clean_dataframe_for_schema env (ds_schema d) (frame_of (ds_schema d) rows) = Inr rows"
  by (auto simp: clean_dataframe_for_schema_def frame_of_def normal_row_def intro!: traverse_same)

lemma fix_normal_rows:
  assumes "env_ok env" and "text_columns_ok d" and "\<forall>r \<in> set rows. normal_row env d r"
  shows "apply_fixed_column_values env (ds_fixed_column_values d) rows = Inr rows"
proof (cases "ds_fixed_column_values d")
  case (Cons ce fixed)
  then have "fixed = []" and e: "py_strip (snd ce) = snd ce" "snd ce \<noteq> []" using assms(2) by (auto simp: text_columns_ok_def)
  moreover have "fix_cell env (fst ce) (snd ce) r = Inr r" if "r \<in> set rows" for r
    using assms(1,3) that e Cons by (auto simp: normal_row_def fix_cell_def env_ok_def fun_upd_idem)
  ultimately show ?thesis using Cons traverse_same [of rows "fix_cell env (fst ce) (snd ce)"] by (cases ce) simp
qed simp

lemma prepare_normal_rows:
  assumes "env_ok env" and "text_columns_ok d" and "\<forall>r \<in> set rows. normal_row env d r"
    and "prepare_dataset_frame env d (frame_of (ds_schema d) rows) p False = Inr out"
  shows "out = sort_dataset_frame env d rows"
  using assms(4) clean_normal_rows [OF assms(3)] fix_normal_rows [OF assms(1-3)]
  by (auto simp: prepare_dataset_frame_def sort_dataset_frame_def split: if_splits option.splits)

lemma keep_last_keys: "set (keep_last f xs) \<subseteq> set xs"
  by (rule set_keep_last)

text \<open>Combining stored and fresh rows, as a set of rows by key.\<close>

lemma combine_rows:
  assumes "env_ok env" and "text_columns_ok d"
    and "\<forall>r \<in> set (existing @ fresh). normal_row env d r"
    and "combine_frames env d existing fresh p = Inr rows"
  shows "distinct (map (unique_key d) rows) \<and> (\<forall>r \<in> set rows. normal_row env d r) \<and> set rows \<subseteq> set (existing @ fresh) \<and>
    unique_key d ` set rows = unique_key d ` set (existing @ fresh) \<and>
    (sorts_stably d \<longrightarrow> (\<forall>k. last_by (unique_key d) rows k =
       (case last_by (unique_key d) fresh k of None \<Rightarrow> last_by (unique_key d) existing k | Some r \<Rightarrow> Some r)))"
proof -
  obtain sorted where s: "prepare_dataset_frame env d (frame_of (ds_schema d) (existing @ fresh)) p False = Inr sorted"
    and rows: "rows = sort_dataset_frame env d (keep_last (unique_key d) sorted)"
    using assms(2,4) by (auto simp: combine_frames_def Let_def deduplicate_dataset_frame_def text_columns_ok_def split: option.splits)
  have sorted: "sorted = sort_dataset_frame env d (existing @ fresh)" by (rule prepare_normal_rows [OF assms(1-3) s])
  have set: "set sorted = set (existing @ fresh)" by (simp only: sorted set_sort_frame [OF assms(1)])
  have ms: "mset rows = mset (keep_last (unique_key d) sorted)" by (simp add: rows mset_sort_frame [OF assms(1)])
  then have "mset (map (unique_key d) rows) = mset (map (unique_key d) (keep_last (unique_key d) sorted))" by simp
  then have "distinct (map (unique_key d) rows)" by (metis distinct_keep_last mset_eq_imp_distinct_iff)
  moreover have sr: "set rows = set (keep_last (unique_key d) sorted)" using ms by (metis set_mset_mset)
  moreover have "set rows \<subseteq> set (existing @ fresh)" using set_keep_last [of "unique_key d" sorted] by (simp add: sr set)
  moreover have "unique_key d ` set rows = unique_key d ` set (existing @ fresh)" by (simp add: sr set)
  moreover have "last_by (unique_key d) rows k = last_by (unique_key d) (existing @ fresh) k" if "sorts_stably d" for k
    by (simp add: rows sorted last_by_sort_frame [OF that] del: set_append)
  ultimately show ?thesis using assms(3) by (auto simp: last_by_append)
qed

section \<open>Files and ledger\<close>

definition files_ok :: "('v, 'h) store_env \<Rightarrow> ('v, 'h) parquet_store \<Rightarrow> bool" where
  "files_ok env s \<longleftrightarrow> (\<forall>i v rows d. ps_files s (i, v) = Some rows \<longrightarrow> dataset_definition_of i = Inr d \<longrightarrow>
     (\<forall>r \<in> set rows. normal_row env d r))"

text \<open>Partitions whose file and ledger entry differ.\<close>

definition ledger_gap :: "('v, 'h) store_env \<Rightarrow> ('v, 'h) parquet_store \<Rightarrow> (string \<times> string) set" where
  "ledger_gap env s = {(i, v). \<exists>rows d. ps_files s (i, v) = Some rows \<and> dataset_definition_of i = Inr d \<and>
     ps_manifest s (partition_manifest_key d v) \<noteq> Some (dataset_partition_manifest_row env (ds_schema d) rows)}"

definition stored_rows :: "('v, 'h) parquet_store \<Rightarrow> string \<times> string \<Rightarrow> 'v row list" where
  "stored_rows s path = (case ps_files s path of None \<Rightarrow> [] | Some rows \<Rightarrow> rows)"

lemma atomic_write_wp:
  "wp (atomic_write env n rows path) s
     (\<lambda>_ s'. ps_files s' = (ps_files s)(path \<mapsto> rows) \<and> ps_manifest s' = ps_manifest s \<and> ps_dirty s' = ps_dirty s)
     (\<lambda>e s'. ps_files s' = ps_files s \<and> ps_manifest s' = ps_manifest s \<and> ps_dirty s' = ps_dirty s)"
proof (induction n arbitrary: s)
  case (Suc n)
  have "wp (atomic_write env n rows path) (s\<lparr>ps_attempts := Suc (ps_attempts s)\<rparr>)
     (\<lambda>_ s'. ps_files s' = (ps_files s)(path \<mapsto> rows) \<and> ps_manifest s' = ps_manifest s \<and> ps_dirty s' = ps_dirty s)
     (\<lambda>e s'. ps_files s' = ps_files s \<and> ps_manifest s' = ps_manifest s \<and> ps_dirty s' = ps_dirty s)"
    using Suc.IH [of "s\<lparr>ps_attempts := Suc (ps_attempts s)\<rparr>"] by (simp del: fun_upd_apply)
  then show ?case by (cases "se_write env (ps_attempts s)") (simp_all add: wp_def Let_def del: fun_upd_apply)
qed (simp add: wp_def)

lemma safe_read_wp:
  "wp (safe_read_parquet env n rows) s
     (\<lambda>out s'. out = rows \<and> ps_files s' = ps_files s \<and> ps_manifest s' = ps_manifest s \<and> ps_dirty s' = ps_dirty s)
     (\<lambda>e s'. (\<forall>m. e \<noteq> ManifestFailure m) \<and> ps_files s' = ps_files s \<and> ps_manifest s' = ps_manifest s \<and> ps_dirty s' = ps_dirty s)"
proof (induction n arbitrary: s)
  case (Suc n)
  have "wp (safe_read_parquet env n rows) (s\<lparr>ps_attempts := Suc (ps_attempts s)\<rparr>)
     (\<lambda>out s'. out = rows \<and> ps_files s' = ps_files s \<and> ps_manifest s' = ps_manifest s \<and> ps_dirty s' = ps_dirty s)
     (\<lambda>e s'. (\<forall>m. e \<noteq> ManifestFailure m) \<and> ps_files s' = ps_files s \<and> ps_manifest s' = ps_manifest s \<and> ps_dirty s' = ps_dirty s)"
    using Suc.IH [of "s\<lparr>ps_attempts := Suc (ps_attempts s)\<rparr>"] by (simp del: fun_upd_apply)
  then show ?case by (cases "se_read env (ps_attempts s)") (simp_all add: wp_def Let_def)
qed (simp add: wp_def)

text \<open>What a computation may not touch: files and ledger stay, an error is not the ledger's.\<close>

definition same_data :: "('v, 'h) parquet_store \<Rightarrow> ('v, 'h) parquet_store \<Rightarrow> bool" where
  "same_data s s' \<longleftrightarrow> ps_files s' = ps_files s \<and> ps_manifest s' = ps_manifest s"

lemma same_data_refl [simp]: "same_data s s"
  by (simp add: same_data_def)

lemma traverse_Inl: "traverse f xs = Inl e \<Longrightarrow> \<exists>x \<in> set xs. f x = Inl e"
proof (induction xs)
  case (Cons x xs)
  then show ?case by (cases "f x"; cases "traverse f xs") auto
qed simp

lemma clean_not_manifest: "clean_dataframe_for_schema env schema df = Inl e \<Longrightarrow> e \<noteq> ManifestFailure m"
  unfolding clean_dataframe_for_schema_def
  by (auto simp: normalize_row_def normalize_optional_adjustment_def dest!: traverse_Inl split: if_splits option.splits sum.splits)

lemma wp_seq_at: "m s = seq_comp a b s1 \<Longrightarrow> wp a s1 (\<lambda>x s'. wp (b x) s' Q E) E \<Longrightarrow> wp m s Q E"
  using wp_seq [of a b s1 Q E] by (simp add: wp_def)

lemma read_dataset_wp:
  assumes "files_ok env s" and "dataset_definition_of (fst path) = Inr d"
  shows "wp (read_dataset env d path) s
    (\<lambda>rows s'. rows = stored_rows s path \<and> same_data s s')
    (\<lambda>e s'. (\<forall>m. e \<noteq> ManifestFailure m) \<and> same_data s s')"
proof (cases "ps_files s path")
  case None
  then show ?thesis by (simp add: wp_def read_dataset_def stored_rows_def)
next
  case (Some rows)
  have clean: "clean_dataframe_for_schema env (ds_schema d) (frame_of (ds_schema d) rows) = Inr rows"
    using assms Some by (intro clean_normal_rows) (cases path, auto simp: files_ok_def)
  have eq: "read_dataset env d path s = seq_comp (safe_read_parquet env PARQUET_READ_MAX_RETRIES rows)
      (\<lambda>rows. lift_res (clean_dataframe_for_schema env (ds_schema d) (frame_of (ds_schema d) rows))) s"
    by (simp add: read_dataset_def Some)
  show ?thesis
    by (rule wp_seq_at, rule eq, rule wp_mono [OF safe_read_wp]) (auto simp: clean stored_rows_def Some same_data_def)
qed

lemma dataset_path_id: "dataset_path env d p = Inr path \<Longrightarrow> fst path = ds_id d \<and> partition_value env d p = Inr (snd path)"
  by (auto simp: dataset_path_def)

lemma write_prepared_wp:
  assumes "dataset_path env d p = Inr path"
  shows "wp (write_prepared_dataset env d rows path p) s
    (\<lambda>_ s'. ps_files s' = (ps_files s)(path \<mapsto> rows) \<and>
       ps_manifest s' = (if se_staging env then ps_manifest s
         else (ps_manifest s)(partition_manifest_key d (snd path) \<mapsto> dataset_partition_manifest_row env (ds_schema d) rows)))
    (\<lambda>e s'. ps_manifest s' = ps_manifest s \<and>
       (ps_files s' = ps_files s \<or> (\<exists>m. e = ManifestFailure m) \<and> \<not> se_staging env \<and> ps_files s' = (ps_files s)(path \<mapsto> rows)))"
proof -
  let ?s = "cleanup_legacy_partitions d s"
  have eq: "write_prepared_dataset env d rows path p s =
      seq_comp (atomic_write env PARQUET_WRITE_MAX_RETRIES rows path)
       (\<lambda>_. seq_comp (upsert_partition_manifest_after_write env d rows p) (\<lambda>_ s. (Inr (), mark_dataset_dirty (ds_id d) s))) ?s"
    by (simp add: write_prepared_dataset_def)
  show ?thesis
    by (rule wp_seq_at, rule eq, rule wp_mono [OF atomic_write_wp])
       (use dataset_path_id [OF assms] in \<open>auto simp: wp_def upsert_partition_manifest_after_write_def mark_dataset_dirty_def
          cleanup_legacy_partitions_def seq_comp_def split: if_splits option.splits\<close>)
qed


text \<open>One write, seen by the invariants: the files stay normal and the gap of the ledger does not grow.\<close>

definition write_keeps :: "('v, 'h) store_env \<Rightarrow> ('v, 'h) parquet_store \<Rightarrow> ('v, 'h) parquet_store \<Rightarrow> bool" where
  "write_keeps env s s' \<longleftrightarrow> files_ok env s' \<and> (\<not> se_staging env \<longrightarrow> ledger_gap env s' \<subseteq> ledger_gap env s)"

definition write_breaks :: "('v, 'h) store_env \<Rightarrow> ('v, 'h) parquet_store \<Rightarrow> store_error \<Rightarrow> ('v, 'h) parquet_store \<Rightarrow> bool" where
  "write_breaks env s e s' \<longleftrightarrow> files_ok env s' \<and>
     (\<not> se_staging env \<longrightarrow> ledger_gap env s' \<subseteq> ledger_gap env s \<or>
        (\<exists>m. e = ManifestFailure m) \<and> (\<exists>x. ledger_gap env s' \<subseteq> insert x (ledger_gap env s)))"

lemma write_keeps_refl: "files_ok env s \<Longrightarrow> write_keeps env s s"
  by (simp add: write_keeps_def)

lemma write_keeps_breaks: "write_keeps env s s' \<Longrightarrow> write_breaks env s e s'"
  by (simp add: write_keeps_def write_breaks_def)

lemma write_keeps_trans: "write_keeps env s t \<Longrightarrow> write_keeps env t u \<Longrightarrow> write_keeps env s u"
  by (auto simp: write_keeps_def)

lemma write_keeps_breaks_trans: "write_keeps env s t \<Longrightarrow> write_breaks env t e u \<Longrightarrow> write_breaks env s e u"
  by (auto simp: write_keeps_def write_breaks_def)

lemma same_data_ok: "same_data s s' \<Longrightarrow> files_ok env s' = files_ok env s \<and> ledger_gap env s' = ledger_gap env s"
  by (simp add: same_data_def files_ok_def ledger_gap_def)

lemma same_data_keeps: "same_data s s' \<Longrightarrow> files_ok env s \<Longrightarrow> write_keeps env s s'"
  by (simp add: write_keeps_def same_data_ok)

lemma files_ok_update:
  assumes "files_ok env s" and "\<forall>r \<in> set rows. normal_row env d r" and "dataset_definition_of (fst path) = Inr d"
    and "ps_files s' = (ps_files s)(path \<mapsto> rows)"
  shows "files_ok env s'"
  using assms by (cases path) (auto simp: files_ok_def)

lemma ledger_gap_update:
  assumes "dataset_definition_of (fst path) = Inr d" and "ps_files s' = (ps_files s)(path \<mapsto> rows)"
    and "ps_manifest s' = (ps_manifest s)(partition_manifest_key d (snd path) \<mapsto> dataset_partition_manifest_row env (ds_schema d) rows)"
  shows "ledger_gap env s' \<subseteq> ledger_gap env s"
proof
  fix x assume "x \<in> ledger_gap env s'"
  then obtain i v rows' d' where x: "x = (i, v)" and f: "ps_files s' (i, v) = Some rows'" and d': "dataset_definition_of i = Inr d'"
    and m: "ps_manifest s' (partition_manifest_key d' v) \<noteq> Some (dataset_partition_manifest_row env (ds_schema d') rows')"
    by (auto simp: ledger_gap_def)
  show "x \<in> ledger_gap env s"
  proof (cases "(i, v) = path")
    case True
    then show ?thesis using f m d' assms by auto
  next
    case False
    have "partition_manifest_key d' v \<noteq> partition_manifest_key d (snd path)"
    proof
      assume "partition_manifest_key d' v = partition_manifest_key d (snd path)"
      then have "ds_id d' = ds_id d" "v = snd path" by (auto simp: partition_manifest_key_def)
      then show False using False definition_text_columns [OF d'] definition_text_columns [OF assms(1)] by (cases path) auto
    qed
    then show ?thesis using False f m d' assms(2,3) by (auto simp: x ledger_gap_def)
  qed
qed

lemma write_prepared_keeps:
  assumes "files_ok env s" and "dataset_definition_of (ds_id d) = Inr d" and "dataset_path env d p = Inr path"
    and "\<forall>r \<in> set rows. normal_row env d r"
  shows "wp (write_prepared_dataset env d rows path p) s
    (\<lambda>_ s'. write_keeps env s s' \<and> ps_files s' = (ps_files s)(path \<mapsto> rows)) (write_breaks env s)"
proof (rule wp_mono [OF write_prepared_wp [OF assms(3)]], goal_cases)
  case (1 u s')
  have d: "dataset_definition_of (fst path) = Inr d" using assms(2) dataset_path_id [OF assms(3)] by simp
  show ?case
    using 1 files_ok_update [OF assms(1,4) d, of s'] ledger_gap_update [OF d, of s' s rows env] by (simp add: write_keeps_def)
next
  case (2 e s')
  have d: "dataset_definition_of (fst path) = Inr d" using assms(2) dataset_path_id [OF assms(3)] by simp
  have gap: "ledger_gap env s' \<subseteq> insert path (ledger_gap env s)"
    if "ps_files s' = (ps_files s)(path \<mapsto> rows)" "ps_manifest s' = ps_manifest s"
    using that by (auto simp: ledger_gap_def split: if_splits)
  show ?case
    using 2 same_data_ok [of s s' env] files_ok_update [OF assms(1,4) d, of s'] gap assms(1)
    by (auto simp: write_breaks_def same_data_def)
qed

text \<open>The rows of a partition after fresh rows were combined with the stored ones.\<close>

definition combined :: "('v, 'h) store_env \<Rightarrow> dataset_definition \<Rightarrow> 'v row list \<Rightarrow> 'v row list \<Rightarrow> 'v row list \<Rightarrow> bool" where
  "combined env d existing fresh rows \<longleftrightarrow>
     distinct (map (unique_key d) rows) \<and> set rows \<subseteq> set (existing @ fresh) \<and>
     unique_key d ` set rows = unique_key d ` set (existing @ fresh) \<and>
     (sorts_stably d \<longrightarrow> (\<forall>k. last_by (unique_key d) rows k =
        (case last_by (unique_key d) fresh k of None \<Rightarrow> last_by (unique_key d) existing k | Some r \<Rightarrow> Some r)))"

lemma combine_combined:
  assumes "env_ok env" and "text_columns_ok d" and "\<forall>r \<in> set existing. normal_row env d r" and "\<forall>r \<in> set fresh. normal_row env d r"
    and "combine_frames env d existing fresh p = Inr rows"
  shows "combined env d existing fresh rows \<and> (\<forall>r \<in> set rows. normal_row env d r)"
  using combine_rows [OF assms(1,2) _ assms(5)] assms(3,4) by (auto simp: combined_def)

lemma stored_normal:
  "files_ok env s \<Longrightarrow> dataset_definition_of (fst path) = Inr d \<Longrightarrow> \<forall>r \<in> set (stored_rows s path). normal_row env d r"
  by (cases path; cases "ps_files s path") (auto simp: files_ok_def stored_rows_def)

lemma write_prepared_after:
  assumes "files_ok env s" and "dataset_definition_of (ds_id d) = Inr d" and "dataset_path env d p = Inr path"
    and "\<forall>r \<in> set rows. normal_row env d r" and "same_data s s1"
  shows "wp (write_prepared_dataset env d rows path p) s1
    (\<lambda>_ s'. write_keeps env s s' \<and> ps_files s' = (ps_files s)(path \<mapsto> rows)) (write_breaks env s)"
  using write_prepared_keeps [OF _ assms(2-4), of s1] assms(1,5) same_data_ok [OF assms(5), of env]
  by (auto simp: same_data_def write_keeps_def write_breaks_def elim!: wp_mono)

lemma upsert_partition_wp:
  assumes "env_ok env" and "files_ok env s" and "dataset_definition_of (ds_id d) = Inr d" and "dataset_path env d p = Inr path"
  shows "wp (write_dataset_upsert_partition env d df p path skip) s
    (\<lambda>res s'. write_keeps env s s' \<and>
       (if wr_updated res = 0 then ps_files s' = ps_files s
        else \<exists>fresh rows. prepare_dataset_frame env d df p True = Inr fresh \<and> wr_row_count res = length fresh \<and>
          ps_files s' = (ps_files s)(path \<mapsto> rows) \<and> combined env d (stored_rows s path) fresh rows))
    (write_breaks env s)"
proof (cases "prepare_dataset_frame env d df p True")
  case (Inl e)
  then show ?thesis by (simp add: write_dataset_upsert_partition_def write_keeps_breaks write_keeps_refl assms(2))
next
  case (Inr fresh)
  have d: "dataset_definition_of (fst path) = Inr d" using assms(3) dataset_path_id [OF assms(4)] by simp
  have tc: "text_columns_ok d" using definition_text_columns [OF assms(3)] by blast
  have fresh: "\<forall>r \<in> set fresh. normal_row env d r" by (rule prepare_normal [OF assms(1) tc Inr])
  have finish: "wp (if skip \<and> incoming_keys_exist env d (stored_rows s path) fresh
      then Pair (Inr \<lparr>wr_paths = [path], wr_row_count = 0, wr_updated = 0, wr_skipped = 1\<rparr>)
      else seq_comp (lift_res (combine_frames env d (stored_rows s path) fresh p))
        (\<lambda>combined. seq_comp (write_prepared_dataset env d combined path p)
          (\<lambda>_. Pair (Inr \<lparr>wr_paths = [path], wr_row_count = length fresh, wr_updated = 1, wr_skipped = 0\<rparr>)))) s1
    (\<lambda>res s'. write_keeps env s s' \<and>
       (if wr_updated res = 0 then ps_files s' = ps_files s
        else \<exists>fresh rows. prepare_dataset_frame env d df p True = Inr fresh \<and> wr_row_count res = length fresh \<and>
          ps_files s' = (ps_files s)(path \<mapsto> rows) \<and> combined env d (stored_rows s path) fresh rows))
    (write_breaks env s)" if same: "same_data s s1" for s1
  proof (cases "skip \<and> incoming_keys_exist env d (stored_rows s path) fresh")
    case True
    then show ?thesis using same same_data_keeps [OF same assms(2)] by (simp add: same_data_def)
  next
    case False
    show ?thesis
    proof (cases "combine_frames env d (stored_rows s path) fresh p")
      case (Inl e)
      then show ?thesis using False same_data_keeps [OF same assms(2)] by (auto simp: write_keeps_breaks)
    next
      case (Inr rows)
      from combine_combined [OF assms(1) tc stored_normal [OF assms(2) d] fresh Inr]
      have c: "combined env d (stored_rows s path) fresh rows" "\<forall>r \<in> set rows. normal_row env d r" by auto
      show ?thesis
        using False Inr \<open>prepare_dataset_frame env d df p True = Inr fresh\<close> c(1)
          write_prepared_after [OF assms(2-4) c(2) same]
        by (auto elim!: wp_mono)
    qed
  qed
  show ?thesis
    unfolding write_dataset_upsert_partition_def wp_seq Inr wp_lift sum.case
  proof (rule wp_mono [OF read_dataset_wp [OF assms(2) d]], goal_cases)
    case (1 x s')
    then have x: "x = stored_rows s path" and same: "same_data s s'" by auto
    show ?case unfolding x by (rule finish [OF same, unfolded Inr])
  next
    case (2 e s')
    then show ?case using write_keeps_breaks [OF same_data_keeps [OF _ assms(2)]] by blast
  qed
qed

lemma upsert_groups_wp:
  assumes "env_ok env" and "files_ok env s" and "dataset_definition_of (ds_id d) = Inr d"
  shows "wp (upsert_groups env d column rows skip vs) s (\<lambda>res s'. write_keeps env s s') (write_breaks env s)"
  using assms(2)
proof (induction vs arbitrary: s)
  case Nil
  then show ?case by (simp add: wp_def write_keeps_refl)
next
  case (Cons v vs)
  have here: "write_breaks env s e s" for e using Cons.prems by (simp add: write_keeps_breaks write_keeps_refl)
  show ?case
  proof (cases "v = None \<or> map_option (\<lambda>x. py_strip (se_text env x)) v = Some []")
    case True
    then show ?thesis using here by (simp add: wp_def)
  next
    case False
    show ?thesis
    proof (cases "normalize_partition_value env d column v")
      case (Inl e)
      then show ?thesis using False here by (simp add: wp_def)
    next
      case (Inr t)
      let ?p = "Some [(column, Some (se_of_text env t))]"
      show ?thesis
      proof (cases "dataset_path env d ?p")
        case (Inl e)
        then show ?thesis using False Inr here by (simp add: wp_def seq_comp_def lift_res_def Let_def)
      next
        case path: (Inr path)
        let ?df = "frame_of (ds_schema d) (filter (\<lambda>r. r column = v) rows)"
        have eq: "upsert_groups env d column rows skip (v # vs) s =
            seq_comp (write_dataset_upsert_partition env d ?df ?p path skip)
              (\<lambda>r. seq_comp (upsert_groups env d column rows skip vs)
                 (\<lambda>r'. Pair (Inr \<lparr>wr_paths = wr_paths r @ wr_paths r', wr_row_count = wr_row_count r + wr_row_count r',
                    wr_updated = wr_updated r + wr_updated r', wr_skipped = wr_skipped r + wr_skipped r'\<rparr>))) s"
          using False Inr path by (auto simp: seq_comp_def lift_res_def Let_def)
        have rest: "wp (upsert_groups env d column rows skip vs) s1
            (\<lambda>r' s'. wp (Pair (Inr (f r'))) s' (\<lambda>res s'. write_keeps env s s') (write_breaks env s)) (write_breaks env s)"
          if "write_keeps env s s1" for s1 f
          using Cons.IH [of s1] that by (auto simp: write_keeps_def elim!: wp_mono intro: write_keeps_breaks_trans [unfolded write_keeps_def])
        show ?thesis
          by (rule wp_seq_at, rule eq, unfold wp_seq, rule wp_mono [OF upsert_partition_wp [OF assms(1) Cons.prems assms(3) path]])
             (rule rest, simp, simp)
      qed
    qed
  qed
qed

lemma write_dataset_wp:
  assumes "env_ok env" and "files_ok env s"
  shows "wp (write_dataset env i df p mode skip) s (\<lambda>res s'. write_keeps env s s') (write_breaks env s)"
proof (cases "dataset_definition_of i")
  case (Inl e)
  then show ?thesis by (simp add: write_dataset_def write_keeps_breaks write_keeps_refl assms(2))
next
  case (Inr d)
  have id: "dataset_definition_of (ds_id d) = Inr d" and tc: "text_columns_ok d" using definition_text_columns [OF Inr] Inr by auto
  have here: "write_breaks env s e s" "write_keeps env s s" for e using assms(2) by (simp_all add: write_keeps_breaks write_keeps_refl)
  have upsert: "wp (write_dataset_upsert env d df p skip) s (\<lambda>res s'. write_keeps env s s') (write_breaks env s)"
  proof (cases "\<exists>column. ds_partition_column d = Some column \<and> p = None")
    case True
    then obtain column where c: "ds_partition_column d = Some column" "p = None" by blast
    show ?thesis
      using upsert_groups_wp [OF assms id] here
      by (auto simp: write_dataset_upsert_def c split: sum.split)
  next
    case False
    then have eq: "write_dataset_upsert env d df p skip =
        seq_comp (lift_res (dataset_path env d p)) (\<lambda>path. write_dataset_upsert_partition env d df p path skip)"
      by (cases p) (auto simp: write_dataset_upsert_def split: option.split)
    show ?thesis
    proof (cases "dataset_path env d p")
      case (Inl e)
      then show ?thesis using here by (simp add: eq)
    next
      case (Inr path)
      show ?thesis
        unfolding eq wp_seq wp_lift Inr sum.case
        by (rule wp_mono [OF upsert_partition_wp [OF assms id Inr]]) blast+
    qed
  qed
  have other: "wp (seq_comp (lift_res (dataset_path env d p))
      (\<lambda>path. seq_comp (lift_res (prepare_dataset_frame env d df p True))
        (\<lambda>incoming. seq_comp
          (\<lambda>s. if m = Merge \<and> ps_files s path \<noteq> None
               then seq_comp (read_dataset env d path) (\<lambda>existing. lift_res (combine_frames env d existing incoming p)) s
               else (Inr incoming, s))
          (\<lambda>rows. seq_comp (write_prepared_dataset env d rows path p)
            (\<lambda>_. Pair (Inr \<lparr>wr_paths = [path], wr_row_count = length rows, wr_updated = 1, wr_skipped = 0\<rparr>)))))) s
      (\<lambda>res s'. write_keeps env s s') (write_breaks env s)" for m
  proof (cases "dataset_path env d p")
    case (Inl e)
    then show ?thesis using here by simp
  next
    case path: (Inr path)
    have d: "dataset_definition_of (fst path) = Inr d" using id dataset_path_id [OF path] by simp
    show ?thesis
    proof (cases "prepare_dataset_frame env d df p True")
      case (Inl e)
      then show ?thesis using here path by simp
    next
      case (Inr incoming)
      have fresh: "\<forall>r \<in> set incoming. normal_row env d r" by (rule prepare_normal [OF assms(1) tc Inr])
      have wrote: "wp (write_prepared_dataset env d rows path p) s1
          (\<lambda>_ s'. write_keeps env s s') (write_breaks env s)"
        if "same_data s s1" "\<forall>r \<in> set rows. normal_row env d r" for rows s1
        using write_prepared_after [OF assms(2) id path that(2,1)] by (auto elim!: wp_mono)
      have merged: "wp (seq_comp (read_dataset env d path) (\<lambda>existing. lift_res (combine_frames env d existing incoming p))) s
          (\<lambda>rows s'. same_data s s' \<and> (\<forall>r \<in> set rows. normal_row env d r)) (write_breaks env s)"
        unfolding wp_seq
      proof (rule wp_mono [OF read_dataset_wp [OF assms(2) d]], goal_cases)
        case (1 x s')
        then show ?case
          using combine_combined [OF assms(1) tc stored_normal [OF assms(2) d] fresh] write_keeps_breaks [OF same_data_keeps [OF _ assms(2)]]
          by (auto split: sum.split)
      next
        case (2 e s')
        then show ?case using write_keeps_breaks [OF same_data_keeps [OF _ assms(2)]] by blast
      qed
      have "wp (\<lambda>s. if m = Merge \<and> ps_files s path \<noteq> None
               then seq_comp (read_dataset env d path) (\<lambda>existing. lift_res (combine_frames env d existing incoming p)) s
               else (Inr incoming, s)) s
          (\<lambda>rows s'. same_data s s' \<and> (\<forall>r \<in> set rows. normal_row env d r)) (write_breaks env s)"
        using merged fresh by (auto simp: wp_def)
      then show ?thesis
        using wrote path Inr by (auto elim!: wp_mono)
    qed
  qed
  show ?thesis
    using Inr upsert other here by (auto simp: write_dataset_def Let_def split: option.split)
qed

section \<open>Reachable stores\<close>

text \<open>The stores that writes produce from an empty one, with the number of writes that failed in the ledger.\<close>

inductive store_run :: "('v, 'h) store_env \<Rightarrow> nat \<Rightarrow> ('v, 'h) parquet_store \<Rightarrow> bool" for env where
  empty: "ps_files s = (\<lambda>_. None) \<Longrightarrow> store_run env 0 s"
| write_ok: "store_run env n s \<Longrightarrow> write_dataset env i df p mode skip s = (Inr res, s') \<Longrightarrow> store_run env n s'"
| write_failed: "store_run env n s \<Longrightarrow> write_dataset env i df p mode skip s = (Inl e, s') \<Longrightarrow>
    store_run env (if \<exists>m. e = ManifestFailure m then Suc n else n) s'"

lemma store_run_ok:
  assumes "store_run env n s" and "env_ok env"
  shows "files_ok env s \<and> (\<not> se_staging env \<longrightarrow> finite (ledger_gap env s) \<and> card (ledger_gap env s) \<le> n)"
  using assms(1)
proof induction
  case (empty s)
  then show ?case by (simp add: files_ok_def ledger_gap_def)
next
  case (write_ok n s i df p mode skip res s')
  then have "write_keeps env s s'" using write_dataset_wp [OF assms(2), of s i df p mode skip] by (simp add: wp_def)
  then show ?case
    using write_ok.IH by (auto simp: write_keeps_def intro: finite_subset card_mono le_trans)
next
  case (write_failed n s i df p mode skip e s')
  then have b: "write_breaks env s e s'" using write_dataset_wp [OF assms(2), of s i df p mode skip] by (simp add: wp_def)
  show ?case
  proof (cases "\<not> se_staging env \<longrightarrow> ledger_gap env s' \<subseteq> ledger_gap env s")
    case True
    then show ?thesis using b write_failed.IH
      by (auto simp: write_breaks_def intro: finite_subset card_mono le_trans le_SucI)
  next
    case False
    then obtain x where e: "\<exists>m. e = ManifestFailure m" and x: "ledger_gap env s' \<subseteq> insert x (ledger_gap env s)"
      using b by (auto simp: write_breaks_def)
    have fin: "finite (ledger_gap env s)" and le: "card (ledger_gap env s) \<le> n" using False write_failed.IH by auto
    have "card (ledger_gap env s') \<le> card (insert x (ledger_gap env s))" using x fin by (intro card_mono) auto
    also have "\<dots> \<le> Suc n" using fin le by (simp add: card_insert_if)
    finally show ?thesis using x fin e b by (auto simp: write_breaks_def intro: finite_subset)
  qed
qed

section \<open>Properties of the store\<close>

text \<open>
  C28: Whatever is written, in any mode and with any failures of the disk, to a store that was empty at
  first: every stored row is normal (its cells are coerced, its adjustment is canonical, its fixed
  columns hold their values), and outside the staging area at most as many partitions disagree with
  their ledger entry (row count and both digests) as writes have failed in the ledger itself. Failures
  of the file write never open a gap.
\<close>

theorem ledger_follows_files:
  assumes "store_run env n s" and "env_ok env"
  shows "files_ok env s \<and> (\<not> se_staging env \<longrightarrow> finite (ledger_gap env s) \<and> card (ledger_gap env s) \<le> n)"
  by (rule store_run_ok [OF assms])

text \<open>A partition as a finite map from keys to rows.\<close>

definition partition_map :: "dataset_definition \<Rightarrow> 'v row list \<Rightarrow> 'v option list \<Rightarrow> 'v row option" where
  "partition_map d rows k = last_by (unique_key d) rows k"

lemma wp_InrD: "wp m s Q E \<Longrightarrow> m s = (Inr x, s') \<Longrightarrow> Q x s'"
  by (simp add: wp_def)

lemma dom_partition_map: "dom (partition_map d rows) = unique_key d ` set rows"
  using last_by_None [of "unique_key d" rows] by (auto simp: partition_map_def dom_def)

lemma combined_map:
  assumes "combined env d existing fresh rows" and "sorts_stably d"
  shows "partition_map d rows = partition_map d existing ++ partition_map d fresh"
proof
  fix k show "partition_map d rows k = (partition_map d existing ++ partition_map d fresh) k"
    using assms by (auto simp: combined_def partition_map_def map_add_def split: option.split)
qed

lemma combined_keys:
  "combined env d existing fresh rows \<Longrightarrow> dom (partition_map d rows) = dom (partition_map d existing) \<union> dom (partition_map d fresh)"
  by (auto simp: combined_def dom_partition_map image_Un)

lemma write_dataset_Upsert:
  assumes "dataset_definition_of i = Inr d" and "dataset_path env d p = Inr path"
  shows "write_dataset env i df p (Some Upsert) skip s = write_dataset_upsert_partition env d df p path skip s"
proof (cases "ds_partition_column d")
  case None
  then show ?thesis using assms by (simp add: write_dataset_def write_dataset_upsert_def seq_comp_def lift_res_def)
next
  case (Some column)
  moreover have "p \<noteq> None" using assms(2) Some by (cases p) (simp_all add: dataset_path_def partition_value_def)
  ultimately show ?thesis using assms by (auto simp: write_dataset_def write_dataset_upsert_def seq_comp_def lift_res_def)
qed

text \<open>
  C32: Refinement of the upsert to finite maps. With a partition seen as a map from unique keys to rows,
  an upsert that reports an update leaves every other file as it was and stores, with no key twice, the
  stored map overridden by the fresh one (\<open>++\<close>) if the dataset's rows are sorted stably by key columns;
  for any dataset the keys are the union. An upsert that reports no update touches no file, and that is
  only possible when existing keys may be skipped.
\<close>

theorem upsert_refines_map_update:
  assumes "store_run env n s" and "env_ok env"
    and "dataset_definition_of i = Inr d" and "dataset_path env d p = Inr path"
    and "write_dataset env i df p (Some Upsert) skip s = (Inr res, s')"
  shows "if wr_updated res = 0 then skip \<and> ps_files s' = ps_files s
    else \<exists>fresh rows. prepare_dataset_frame env d df p True = Inr fresh \<and> wr_row_count res = length fresh \<and>
      ps_files s' = (ps_files s)(path \<mapsto> rows) \<and> distinct (map (unique_key d) rows) \<and>
      dom (partition_map d rows) = dom (partition_map d (stored_rows s path)) \<union> dom (partition_map d fresh) \<and>
      (sorts_stably d \<longrightarrow> partition_map d rows = partition_map d (stored_rows s path) ++ partition_map d fresh)"
proof -
  have w: "write_dataset_upsert_partition env d df p path skip s = (Inr res, s')"
    using assms(5) write_dataset_Upsert [OF assms(3,4)] by simp
  have ok: "files_ok env s" using store_run_ok [OF assms(1,2)] by blast
  have "dataset_definition_of (ds_id d) = Inr d" using definition_text_columns [OF assms(3)] assms(3) by auto
  note post = wp_InrD [OF upsert_partition_wp [OF assms(2) ok this assms(4), of df skip] w]
  show ?thesis
  proof (cases "wr_updated res = 0")
    case True
    have skip
    proof (rule ccontr)
      assume "\<not> skip"
      with w have "wr_updated res = 1"
        by (auto simp: write_dataset_upsert_partition_def seq_comp_def lift_res_def split: sum.splits prod.splits)
      with True show False by simp
    qed
    then show ?thesis using post True by simp
  next
    case False
    with post obtain fresh rows where r: "prepare_dataset_frame env d df p True = Inr fresh" "wr_row_count res = length fresh"
      "ps_files s' = (ps_files s)(path \<mapsto> rows)" and c: "combined env d (stored_rows s path) fresh rows" by auto
    show ?thesis
      unfolding if_not_P [OF False]
      by (intro exI conjI, rule r(1), rule r(2), rule r(3)) (use c combined_keys [OF c] combined_map [OF c] in \<open>simp_all add: combined_def\<close>)
  qed
qed

section \<open>Which row of a key survives a merge\<close>

text \<open>
  Two sorting routines that both meet the contract of pandas' default sort: one keeps the order of rows
  that agree on the column, the other reverses it.
\<close>

definition forward_sort :: "('v, 'h) store_env \<Rightarrow> ('v, 'h) store_env" where
  "forward_sort env = env\<lparr>se_quicksort := \<lambda>c. stable_sort (row_less_eq env [c])\<rparr>"

definition backward_sort :: "('v, 'h) store_env \<Rightarrow> ('v, 'h) store_env" where
  "backward_sort env = env\<lparr>se_quicksort := \<lambda>c rows. stable_sort (row_less_eq env [c]) (rev rows)\<rparr>"

definition values_ok :: "('v, 'h) store_env \<Rightarrow> bool" where
  "values_ok env \<longleftrightarrow>
     (\<forall>ty v. se_coerce env ty (se_coerce env ty v) = se_coerce env ty v) \<and>
     (\<forall>t. se_coerce env StringT (Some (se_of_text env t)) = Some (se_of_text env t)) \<and>
     (\<forall>t. se_text env (se_of_text env t) = t) \<and>
     (\<forall>x y. se_less_eq env x y \<or> se_less_eq env y x) \<and>
     (\<forall>x y z. se_less_eq env x y \<longrightarrow> se_less_eq env y z \<longrightarrow> se_less_eq env x z) \<and>
     (\<forall>x y. se_less_eq env x y \<longrightarrow> se_less_eq env y x \<longrightarrow> x = y)"

lemma env_ok_values: "env_ok env \<longleftrightarrow> values_ok env \<and>
    (\<forall>c rows. mset (se_quicksort env c rows) = mset rows \<and> sorted_wrt (row_less_eq env [c]) (se_quicksort env c rows))"
  by (simp add: env_ok_def values_ok_def)

lemma row_less_eq_sort: "row_less_eq (env\<lparr>se_quicksort := q\<rparr>) cs r r' = row_less_eq env cs r r'"
  by (induction cs) (simp_all split: option.split)

lemma row_less_eq_sorts [simp]:
  "row_less_eq (forward_sort env) cs = row_less_eq env cs" "row_less_eq (backward_sort env) cs = row_less_eq env cs"
  by (intro ext, simp add: forward_sort_def backward_sort_def row_less_eq_sort)+

lemma values_ok_sorts [simp]: "values_ok (forward_sort env) = values_ok env" "values_ok (backward_sort env) = values_ok env"
  by (simp_all add: values_ok_def forward_sort_def backward_sort_def)

lemma clean_cells_sorts: "clean_cells (env\<lparr>se_quicksort := q\<rparr>) schema cols r = clean_cells env schema cols r"
  by (intro ext) (simp add: clean_cells_def split: option.split)

lemma normalize_row_sorts: "normalize_row (env\<lparr>se_quicksort := q\<rparr>) schema r = normalize_row env schema r"
  by (cases "r ''adjustment''") (simp_all add: normalize_row_def normalize_optional_adjustment_def split: sum.split)

lemma normal_row_sorts: "normal_row (forward_sort env) d r = normal_row env d r" "normal_row (backward_sort env) d r = normal_row env d r"
  by (simp_all add: normal_row_def forward_sort_def backward_sort_def clean_cells_sorts normalize_row_sorts)

lemma row_less_eq_total: "values_ok env \<Longrightarrow> row_less_eq env [c] r r' \<or> row_less_eq env [c] r' r"
  by (auto simp: values_ok_def split: option.split)

lemma row_less_eq_trans: "values_ok env \<Longrightarrow> row_less_eq env [c] r r' \<Longrightarrow> row_less_eq env [c] r' r'' \<Longrightarrow> row_less_eq env [c] r r''"
  unfolding values_ok_def by (auto split: option.splits if_splits)

lemma set_insert_row: "set (insert_row le x ys) = insert x (set ys)"
  by (induction ys) auto

lemma sorted_insert_row:
  assumes "\<And>x y. le x y \<or> le y x" and "\<And>x y z. le x y \<Longrightarrow> le y z \<Longrightarrow> le x z" and "sorted_wrt le ys"
  shows "sorted_wrt le (insert_row le x ys)"
  using assms(3)
proof (induction ys)
  case (Cons y ys)
  then show ?case using assms(1) [of x y] by (auto simp: set_insert_row intro: assms(2))
qed simp

lemma sorted_stable_sort:
  assumes "\<And>x y. le x y \<or> le y x" and "\<And>x y z. le x y \<Longrightarrow> le y z \<Longrightarrow> le x z"
  shows "sorted_wrt le (stable_sort le xs)"
  by (induction xs) (simp_all add: stable_sort_def sorted_insert_row [OF assms])

lemma env_ok_sorts:
  assumes "values_ok env"
  shows "env_ok (forward_sort env)" and "env_ok (backward_sort env)"
proof -
  have "sorted_wrt (row_less_eq env [c]) (stable_sort (row_less_eq env [c]) rows)" for c rows
    by (intro sorted_stable_sort row_less_eq_total assms) (rule row_less_eq_trans [OF assms])
  moreover have "mset (se_quicksort (forward_sort env) c rows) = mset rows" "mset (se_quicksort (backward_sort env) c rows) = mset rows" for c rows
    by (simp_all add: forward_sort_def backward_sort_def)
  moreover have "se_quicksort (forward_sort env) c = stable_sort (row_less_eq env [c])"
    "se_quicksort (backward_sort env) c = (\<lambda>rows. stable_sort (row_less_eq env [c]) (rev rows))" for c
    by (simp_all add: forward_sort_def backward_sort_def)
  ultimately show "env_ok (forward_sort env)" "env_ok (backward_sort env)"
    using assms by (simp_all only: env_ok_values values_ok_sorts row_less_eq_sorts simp_thms)
qed

lemma last_by_same_set:
  assumes "distinct (map f xs)" and "mset xs = mset ys"
  shows "last_by f ys k = last_by f xs k"
proof -
  have set: "set ys = set xs" using assms(2) by (metis set_mset_mset)
  show ?thesis
  proof (cases "last_by f xs k")
    case None
    then show ?thesis using last_by_None [of f ys k] last_by_None [of f xs k] by (simp add: set)
  next
    case (Some x)
    then obtain y where y: "last_by f ys k = Some y" using set by (metis last_by_None not_Some_eq)
    have "x = y"
      using last_by_Some [OF Some] last_by_Some [OF y] set assms(1) by (simp add: distinct_map inj_on_def)
    then show ?thesis using Some y by simp
  qed
qed

lemma last_by_rev: "distinct (map f xs) \<Longrightarrow> last_by f (rev xs) k = last_by f xs k"
  by (rule last_by_same_set) simp_all

definition sorts_on_one :: "dataset_definition \<Rightarrow> string \<Rightarrow> bool" where
  "sorts_on_one d c \<longleftrightarrow> filter (\<lambda>c. c \<in> set (field_names (ds_schema d))) (ds_sort_columns d) = [c] \<and> c \<in> set (ds_unique_columns d)"

lemma filter_key_sort:
  assumes "sorts_on_one d c"
  shows "filter (\<lambda>r. unique_key d r = k) (stable_sort (row_less_eq env [c]) rows) = filter (\<lambda>r. unique_key d r = k) rows"
  using assms unique_key_columns
  by (intro filter_stable_sort) (fastforce simp: sorts_on_one_def simp del: row_less_eq.simps intro!: row_less_eq_agree)

lemma partition_map_key_sort:
  assumes "sorts_on_one d c"
  shows "partition_map d (stable_sort (row_less_eq env [c]) rows) = partition_map d rows"
proof
  fix k show "partition_map d (stable_sort (row_less_eq env [c]) rows) k = partition_map d rows k"
    using filter_key_sort [OF assms, of k env rows]
      last_by_filter [of "stable_sort (row_less_eq env [c]) rows" "unique_key d" k "\<lambda>r. unique_key d r = k"]
      last_by_filter [of rows "unique_key d" k "\<lambda>r. unique_key d r = k"] by (simp add: partition_map_def)
qed

lemma partition_map_append: "partition_map d (xs @ ys) = partition_map d xs ++ partition_map d ys"
  by (intro ext) (simp add: partition_map_def last_by_append map_add_def split: option.split)

lemma partition_map_rev: "distinct (map (unique_key d) xs) \<Longrightarrow> partition_map d (rev xs) = partition_map d xs"
  by (intro ext) (simp add: partition_map_def last_by_rev)

lemma combine_one_sort:
  assumes "env_ok env" and "text_columns_ok d" and "\<forall>r \<in> set (existing @ fresh). normal_row env d r"
    and "sorts_on_one d c" and "combine_frames env d existing fresh p = Inr rows" and "existing @ fresh \<noteq> []"
  shows "partition_map d rows = partition_map d (se_quicksort env c (existing @ fresh))"
proof
  fix k
  obtain sorted where s: "prepare_dataset_frame env d (frame_of (ds_schema d) (existing @ fresh)) p False = Inr sorted"
    and rows: "rows = sort_dataset_frame env d (keep_last (unique_key d) sorted)"
    using assms(2,5) by (auto simp: combine_frames_def Let_def deduplicate_dataset_frame_def text_columns_ok_def split: option.splits)
  have sorted: "sorted = se_quicksort env c (existing @ fresh)"
    using prepare_normal_rows [OF assms(1-3) s] assms(4,6) unfolding sort_dataset_frame_def sorts_on_one_def Let_def
    by (simp only: list.case if_False simp_thms)
  have "mset (keep_last (unique_key d) sorted) = mset rows" by (simp add: rows mset_sort_frame [OF assms(1)])
  from last_by_same_set [OF distinct_keep_last this]
  show "partition_map d rows k = partition_map d (se_quicksort env c (existing @ fresh)) k"
    by (simp add: partition_map_def sorted)
qed

text \<open>
  C33: A dataset whose rows are sorted on one column does not determine which row of a key a merge keeps.
  With a default sort that happens to keep equal rows in order the fresh row replaces the stored one;
  with one that reverses them - the contract of pandas' default sort allows both - every stored row
  survives and the fresh values of existing keys are lost. The trading calendar, written with the default
  mode \<open>Merge\<close>, and the two spot quote datasets are of this kind.
\<close>

theorem one_column_merge_undetermined:
  assumes "values_ok env" and "dataset_definition_of i = Inr d" and "sorts_on_one d c"
    and "\<forall>r \<in> set (existing @ fresh). normal_row env d r" and "existing \<noteq> []"
    and "distinct (map (unique_key d) existing)" and "distinct (map (unique_key d) fresh)"
    and "combine_frames (forward_sort env) d existing fresh p = Inr kept_fresh"
    and "combine_frames (backward_sort env) d existing fresh p = Inr kept_stored"
  shows "partition_map d kept_fresh = partition_map d existing ++ partition_map d fresh \<and>
    partition_map d kept_stored = partition_map d fresh ++ partition_map d existing"
proof -
  have tc: "text_columns_ok d" using definition_text_columns [OF assms(2)] by blast
  have normal: "\<forall>r \<in> set (existing @ fresh). normal_row (forward_sort env) d r" "\<forall>r \<in> set (existing @ fresh). normal_row (backward_sort env) d r"
    using assms(4) by (simp_all add: normal_row_sorts)
  from combine_one_sort [OF env_ok_sorts(1) [OF assms(1)] tc normal(1) assms(3,8)] assms(5)
  have "partition_map d kept_fresh = partition_map d existing ++ partition_map d fresh"
    by (simp add: forward_sort_def partition_map_key_sort [OF assms(3)] partition_map_append del: row_less_eq.simps)
  moreover from combine_one_sort [OF env_ok_sorts(2) [OF assms(1)] tc normal(2) assms(3,9)] assms(5)
  have "partition_map d kept_stored = partition_map d fresh ++ partition_map d existing"
    by (simp add: backward_sort_def partition_map_key_sort [OF assms(3)] partition_map_append partition_map_rev assms(6,7)
        del: row_less_eq.simps)
  ultimately show ?thesis by blast
qed

lemma one_column_datasets:
  "map fst (filter (\<lambda>(i, d). list_ex (sorts_on_one d) (ds_sort_columns d)) DATASET_CATALOG) =
     [''baostock_cn_stock_basic'', ''baostock_cn_trading_calendar'', ''akshare_cn_stock_spot_quote_eastmoney'',
      ''akshare_cn_stock_spot_quote_sina'', ''qlib_cn_calendar_day'']"
  by code_simp

text \<open>A small environment: cells are texts, nothing fails.\<close>

definition plain_env :: "(string, nat) store_env" where
  "plain_env =
     \<lparr>se_coerce = (\<lambda>ty v. v), se_text = (\<lambda>x. x), se_of_text = (\<lambda>x. x), se_less_eq = (\<le>), se_quicksort = (\<lambda>c rows. rows),
      se_validator = (\<lambda>i rows. None), se_digest = (\<lambda>schema rows. length rows), se_read = (\<lambda>n. ReadOk),
      se_write = (\<lambda>n. Written), se_manifest_error = (\<lambda>n. None), se_staging = False\<rparr>"

lemma plain_values_ok: "values_ok plain_env"
  by (auto simp: values_ok_def plain_env_def)

lemma plain_env_ok: "env_ok (forward_sort plain_env)"
  by (rule env_ok_sorts(1) [OF plain_values_ok])

definition no_files :: "(string, nat) parquet_store" where
  "no_files = \<lparr>ps_files = (\<lambda>_. None), ps_manifest = (\<lambda>_. None), ps_legacy = [], ps_dirty = [], ps_attempts = 0\<rparr>"

definition calendar_frame :: "string \<Rightarrow> string raw_frame" where
  "calendar_frame trading =
     \<lparr>rf_columns = [''date'', ''is_trading_day''], rf_rows = [map_of [(''date'', ''2024-02-09''), (''is_trading_day'', trading)]]\<rparr>"

definition calendar_row :: "string \<Rightarrow> string row" where
  "calendar_row trading =
     clean_cells plain_env BAOSTOCK_CN_TRADING_CALENDAR_SCHEMA (field_names BAOSTOCK_CN_TRADING_CALENDAR_SCHEMA)
       (map_of [(''calendar_date'', ''2024-02-09''), (''is_trading_day'', trading)])"

lemma store_run_no_files: "store_run env 0 no_files"
  by (rule store_run.empty) (simp add: no_files_def)

lemma plain_write:
  "\<exists>res s'. write_dataset (forward_sort plain_env) ''baostock_cn_trading_calendar'' (calendar_frame ''1'') None (Some Upsert) False no_files =
     (Inr res, s') \<and> wr_updated res = 1"
proof -
  have "(case fst (write_dataset (forward_sort plain_env) ''baostock_cn_trading_calendar'' (calendar_frame ''1'') None (Some Upsert) False
      no_files) of Inr res \<Rightarrow> wr_updated res = 1 | Inl e \<Rightarrow> False)"
    by code_simp
  then show ?thesis by (cases "write_dataset (forward_sort plain_env) ''baostock_cn_trading_calendar'' (calendar_frame ''1'') None
      (Some Upsert) False no_files") (auto split: sum.splits)
qed

theorem ledger_follows_files_witness:
  "\<exists>s. ps_dirty s \<noteq> [] \<and> files_ok (forward_sort plain_env) s \<and> card (ledger_gap (forward_sort plain_env) s) = 0"
proof -
  let ?E = "forward_sort plain_env" and ?i = "''baostock_cn_trading_calendar''"
  obtain res s' where w: "write_dataset ?E ?i (calendar_frame ''1'') None (Some Upsert) False no_files = (Inr res, s')"
    using plain_write by blast
  have "ps_dirty (snd (write_dataset ?E ?i (calendar_frame ''1'') None (Some Upsert) False no_files)) = [?i]" by code_simp
  then have "ps_dirty s' \<noteq> []" by (simp add: w)
  moreover have "\<not> se_staging ?E" by (simp add: forward_sort_def plain_env_def)
  ultimately show ?thesis
    using ledger_follows_files [OF store_run.write_ok [OF store_run_no_files w] plain_env_ok] by auto
qed

theorem upsert_refines_map_update_witness:
  "\<exists>d res s'. dataset_definition_of ''baostock_cn_trading_calendar'' = Inr d \<and>
     write_dataset (forward_sort plain_env) ''baostock_cn_trading_calendar'' (calendar_frame ''1'') None (Some Upsert) False no_files = (Inr res, s') \<and>
     ps_files s' \<noteq> ps_files no_files"
proof -
  let ?E = "forward_sort plain_env" and ?i = "''baostock_cn_trading_calendar''"
  obtain res s' where w: "write_dataset ?E ?i (calendar_frame ''1'') None (Some Upsert) False no_files = (Inr res, s')"
    and u: "wr_updated res = 1" using plain_write by blast
  have "(case dataset_definition_of ?i of Inr d \<Rightarrow> ds_partition_column d = None | Inl e \<Rightarrow> False)" by code_simp
  then obtain d where d: "dataset_definition_of ?i = Inr d" "ds_partition_column d = None" by (auto split: sum.splits)
  then have path: "dataset_path ?E d None = Inr (ds_id d, [])" by (simp add: dataset_path_def partition_value_def)
  obtain rows where "ps_files s' = (ps_files no_files)((ds_id d, []) \<mapsto> rows)"
    using upsert_refines_map_update [OF store_run_no_files plain_env_ok d(1) path w, unfolded u if_not_P [OF one_neq_zero]]
    by (elim exE conjE) (rule that)
  then have "ps_files s' (ds_id d, []) \<noteq> ps_files no_files (ds_id d, [])" by (simp add: no_files_def)
  then have "ps_files s' \<noteq> ps_files no_files" by (rule contrapos_nn) simp
  with d(1) w show ?thesis by blast
qed

lemma combine_frames_Inr:
  assumes "env_ok env" and "text_columns_ok d" and "ds_partition_column d = None"
    and "\<forall>r \<in> set (existing @ fresh). normal_row env d r" and "\<forall>rows. se_validator env (ds_id d) rows = None"
  shows "\<exists>rows. combine_frames env d existing fresh p = Inr rows"
  using clean_normal_rows [OF assms(4)] fix_normal_rows [OF assms(1,2,4)] assms(3,5)
  by (auto simp: combine_frames_def prepare_dataset_frame_def Let_def)

lemma calendar_row_normal:
  assumes "ds_schema d = BAOSTOCK_CN_TRADING_CALENDAR_SCHEMA" and "ds_fixed_column_values d = []"
  shows "normal_row plain_env d (calendar_row t)"
proof -
  have "clean_cells plain_env (ds_schema d) (field_names (ds_schema d)) (calendar_row t) = calendar_row t"
    using clean_cells_coerced [OF plain_env_ok]
    by (simp add: coerced_clean forward_sort_def clean_cells_sorts calendar_row_def assms(1))
  moreover have "''adjustment'' \<notin> set (field_names BAOSTOCK_CN_TRADING_CALENDAR_SCHEMA)" by code_simp
  ultimately show ?thesis by (simp add: normal_row_def normalize_row_def assms)
qed

theorem one_column_merge_undetermined_witness:
  "\<exists>d kept_fresh kept_stored k. dataset_definition_of ''baostock_cn_trading_calendar'' = Inr d \<and>
     combine_frames (forward_sort plain_env) d [calendar_row ''1''] [calendar_row ''0''] None = Inr kept_fresh \<and>
     combine_frames (backward_sort plain_env) d [calendar_row ''1''] [calendar_row ''0''] None = Inr kept_stored \<and>
     partition_map d kept_fresh k = Some (calendar_row ''0'') \<and> partition_map d kept_stored k = Some (calendar_row ''1'')"
proof -
  let ?i = "''baostock_cn_trading_calendar''"
  have "(case dataset_definition_of ?i of Inr d \<Rightarrow> ds_schema d = BAOSTOCK_CN_TRADING_CALENDAR_SCHEMA \<and> ds_fixed_column_values d = [] \<and>
      ds_partition_column d = None \<and> sorts_on_one d ''calendar_date'' \<and> ds_unique_columns d = [''calendar_date'']
      | Inl e \<Rightarrow> False)"
    by code_simp
  then obtain d where d: "dataset_definition_of ?i = Inr d" "ds_schema d = BAOSTOCK_CN_TRADING_CALENDAR_SCHEMA"
    "ds_fixed_column_values d = []" "ds_partition_column d = None" "sorts_on_one d ''calendar_date''" "ds_unique_columns d = [''calendar_date'']"
    by (auto split: sum.splits)
  have n: "\<forall>r \<in> set ([calendar_row ''1''] @ [calendar_row ''0'']). normal_row plain_env d r"
    using calendar_row_normal [OF d(2,3)] by simp
  have key: "calendar_row t ''calendar_date'' = Some ''2024-02-09''" for t
    by (simp add: calendar_row_def clean_cells_own BAOSTOCK_CN_TRADING_CALENDAR_SCHEMA_def plain_env_def)
  have tc: "text_columns_ok d" using definition_text_columns [OF d(1)] by blast
  have "\<exists>rows. combine_frames env d [calendar_row ''1''] [calendar_row ''0''] None = Inr rows"
    if "env = forward_sort plain_env \<or> env = backward_sort plain_env" for env
  proof (rule combine_frames_Inr [OF _ tc d(4)])
    show "env_ok env" using that env_ok_sorts [OF plain_values_ok] by blast
    show "\<forall>r \<in> set ([calendar_row ''1''] @ [calendar_row ''0'']). normal_row env d r" using that n normal_row_sorts by blast
    show "\<forall>rows. se_validator env (ds_id d) rows = None" using that by (elim disjE) (simp_all add: forward_sort_def backward_sort_def plain_env_def)
  qed
  then obtain kf ks where k: "combine_frames (forward_sort plain_env) d [calendar_row ''1''] [calendar_row ''0''] None = Inr kf"
    "combine_frames (backward_sort plain_env) d [calendar_row ''1''] [calendar_row ''0''] None = Inr ks" by blast
  from one_column_merge_undetermined [OF plain_values_ok d(1,5) n _ _ _ k]
  have "partition_map d kf [Some ''2024-02-09''] = Some (calendar_row ''0'')"
    "partition_map d ks [Some ''2024-02-09''] = Some (calendar_row ''1'')"
    by (simp_all add: partition_map_def last_by_def unique_key_def d(6) key map_add_def)
  then show ?thesis using d(1) k by blast
qed

end
