(* ===== verification/Qlib_Sync.thy ===== *)
theory Qlib_Sync imports Parquet_Store Trading_Calendar "HOL-Library.Word" begin

text \<open>
  The Qlib synchronisation (\<open>src/sources/qlib/sync.py\<close>): reading the binary columns of a Qlib source
  directory, storing its calendar, instruments and features in the Parquet store with a pool of workers,
  and the decision whether anything has to be downloaded or synchronised.

  Numbers, the parsing of dates, the clock of the deadline, the download and the order in which workers
  finish are the environment. A worker's effects happen when its future is found finished. Dates are
  compared as dates where the code compares their ISO texts. Failures of removing directories are not
  modelled.
\<close>

section \<open>Binary columns\<close>

datatype qlib_error =
    StoreRaised store_error
  | CalendarRaised calendar_error
  | QlibTimeout string
  | FileMissing string
  | ValueFailure string
  | DownloadFailure string
  | ViewFailure string

definition QLIB_FEATURE_FIELDS :: "string list" where
  "QLIB_FEATURE_FIELDS =
     [''open'', ''high'', ''low'', ''close'', ''volume'', ''amount'', ''factor'', ''change'', ''vwap'', ''adjclose'']"

text \<open>A source directory: calendar lines, instrument files by name, feature directories with their \<open>.day.bin\<close> files by field.\<close>

record qlib_source =
  qs_calendar :: "string list option"
  qs_instruments :: "(string \<times> string list) list"
  qs_features :: "(string \<times> (string \<times> 8 word list) list) list option"

record qlib_asset =
  qa_id :: string
  qa_etag :: "string option"
  qa_size :: "int option"

datatype replace_outcome = Replaced | BackupRenameFailed string | ReplacementRenameFailed string bool

record ('v, 'f) qlib_env =
  qe_of_date :: "date \<Rightarrow> 'v"
  qe_of_float :: "'f \<Rightarrow> 'v"
  qe_to_date :: "'v \<Rightarrow> date option"
  qe_parse_date :: "string \<Rightarrow> date option"
  qe_float4 :: "8 word list \<Rightarrow> 'f option"
  qe_int :: "'f \<Rightarrow> int"
  qe_np_round :: "'f \<Rightarrow> 'f"
  qe_py_round :: "'f \<Rightarrow> 'f"
  qe_expired :: "nat \<Rightarrow> bool"
  qe_finished :: "nat \<Rightarrow> nat list"
  qe_asset :: "qlib_error + qlib_asset"
  qe_download :: "qlib_asset \<Rightarrow> qlib_error + qlib_source"
  qe_replace :: replace_outcome
  qe_views :: "qlib_error option"
  qe_now :: local_datetime

definition normalize_qlib_symbol :: "string \<Rightarrow> string" where
  "normalize_qlib_symbol v = filter (\<lambda>c. c \<noteq> CHR ''.'') (py_lower (py_strip v))"

definition split_qlib_symbol :: "string \<Rightarrow> string \<times> string" where
  "split_qlib_symbol symbol =
     (let t = normalize_qlib_symbol symbol in if length t < 3 then ([], t) else (take 2 t, drop 2 t))"

fun chunks4 :: "'a list \<Rightarrow> 'a list list" where
  "chunks4 (a # b # c # d # xs) = [a, b, c, d] # chunks4 xs"
| "chunks4 xs = []"

text \<open>Little-endian floats of four bytes; NaN is no value.\<close>

definition read_qlib_bin_array :: "('v, 'f) qlib_env \<Rightarrow> 8 word list \<Rightarrow> qlib_error + 'f option list" where
  "read_qlib_bin_array q raw =
     (if length raw mod 4 \<noteq> 0 then Inl (ValueFailure (''Invalid Qlib binary length: '' @ show_nat (length raw)))
      else Inr (map (qe_float4 q) (chunks4 raw)))"

definition start_index :: "('v, 'f) qlib_env \<Rightarrow> 'f option \<Rightarrow> qlib_error + int" where
  "start_index q v = (case v of None \<Rightarrow> Inl (ValueFailure ''cannot convert float NaN to integer'') | Some x \<Rightarrow> Inr (qe_int q x))"

text \<open>The part of a column that lies in a calendar of \<open>n\<close> days: its first index and its values.\<close>

definition field_slice :: "('v, 'f) qlib_env \<Rightarrow> nat \<Rightarrow> 'f option list \<Rightarrow> qlib_error + (nat \<times> 'f option list) option" where
  "field_slice q n vs =
     (if length vs \<le> 1 then Inr None
      else bind_res (start_index q (hd vs))
        (\<lambda>start. let field_start = max start 0; field_end = min (start + int (length vs) - 1) (int n)
                 in if field_end \<le> field_start then Inr None
                    else Inr (Some (nat field_start,
                      take (nat (field_end - field_start)) (drop (nat (field_start - start + 1)) vs)))))"

definition field_values :: "('v, 'f) qlib_env \<Rightarrow> nat \<Rightarrow> (string \<times> 8 word list) list \<Rightarrow> string \<Rightarrow> qlib_error + (nat \<times> 'f option list) option" where
  "field_values q n files field =
     (case map_of files field of
        None \<Rightarrow> Inr None
      | Some raw \<Rightarrow> bind_res (read_qlib_bin_array q raw) (field_slice q n))"

record 'f feature_row =
  fe_date :: date
  fe_qlib_symbol :: string
  fe_exchange :: string
  fe_code :: string
  fe_values :: "(string \<times> 'f option) list"

definition field_cell :: "('v, 'f) qlib_env \<Rightarrow> (nat \<times> 'f option list) option \<Rightarrow> nat \<Rightarrow> 'f option" where
  "field_cell q slot i =
     (case slot of
        None \<Rightarrow> None
      | Some (field_start, vs) \<Rightarrow>
          if field_start \<le> i \<and> i < field_start + length vs then map_option (qe_np_round q) (vs ! (i - field_start)) else None)"

text \<open>The rows from the first to the last index that any column has.\<close>

definition slots_range :: "(nat \<times> 'a list) list \<Rightarrow> nat list" where
  "slots_range slots =
     (case slots of
        [] \<Rightarrow> []
      | (start, vs) # rest \<Rightarrow>
          [fold (\<lambda>s m. min m (fst s)) rest start ..< fold (\<lambda>s m. max m (fst s + length (snd s))) rest (start + length vs)])"

definition load_qlib_symbol_features ::
  "('v, 'f) qlib_env \<Rightarrow> string \<Rightarrow> (string \<times> 8 word list) list \<Rightarrow> date list \<Rightarrow> qlib_error + 'f feature_row list" where
  "load_qlib_symbol_features q name files calendar =
     bind_res (traverse (field_values q (length calendar) files) QLIB_FEATURE_FIELDS)
       (\<lambda>slots. let symbol = normalize_qlib_symbol name; (exchange, code) = split_qlib_symbol symbol
                in Inr (map (\<lambda>i. \<lparr>fe_date = calendar ! i, fe_qlib_symbol = symbol, fe_exchange = exchange, fe_code = code,
                                  fe_values = zip QLIB_FEATURE_FIELDS (map (\<lambda>slot. field_cell q slot i) slots)\<rparr>)
                         (slots_range (List.map_filter id slots))))"

text \<open>The older loader of one column.\<close>

definition load_qlib_feature_series :: "('v, 'f) qlib_env \<Rightarrow> 8 word list \<Rightarrow> date list \<Rightarrow> qlib_error + (date \<times> 'f option) list" where
  "load_qlib_feature_series q raw calendar =
     bind_res (read_qlib_bin_array q raw)
       (\<lambda>vs. if vs = [] then Inr []
             else bind_res (start_index q (hd vs))
               (\<lambda>start. Inr (map (\<lambda>(i, v). (calendar ! nat i, map_option (qe_py_round q) v))
                  (filter (\<lambda>(i, v). 0 \<le> i \<and> i < int (length calendar))
                     (zip (map (\<lambda>offset. start + int offset) [0 ..< length (tl vs)]) (tl vs))))))"

section \<open>The two loaders agree\<close>

lemma field_cell_slice:
  assumes "field_slice q n vs = Inr slot" and "start_index q (hd vs) = Inr start" and "1 < length vs" and "i < n"
  shows "field_cell q slot i =
    (if start \<le> int i \<and> int i < start + int (length vs) - 1 then map_option (qe_np_round q) (vs ! nat (int i - start + 1)) else None)"
proof -
  let ?fs = "max start 0" and ?fe = "min (start + int (length vs) - 1) (int n)"
  show ?thesis
  proof (cases "?fe \<le> ?fs")
    case True
    then have "slot = None" using assms(1-3) by (simp add: field_slice_def Let_def)
    moreover have "\<not> (start \<le> int i \<and> int i < start + int (length vs) - 1)" using True assms(4) by auto
    ultimately show ?thesis by (simp only: field_cell_def option.case if_False simp_thms)
  next
    case False
    let ?vs = "take (nat (?fe - ?fs)) (drop (nat (?fs - start + 1)) vs)"
    have slot: "slot = Some (nat ?fs, ?vs)" using assms(1-3) False by (auto simp: field_slice_def Let_def)
    have len: "length ?vs = nat (?fe - ?fs)" using False by (auto simp: min_def max_def)
    have iff: "nat ?fs \<le> i \<and> i < nat ?fs + length ?vs \<longleftrightarrow> start \<le> int i \<and> int i < start + int (length vs) - 1"
      using False assms(4) unfolding len by auto
    have "?vs ! (i - nat ?fs) = vs ! nat (int i - start + 1)" if "start \<le> int i" "int i < start + int (length vs) - 1"
    proof -
      have "nat ?fs \<le> i" "i - nat ?fs < nat (?fe - ?fs)" using that iff len by (auto simp: less_diff_conv2)
      moreover have "nat (?fs - start + 1) + (i - nat ?fs) = nat (int i - start + 1)" using that by auto
      moreover have "nat (?fs - start + 1) \<le> length vs" using False by auto
      ultimately show ?thesis using len by (simp only: nth_take nth_drop)
    qed
    then show ?thesis using iff unfolding slot field_cell_def option.case prod.case by auto
  qed
qed

lemma map_of_index:
  assumes "distinct calendar" and "i < length calendar" and "\<forall>(j, v) \<in> set ivs. 0 \<le> j \<and> j < int (length calendar)"
  shows "map_of (map (\<lambda>(j, v). (calendar ! nat j, f v)) ivs) (calendar ! i) = map_option f (map_of ivs (int i))"
  using assms(3)
proof (induction ivs)
  case (Cons jv ivs)
  obtain j v where jv: "jv = (j, v)" by (cases jv)
  then have "0 \<le> j" "nat j < length calendar" using Cons.prems by auto
  then have "calendar ! nat j = calendar ! i \<longleftrightarrow> j = int i" using assms(1,2) by (auto simp: nth_eq_iff_index_eq)
  then show ?case using Cons jv by auto
qed simp

lemma map_of_shifted:
  "map_of (zip (map (\<lambda>k. start + int k) [0 ..< length ws]) ws) i =
     (if start \<le> i \<and> i < start + int (length ws) then Some (ws ! nat (i - start)) else None)"
proof (cases "start \<le> i \<and> i < start + int (length ws)")
  case True
  have d: "distinct (map (\<lambda>k. start + int k) [0 ..< length ws])" by (simp add: distinct_map inj_on_def)
  have "map_of (zip (map (\<lambda>k. start + int k) [0 ..< length ws]) ws) (map (\<lambda>k. start + int k) [0 ..< length ws] ! nat (i - start)) = Some (ws ! nat (i - start))"
    by (rule map_of_zip_nth [OF _ d]) (use True in auto)
  moreover have "map (\<lambda>k. start + int k) [0 ..< length ws] ! nat (i - start) = i" using True by (simp add: nat_less_iff)
  ultimately show ?thesis using True by simp
next
  case False
  then have "i \<notin> set (map (\<lambda>k. start + int k) [0 ..< length ws])" by auto
  then show ?thesis unfolding if_not_P [OF False] using map_of_zip_is_None [of "map (\<lambda>k. start + int k) [0 ..< length ws]" ws i] by simp
qed

lemma map_of_filter_keys: "map_of (filter (\<lambda>(k, v). P k) xs) k = (if P k then map_of xs k else None)"
  by (induction xs) auto

lemma series_lookup:
  assumes "load_qlib_feature_series q raw calendar = Inr series" and "distinct calendar" and "i < length calendar"
    and "read_qlib_bin_array q raw = Inr vs" and "qe_py_round q = r"
  shows "vs = [] \<and> series = [] \<or>
    (\<exists>start. start_index q (hd vs) = Inr start \<and>
       map_of series (calendar ! i) =
         (if start \<le> int i \<and> int i < start + int (length vs) - 1 then Some (map_option (r) (vs ! nat (int i - start + 1))) else None))"
proof (cases vs)
  case Nil
  then show ?thesis using assms(1,4) by (simp add: load_qlib_feature_series_def)
next
  case (Cons x ws)
  then obtain start where s: "start_index q x = Inr start"
    and series: "series = map (\<lambda>(i, v). (calendar ! nat i, map_option (qe_py_round q) v))
      (filter (\<lambda>(i, v). 0 \<le> i \<and> i < int (length calendar)) (zip (map (\<lambda>offset. start + int offset) [0 ..< length ws]) ws))"
    using assms(1,4) by (auto simp: load_qlib_feature_series_def)
  have "map_of series (calendar ! i) =
      (if start \<le> int i \<and> int i < start + int (length ws) then Some (map_option (qe_py_round q) (ws ! nat (int i - start))) else None)"
    unfolding series
    by (subst map_of_index [OF assms(2,3)])
       (use assms(3) in \<open>auto simp: map_of_filter_keys [where P = "\<lambda>i. 0 \<le> i \<and> i < int (length calendar)"] map_of_shifted\<close>)
  moreover have "nat (int i - start + 1) = Suc (nat (int i - start))" if "start \<le> int i" using that by simp
  ultimately show ?thesis using s Cons assms(5) by auto
qed

lemma slots_range_bounds:
  "slots_range (s # rest) = [fold (\<lambda>s m. min m (fst s)) rest (fst s) ..< fold (\<lambda>s m. max m (fst s + length (snd s))) rest (fst s + length (snd s))]"
  by (cases s) (simp add: slots_range_def)

lemma fold_min_le: "fold (\<lambda>s m. min m (fst s)) xs (a :: nat) \<le> a \<and> (\<forall>s \<in> set xs. fold (\<lambda>s m. min m (fst s)) xs a \<le> fst s)"
proof (induction xs arbitrary: a)
  case (Cons x xs)
  have "fold (\<lambda>s m. min m (fst s)) xs (min a (fst x)) \<le> min a (fst x)" using Cons.IH by blast
  then show ?case using Cons.IH [of "min a (fst x)"] by auto
qed simp

lemma fold_max_ge: "(a :: nat) \<le> fold (\<lambda>s m. max m (f s)) xs a \<and> (\<forall>s \<in> set xs. f s \<le> fold (\<lambda>s m. max m (f s)) xs a)"
proof (induction xs arbitrary: a)
  case (Cons x xs)
  have "max a (f x) \<le> fold (\<lambda>s m. max m (f s)) xs (max a (f x))" using Cons.IH by blast
  then show ?case using Cons.IH [of "max a (f x)"] by auto
qed simp

lemma fold_max_le: "(\<forall>s \<in> set xs. f s \<le> n) \<Longrightarrow> a \<le> n \<Longrightarrow> fold (\<lambda>s m. max m (f s)) xs (a :: nat) \<le> n"
  by (induction xs arbitrary: a) auto

lemma slots_range_covers:
  assumes "(start, vs) \<in> set slots" and "start \<le> i" and "i < start + length vs"
  shows "i \<in> set (slots_range slots)"
proof (cases slots)
  case Nil
  then show ?thesis using assms(1) by simp
next
  case (Cons s rest)
  have "fold (\<lambda>s m. min m (fst s)) rest (fst s) \<le> start"
    using assms(1) fold_min_le [of rest "fst s"] Cons by auto
  moreover have "start + length vs \<le> fold (\<lambda>s m. max m (fst s + length (snd s))) rest (fst s + length (snd s))"
    using assms(1) fold_max_ge [of "fst s + length (snd s)" "\<lambda>s. fst s + length (snd s)" rest] Cons by auto
  ultimately show ?thesis using assms(2,3) by (simp add: Cons slots_range_bounds)
qed

lemma slots_range_within:
  assumes "\<forall>(start, vs) \<in> set slots. start + length vs \<le> n" and "i \<in> set (slots_range slots)"
  shows "i < n"
proof (cases slots)
  case Nil
  then show ?thesis using assms(2) by (simp add: slots_range_def)
next
  case (Cons s rest)
  have "fold (\<lambda>s m. max m (fst s + length (snd s))) rest (fst s + length (snd s)) \<le> n"
    using assms(1) Cons by (intro fold_max_le) auto
  then show ?thesis using assms(2) by (simp add: Cons slots_range_bounds)
qed

lemma field_slice_within: "field_slice q n vs = Inr (Some (start, ws)) \<Longrightarrow> start + length ws \<le> n"
  by (auto simp: field_slice_def Let_def min_def max_def split: if_splits)

lemma traverse_zip: "traverse f xs = Inr ys \<Longrightarrow> x \<in> set xs \<Longrightarrow> \<exists>y. f x = Inr y \<and> y \<in> set ys \<and> map_of (zip xs ys) x = Some y"
proof (induction xs arbitrary: ys)
  case (Cons a xs)
  then obtain y ys' where ys: "f a = Inr y" "traverse f xs = Inr ys'" "ys = y # ys'" by (cases "f a"; cases "traverse f xs") auto
  then show ?case using Cons.IH [OF ys(2)] Cons.prems(2) by (cases "x = a") auto
qed simp

lemma map_of_zip_map: "map_of (zip xs (map g ys)) x = map_option g (map_of (zip xs ys) x)"
proof (induction xs arbitrary: ys)
  case (Cons a xs)
  then show ?case by (cases ys) auto
qed simp

lemma read_bin_round [simp]: "read_qlib_bin_array (q\<lparr>qe_py_round := r\<rparr>) raw = read_qlib_bin_array q raw"
  by (simp add: read_qlib_bin_array_def)

lemma start_index_round [simp]: "start_index (q\<lparr>qe_py_round := r\<rparr>) v = start_index q v"
  by (cases v) (simp_all add: start_index_def)

lemma field_slice_inside:
  assumes "field_slice q n vs = Inr slot" and "start_index q (hd vs) = Inr start" and "i < n"
    and "start \<le> int i" and "int i < start + int (length vs) - 1"
  shows "\<exists>fs ws. slot = Some (fs, ws) \<and> fs \<le> i \<and> i < fs + length ws"
proof -
  have "1 < length vs" using assms(4,5) by auto
  moreover have "\<not> min (start + int (length vs) - 1) (int n) \<le> max start 0" using assms(3-5) by auto
  ultimately show ?thesis using assms by (auto simp: field_slice_def Let_def min_def max_def)
qed

lemma column_matches_series:
  assumes "field_values q (length calendar) files field = Inr slot" and "map_of files field = Some raw"
    and "load_qlib_feature_series (q\<lparr>qe_py_round := qe_np_round q\<rparr>) raw calendar = Inr series"
    and "distinct calendar" and "i < length calendar"
  shows "field_cell q slot i = (case map_of series (calendar ! i) of None \<Rightarrow> None | Some v \<Rightarrow> v) \<and>
    (calendar ! i \<in> fst ` set series \<longrightarrow> (\<exists>start vs. slot = Some (start, vs) \<and> start \<le> i \<and> i < start + length vs))"
proof -
  obtain vs where vs: "read_qlib_bin_array q raw = Inr vs" and slot: "field_slice q (length calendar) vs = Inr slot"
    using assms(1,2) by (auto simp: field_values_def)
  let ?q = "q\<lparr>qe_py_round := qe_np_round q\<rparr>"
  have lookup: "vs = [] \<and> series = [] \<or> (\<exists>start. start_index q (hd vs) = Inr start \<and>
       map_of series (calendar ! i) =
         (if start \<le> int i \<and> int i < start + int (length vs) - 1 then Some (map_option (qe_np_round q) (vs ! nat (int i - start + 1))) else None))"
    using series_lookup [OF assms(3,4,5), of vs "qe_np_round q"] vs by simp
  show ?thesis
  proof (cases "1 < length vs")
    case False
    then have "slot = None" using slot by (simp add: field_slice_def)
    moreover have "map_of series (calendar ! i) = None" using lookup False by auto
    moreover have "calendar ! i \<notin> fst ` set series" using calculation(2) by (simp add: map_of_eq_None_iff)
    ultimately show ?thesis by (simp add: field_cell_def)
  next
    case True
    then obtain start where s: "start_index q (hd vs) = Inr start" and m: "map_of series (calendar ! i) =
         (if start \<le> int i \<and> int i < start + int (length vs) - 1 then Some (map_option (qe_np_round q) (vs ! nat (int i - start + 1))) else None)"
      using lookup by auto
    have "calendar ! i \<in> fst ` set series \<longleftrightarrow> start \<le> int i \<and> int i < start + int (length vs) - 1"
      using m map_of_eq_None_iff [of series "calendar ! i"] by (auto split: if_splits)
    then show ?thesis using field_cell_slice [OF slot s True assms(5)] field_slice_inside [OF slot s assms(5)] m by auto
  qed
qed

lemma series_dates: "load_qlib_feature_series q raw calendar = Inr series \<Longrightarrow> fst ` set series \<subseteq> set calendar"
  by (auto simp: load_qlib_feature_series_def split: if_splits intro!: nth_mem)

text \<open>
  C36: The loader of all columns agrees with the loader of one column. For a feature directory and a
  calendar without repeated days, the rows cover an interval of the calendar; in every row the cell of a
  field whose file exists is the value of that day in the series of the file (absent if the series does
  not reach that day), and every day of the series has a row. Both are compared with the same rounding.
\<close>

theorem symbol_features_match_series:
  assumes "load_qlib_symbol_features q name files calendar = Inr rows" and "distinct calendar"
    and "field \<in> set QLIB_FEATURE_FIELDS" and "map_of files field = Some raw"
    and "load_qlib_feature_series (q\<lparr>qe_py_round := qe_np_round q\<rparr>) raw calendar = Inr series"
  shows "(\<exists>a b. map fe_date rows = map ((!) calendar) [a ..< b] \<and> (a < b \<longrightarrow> b \<le> length calendar)) \<and>
    (\<forall>r \<in> set rows. map_of (fe_values r) field = Some (case map_of series (fe_date r) of None \<Rightarrow> None | Some v \<Rightarrow> v)) \<and>
    fst ` set series \<subseteq> fe_date ` set rows"
proof -
  obtain slots where slots: "traverse (field_values q (length calendar) files) QLIB_FEATURE_FIELDS = Inr slots"
    and rows: "rows = map (\<lambda>i. \<lparr>fe_date = calendar ! i, fe_qlib_symbol = normalize_qlib_symbol name,
        fe_exchange = fst (split_qlib_symbol (normalize_qlib_symbol name)), fe_code = snd (split_qlib_symbol (normalize_qlib_symbol name)),
        fe_values = zip QLIB_FEATURE_FIELDS (map (\<lambda>slot. field_cell q slot i) slots)\<rparr>) (slots_range (List.map_filter id slots))"
    using assms(1) by (auto simp: load_qlib_symbol_features_def Let_def split_beta)
  let ?is = "slots_range (List.map_filter id slots)"
  from traverse_zip [OF slots assms(3)] obtain slot where slot: "field_values q (length calendar) files field = Inr slot" "slot \<in> set slots"
    "map_of (zip QLIB_FEATURE_FIELDS slots) field = Some slot" by blast
  have within: "\<forall>(start, ws) \<in> set (List.map_filter id slots). start + length ws \<le> length calendar"
  proof -
    have "start + length ws \<le> length calendar" if "Some (start, ws) \<in> set slots" for start ws
      using traverse_Inr_mem [OF slots that] field_slice_within by (force simp: field_values_def split: option.splits)
    then show ?thesis by (auto simp: map_filter_def)
  qed
  note column = column_matches_series [OF slot(1) assms(4,5,2)]
  have "\<exists>a b. ?is = [a ..< b] \<and> (a < b \<longrightarrow> b \<le> length calendar)"
  proof -
    obtain a b where ab: "?is = [a ..< b]"
      by (cases "List.map_filter id slots") (auto simp: slots_range_bounds slots_range_def intro: that [of 0 0])
    have "b \<le> length calendar" if "a < b"
    proof -
      have "b - 1 \<in> set ?is" using that by (auto simp: ab)
      then show ?thesis using slots_range_within [OF within, of "b - 1"] that by linarith
    qed
    with ab show ?thesis by blast
  qed
  then obtain a b where ab: "?is = [a ..< b]" "a < b \<longrightarrow> b \<le> length calendar" by blast
  have "\<forall>r \<in> set rows. map_of (fe_values r) field = Some (case map_of series (fe_date r) of None \<Rightarrow> None | Some v \<Rightarrow> v)"
    using column slots_range_within [OF within] slot(3) by (simp add: rows map_of_zip_map)
  moreover have "d \<in> fe_date ` set rows" if mem: "d \<in> fst ` set series" for d
  proof -
    obtain i where i: "i < length calendar" "d = calendar ! i"
      using subsetD [OF series_dates [OF assms(5)] mem] by (auto simp: in_set_conv_nth)
    from column [OF i(1)] mem obtain start ws where "slot = Some (start, ws)" "start \<le> i" "i < start + length ws" by (auto simp: i(2))
    then have "i \<in> set ?is" using slot(2) by (intro slots_range_covers [of start ws]) (force simp: map_filter_def)+
    then show ?thesis by (force simp: rows i(2))
  qed
  moreover have "map fe_date rows = map ((!) calendar) [a ..< b]" by (simp add: rows ab(1))
  ultimately show ?thesis using ab(2) by blast
qed

text \<open>A small environment: a float is the number of its first byte, 255 is NaN.\<close>

definition plain_date :: "string \<Rightarrow> date option" where
  "plain_date t = (if t = ''2024-01-02'' then Some (Date 2024 1 2) else if t = ''2024-01-03'' then Some (Date 2024 1 3) else None)"

definition plain_date_text :: "date \<Rightarrow> string" where
  "plain_date_text d = (if d = Date 2024 1 2 then ''2024-01-02'' else ''2024-01-03'')"

definition plain_float4 :: "8 word list \<Rightarrow> int option" where
  "plain_float4 bs = (if hd bs = 255 then None else Some (uint (hd bs)))"

definition plain_qlib :: "(string, int) qlib_env" where
  "plain_qlib =
     \<lparr>qe_of_date = plain_date_text, qe_of_float = (\<lambda>x. ''0''), qe_to_date = plain_date, qe_parse_date = plain_date,
      qe_float4 = plain_float4, qe_int = (\<lambda>x. x), qe_np_round = (\<lambda>x. x), qe_py_round = (\<lambda>x. x),
      qe_expired = (\<lambda>n. False), qe_finished = (\<lambda>n. []), qe_asset = Inr \<lparr>qa_id = ''1'', qa_etag = None, qa_size = None\<rparr>,
      qe_download = (\<lambda>a. Inl (DownloadFailure ''offline'')), qe_replace = Replaced, qe_views = None,
      qe_now = \<lparr>ldt_date = Date 2024 1 4, ldt_seconds = 0\<rparr>\<rparr>"

definition plain_files :: "(string \<times> 8 word list) list" where
  "plain_files = [(''open'', [0, 0, 0, 0, 5, 0, 0, 0]), (''close'', [1, 0, 0, 0, 7, 0, 0, 0, 255, 0, 0, 0])]"

definition plain_calendar :: "date list" where "plain_calendar = [Date 2024 1 2, Date 2024 1 3]"

theorem symbol_features_match_series_witness:
  "\<exists>rows. load_qlib_symbol_features plain_qlib ''SH600000'' plain_files plain_calendar = Inr rows \<and> length rows = 2 \<and>
     map_of (fe_values (rows ! 1)) ''close'' = Some (Some 7)"
proof -
  let ?n = "load_qlib_symbol_features plain_qlib ''SH600000'' plain_files plain_calendar"
  have "(case ?n of Inr rows \<Rightarrow> map fe_date rows = plain_calendar | Inl e \<Rightarrow> False)" by code_simp
  then obtain rows where n: "?n = Inr rows" and dates: "map fe_date rows = plain_calendar" by (auto split: sum.splits)
  then have rows: "length rows = 2" "fe_date (rows ! 1) = Date 2024 1 3"
    by (simp_all add: plain_calendar_def flip: length_map [of fe_date] nth_map)
  have s: "load_qlib_feature_series (plain_qlib\<lparr>qe_py_round := qe_np_round plain_qlib\<rparr>)
      [1, 0, 0, 0, 7, 0, 0, 0, 255, 0, 0, 0] plain_calendar = Inr [(Date 2024 1 3, Some 7)]" by code_simp
  have f: "''close'' \<in> set QLIB_FEATURE_FIELDS" "map_of plain_files ''close'' = Some [1, 0, 0, 0, 7, 0, 0, 0, 255, 0, 0, 0]"
    "distinct plain_calendar" by code_simp+
  have "rows ! 1 \<in> set (rows)" using rows by simp
  note cell = symbol_features_match_series [OF n f(3,1,2) s, THEN conjunct2, THEN conjunct1, THEN bspec, OF this]
  have "map_of (fe_values (rows ! 1)) ''close'' = Some (Some 7)" unfolding cell rows(2) by simp
  then show ?thesis using n rows(1) by blast
qed

section \<open>The synchronised project\<close>

record qlib_state_row =
  qr_target_date :: date
  qr_source_latest :: "date option"
  qr_project_latest :: "date option"
  qr_status :: string
  qr_asset_id :: "string option"
  qr_asset_etag :: "string option"
  qr_asset_size :: "int option"

record ('v, 'h) qlib_state =
  ql_store :: "('v, 'h) parquet_store"
  ql_source :: "qlib_source option"
  ql_states :: "qlib_state_row list"
  ql_checks :: nat
  ql_waits :: nat

type_synonym ('v, 'h, 'a) qlib_comp = "('v, 'h) qlib_state \<Rightarrow> (qlib_error + 'a) \<times> ('v, 'h) qlib_state"

definition in_store :: "('v, 'h, 'a) store_comp \<Rightarrow> ('v, 'h, 'a) qlib_comp" where
  "in_store m s = (case m (ql_store s) of (Inl e, st) \<Rightarrow> (Inl (StoreRaised e), s\<lparr>ql_store := st\<rparr>) | (Inr x, st) \<Rightarrow> (Inr x, s\<lparr>ql_store := st\<rparr>))"

definition lift_store :: "store_error + 'a \<Rightarrow> qlib_error + 'a" where
  "lift_store r = (case r of Inl e \<Rightarrow> Inl (StoreRaised e) | Inr x \<Rightarrow> Inr x)"

definition check_deadline :: "('v, 'f) qlib_env \<Rightarrow> string \<Rightarrow> ('v, 'h, unit) qlib_comp" where
  "check_deadline q action s =
     (let s' = s\<lparr>ql_checks := Suc (ql_checks s)\<rparr>
      in if qe_expired q (ql_checks s) then (Inl (QlibTimeout (''Qlib sync timed out while trying to '' @ action)), s') else (Inr (), s'))"

section \<open>Reading a source\<close>

definition read_qlib_calendar :: "('v, 'f) qlib_env \<Rightarrow> qlib_source option \<Rightarrow> qlib_error + date list" where
  "read_qlib_calendar q src =
     (case src of
        None \<Rightarrow> Inl (FileMissing ''Qlib calendar not found'')
      | Some d \<Rightarrow>
          (case qs_calendar d of
             None \<Rightarrow> Inl (FileMissing ''Qlib calendar not found'')
           | Some day_lines \<Rightarrow>
               traverse (\<lambda>line. case qe_parse_date q (py_strip line) of None \<Rightarrow> Inl (ValueFailure line) | Some day \<Rightarrow> Inr day)
                 (filter (\<lambda>line. py_strip line \<noteq> []) day_lines)))"

definition latest_date :: "date list \<Rightarrow> date option" where
  "latest_date ds = (case ds of [] \<Rightarrow> None | d # rest \<Rightarrow> Some (fold max rest d))"

definition latest_qlib_calendar_date :: "('v, 'f) qlib_env \<Rightarrow> qlib_source option \<Rightarrow> qlib_error + date option" where
  "latest_qlib_calendar_date q src =
     (case read_qlib_calendar q src of
        Inl (FileMissing e) \<Rightarrow> Inr None
      | Inl e \<Rightarrow> Inl e
      | Inr calendar \<Rightarrow> Inr (latest_date calendar))"

fun split_all :: "char \<Rightarrow> string \<Rightarrow> string list" where
  "split_all c [] = [[]]"
| "split_all c (x # xs) = (if x = c then [] # split_all c xs
     else case split_all c xs of [] \<Rightarrow> [[x]] | p # ps \<Rightarrow> (x # p) # ps)"

definition instrument_row :: "('v, 'f) qlib_env \<Rightarrow> string \<Rightarrow> string list \<Rightarrow> qlib_error + (string \<times> string) list" where
  "instrument_row q universe parts =
     (let symbol = normalize_qlib_symbol (parts ! 0); (exchange, code) = split_qlib_symbol symbol;
          iso = (\<lambda>t. case qe_parse_date q t of None \<Rightarrow> Inl (ValueFailure t) | Some d \<Rightarrow> Inr (isoformat d))
      in bind_res (iso (parts ! 1)) (\<lambda>start. bind_res (iso (parts ! 2)) (\<lambda>end_date.
           Inr [(''universe'', universe), (''qlib_symbol'', symbol), (''exchange'', exchange), (''code'', code),
                (''start_date'', start), (''end_date'', end_date)])))"

definition read_qlib_instruments :: "('v, 'f) qlib_env \<Rightarrow> qlib_source \<Rightarrow> qlib_error + (string \<times> string) list list" where
  "read_qlib_instruments q src =
     bind_res
       (traverse (\<lambda>(name, member_lines).
            traverse (instrument_row q (take (length name - 4) name))
              (filter (\<lambda>parts. 3 \<le> length parts \<and> parts ! 0 \<noteq> []) (map (\<lambda>line. map py_strip (split_all (CHR 0x09) line)) member_lines)))
          (sort_key fst (filter (\<lambda>f. ends_with ''.txt'' (fst f)) (qs_instruments src))))
       (\<lambda>rows. Inr (concat rows))"

section \<open>Storing a source\<close>

definition calendar_day_frame :: "('v, 'f) qlib_env \<Rightarrow> date list \<Rightarrow> 'v raw_frame" where
  "calendar_day_frame q calendar =
     \<lparr>rf_columns = [''calendar_date''], rf_rows = map (\<lambda>d. row_of [(''calendar_date'', Some (qe_of_date q d))]) calendar\<rparr>"

definition membership_frame :: "('v, 'h) store_env \<Rightarrow> (string \<times> string) list list \<Rightarrow> 'v raw_frame" where
  "membership_frame env rows =
     \<lparr>rf_columns = [''universe'', ''qlib_symbol'', ''exchange'', ''code'', ''start_date'', ''end_date''],
      rf_rows = map (\<lambda>r. row_of (map (\<lambda>(c, t). (c, Some (se_of_text env t))) r)) rows\<rparr>"

definition feature_frame :: "('v, 'h) store_env \<Rightarrow> ('v, 'f) qlib_env \<Rightarrow> 'f feature_row list \<Rightarrow> 'v raw_frame" where
  "feature_frame env q rows =
     \<lparr>rf_columns = [''date'', ''qlib_symbol'', ''exchange'', ''code''] @ QLIB_FEATURE_FIELDS,
      rf_rows = map (\<lambda>r. row_of ([(''date'', Some (qe_of_date q (fe_date r))), (''qlib_symbol'', Some (se_of_text env (fe_qlib_symbol r))),
          (''exchange'', Some (se_of_text env (fe_exchange r))), (''code'', Some (se_of_text env (fe_code r)))] @
          map (\<lambda>(f, v). (f, map_option (qe_of_float q) v)) (fe_values r))) rows\<rparr>"

definition feature_partition :: "('v, 'h) store_env \<Rightarrow> string \<Rightarrow> 'v partition option" where
  "feature_partition env symbol = Some [(''qlib_symbol'', Some (se_of_text env symbol))]"

definition column_dates :: "('v, 'f) qlib_env \<Rightarrow> string \<Rightarrow> 'v row list \<Rightarrow> date list" where
  "column_dates q column rows = List.map_filter (\<lambda>r. Option.bind (r column) (qe_to_date q)) rows"

text \<open>A feature partition whose latest date reaches the source's is not read again.\<close>

definition feature_partition_covers_date ::
  "('v, 'h) store_env \<Rightarrow> ('v, 'f) qlib_env \<Rightarrow> ('v, 'h) parquet_store \<Rightarrow> string \<Rightarrow> date \<Rightarrow> store_error + bool" where
  "feature_partition_covers_date env q st symbol target =
     bind_res (dataset_path env QLIB_CN_STOCK_FEATURES_DAY_DATASET (feature_partition env symbol))
       (\<lambda>path. Inr (case ps_files st path of
                      None \<Rightarrow> False
                    | Some rows \<Rightarrow> (case latest_date (column_dates q ''date'' rows) of None \<Rightarrow> False | Some d \<Rightarrow> target \<le> d)))"

datatype feature_status = Processed | SkippedCovered | EmptyFrame

definition sync_one_symbol ::
  "('v, 'h) store_env \<Rightarrow> ('v, 'f) qlib_env \<Rightarrow> date list \<Rightarrow> string \<times> (string \<times> 8 word list) list \<Rightarrow> ('v, 'h, string \<times> feature_status \<times> nat) qlib_comp" where
  "sync_one_symbol env q calendar dir =
     seq_comp (check_deadline q ''sync qlib feature partitions'')
       (\<lambda>_. let symbol = normalize_qlib_symbol (fst dir)
         in seq_comp
              (\<lambda>s. (case latest_date calendar of
                      None \<Rightarrow> Inr False
                    | Some target \<Rightarrow> lift_store (feature_partition_covers_date env q (ql_store s) symbol target), s))
              (\<lambda>covers. if covers then Pair (Inr (symbol, SkippedCovered, 0))
                else seq_comp (lift_res (load_qlib_symbol_features q (fst dir) (snd dir) calendar))
                  (\<lambda>rows. if rows = [] then Pair (Inr (symbol, EmptyFrame, 0))
                    else seq_comp (in_store (write_dataset env ''qlib_cn_stock_features_day'' (feature_frame env q rows) (feature_partition env symbol) None False))
                           (\<lambda>_. Pair (Inr (symbol, Processed, length rows))))))"

section \<open>The pool of workers\<close>

text \<open>Every task of a list runs; none stops the others.\<close>

fun run_each :: "('a \<Rightarrow> ('v, 'h, 'b) qlib_comp) \<Rightarrow> 'a list \<Rightarrow> ('v, 'h) qlib_state \<Rightarrow> (qlib_error + 'b) list \<times> ('v, 'h) qlib_state" where
  "run_each f [] s = ([], s)"
| "run_each f (x # xs) s = (case f x s of (r, s1) \<Rightarrow> case run_each f xs s1 of (rs, s2) \<Rightarrow> (r # rs, s2))"

text \<open>A wait finds at least one pending future finished; a wait that times out only checks the deadline again.\<close>

definition finished_round :: "('v, 'f) qlib_env \<Rightarrow> ('v, 'h) qlib_state \<Rightarrow> nat \<Rightarrow> nat list" where
  "finished_round q s n =
     (let idx = remdups (filter (\<lambda>i. i < n) (qe_finished q (ql_waits s))) in if idx = [] then [0] else idx)"

definition fill :: "nat \<Rightarrow> 'a list \<Rightarrow> 'a list \<Rightarrow> 'a list \<times> 'a list" where
  "fill cap queue pending = (drop (cap - length pending) queue, pending @ take (cap - length pending) queue)"

lemma length_fill: "fill cap queue pending = (queue', pending') \<Longrightarrow> length queue' + length pending' = length queue + length pending"
  by (auto simp: fill_def)

lemma finished_round_ok: "0 < n \<Longrightarrow> finished_round q s n \<noteq> [] \<and> set (finished_round q s n) \<subseteq> {..<n} \<and> distinct (finished_round q s n)"
  by (auto simp: finished_round_def Let_def)

definition unfinished :: "nat list \<Rightarrow> 'a list \<Rightarrow> 'a list" where
  "unfinished idx pending = map ((!) pending) (filter (\<lambda>i. i \<notin> set idx) [0 ..< length pending])"

lemma length_unfinished: "idx \<noteq> [] \<Longrightarrow> set idx \<subseteq> {..<length pending} \<Longrightarrow> length (unfinished idx pending) < length pending"
proof -
  assume "idx \<noteq> []" and "set idx \<subseteq> {..<length pending}"
  then obtain i where "i \<in> set idx" "i < length pending" by (cases idx) auto
  then have "length (filter (\<lambda>i. i \<notin> set idx) [0 ..< length pending]) < length [0 ..< length pending]"
    by (intro length_filter_less [of i]) auto
  then show ?thesis by (simp add: unfinished_def)
qed

lemma fill_unfinished:
  assumes "pending \<noteq> []" and "(queue', pending') = fill cap queue (unfinished (finished_round q s (length pending)) pending)"
  shows "length queue' + length pending' < length queue + length pending"
proof -
  have "length (unfinished (finished_round q s (length pending)) pending) < length pending"
    using finished_round_ok [of "length pending" q s] assms(1) by (intro length_unfinished) auto
  then show ?thesis using length_fill [OF assms(2) [symmetric]] by simp
qed

text \<open>An error leaves the pool only after the submitted tasks have run.\<close>

function iter_pool ::
  "('v, 'f) qlib_env \<Rightarrow> ('a \<Rightarrow> ('v, 'h, 'b) qlib_comp) \<Rightarrow> nat \<Rightarrow> 'a list \<Rightarrow> 'a list \<Rightarrow> ('v, 'h, 'b list) qlib_comp" where
  "iter_pool q f cap queue pending s =
     (if pending = [] then (Inr [], s)
      else
        (case check_deadline q ''sync qlib feature partitions'' s of
           (Inl e, s1) \<Rightarrow> (Inl e, snd (run_each f pending s1))
         | (Inr _, s1) \<Rightarrow>
             (let idx = finished_round q s1 (length pending)
              in case run_each f (map ((!) pending) idx) (s1\<lparr>ql_waits := Suc (ql_waits s1)\<rparr>) of
                   (rs, s2) \<Rightarrow>
                     (case traverse id rs of
                        Inl e \<Rightarrow> (Inl e, snd (run_each f (unfinished idx pending) s2))
                      | Inr xs \<Rightarrow>
                          (case fill cap queue (unfinished idx pending) of
                             (queue', pending') \<Rightarrow>
                               (case iter_pool q f cap queue' pending' s2 of
                                  (Inl e, s3) \<Rightarrow> (Inl e, s3)
                                | (Inr ys, s3) \<Rightarrow> (Inr (xs @ ys), s3)))))))"
  by pat_completeness auto
termination
  by (relation "measure (\<lambda>(q, f, cap, queue, pending, s). length queue + length pending)") (simp_all add: fill_unfinished)

declare iter_pool.simps [simp del]

definition iter_qlib_feature_sync_results ::
  "('v, 'f) qlib_env \<Rightarrow> 'a list \<Rightarrow> ('a \<Rightarrow> ('v, 'h, 'b) qlib_comp) \<Rightarrow> int \<Rightarrow> ('v, 'h, 'b list) qlib_comp" where
  "iter_qlib_feature_sync_results q dirs f workers =
     (if workers \<le> 1 then map_comp f dirs
      else (let cap = nat (max (workers * 4) 1) in case fill cap dirs [] of (queue, pending) \<Rightarrow> iter_pool q f cap queue pending))"

section \<open>Synchronising\<close>

text \<open>The calendar and the instruments are stored first.\<close>

definition sync_calendar :: "('v, 'h) store_env \<Rightarrow> ('v, 'f) qlib_env \<Rightarrow> ('v, 'h, date list) qlib_comp" where
  "sync_calendar env q =
     seq_comp (\<lambda>s. (read_qlib_calendar q (ql_source s), s))
       (\<lambda>calendar. seq_comp (in_store (write_dataset env ''qlib_cn_calendar_day'' (calendar_day_frame q calendar) None None False))
         (\<lambda>_. seq_comp (\<lambda>s. (case ql_source s of None \<Rightarrow> Inr [] | Some src \<Rightarrow> read_qlib_instruments q src, s))
            (\<lambda>rows. seq_comp (in_store (write_dataset env ''qlib_cn_instrument_membership'' (membership_frame env rows) None None False))
              (\<lambda>_. Pair (Inr calendar)))))"

definition remove_stale_feature_partitions :: "string list \<Rightarrow> ('v, 'h) parquet_store \<Rightarrow> ('v, 'h) parquet_store" where
  "remove_stale_feature_partitions expected st =
     st\<lparr>ps_files := (\<lambda>(i, v). if i = ''qlib_cn_stock_features_day'' \<and> v \<notin> set expected then None else ps_files st (i, v))\<rparr>"

text \<open>Then the feature directories in the order of their names.\<close>

definition feature_dirs :: "qlib_source option \<Rightarrow> qlib_error + (string \<times> (string \<times> 8 word list) list) list" where
  "feature_dirs src =
     (case Option.bind src qs_features of None \<Rightarrow> Inl (FileMissing ''features'') | Some dirs \<Rightarrow> Inr (sort_key fst dirs))"

definition sync_features :: "('v, 'h) store_env \<Rightarrow> ('v, 'f) qlib_env \<Rightarrow> int \<Rightarrow> date list \<Rightarrow> ('v, 'h, unit) qlib_comp" where
  "sync_features env q workers calendar =
     seq_comp (\<lambda>s. (feature_dirs (ql_source s), s))
       (\<lambda>dirs. seq_comp (iter_qlib_feature_sync_results q dirs (sync_one_symbol env q calendar) workers)
         (\<lambda>_. seq_comp (check_deadline q ''clean stale qlib feature partitions'')
           (\<lambda>_ s. (Inr (), s\<lparr>ql_store := remove_stale_feature_partitions (map (normalize_qlib_symbol \<circ> fst) dirs) (ql_store s)\<rparr>))))"

definition sync_source_to_parquet :: "('v, 'h) store_env \<Rightarrow> ('v, 'f) qlib_env \<Rightarrow> int \<Rightarrow> ('v, 'h, unit) qlib_comp" where
  "sync_source_to_parquet env q workers = seq_comp (sync_calendar env q) (sync_features env q (max workers 1))"

definition latest_project_qlib_date :: "('v, 'h) store_env \<Rightarrow> ('v, 'f) qlib_env \<Rightarrow> ('v, 'h, date option) qlib_comp" where
  "latest_project_qlib_date env q =
     seq_comp (in_store (read_dataset env QLIB_CN_CALENDAR_DAY_DATASET (''qlib_cn_calendar_day'', [])))
       (\<lambda>rows. Pair (Inr (latest_date (column_dates q ''calendar_date'' rows))))"

definition resolve_target_date :: "('v, 'h) store_env \<Rightarrow> ('v, 'f) qlib_env \<Rightarrow> date option \<Rightarrow> ('v, 'h, date) qlib_comp" where
  "resolve_target_date env q arg =
     seq_comp (lift_res (case (case arg of Some d \<Rightarrow> Inr d | None \<Rightarrow> default_candidate_date (qe_now q)) of
                           Inl e \<Rightarrow> Inl (CalendarRaised e) | Inr d \<Rightarrow> Inr d))
       (\<lambda>candidate. seq_comp (in_store (read_dataset env BAOSTOCK_CN_TRADING_CALENDAR_DATASET (''baostock_cn_trading_calendar'', [])))
         (\<lambda>rows. if rows = [] then Pair (Inr candidate)
           else Pair (case latest_trading_day_on_or_before
                         (map (\<lambda>r. (Option.bind (r ''calendar_date'') (qe_to_date q), map_option (se_text env) (r ''is_trading_day''))) rows) candidate of
                        Inl e \<Rightarrow> Inl (CalendarRaised e) | Inr d \<Rightarrow> Inr d)))"

definition covers_target :: "date option \<Rightarrow> date \<Rightarrow> bool" where
  "covers_target v target = (case v of None \<Rightarrow> False | Some d \<Rightarrow> target \<le> d)"

definition record_state ::
  "date \<Rightarrow> date option \<Rightarrow> date option \<Rightarrow> string \<Rightarrow> qlib_asset option \<Rightarrow> ('v, 'h) qlib_state \<Rightarrow> ('v, 'h) qlib_state" where
  "record_state target source_latest project_latest status asset s =
     s\<lparr>ql_states := ql_states s @
        [\<lparr>qr_target_date = target, qr_source_latest = source_latest, qr_project_latest = project_latest, qr_status = status,
          qr_asset_id = map_option qa_id asset, qr_asset_etag = Option.bind asset qa_etag, qr_asset_size = Option.bind asset qa_size\<rparr>]\<rparr>"

definition same_stale_asset :: "qlib_state_row list \<Rightarrow> qlib_asset \<Rightarrow> date option \<Rightarrow> date \<Rightarrow> bool" where
  "same_stale_asset states asset source_latest target =
     (\<not> covers_target source_latest target \<and> states \<noteq> [] \<and>
      (let r = last states
       in qr_status r = ''upstream_not_ready'' \<and> (case qr_asset_id r of None \<Rightarrow> ''None'' | Some i \<Rightarrow> i) = qa_id asset \<and>
          qr_asset_etag r = qa_etag asset \<and> qr_asset_size r = qa_size asset))"

text \<open>The new source directory takes the place of the old one by two renames.\<close>

definition replace_source :: "replace_outcome \<Rightarrow> qlib_source \<Rightarrow> ('v, 'h, unit) qlib_comp" where
  "replace_source outcome new s =
     (case outcome of
        Replaced \<Rightarrow> (Inr (), s\<lparr>ql_source := Some new\<rparr>)
      | BackupRenameFailed e \<Rightarrow> if ql_source s = None then (Inr (), s\<lparr>ql_source := Some new\<rparr>) else (Inl (DownloadFailure e), s)
      | ReplacementRenameFailed e restored \<Rightarrow>
          (Inl (DownloadFailure e), if restored then s else s\<lparr>ql_source := None\<rparr>))"

definition download_and_extract_qlib_asset :: "('v, 'f) qlib_env \<Rightarrow> qlib_asset \<Rightarrow> ('v, 'h, unit) qlib_comp" where
  "download_and_extract_qlib_asset q asset =
     seq_comp (check_deadline q ''download qlib asset'')
       (\<lambda>_. seq_comp (lift_res (qe_download q asset))
         (\<lambda>new. seq_comp (check_deadline q ''extract qlib asset'')
           (\<lambda>_. seq_comp (check_deadline q ''replace qlib source directory'') (\<lambda>_. replace_source (qe_replace q) new))))"

record qlib_sync_result =
  sy_status :: string
  sy_target_date :: date
  sy_source_latest :: "date option"
  sy_project_latest :: "date option"
  sy_downloaded :: bool
  sy_synced :: bool

definition build_qlib_views :: "('v, 'f) qlib_env \<Rightarrow> bool \<Rightarrow> ('v, 'h, unit) qlib_comp" where
  "build_qlib_views q wanted =
     (if \<not> wanted then Pair (Inr ())
      else seq_comp (check_deadline q ''build qlib views'') (\<lambda>_. lift_res (case qe_views q of None \<Rightarrow> Inr () | Some e \<Rightarrow> Inl e)))"

text \<open>The part after the decision: storing the source and its status.\<close>

definition sync_and_record ::
  "('v, 'h) store_env \<Rightarrow> ('v, 'f) qlib_env \<Rightarrow> int \<Rightarrow> bool \<Rightarrow> date \<Rightarrow> date option \<Rightarrow> qlib_asset option \<Rightarrow> bool \<Rightarrow> ('v, 'h, qlib_sync_result) qlib_comp" where
  "sync_and_record env q workers build_views target source_latest asset downloaded =
     seq_comp (sync_source_to_parquet env q workers)
       (\<lambda>_. seq_comp (latest_project_qlib_date env q)
         (\<lambda>project_latest.
            let status = (if covers_target project_latest target then ''synced'' else ''synced_stale'')
            in seq_comp (\<lambda>s. (Inr (), record_state target source_latest project_latest status asset s))
                 (\<lambda>_. seq_comp (build_qlib_views q build_views)
                   (\<lambda>_. Pair (Inr \<lparr>sy_status = status, sy_target_date = target, sy_source_latest = source_latest,
                      sy_project_latest = project_latest, sy_downloaded = downloaded, sy_synced = True\<rparr>)))))"

definition not_ready ::
  "date \<Rightarrow> date option \<Rightarrow> date option \<Rightarrow> qlib_asset \<Rightarrow> bool \<Rightarrow> ('v, 'h, qlib_sync_result) qlib_comp" where
  "not_ready target source_latest project_latest asset downloaded s =
     (Inr \<lparr>sy_status = ''upstream_not_ready'', sy_target_date = target, sy_source_latest = source_latest,
           sy_project_latest = project_latest, sy_downloaded = downloaded, sy_synced = False\<rparr>,
      record_state target source_latest project_latest ''upstream_not_ready'' (Some asset) s)"

definition sync_qlib_data ::
  "('v, 'h) store_env \<Rightarrow> ('v, 'f) qlib_env \<Rightarrow> date option \<Rightarrow> bool \<Rightarrow> bool \<Rightarrow> int \<Rightarrow> ('v, 'h, qlib_sync_result) qlib_comp" where
  "sync_qlib_data env q target_arg force_download build_views workers =
     seq_comp (resolve_target_date env q target_arg)
       (\<lambda>target. seq_comp (\<lambda>s. (latest_qlib_calendar_date q (ql_source s), s))
         (\<lambda>source_latest. seq_comp (latest_project_qlib_date env q)
           (\<lambda>project_latest. seq_comp (check_deadline q ''check local qlib state'')
             (\<lambda>_. if \<not> force_download \<and> covers_target source_latest target \<and> covers_target project_latest target
                  then seq_comp (\<lambda>s. (Inr (), record_state target source_latest project_latest ''checked_current'' None s))
                    (\<lambda>_. seq_comp (build_qlib_views q build_views)
                      (\<lambda>_. Pair (Inr \<lparr>sy_status = ''checked_current'', sy_target_date = target, sy_source_latest = source_latest,
                         sy_project_latest = project_latest, sy_downloaded = False, sy_synced = False\<rparr>)))
                  else if force_download \<or> \<not> covers_target source_latest target
                  then seq_comp (check_deadline q ''fetch qlib release metadata'')
                    (\<lambda>_. seq_comp (lift_res (qe_asset q))
                      (\<lambda>asset s. if \<not> force_download \<and> same_stale_asset (ql_states s) asset source_latest target
                         then not_ready target source_latest project_latest asset False s
                         else seq_comp (download_and_extract_qlib_asset q asset)
                           (\<lambda>_. seq_comp (\<lambda>s. (latest_qlib_calendar_date q (ql_source s), s))
                             (\<lambda>new_latest. if \<not> covers_target new_latest target
                                then not_ready target new_latest project_latest asset True
                                else sync_and_record env q workers build_views target new_latest (Some asset) True)) s))
                  else sync_and_record env q workers build_views target source_latest None False))))"

section \<open>What the pool of workers guarantees\<close>

abbreviation files :: "('v, 'h) qlib_state \<Rightarrow> string \<times> string \<Rightarrow> 'v row list option" where
  "files s \<equiv> ps_files (ql_store s)"

lemma traverse_id_Inr: "traverse id rs = Inr ys \<Longrightarrow> rs = map Inr ys"
proof (induction rs arbitrary: ys)
  case (Cons r rs)
  then show ?case by (cases r; cases "traverse id rs") (auto simp: id_def)
qed simp

text \<open>
  Tasks that each settle their own part of what is seen of the state (\<open>view\<close>): running one settles it if it is still to do and
  returns, keeps an invariant in any case, and leaves the parts of the other tasks alone.
\<close>

locale pool_tasks =
  fixes task :: "'a \<Rightarrow> ('v, 'h, 'b) qlib_comp"
    and tasks :: "'a set"
    and view :: "('v, 'h) qlib_state \<Rightarrow> 'w"
    and todo settled :: "'a \<Rightarrow> 'w \<Rightarrow> bool"
    and inv :: "'w \<Rightarrow> bool"
  assumes view_counters [simp]: "view (s\<lparr>ql_checks := n\<rparr>) = view s" "view (s\<lparr>ql_waits := n\<rparr>) = view s"
    and task_settles: "x \<in> tasks \<Longrightarrow> todo x (view s) \<Longrightarrow> task x s = (Inr b, s') \<Longrightarrow> settled x (view s')"
    and task_inv: "x \<in> tasks \<Longrightarrow> inv (view s) \<Longrightarrow> task x s = (r, s') \<Longrightarrow> inv (view s')"
    and task_todo: "x \<in> tasks \<Longrightarrow> y \<in> tasks \<Longrightarrow> x \<noteq> y \<Longrightarrow> task x s = (r, s') \<Longrightarrow> todo y (view s) \<Longrightarrow> todo y (view s')"
    and task_settled: "x \<in> tasks \<Longrightarrow> y \<in> tasks \<Longrightarrow> x \<noteq> y \<Longrightarrow> task x s = (r, s') \<Longrightarrow> settled y (view s) \<Longrightarrow> settled y (view s')"
begin

lemma run_each_keeps:
  assumes "run_each task xs s = (rs, s')" and "set xs \<subseteq> tasks"
  shows "(inv (view s) \<longrightarrow> inv (view s')) \<and>
    (\<forall>y \<in> tasks - set xs. (todo y (view s) \<longrightarrow> todo y (view s')) \<and> (settled y (view s) \<longrightarrow> settled y (view s')))"
  using assms
proof (induction xs arbitrary: s rs)
  case (Cons x xs)
  obtain r s1 rs' where x: "task x s = (r, s1)" and xs: "run_each task xs s1 = (rs', s')"
    using Cons.prems(1) by (auto split: prod.splits)
  from Cons.prems(2) have mem: "x \<in> tasks" by simp
  show ?case
    using Cons.IH [OF xs] Cons.prems(2) task_inv [OF mem _ x] task_todo [OF mem _ _ x] task_settled [OF mem _ _ x] by auto
qed simp

lemma run_each_settles:
  assumes "run_each task xs s = (rs, s')" and "rs = map Inr ys" and "distinct xs" and "set xs \<subseteq> tasks"
    and "\<forall>x \<in> set xs. todo x (view s)"
  shows "\<forall>x \<in> set xs. settled x (view s')"
  using assms
proof (induction xs arbitrary: s rs ys)
  case (Cons x xs)
  obtain r s1 rs' where x: "task x s = (r, s1)" and xs: "run_each task xs s1 = (rs', s')" and rs: "rs = r # rs'"
    using Cons.prems(1) by (auto split: prod.splits)
  obtain b ys' where r: "r = Inr b" and rs': "rs' = map Inr ys'" using Cons.prems(2) by (auto simp: rs)
  have mem: "x \<in> tasks" using Cons.prems(4) by simp
  have "settled x (view s1)" using task_settles [OF mem _ x [unfolded r]] Cons.prems(5) by simp
  then have "settled x (view s')" using run_each_keeps [OF xs] Cons.prems(3,4) by auto
  moreover have "todo y (view s1)" if "y \<in> set xs" for y
    using that Cons.prems(3-5) task_todo [OF mem _ _ x, of y] by auto
  ultimately show ?case using Cons.IH [OF xs rs'] Cons.prems(3,4) by auto
qed simp

lemma picked_rest:
  assumes "distinct pending" and "set idx \<subseteq> {..<length pending}" and "distinct idx"
  shows "distinct (map ((!) pending) idx @ unfinished idx pending)" and "set (map ((!) pending) idx @ unfinished idx pending) = set pending"
proof -
  have "inj_on ((!) pending) {..<length pending}" using assms(1) by (auto simp: inj_on_def nth_eq_iff_index_eq)
  then show "distinct (map ((!) pending) idx @ unfinished idx pending)"
    using assms by (auto simp: unfinished_def distinct_map nth_eq_iff_index_eq intro: inj_on_subset)
  show "set (map ((!) pending) idx @ unfinished idx pending) = set pending"
    using assms(2) by (force simp: unfinished_def in_set_conv_nth)
qed

lemma iter_pool_settles:
  assumes "iter_pool q task cap queue pending s = (r, s')" and "distinct (pending @ queue)" and "set (pending @ queue) \<subseteq> tasks"
  shows "(inv (view s) \<longrightarrow> inv (view s')) \<and>
    (\<forall>ys. r = Inr ys \<longrightarrow> 0 < cap \<longrightarrow> (\<forall>x \<in> set (pending @ queue). todo x (view s)) \<longrightarrow> (pending = [] \<longrightarrow> queue = []) \<longrightarrow>
       (\<forall>x \<in> set (pending @ queue). settled x (view s')) \<and>
       (\<forall>y \<in> tasks - set (pending @ queue). settled y (view s) \<longrightarrow> settled y (view s')))"
  using assms
proof (induction "length queue + length pending" arbitrary: queue pending s r s' rule: less_induct)
  case less
  show ?case
  proof (cases "pending = []")
    case True
    then have "r = Inr []" "s' = s" using less.prems(1) by (simp_all add: iter_pool.simps)
    then show ?thesis using True by simp
  next
    case False
    let ?idx = "finished_round q (s\<lparr>ql_checks := Suc (ql_checks s)\<rparr>) (length pending)"
    let ?s1 = "s\<lparr>ql_checks := Suc (ql_checks s), ql_waits := Suc (ql_waits s)\<rparr>"
    let ?picked = "map ((!) pending) ?idx" and ?rest = "unfinished ?idx pending"
    have idx: "set ?idx \<subseteq> {..<length pending}" "distinct ?idx" using False finished_round_ok [of "length pending" q "s\<lparr>ql_checks := Suc (ql_checks s)\<rparr>"] by simp_all
    have dist: "distinct pending" "set pending \<subseteq> tasks" using less.prems(2,3) by auto
    note parts = picked_rest [OF dist(1) idx]
    have sub: "set ?picked \<subseteq> tasks" "set ?rest \<subseteq> tasks" using parts(2) dist(2) by auto
    show ?thesis
    proof (cases "qe_expired q (ql_checks s)")
      case True
      then obtain e where "r = Inl e" "s' = snd (run_each task pending (s\<lparr>ql_checks := Suc (ql_checks s)\<rparr>))"
        using less.prems(1) False by (auto simp: iter_pool.simps [of q task cap queue pending s] check_deadline_def Let_def)
      then show ?thesis using run_each_keeps [of pending "s\<lparr>ql_checks := Suc (ql_checks s)\<rparr>", OF surjective_pairing dist(2)] by simp
    next
      case run: False
      obtain rs s2 where rs: "run_each task ?picked ?s1 = (rs, s2)" by fastforce
      have inv2: "inv (view s) \<longrightarrow> inv (view s2)" using run_each_keeps [OF rs sub(1)] by simp
      show ?thesis
      proof (cases "traverse id rs")
        case (Inl e)
        then have "r = Inl e" "s' = snd (run_each task ?rest s2)"
          using less.prems(1) False run rs by (simp_all add: iter_pool.simps [of q task cap queue pending s] check_deadline_def Let_def)
        then show ?thesis using inv2 run_each_keeps [of ?rest s2, OF surjective_pairing sub(2)] by simp
      next
        case (Inr xs)
        obtain queue' pending' where fill: "fill cap queue ?rest = (queue', pending')" by fastforce
        obtain r3 where rec: "iter_pool q task cap queue' pending' s2 = (r3, s')" and r: "r = map_sum id ((@) xs) r3"
          using less.prems(1) False run rs Inr fill
          by (auto simp: iter_pool.simps [of q task cap queue pending s] check_deadline_def Let_def split: prod.splits sum.splits)
        have less': "length queue' + length pending' < length queue + length pending"
          using fill_unfinished [OF False fill [symmetric]] .
        have "pending' @ queue' = ?rest @ queue" using fill by (auto simp: fill_def)
        then have set': "set (pending' @ queue') = set ?rest \<union> set queue" "distinct (pending' @ queue') = distinct (?rest @ queue)"
          by simp_all
        have d': "distinct (pending' @ queue')" "set (pending' @ queue') \<subseteq> tasks"
          using parts less.prems(2,3) set' sub(2) by auto
        note IH = less.hyps [OF less' rec d']
        have kept: "\<forall>y \<in> tasks - set ?picked. (todo y (view s) \<longrightarrow> todo y (view s2)) \<and> (settled y (view s) \<longrightarrow> settled y (view s2))"
          using run_each_keeps [OF rs sub(1)] by simp
        have mem: "set (pending @ queue) = set ?picked \<union> set (pending' @ queue')" "set ?picked \<inter> set (pending' @ queue') = {}"
          using parts less.prems(2) set' by auto
        have fin: "(\<forall>x \<in> set (pending @ queue). settled x (view s')) \<and>
            (\<forall>y \<in> tasks - set (pending @ queue). settled y (view s) \<longrightarrow> settled y (view s'))"
          if ys: "r = Inr ys" "0 < cap" "\<forall>x \<in> set (pending @ queue). todo x (view s)" for ys
        proof -
          obtain zs where r3: "r3 = Inr zs" using ys(1) r by (cases r3) auto
          have picked: "\<forall>x \<in> set ?picked. settled x (view s2)"
            using run_each_settles [OF rs traverse_id_Inr [OF Inr] _ sub(1)] parts(1) ys(3) mem(1) by simp
          have "\<forall>x \<in> set (pending' @ queue'). todo x (view s2)" using kept ys(3) mem d'(2) by blast
          moreover have "pending' = [] \<longrightarrow> queue' = []" using fill ys(2) by (auto simp: fill_def)
          ultimately have later: "\<forall>x \<in> set (pending' @ queue'). settled x (view s')"
            "\<forall>y \<in> tasks - set (pending' @ queue'). settled y (view s2) \<longrightarrow> settled y (view s')"
            using IH r3 ys(2) by blast+
          then show ?thesis using picked kept mem sub(1) by blast
        qed
        then show ?thesis using inv2 IH by blast
      qed
    qed
  qed
qed

lemma map_comp_settles:
  assumes "map_comp task xs s = (r, s')" and "distinct xs" and "set xs \<subseteq> tasks"
  shows "(inv (view s) \<longrightarrow> inv (view s')) \<and>
    (\<forall>ys. r = Inr ys \<longrightarrow> (\<forall>x \<in> set xs. todo x (view s)) \<longrightarrow>
      (\<forall>x \<in> set xs. settled x (view s')) \<and> (\<forall>y \<in> tasks - set xs. settled y (view s) \<longrightarrow> settled y (view s')))"
  using assms
proof (induction xs arbitrary: r s)
  case (Cons x xs)
  obtain r1 s1 where x: "task x s = (r1, s1)" by fastforce
  have mem: "x \<in> tasks" using Cons.prems(3) by simp
  note keep = task_inv [OF mem _ x] task_todo [OF mem _ _ x] task_settled [OF mem _ _ x]
  show ?case
  proof (cases r1)
    case (Inl e)
    then have "r = Inl e" "s' = s1" using Cons.prems(1) x by (simp_all add: seq_comp_def)
    then show ?thesis using keep(1) by simp
  next
    case (Inr b)
    obtain r2 where xs: "map_comp task xs s1 = (r2, s')" and r: "r = map_sum id ((#) b) r2"
      using Cons.prems(1) x Inr by (auto simp: seq_comp_def split: prod.splits sum.splits)
    note IH = Cons.IH [OF xs]
    have "(\<forall>y \<in> set (x # xs). settled y (view s')) \<and> (\<forall>y \<in> tasks - set (x # xs). settled y (view s) \<longrightarrow> settled y (view s'))"
      if ys: "r = Inr ys" "\<forall>y \<in> set (x # xs). todo y (view s)" for ys
    proof -
      obtain zs where r2: "r2 = Inr zs" using ys(1) r by (cases r2) auto
      have "settled x (view s1)" using task_settles [OF mem _ x [unfolded Inr]] ys(2) by simp
      moreover have "\<forall>y \<in> set xs. todo y (view s1)" using keep(2) ys(2) Cons.prems(2,3) by auto
      ultimately show ?thesis using IH r2 keep(3) mem Cons.prems(2,3) by auto
    qed
    then show ?thesis using IH keep(1) Cons.prems(2,3) by auto
  qed
qed simp

lemma iter_results_settles:
  assumes "iter_qlib_feature_sync_results q dirs task workers s = (r, s')" and "distinct dirs" and "set dirs \<subseteq> tasks"
  shows "(inv (view s) \<longrightarrow> inv (view s')) \<and>
    (\<forall>ys. r = Inr ys \<longrightarrow> (\<forall>x \<in> set dirs. todo x (view s)) \<longrightarrow> (\<forall>x \<in> set dirs. settled x (view s')))"
proof (cases "workers \<le> 1")
  case True
  then show ?thesis using map_comp_settles [of dirs s r s'] assms by (simp add: iter_qlib_feature_sync_results_def)
next
  case False
  let ?cap = "nat (max (workers * 4) 1)"
  obtain queue pending where fill: "fill ?cap dirs [] = (queue, pending)" by fastforce
  have pool: "iter_pool q task ?cap queue pending s = (r, s')"
    using assms(1) False fill by (simp add: iter_qlib_feature_sync_results_def Let_def)
  have "pending @ queue = dirs" "pending = [] \<longrightarrow> queue = []" using fill False by (auto simp: fill_def)
  then show ?thesis using iter_pool_settles [OF pool] assms(2,3) False by simp
qed

end

section \<open>Replacing a partition\<close>

lemma write_replace_wp:
  assumes "dataset_definition_of i = Inr d" and "ds_default_write_mode d = Replace"
  shows "wp (write_dataset env i df p None False) s
    (\<lambda>_ s'. \<exists>path rows. dataset_path env d p = Inr path \<and> prepare_dataset_frame env d df p True = Inr rows \<and> ps_files s' = (ps_files s)(path \<mapsto> rows))
    (\<lambda>_ s'. ps_files s' = ps_files s \<or>
       (\<exists>path rows. dataset_path env d p = Inr path \<and> prepare_dataset_frame env d df p True = Inr rows \<and> ps_files s' = (ps_files s)(path \<mapsto> rows)))"
proof (cases "dataset_path env d p")
  case (Inl e)
  then show ?thesis using assms by (simp add: write_dataset_def Let_def)
next
  case path: (Inr path)
  show ?thesis
  proof (cases "prepare_dataset_frame env d df p True")
    case (Inl e)
    then show ?thesis using assms path by (simp add: write_dataset_def Let_def)
  next
    case (Inr rows)
    have "wp (\<lambda>s. (Inr rows, s)) s Q E = Q rows s" for Q E and s :: "('a, 'b) parquet_store" by (simp add: wp_def)
    then show ?thesis
      using assms path Inr write_prepared_wp [OF path, of rows s]
      by (auto simp: write_dataset_def Let_def wp_def seq_comp_def lift_res_def split: prod.splits sum.splits)
  qed
qed

lemma in_store_wp [simp]:
  "wp (in_store m) s Q E = wp m (ql_store s) (\<lambda>x st. Q x (s\<lparr>ql_store := st\<rparr>)) (\<lambda>e st. E (StoreRaised e) (s\<lparr>ql_store := st\<rparr>))"
  by (auto simp: wp_def in_store_def split: prod.split sum.split)

lemma check_deadline_wp:
  "(\<And>n. Q () (s\<lparr>ql_checks := n\<rparr>)) \<Longrightarrow> (\<And>e n. E e (s\<lparr>ql_checks := n\<rparr>)) \<Longrightarrow> wp (check_deadline q action) s Q E"
  by (simp add: wp_def check_deadline_def Let_def)

lemma wp_read [simp]: "wp (\<lambda>s. (r s, s)) s Q E = (case r s of Inr x \<Rightarrow> Q x s | Inl e \<Rightarrow> E e s)"
  by (simp add: wp_def)

section \<open>The partition of a symbol\<close>

definition symbol_of :: "string \<times> 'a \<Rightarrow> string" where
  "symbol_of dir = normalize_qlib_symbol (fst dir)"

definition feature_path :: "string \<times> 'a \<Rightarrow> string \<times> string" where
  "feature_path dir = (''qlib_cn_stock_features_day'', symbol_of dir)"

text \<open>A stored partition that reaches the latest day of the source.\<close>

definition feature_covered :: "('v, 'f) qlib_env \<Rightarrow> date list \<Rightarrow> 'v row list option \<Rightarrow> bool" where
  "feature_covered q calendar stored =
     (case (latest_date calendar, stored) of
        (Some target, Some rows) \<Rightarrow> (case latest_date (column_dates q ''date'' rows) of None \<Rightarrow> False | Some d \<Rightarrow> target \<le> d)
      | _ \<Rightarrow> False)"

text \<open>What synchronising a symbol makes of its partition.\<close>

definition feature_settled ::
  "('v, 'h) store_env \<Rightarrow> ('v, 'f) qlib_env \<Rightarrow> date list \<Rightarrow> (string \<times> string \<Rightarrow> 'v row list option) \<Rightarrow>
   string \<times> (string \<times> 8 word list) list \<Rightarrow> (string \<times> string \<Rightarrow> 'v row list option) \<Rightarrow> bool" where
  "feature_settled env q calendar before dir after \<longleftrightarrow>
     (if feature_covered q calendar (before (feature_path dir)) then after (feature_path dir) = before (feature_path dir)
      else \<exists>rows. load_qlib_symbol_features q (fst dir) (snd dir) calendar = Inr rows \<and>
        (if rows = [] then after (feature_path dir) = before (feature_path dir)
         else \<exists>stored. prepare_dataset_frame env QLIB_CN_STOCK_FEATURES_DAY_DATASET (feature_frame env q rows)
                (feature_partition env (symbol_of dir)) True = Inr stored \<and> after (feature_path dir) = Some stored))"

definition plain_symbol :: "string \<times> 'a \<Rightarrow> bool" where
  "plain_symbol dir \<longleftrightarrow> py_strip (symbol_of dir) = symbol_of dir \<and> symbol_of dir \<noteq> []"

lemma features_definition:
  "dataset_definition_of ''qlib_cn_stock_features_day'' = Inr QLIB_CN_STOCK_FEATURES_DAY_DATASET"
  "ds_id QLIB_CN_STOCK_FEATURES_DAY_DATASET = ''qlib_cn_stock_features_day''"
  "ds_partition_column QLIB_CN_STOCK_FEATURES_DAY_DATASET = Some ''qlib_symbol''"
  "ds_code_format QLIB_CN_STOCK_FEATURES_DAY_DATASET = ''qlib_symbol''"
  "ds_default_write_mode QLIB_CN_STOCK_FEATURES_DAY_DATASET = Replace"
  by code_simp+

lemma feature_dataset_path:
  assumes "env_ok env" and "plain_symbol dir"
  shows "dataset_path env QLIB_CN_STOCK_FEATURES_DAY_DATASET (feature_partition env (symbol_of dir)) = Inr (feature_path dir)"
  using assms
  by (simp add: dataset_path_def partition_value_def normalize_partition_value_def features_definition feature_partition_def
      feature_path_def plain_symbol_def env_ok_def Let_def)

lemma covers_check:
  assumes "env_ok env" and "plain_symbol dir"
  shows "(case latest_date calendar of None \<Rightarrow> Inr False
      | Some target \<Rightarrow> lift_store (feature_partition_covers_date env q st (normalize_qlib_symbol (fst dir)) target)) =
    Inr (feature_covered q calendar (ps_files st (feature_path dir)))"
  using feature_dataset_path [OF assms]
  by (auto simp: feature_partition_covers_date_def feature_covered_def lift_store_def symbol_of_def split: option.split)

lemma sync_one_symbol_effect:
  assumes "env_ok env" and "plain_symbol dir"
  shows "wp (sync_one_symbol env q calendar dir) s
    (\<lambda>_ s'. (\<forall>path. path \<noteq> feature_path dir \<longrightarrow> files s' path = files s path) \<and>
       (\<forall>before. before (feature_path dir) = files s (feature_path dir) \<longrightarrow> feature_settled env q calendar before dir (files s')))
    (\<lambda>_ s'. \<forall>path. path \<noteq> feature_path dir \<longrightarrow> files s' path = files s path)"
  unfolding sync_one_symbol_def wp_seq
proof (rule check_deadline_wp, goal_cases)
  case (1 n)
  let ?s = "s\<lparr>ql_checks := n\<rparr>" and ?p = "feature_partition env (symbol_of dir)"
  have path: "dataset_path env QLIB_CN_STOCK_FEATURES_DAY_DATASET ?p = Inr (feature_path dir)" by (rule feature_dataset_path [OF assms])
  show ?case
  proof (cases "feature_covered q calendar (files s (feature_path dir))")
    case True
    then show ?thesis by (simp add: covers_check [OF assms] feature_settled_def Let_def)
  next
    case uncovered: False
    show ?thesis
    proof (cases "load_qlib_symbol_features q (fst dir) (snd dir) calendar")
      case (Inl e)
      then show ?thesis using uncovered by (simp add: covers_check [OF assms] Let_def)
    next
      case (Inr rows)
      show ?thesis
      proof (cases "rows = []")
        case True
        then show ?thesis using uncovered Inr by (simp add: covers_check [OF assms] feature_settled_def Let_def)
      next
        case False
        have "wp (write_dataset env ''qlib_cn_stock_features_day'' (feature_frame env q rows) ?p None False) (ql_store s)
          (\<lambda>_ st. \<exists>stored. prepare_dataset_frame env QLIB_CN_STOCK_FEATURES_DAY_DATASET (feature_frame env q rows) ?p True = Inr stored \<and>
             ps_files st = (files s)(feature_path dir \<mapsto> stored))
          (\<lambda>_ st. ps_files st = files s \<or> (\<exists>stored. ps_files st = (files s)(feature_path dir \<mapsto> stored)))"
          by (rule wp_mono [OF write_replace_wp [OF features_definition(1,5)]]) (auto simp: path)
        then have "wp (in_store (write_dataset env ''qlib_cn_stock_features_day'' (feature_frame env q rows) ?p None False)) ?s
          (\<lambda>_ s'. \<exists>stored. prepare_dataset_frame env QLIB_CN_STOCK_FEATURES_DAY_DATASET (feature_frame env q rows) ?p True = Inr stored \<and>
             files s' = (files s)(feature_path dir \<mapsto> stored))
          (\<lambda>_ s'. files s' = files s \<or> (\<exists>stored. files s' = (files s)(feature_path dir \<mapsto> stored)))"
          by simp
        then show ?thesis
          using uncovered Inr False
          by (auto simp: covers_check [OF assms] feature_settled_def Let_def symbol_of_def elim!: wp_mono simp del: in_store_wp)
      qed
    qed
  qed
qed simp

definition distinct_symbols :: "(string \<times> 'a) list \<Rightarrow> bool" where
  "distinct_symbols dirs \<longleftrightarrow> distinct (map symbol_of dirs) \<and> list_all plain_symbol dirs"

definition sync_tasks :: "('v, 'h) store_env \<Rightarrow> (string \<times> 'a) list \<Rightarrow> (string \<times> 'a) set" where
  "sync_tasks env dirs = (if env_ok env \<and> distinct_symbols dirs then set dirs else {})"

definition unchanged_partition ::
  "(string \<times> string \<Rightarrow> 'v row list option) \<Rightarrow> string \<times> 'a \<Rightarrow> (string \<times> string \<Rightarrow> 'v row list option) \<Rightarrow> bool" where
  "unchanged_partition before dir after \<longleftrightarrow> after (feature_path dir) = before (feature_path dir)"

definition others_unchanged :: "(string \<times> string \<Rightarrow> 'v row list option) \<Rightarrow> (string \<times> string \<Rightarrow> 'v row list option) \<Rightarrow> bool" where
  "others_unchanged before after \<longleftrightarrow> (\<forall>i v. i \<noteq> ''qlib_cn_stock_features_day'' \<longrightarrow> after (i, v) = before (i, v))"

lemma sync_tasks_paths:
  assumes "x \<in> sync_tasks env dirs" and "y \<in> sync_tasks env dirs" and "x \<noteq> y"
  shows "feature_path x \<noteq> feature_path y"
  using assms by (auto simp: sync_tasks_def distinct_symbols_def feature_path_def distinct_map inj_on_def split: if_splits)

lemma sync_task_run:
  assumes "x \<in> sync_tasks env dirs" and "sync_one_symbol env q calendar x s = (r, s')"
  shows "(\<forall>path. path \<noteq> feature_path x \<longrightarrow> files s' path = files s path) \<and>
    (\<forall>b before. r = Inr b \<longrightarrow> before (feature_path x) = files s (feature_path x) \<longrightarrow> feature_settled env q calendar before x (files s'))"
proof -
  have "env_ok env" "plain_symbol x"
    using assms(1) by (auto simp: sync_tasks_def distinct_symbols_def list_all_iff split: if_splits)
  from sync_one_symbol_effect [OF this, of q calendar s] assms(2) show ?thesis by (cases r) (auto simp: wp_def)
qed

lemma feature_settled_local:
  "after (feature_path dir) = after' (feature_path dir) \<Longrightarrow> feature_settled env q calendar before dir after = feature_settled env q calendar before dir after'"
  by (simp add: feature_settled_def)

definition source_files :: "('v, 'h) qlib_state \<Rightarrow> qlib_source option \<times> (string \<times> string \<Rightarrow> 'v row list option)" where
  "source_files s = (ql_source s, files s)"

lemma in_store_source: "in_store m s = (r, s') \<Longrightarrow> ql_source s' = ql_source s \<and> ql_states s' = ql_states s"
  by (auto simp: in_store_def split: prod.splits sum.splits)

lemma check_deadline_source: "check_deadline q action s = (r, s') \<Longrightarrow> ql_source s' = ql_source s \<and> ql_store s' = ql_store s"
  by (auto simp: check_deadline_def Let_def split: if_splits)

lemma sync_one_symbol_source: "sync_one_symbol env q calendar dir s = (r, s') \<Longrightarrow> ql_source s' = ql_source s"
  by (auto simp: sync_one_symbol_def Let_def seq_comp_def lift_res_def split: prod.splits sum.splits if_splits dest!: in_store_source check_deadline_source)

interpretation feature_pool: pool_tasks "sync_one_symbol env q calendar" "sync_tasks env dirs" source_files
  "\<lambda>dir w. unchanged_partition before dir (snd w)" "\<lambda>dir w. feature_settled env q calendar before dir (snd w)"
  "\<lambda>w. fst w = src \<and> others_unchanged before (snd w)"
  for env :: "('v, 'h) store_env" and q :: "('v, 'f) qlib_env" and calendar dirs before src
proof
  fix n and s :: "('v, 'h) qlib_state"
  show "source_files (s\<lparr>ql_checks := n\<rparr>) = source_files s" "source_files (s\<lparr>ql_waits := n\<rparr>) = source_files s"
    by (simp_all add: source_files_def)
next
  fix x b and s s' :: "('v, 'h) qlib_state"
  assume "x \<in> sync_tasks env dirs" and "unchanged_partition before x (snd (source_files s))" and "sync_one_symbol env q calendar x s = (Inr b, s')"
  then show "feature_settled env q calendar before x (snd (source_files s'))"
    using sync_task_run [of x env dirs q calendar s "Inr b" s'] unfolding unchanged_partition_def source_files_def snd_conv by metis
next
  fix x r and s s' :: "('v, 'h) qlib_state"
  assume "x \<in> sync_tasks env dirs" and "fst (source_files s) = src \<and> others_unchanged before (snd (source_files s))"
    and "sync_one_symbol env q calendar x s = (r, s')"
  then show "fst (source_files s') = src \<and> others_unchanged before (snd (source_files s'))"
    using sync_task_run [of x env dirs q calendar s r s'] sync_one_symbol_source [of env q calendar x s r s']
    by (auto simp: source_files_def others_unchanged_def feature_path_def)
next
  fix x y r and s s' :: "('v, 'h) qlib_state"
  assume a: "x \<in> sync_tasks env dirs" "y \<in> sync_tasks env dirs" "x \<noteq> y" "sync_one_symbol env q calendar x s = (r, s')"
  have same: "files s' (feature_path y) = files s (feature_path y)"
    using sync_task_run [OF a(1,4), THEN conjunct1, THEN spec, of "feature_path y"] sync_tasks_paths [OF a(1-3)] by simp
  then show "unchanged_partition before y (snd (source_files s'))" if "unchanged_partition before y (snd (source_files s))"
    using that by (simp add: unchanged_partition_def source_files_def)
  show "feature_settled env q calendar before y (snd (source_files s'))" if "feature_settled env q calendar before y (snd (source_files s))"
    using that feature_settled_local [where after = "files s'" and after' = "files s", OF same] unfolding source_files_def snd_conv by blast
qed

section \<open>Properties of the synchronisation\<close>

lemma sync_features_effect:
  assumes "sync_features env q workers calendar s = (r, s')" and "env_ok env"
    and "feature_dirs (ql_source s) = Inr dirs" and "distinct_symbols dirs"
  shows "ql_source s' = ql_source s \<and> others_unchanged (files s) (files s') \<and>
    (r = Inr () \<longrightarrow> (\<forall>dir \<in> set dirs. feature_settled env q calendar (files s) dir (files s')) \<and>
       (\<forall>v rows. files s' (''qlib_cn_stock_features_day'', v) = Some rows \<longrightarrow> v \<in> symbol_of ` set dirs))"
proof -
  have tasks: "set dirs \<subseteq> sync_tasks env dirs" and dist: "distinct dirs"
    using assms(2,4) by (auto simp: sync_tasks_def distinct_symbols_def distinct_map)
  obtain r1 s1 where it: "iter_qlib_feature_sync_results q dirs (sync_one_symbol env q calendar) workers s = (r1, s1)" by fastforce
  from feature_pool.iter_results_settles [where before = "files s" and src = "ql_source s", OF it dist tasks]
  have pool: "ql_source s1 = ql_source s" "others_unchanged (files s) (files s1)"
    "\<And>ys. r1 = Inr ys \<Longrightarrow> \<forall>dir \<in> set dirs. feature_settled env q calendar (files s) dir (files s1)"
    by (auto simp: others_unchanged_def unchanged_partition_def source_files_def)
  let ?m = "seq_comp (check_deadline q ''clean stale qlib feature partitions'')
     (\<lambda>_ s. (Inr (), s\<lparr>ql_store := remove_stale_feature_partitions (map (normalize_qlib_symbol \<circ> fst) dirs) (ql_store s)\<rparr>))"
  have eq: "sync_features env q workers calendar s = (case r1 of Inl e \<Rightarrow> (Inl e, s1) | Inr _ \<Rightarrow> ?m s1)"
    using it assms(3) by (simp add: sync_features_def seq_comp_def split: sum.split)
  show ?thesis
  proof (cases r1)
    case (Inl e)
    then show ?thesis using eq assms(1) pool(1,2) by simp
  next
    case (Inr ys)
    let ?clean = "\<lambda>fs. (\<lambda>(i, v). if i = ''qlib_cn_stock_features_day'' \<and> v \<notin> symbol_of ` set dirs then None else fs (i, v))"
    have "r = Inr () \<longrightarrow> files s' = ?clean (files s1)" and "r \<noteq> Inr () \<longrightarrow> files s' = files s1"
      using eq assms(1) Inr
      by (auto simp: seq_comp_def check_deadline_def Let_def remove_stale_feature_partitions_def symbol_of_def comp_def split: if_splits)
    moreover have "feature_settled env q calendar (files s) dir (?clean (files s1))" if "dir \<in> set dirs" for dir
    proof -
      have "?clean (files s1) (feature_path dir) = files s1 (feature_path dir)" using that by (auto simp: feature_path_def)
      from feature_settled_local [where after = "?clean (files s1)" and after' = "files s1", OF this] pool(3) [OF Inr] that show ?thesis by blast
    qed
    moreover have "ql_source s' = ql_source s" using eq assms(1) Inr pool(1)
      by (auto simp: seq_comp_def check_deadline_def Let_def split: if_splits)
    ultimately show ?thesis using pool(2) by (cases "r = Inr ()") (auto simp: others_unchanged_def split: if_splits)
  qed
qed

lemma catalog_paths:
  "dataset_definition_of ''qlib_cn_calendar_day'' = Inr QLIB_CN_CALENDAR_DAY_DATASET"
  "dataset_definition_of ''qlib_cn_instrument_membership'' = Inr QLIB_CN_INSTRUMENT_MEMBERSHIP_DATASET"
  "ds_default_write_mode QLIB_CN_CALENDAR_DAY_DATASET = Replace" "ds_default_write_mode QLIB_CN_INSTRUMENT_MEMBERSHIP_DATASET = Replace"
  "ds_id QLIB_CN_CALENDAR_DAY_DATASET = ''qlib_cn_calendar_day''" "ds_id QLIB_CN_INSTRUMENT_MEMBERSHIP_DATASET = ''qlib_cn_instrument_membership''"
  "ds_partition_column QLIB_CN_CALENDAR_DAY_DATASET = None" "ds_partition_column QLIB_CN_INSTRUMENT_MEMBERSHIP_DATASET = None"
  by code_simp+

lemma calendar_dataset_path: "dataset_path env QLIB_CN_CALENDAR_DAY_DATASET None = Inr (''qlib_cn_calendar_day'', [])"
  "dataset_path env QLIB_CN_INSTRUMENT_MEMBERSHIP_DATASET None = Inr (''qlib_cn_instrument_membership'', [])"
  by (simp_all add: dataset_path_def partition_value_def catalog_paths)

lemma store_replace_wp:
  assumes "dataset_definition_of i = Inr d" and "ds_default_write_mode d = Replace" and "dataset_path env d p = Inr path"
  shows "wp (in_store (write_dataset env i df p None False)) s
    (\<lambda>_ s'. ql_source s' = ql_source s \<and> (\<exists>rows. prepare_dataset_frame env d df p True = Inr rows \<and> files s' = (files s)(path \<mapsto> rows)))
    (\<lambda>_ s'. ql_source s' = ql_source s \<and> (\<forall>other. other \<noteq> path \<longrightarrow> files s' other = files s other))"
  unfolding in_store_wp by (rule wp_mono [OF write_replace_wp [OF assms(1,2)]]) (auto simp: assms(3))

text \<open>Storing the calendar and the instruments touches nothing else.\<close>

lemma sync_calendar_effect:
  "wp (sync_calendar env q) s
     (\<lambda>calendar s'. read_qlib_calendar q (ql_source s) = Inr calendar \<and> ql_source s' = ql_source s \<and>
        (\<forall>v. files s' (''qlib_cn_stock_features_day'', v) = files s (''qlib_cn_stock_features_day'', v)) \<and>
        (\<exists>rows. prepare_dataset_frame env QLIB_CN_CALENDAR_DAY_DATASET (calendar_day_frame q calendar) None True = Inr rows \<and>
           files s' (''qlib_cn_calendar_day'', []) = Some rows))
     (\<lambda>_ s'. \<forall>v. files s' (''qlib_cn_stock_features_day'', v) = files s (''qlib_cn_stock_features_day'', v))"
proof (cases "read_qlib_calendar q (ql_source s)")
  case (Inl e)
  then show ?thesis by (simp add: sync_calendar_def)
next
  case (Inr calendar)
  show ?thesis
    unfolding sync_calendar_def wp_seq wp_read Inr sum.case
  proof (rule wp_mono [OF store_replace_wp [OF catalog_paths(1,3) calendar_dataset_path(1)]], goal_cases)
    case (1 u s1)
    then obtain rows where s1: "ql_source s1 = ql_source s" "files s1 = (files s)((''qlib_cn_calendar_day'', []) \<mapsto> rows)"
      and rows: "prepare_dataset_frame env QLIB_CN_CALENDAR_DAY_DATASET (calendar_day_frame q calendar) None True = Inr rows" by blast
    show ?case
    proof (cases "case ql_source s1 of None \<Rightarrow> Inr [] | Some src \<Rightarrow> read_qlib_instruments q src")
      case (Inl e)
      then show ?thesis by (simp add: s1)
    next
      case (Inr members)
      show ?thesis
        unfolding Inr sum.case wp_Pair
        by (rule wp_mono [OF store_replace_wp [OF catalog_paths(2,4) calendar_dataset_path(2)]]) (auto simp: s1 rows)
    qed
  qed simp
qed

text \<open>
  C35: A synchronisation that returns has settled every symbol of the source, with any number of workers
  and in whatever order they finish: the partition of a symbol holds exactly the prepared frame of its
  columns, except that a partition whose latest day already reaches the calendar's is left as it was,
  whatever its values are, and so is that of a symbol without any value; and no partition of a symbol
  that the source lacks is left. A forced download of revised data with the same last day therefore
  changes no feature.
\<close>

theorem sync_settles_every_symbol:
  assumes "sync_source_to_parquet env q workers s = (Inr u, s')" and "env_ok env"
    and "feature_dirs (ql_source s) = Inr dirs" and "distinct_symbols dirs"
  shows "\<exists>calendar. read_qlib_calendar q (ql_source s) = Inr calendar \<and>
    (\<forall>dir \<in> set dirs. feature_settled env q calendar (files s) dir (files s')) \<and>
    (\<forall>v rows. files s' (''qlib_cn_stock_features_day'', v) = Some rows \<longrightarrow> v \<in> symbol_of ` set dirs)"
proof -
  obtain calendar s1 where cal: "sync_calendar env q s = (Inr calendar, s1)" and feat: "sync_features env q (max workers 1) calendar s1 = (Inr u, s')"
    using assms(1) by (auto simp: sync_source_to_parquet_def seq_comp_def split: prod.splits sum.splits)
  from wp_InrD [OF sync_calendar_effect cal] have read: "read_qlib_calendar q (ql_source s) = Inr calendar" "ql_source s1 = ql_source s"
    and same: "\<And>v. files s1 (''qlib_cn_stock_features_day'', v) = files s (''qlib_cn_stock_features_day'', v)" by auto
  have dirs: "feature_dirs (ql_source s1) = Inr dirs" using assms(3) by (simp add: read)
  have "feature_settled env q calendar (files s) dir after = feature_settled env q calendar (files s1) dir after" for dir after
    using same by (simp add: feature_settled_def feature_path_def)
  then show ?thesis using sync_features_effect [OF feat assms(2) dirs assms(4)] read(1) by auto
qed

section \<open>An interrupted synchronisation\<close>

lemma read_stored:
  assumes "ps_files s path = Some rows" and "\<forall>r \<in> set rows. normal_row env d r" and "\<forall>n. se_read env n = ReadOk"
  shows "read_dataset env d path s = (Inr rows, s\<lparr>ps_attempts := Suc (ps_attempts s)\<rparr>)"
  using assms clean_normal_rows [OF assms(2)]
  by (simp add: read_dataset_def seq_comp_def lift_res_def PARQUET_READ_MAX_RETRIES_def numeral_3_eq_3 Let_def)

lemma read_same_files: "read_dataset env d path s = (r, s') \<Longrightarrow> ps_files s' = ps_files s"
proof (cases "ps_files s path")
  case (Some rows)
  assume "read_dataset env d path s = (r, s')"
  then show ?thesis
    using safe_read_wp [of env PARQUET_READ_MAX_RETRIES rows s] Some
    by (auto simp: read_dataset_def wp_def seq_comp_def lift_res_def split: prod.splits sum.splits)
qed (simp add: read_dataset_def)

lemma resolve_same: "resolve_target_date env q arg s = (r, s') \<Longrightarrow> files s' = files s \<and> ql_source s' = ql_source s"
  by (auto simp: resolve_target_date_def seq_comp_def lift_res_def in_store_def split: prod.splits sum.splits option.splits if_splits
      dest: read_same_files)

lemma latest_date_Max: "latest_date ds = (if ds = [] then None else Some (Max (set ds)))"
proof (cases ds)
  case (Cons d rest)
  have "fold max rest d = Max (set (d # rest))" by (rule Max.set_eq_fold [symmetric])
  then show ?thesis by (simp add: latest_date_def Cons)
qed (simp add: latest_date_def)

text \<open>The dates of a calendar come back from the store.\<close>

definition dates_read_back :: "('v, 'h) store_env \<Rightarrow> ('v, 'f) qlib_env \<Rightarrow> date list \<Rightarrow> bool" where
  "dates_read_back env q calendar \<longleftrightarrow>
     list_all (\<lambda>d. Option.bind (se_coerce env Date32 (Some (qe_of_date q d))) (qe_to_date q) = Some d) calendar"

lemma calendar_schema:
  "ds_schema QLIB_CN_CALENDAR_DAY_DATASET = [(''calendar_date'', Date32)]" "ds_fixed_column_values QLIB_CN_CALENDAR_DAY_DATASET = []"
  by code_simp+

lemma traverse_pure: "traverse (\<lambda>x. Inr (f x)) xs = Inr (map f xs)"
  by (induction xs) auto

lemma calendar_rows:
  assumes "env_ok env" and "dates_read_back env q calendar"
    and "prepare_dataset_frame env QLIB_CN_CALENDAR_DAY_DATASET (calendar_day_frame q calendar) None True = Inr rows"
  shows "set (column_dates q ''calendar_date'' rows) = set calendar"
proof -
  let ?row = "\<lambda>d. clean_cells env [(''calendar_date'', Date32)] [''calendar_date''] (row_of [(''calendar_date'', Some (qe_of_date q d))])"
  have clean: "clean_dataframe_for_schema env [(''calendar_date'', Date32)] (calendar_day_frame q calendar) = Inr (map ?row calendar)"
    by (simp add: clean_dataframe_for_schema_def calendar_day_frame_def calendar_schema normalize_row_def field_names_def traverse_pure comp_def)
  have cell: "Option.bind (?row d ''calendar_date'') (qe_to_date q) = Some d" if "d \<in> set calendar" for d
    using assms(2) that
    by (simp add: dates_read_back_def list_all_iff clean_cells_def renamed_column_def row_of_def field_names_def split: option.split)
  have "set rows = ?row ` set calendar"
    using assms(3) set_sort_frame [OF assms(1)]
    by (auto simp: prepare_dataset_frame_def clean calendar_schema catalog_paths(7) split: if_splits option.splits)
  then show ?thesis using cell by (force simp: column_dates_def map_filter_def)
qed

lemma read_calendar_parse:
  "qe_parse_date q' = qe_parse_date q \<Longrightarrow> read_qlib_calendar q' src = read_qlib_calendar q src"
  by (cases src) (simp_all add: read_qlib_calendar_def split: option.split)

lemma project_latest:
  assumes "files s (''qlib_cn_calendar_day'', []) = Some rows" and "\<forall>r \<in> set rows. normal_row env QLIB_CN_CALENDAR_DAY_DATASET r"
    and "\<forall>n. se_read env n = ReadOk" and "set (column_dates q ''calendar_date'' rows) = set calendar"
  shows "\<exists>s'. latest_project_qlib_date env q s = (Inr (latest_date calendar), s') \<and> files s' = files s \<and> ql_states s' = ql_states s"
proof -
  have "column_dates q ''calendar_date'' rows = [] \<longleftrightarrow> calendar = []" using assms(4) by (metis set_empty)
  then have "latest_date (column_dates q ''calendar_date'' rows) = latest_date calendar" using assms(4) by (simp add: latest_date_Max)
  then show ?thesis
    using read_stored [OF assms(1-3)] by (simp add: latest_project_qlib_date_def seq_comp_def in_store_def)
qed


section \<open>Concrete synchronisations\<close>

text \<open>A source with one symbol, a project whose partition of the symbol reaches the last day with another value, and one with a broken file.\<close>

definition source_with :: "(string \<times> 8 word list) list \<Rightarrow> qlib_source" where
  "source_with feature_files =
     \<lparr>qs_calendar = Some [''2024-01-03'', ''''], qs_instruments = [], qs_features = Some [(''SH600000'', feature_files)]\<rparr>"

definition project_with :: "(string \<times> string \<Rightarrow> string row list option) \<Rightarrow> (string \<times> 8 word list) list \<Rightarrow> (string, nat) qlib_state" where
  "project_with stored feature_files =
     \<lparr>ql_store = no_files\<lparr>ps_files := stored\<rparr>, ql_source = Some (source_with feature_files), ql_states = [], ql_checks = 0, ql_waits = 0\<rparr>"

definition old_close :: "string \<times> string \<Rightarrow> string row list option" where
  "old_close path =
     (if path = (''qlib_cn_stock_features_day'', ''sh600000'') then Some [map_of [(''date'', ''2024-01-03''), (''close'', ''1'')]] else None)"

definition new_close :: "(string \<times> 8 word list) list" where "new_close = [(''close'', [0, 0, 0, 0, 7, 0, 0, 0])]"

definition broken_close :: "(string \<times> 8 word list) list" where "broken_close = [(''close'', [0, 0, 0])]"

definition feature_stored :: "('v, 'h) qlib_state \<Rightarrow> string \<Rightarrow> bool" where
  "feature_stored s symbol = (\<not> Option.is_none (files s (''qlib_cn_stock_features_day'', symbol)))"

lemma covered_run:
  "case sync_source_to_parquet (forward_sort plain_env) plain_qlib 1 (project_with old_close new_close) of (Inr u, s') \<Rightarrow> True | _ \<Rightarrow> False"
  by code_simp

lemma broken_run:
  "case sync_calendar (forward_sort plain_env) plain_qlib (project_with (\<lambda>path. None) broken_close) of
     (Inr calendar, s1) \<Rightarrow> calendar = [Date 2024 1 3] \<and>
       (case sync_features (forward_sort plain_env) plain_qlib 1 calendar s1 of
          (Inl e, s2) \<Rightarrow> \<not> feature_stored s2 ''sh600000'' \<and>
            (case resolve_target_date (forward_sort plain_env) plain_qlib (Some (Date 2024 1 3)) s2 of
               (Inr target, s3) \<Rightarrow> target = Date 2024 1 3 | _ \<Rightarrow> False)
        | _ \<Rightarrow> False)
   | _ \<Rightarrow> False"
  by code_simp

theorem sync_settles_every_symbol_witness:
  "\<exists>u s'. sync_source_to_parquet (forward_sort plain_env) plain_qlib 1 (project_with old_close new_close) = (Inr u, s') \<and>
     files s' (''qlib_cn_stock_features_day'', ''sh600000'') = old_close (''qlib_cn_stock_features_day'', ''sh600000'')"
proof -
  let ?s = "project_with old_close new_close"
  obtain r s' where run: "sync_source_to_parquet (forward_sort plain_env) plain_qlib 1 ?s = (r, s')" by fastforce
  obtain u where r: "r = Inr u" using covered_run by (cases r) (simp_all add: run)
  have cal: "read_qlib_calendar plain_qlib (ql_source ?s) = Inr [Date 2024 1 3]" by code_simp
  have dirs: "feature_dirs (ql_source ?s) = Inr [(''SH600000'', new_close)]" "distinct_symbols [(''SH600000'', new_close)]" by code_simp+
  have path: "feature_path (''SH600000'', new_close) = (''qlib_cn_stock_features_day'', ''sh600000'')" by code_simp
  have "feature_covered plain_qlib [Date 2024 1 3] (old_close (feature_path (''SH600000'', new_close)))" by code_simp
  moreover have "files ?s = old_close" by (simp add: project_with_def)
  ultimately have "files s' (feature_path (''SH600000'', new_close)) = old_close (feature_path (''SH600000'', new_close))"
    using sync_settles_every_symbol [OF run [unfolded r] plain_env_ok dirs] by (simp add: cal feature_settled_def)
  then show ?thesis using run unfolding r path by blast
qed


end
