(* ===== verification/Derived_Rows.thy ===== *)
theory Derived_Rows imports Parquet_Store Calendar_Date begin

text \<open>
  The rows of the derived datasets: \<open>src/sources/derived/stock_daily_bar.py\<close> merges the daily bars of the
  Baostock and AkShare datasets of a security by a rank of their sources, and
  \<open>src/sources/derived/stock_valuation.py\<close> joins its valuations and percentiles by date.

  A source is a function from dataset and code to the rows of the partition, empty when there is none.
\<close>

section \<open>Cells\<close>

text \<open>How cells hold dates and truth values.\<close>

record 'v cell_codec =
  cc_parse_date :: "'v \<Rightarrow> date option"
  cc_date :: "date \<Rightarrow> 'v"
  cc_bool :: "bool \<Rightarrow> 'v"
  cc_true :: "'v \<Rightarrow> bool"

definition clean_string :: "('v, 'h) store_env \<Rightarrow> 'v option \<Rightarrow> string" where
  "clean_string env v = (case v of None \<Rightarrow> [] | Some x \<Rightarrow> py_strip (se_text env x))"

text \<open>\<open>_string_column_with_default\<close>, cell by cell.\<close>

definition string_with_default :: "('v, 'h) store_env \<Rightarrow> string \<Rightarrow> 'v option \<Rightarrow> string" where
  "string_with_default env dflt v = (let t = clean_string env v in if t = [] then dflt else t)"

section \<open>Daily bars\<close>

definition BAOSTOCK_DAILY_SOURCES :: "(string \<times> string) list" where
  "BAOSTOCK_DAILY_SOURCES =
     [(''baostock_cn_stock_daily_bar_unadjusted'', ''unadjusted''), (''baostock_cn_stock_daily_bar_qfq'', ''qfq''),
      (''baostock_cn_stock_daily_bar_hfq'', ''hfq'')]"

definition AKSHARE_DAILY_SOURCES :: "(string \<times> string) list" where
  "AKSHARE_DAILY_SOURCES =
     [(''akshare_cn_stock_daily_bar_unadjusted'', ''unadjusted''), (''akshare_cn_stock_daily_bar_qfq'', ''qfq''),
      (''akshare_cn_stock_daily_bar_hfq'', ''hfq'')]"

definition map_baostock_daily ::
  "('v, 'h) store_env \<Rightarrow> string \<Rightarrow> string \<Rightarrow> 'v row \<Rightarrow> 'v \<Rightarrow> 'v row \<Rightarrow> 'v row" where
  "map_baostock_daily env dataset_id adjustment security updated_at r =
     (let t = (\<lambda>x. Some (se_of_text env x))
      in row_of
        [(''date'', r ''date''), (''security_id'', security ''security_id''), (''code'', security ''code''),
         (''exchange'', security ''exchange''), (''name'', security ''name''), (''adjustment'', t adjustment),
         (''open'', r ''open''), (''high'', r ''high''), (''low'', r ''low''), (''close'', r ''close''),
         (''prev_close'', r ''prev_close''), (''volume'', r ''volume''), (''amount'', r ''amount''),
         (''turnover_rate'', r ''turnover_rate''), (''pct_change'', r ''pct_change''), (''trade_status'', r ''trade_status''),
         (''is_st'', r ''is_st''), (''is_active'', security ''is_active''), (''source_dataset'', t dataset_id),
         (''source_endpoint'', t ''query_history_k_data_plus''), (''quality_status'', t ''daily_bar_confirmed''),
         (''updated_at'', Some updated_at)])"

definition map_akshare_daily ::
  "('v, 'h) store_env \<Rightarrow> string \<Rightarrow> string \<Rightarrow> 'v row \<Rightarrow> 'v \<Rightarrow> 'v row \<Rightarrow> 'v row" where
  "map_akshare_daily env dataset_id adjustment security updated_at r =
     (let t = (\<lambda>x. Some (se_of_text env x))
      in row_of
        [(''date'', r ''date''), (''security_id'', security ''security_id''), (''code'', security ''code''),
         (''exchange'', security ''exchange''), (''name'', security ''name''), (''adjustment'', t adjustment),
         (''open'', r ''open''), (''high'', r ''high''), (''low'', r ''low''), (''close'', r ''close''),
         (''prev_close'', None), (''volume'', r ''volume''), (''amount'', r ''amount''),
         (''turnover_rate'', r ''turnover_rate''), (''pct_change'', r ''pct_change''), (''trade_status'', None),
         (''is_st'', None), (''is_active'', security ''is_active''), (''source_dataset'', t dataset_id),
         (''source_endpoint'', t (string_with_default env ''stock_zh_a_hist'' (r ''source_endpoint''))),
         (''quality_status'', t (string_with_default env ''daily_bar_confirmed'' (r ''quality_status''))),
         (''updated_at'', Some updated_at)])"

definition source_rank :: "('v, 'h) store_env \<Rightarrow> 'v row \<Rightarrow> nat" where
  "source_rank env r =
     (if starts_with ''baostock_'' (string_with_default env [] (r ''source_dataset'')) then 0
      else if string_with_default env [] (r ''quality_status'') = ''daily_bar_confirmed'' then 1
      else if string_with_default env [] (r ''quality_status'') = ''spot_quote_close'' then 2 else 3)"

definition DAILY_KEY :: "string list" where "DAILY_KEY = [''date'', ''security_id'', ''adjustment'']"

text \<open>The order of the first sort: by the key columns, then by rank.\<close>

definition ranked_less_eq :: "('v, 'h) store_env \<Rightarrow> 'v row \<Rightarrow> 'v row \<Rightarrow> bool" where
  "ranked_less_eq env r r' =
     (if map r DAILY_KEY = map r' DAILY_KEY then source_rank env r \<le> source_rank env r' else row_less_eq env DAILY_KEY r r')"

definition keep_first :: "('a \<Rightarrow> 'k) \<Rightarrow> 'a list \<Rightarrow> 'a list" where
  "keep_first key xs = rev (keep_last key (rev xs))"

definition merge_daily_sources :: "('v, 'h) store_env \<Rightarrow> 'v row list \<Rightarrow> 'v row list" where
  "merge_daily_sources env rows =
     stable_sort (row_less_eq env [''security_id'', ''adjustment'', ''date''])
       (keep_first (\<lambda>r. map r DAILY_KEY) (stable_sort (ranked_less_eq env) rows))"

definition materialize_security_daily_bar ::
  "('v, 'h) store_env \<Rightarrow> (string \<Rightarrow> string \<Rightarrow> 'v row list) \<Rightarrow> 'v row \<Rightarrow> 'v \<Rightarrow> 'v row list" where
  "materialize_security_daily_bar env src security updated_at =
     (let baostock_code = clean_string env (security ''baostock_code''); akshare_code = clean_string env (security ''akshare_code'');
          baostock = (if baostock_code = [] then []
            else concat (map (\<lambda>(d, a). map (map_baostock_daily env d a security updated_at) (src d baostock_code)) BAOSTOCK_DAILY_SOURCES));
          akshare = (if akshare_code = [] then []
            else concat (map (\<lambda>(d, a). map (map_akshare_daily env d a security updated_at) (src d akshare_code)) AKSHARE_DAILY_SOURCES))
      in if baostock @ akshare = [] then [] else merge_daily_sources env (baostock @ akshare))"

section \<open>Valuations\<close>

definition AKSHARE_VALUATION_DATASET :: string where "AKSHARE_VALUATION_DATASET = ''akshare_cn_stock_valuation_eastmoney''"
definition BAOSTOCK_PERCENTILE_DATASET :: string where "BAOSTOCK_PERCENTILE_DATASET = ''baostock_cn_stock_valuation_percentile''"

definition PERCENTILE_MAPPINGS :: "(string \<times> string) list" where
  "PERCENTILE_MAPPINGS =
     [(''pe_ttm_percentile_1y'', ''pe_ttm_percentile_1y''), (''pe_ttm_percentile_3y'', ''pe_ttm_percentile_3y''),
      (''pe_ttm_percentile_5y'', ''pe_ttm_percentile_5y''), (''pe_ttm_percentile_10y'', ''pe_ttm_percentile_10y''),
      (''pe_ttm_percentile_all_history'', ''pe_ttm_percentile_all_history''),
      (''pb_mrq_percentile_1y'', ''pb_percentile_1y''), (''pb_mrq_percentile_3y'', ''pb_percentile_3y''),
      (''pb_mrq_percentile_5y'', ''pb_percentile_5y''), (''pb_mrq_percentile_10y'', ''pb_percentile_10y''),
      (''pb_mrq_percentile_all_history'', ''pb_percentile_all_history''),
      (''ps_ttm_percentile_1y'', ''ps_percentile_1y''), (''ps_ttm_percentile_3y'', ''ps_percentile_3y''),
      (''ps_ttm_percentile_5y'', ''ps_percentile_5y''), (''ps_ttm_percentile_10y'', ''ps_percentile_10y''),
      (''ps_ttm_percentile_all_history'', ''ps_percentile_all_history''),
      (''pcf_ncf_ttm_percentile_1y'', ''pcf_percentile_1y''), (''pcf_ncf_ttm_percentile_3y'', ''pcf_percentile_3y''),
      (''pcf_ncf_ttm_percentile_5y'', ''pcf_percentile_5y''), (''pcf_ncf_ttm_percentile_10y'', ''pcf_percentile_10y''),
      (''pcf_ncf_ttm_percentile_all_history'', ''pcf_percentile_all_history'')]"

text \<open>The last row of each date; rows without a date are dropped.\<close>

definition cell_day :: "'v cell_codec \<Rightarrow> 'v option \<Rightarrow> date option" where
  "cell_day cc v = Option.bind v (cc_parse_date cc)"

definition rows_by_date :: "'v cell_codec \<Rightarrow> 'v row list \<Rightarrow> date \<Rightarrow> 'v row option" where
  "rows_by_date cc rows d =
     last_by (\<lambda>r. cell_day cc (r ''date'')) (filter (\<lambda>r. cell_day cc (r ''date'') \<noteq> None) rows) (Some d)"

definition dates_of :: "'v cell_codec \<Rightarrow> 'v row list \<Rightarrow> date list" where
  "dates_of cc rows = List.map_filter (\<lambda>r. cell_day cc (r ''date'')) rows"

definition value_of :: "'v row option \<Rightarrow> string \<Rightarrow> 'v option" where
  "value_of r column = (case r of None \<Rightarrow> None | Some row \<Rightarrow> row column)"

definition first_non_null :: "'v option \<Rightarrow> 'v option \<Rightarrow> 'v option" where
  "first_non_null a b = (case a of None \<Rightarrow> b | Some x \<Rightarrow> Some x)"

definition valuation_source_dataset :: "bool \<Rightarrow> bool \<Rightarrow> string" where
  "valuation_source_dataset has_akshare has_baostock =
     (if has_akshare \<and> has_baostock then AKSHARE_VALUATION_DATASET @ ''+'' @ BAOSTOCK_PERCENTILE_DATASET
      else if has_akshare then AKSHARE_VALUATION_DATASET else BAOSTOCK_PERCENTILE_DATASET)"

definition valuation_row ::
  "('v, 'h) store_env \<Rightarrow> 'v cell_codec \<Rightarrow> date \<Rightarrow> 'v row \<Rightarrow> 'v row option \<Rightarrow> 'v row option \<Rightarrow> 'v \<Rightarrow> 'v row" where
  "valuation_row env cc d security akshare baostock updated_at =
     row_of
       ([(''date'', Some (cc_date cc d)), (''security_id'', security ''security_id''), (''code'', security ''code''),
         (''exchange'', security ''exchange''), (''name'', security ''name''), (''close'', value_of akshare ''close''),
         (''total_market_cap'', value_of akshare ''total_market_cap''), (''float_market_cap'', value_of akshare ''float_market_cap''),
         (''total_shares'', value_of akshare ''total_shares''), (''float_shares'', value_of akshare ''float_shares''),
         (''pe_ttm'', first_non_null (value_of akshare ''pe_ttm'') (value_of baostock ''pe_ttm'')),
         (''pe_static'', value_of akshare ''pe_static''),
         (''pb'', first_non_null (value_of akshare ''pb'') (value_of baostock ''pb_mrq'')),
         (''ps'', first_non_null (value_of akshare ''ps'') (value_of baostock ''ps_ttm'')),
         (''pcf'', first_non_null (value_of akshare ''pcf'') (value_of baostock ''pcf_ncf_ttm'')),
         (''source_dataset'', Some (se_of_text env (valuation_source_dataset (akshare \<noteq> None) (baostock \<noteq> None)))),
         (''updated_at'', Some updated_at)] @
        map (\<lambda>(source_column, target_column). (target_column, value_of baostock source_column)) PERCENTILE_MAPPINGS)"

definition materialize_security_valuation ::
  "('v, 'h) store_env \<Rightarrow> 'v cell_codec \<Rightarrow> (string \<Rightarrow> string \<Rightarrow> 'v row list) \<Rightarrow> 'v row \<Rightarrow> 'v \<Rightarrow> 'v row list" where
  "materialize_security_valuation env cc src security updated_at =
     (let akshare_code = clean_string env (security ''akshare_code''); baostock_code = clean_string env (security ''baostock_code'');
          akshare = (if akshare_code = [] then [] else src AKSHARE_VALUATION_DATASET akshare_code);
          baostock = (if baostock_code = [] then [] else src BAOSTOCK_PERCENTILE_DATASET baostock_code)
      in map (\<lambda>d. valuation_row env cc d security (rows_by_date cc akshare d) (rows_by_date cc baostock d) updated_at)
           (sort (remdups (dates_of cc akshare @ dates_of cc baostock))))"

section \<open>The order of the merge\<close>

lemma row_less_eq_total_all: "values_ok env \<Longrightarrow> row_less_eq env cs r r' \<or> row_less_eq env cs r' r"
  by (induction cs) (auto simp: values_ok_def split: option.split)

lemma values_ok_order:
  assumes "values_ok env"
  shows "se_less_eq env x y \<Longrightarrow> se_less_eq env y z \<Longrightarrow> se_less_eq env x z"
    and "se_less_eq env x y \<Longrightarrow> se_less_eq env y x \<Longrightarrow> x = y"
  using assms unfolding values_ok_def by metis+

lemma row_less_eq_trans_all:
  assumes "values_ok env"
  shows "row_less_eq env cs r r' \<Longrightarrow> row_less_eq env cs r' r'' \<Longrightarrow> row_less_eq env cs r r''"
proof (induction cs)
  case (Cons c cs)
  then show ?case
    by (cases "r c"; cases "r' c"; cases "r'' c")
       (auto split: if_splits dest: values_ok_order(2) [OF assms] intro: values_ok_order(1) [OF assms])
qed simp

lemma row_less_eq_antisym:
  assumes "values_ok env"
  shows "row_less_eq env cs r r' \<Longrightarrow> row_less_eq env cs r' r \<Longrightarrow> map r cs = map r' cs"
proof (induction cs)
  case (Cons c cs)
  then show ?case
    by (cases "r c"; cases "r' c") (auto split: if_splits dest: values_ok_order(2) [OF assms])
qed simp

lemma row_less_eq_key: "map r cs = map s cs \<Longrightarrow> row_less_eq env cs r r' = row_less_eq env cs s r'"
  and row_less_eq_key': "map r cs = map s cs \<Longrightarrow> row_less_eq env cs r' r = row_less_eq env cs r' s"
  by (induction cs) (auto split: option.split)

lemma ranked_less_eq_total: "values_ok env \<Longrightarrow> ranked_less_eq env r r' \<or> ranked_less_eq env r' r"
  using row_less_eq_total_all by (auto simp: ranked_less_eq_def)

lemma ranked_less_eq_trans:
  assumes "values_ok env" and "ranked_less_eq env r r'" and "ranked_less_eq env r' r''"
  shows "ranked_less_eq env r r''"
proof -
  let ?k = "\<lambda>r. map r DAILY_KEY"
  have le: "row_less_eq env DAILY_KEY x y" if "ranked_less_eq env x y" for x y
    using that row_less_eq_agree [of DAILY_KEY x y] by (auto simp: ranked_less_eq_def split: if_splits)
  show ?thesis
  proof (cases "?k r = ?k r''")
    case False
    then show ?thesis using row_less_eq_trans_all [OF assms(1) le [OF assms(2)] le [OF assms(3)]] by (simp only: ranked_less_eq_def if_False)
  next
    case True
    then have "row_less_eq env DAILY_KEY r' r" using le [OF assms(3)] row_less_eq_key' by blast
    then have "?k r = ?k r'" using row_less_eq_antisym [OF assms(1) le [OF assms(2)]] by blast
    with True assms(2,3) show ?thesis by (simp add: ranked_less_eq_def)
  qed
qed

lemma set_stable_sort [simp]: "set (stable_sort le xs) = set xs"
  by (metis mset_stable_sort set_mset_mset)

text \<open>The first row with a key.\<close>

lemma last_by_rev_first: "last_by key (rev xs) k = (case filter (\<lambda>y. key y = k) xs of [] \<Rightarrow> None | x # ys \<Rightarrow> Some x)"
  by (induction xs) (auto simp: last_by_snoc)

lemma keep_first_mem:
  assumes "x \<in> set (keep_first key xs)"
  shows "filter (\<lambda>y. key y = key x) xs \<noteq> [] \<and> hd (filter (\<lambda>y. key y = key x) xs) = x"
proof -
  have "last_by key (keep_last key (rev xs)) (key x) = last_by key (rev xs) (key x)" by simp
  moreover have "last_by key (keep_last key (rev xs)) (key x) = Some x"
  proof -
    have "key x \<in> key ` set (keep_last key (rev xs))" using assms by (simp only: keep_first_def set_rev imageI)
    then have "last_by key (keep_last key (rev xs)) (key x) \<noteq> None" by (simp only: last_by_None not_not simp_thms)
    then obtain y where y: "last_by key (keep_last key (rev xs)) (key x) = Some y" by blast
    then have "y \<in> set (keep_last key (rev xs))" "key y = key x" using last_by_Some [OF y] by auto
    then have "y = x" using assms distinct_keep_last [of key "rev xs"]
      by (auto simp: keep_first_def distinct_map dest: inj_onD)
    with y show ?thesis by simp
  qed
  ultimately have "last_by key (rev xs) (key x) = Some x" by simp
  then show ?thesis by (simp only: last_by_rev_first split: list.splits) auto
qed

lemma keep_first_keys [simp]: "key ` set (keep_first key xs) = key ` set xs"
  by (simp add: keep_first_def)

lemma distinct_keep_first: "distinct (map key (keep_first key xs))"
  using distinct_keep_last [of key "rev xs"] by (simp add: keep_first_def rev_map [symmetric])

text \<open>C31: merging the daily bars of a security keeps one row of every day and adjustment: among the rows of that day, one whose source has
  the best rank (Baostock before confirmed AkShare bars before closing quotes), the first of them in source order, and the result is sorted.\<close>

theorem merge_keeps_best_source:
  assumes "values_ok env"
  shows "distinct (map (\<lambda>r. map r DAILY_KEY) (merge_daily_sources env rows)) \<and>
    (\<lambda>r. map r DAILY_KEY) ` set (merge_daily_sources env rows) = (\<lambda>r. map r DAILY_KEY) ` set rows \<and>
    sorted_wrt (row_less_eq env [''security_id'', ''adjustment'', ''date'']) (merge_daily_sources env rows) \<and>
    (\<forall>r \<in> set (merge_daily_sources env rows).
       (let same = filter (\<lambda>x. map x DAILY_KEY = map r DAILY_KEY) rows
        in (\<forall>x \<in> set same. source_rank env r \<le> source_rank env x) \<and>
           hd (filter (\<lambda>x. source_rank env x = source_rank env r) same) = r))"
proof -
  let ?key = "\<lambda>r. map r DAILY_KEY"
  let ?s = "stable_sort (ranked_less_eq env) rows"
  let ?k = "keep_first ?key ?s"
  have ms: "mset (merge_daily_sources env rows) = mset ?k" by (simp add: merge_daily_sources_def)
  have set: "set (merge_daily_sources env rows) = set ?k" using ms by (metis set_mset_mset)
  have "mset (map ?key (merge_daily_sources env rows)) = mset (map ?key ?k)" using ms by simp
  from mset_eq_imp_distinct_iff [OF this] have "distinct (map ?key (merge_daily_sources env rows))"
    by (simp only: distinct_keep_first)
  moreover have "?key ` set (merge_daily_sources env rows) = ?key ` set rows" by (simp add: set)
  moreover have "sorted_wrt (row_less_eq env [''security_id'', ''adjustment'', ''date'']) (merge_daily_sources env rows)"
    unfolding merge_daily_sources_def
    by (intro sorted_stable_sort row_less_eq_total_all assms) (rule row_less_eq_trans_all [OF assms])
  moreover have "(\<forall>x \<in> set (filter (\<lambda>x. ?key x = ?key r) rows). source_rank env r \<le> source_rank env x) \<and>
      hd (filter (\<lambda>x. source_rank env x = source_rank env r) (filter (\<lambda>x. ?key x = ?key r) rows)) = r"
    if "r \<in> set ?k" for r
  proof -
    let ?f = "filter (\<lambda>x. ?key x = ?key r)"
    have hd: "?f ?s \<noteq> [] \<and> hd (?f ?s) = r" by (rule keep_first_mem [OF that])
    have "sorted_wrt (ranked_less_eq env) (?f ?s)"
      by (intro sorted_wrt_filter sorted_stable_sort ranked_less_eq_total assms) (rule ranked_less_eq_trans [OF assms])
    moreover obtain ys where f: "?f ?s = r # ys" using hd by (cases "?f ?s") auto
    ultimately have le: "\<forall>y \<in> set ys. ranked_less_eq env r y" by simp
    have best: "source_rank env r \<le> source_rank env x" if "x \<in> set (?f ?s)" for x
    proof -
      have key: "?key r = ?key x" using that by (simp only: set_filter mem_Collect_eq)
      have "x = r \<or> x \<in> set ys" using that by (simp only: f list.set insert_iff)
      with le key show ?thesis by (auto simp only: ranked_less_eq_def if_True)
    qed
    let ?P = "\<lambda>x. ?key x = ?key r \<and> source_rank env x = source_rank env r"
    have "filter ?P ?s = filter ?P rows"
      by (rule filter_stable_sort) (auto simp: ranked_less_eq_def)
    moreover have "hd (filter ?P ?s) = r"
    proof -
      have "filter ?P ?s = filter (\<lambda>x. source_rank env x = source_rank env r) (?f ?s)" by (simp add: conj_commute)
      then show ?thesis by (simp only: f filter.simps list.sel if_True simp_thms)
    qed
    moreover have "filter (\<lambda>x. source_rank env x = source_rank env r) (?f rows) = filter ?P rows" by (simp add: conj_commute)
    moreover have "set (?f ?s) = set (?f rows)" by simp
    ultimately show ?thesis using best by (simp only: simp_thms) blast
  qed
  ultimately show ?thesis by (simp add: set Let_def)
qed

text \<open>The same day from AkShare and from Baostock.\<close>

definition plain_bar :: "string \<Rightarrow> string \<Rightarrow> string row" where
  "plain_bar dataset close =
     row_of [(''date'', Some ''2024-01-02''), (''security_id'', Some ''SH.600000''), (''adjustment'', Some ''unadjusted''),
             (''close'', Some close), (''source_dataset'', Some dataset), (''quality_status'', Some ''daily_bar_confirmed'')]"

definition two_sources :: "string row list" where
  "two_sources =
     [plain_bar ''akshare_cn_stock_daily_bar_unadjusted'' ''1'', plain_bar ''baostock_cn_stock_daily_bar_unadjusted'' ''2'']"

lemma two_source_ranks:
  "map (source_rank plain_env) two_sources = [1, 0]"
  "map (\<lambda>r. map r DAILY_KEY) two_sources = replicate 2 [Some ''2024-01-02'', Some ''SH.600000'', Some ''unadjusted'']"
  by code_simp+

lemma merge_keeps_best_source_witness:
  "merge_daily_sources plain_env two_sources = [plain_bar ''baostock_cn_stock_daily_bar_unadjusted'' ''2'']"
proof -
  let ?m = "merge_daily_sources plain_env two_sources" and ?key = "\<lambda>r. map r DAILY_KEY"
  obtain a b where rows: "two_sources = [a, b]" and b: "b = plain_bar ''baostock_cn_stock_daily_bar_unadjusted'' ''2''"
    by (simp add: two_sources_def)
  have rank: "source_rank plain_env a = 1" "source_rank plain_env b = 0" and key: "?key a = ?key b"
    using two_source_ranks unfolding rows by (simp_all add: numeral_2_eq_2)
  note merged = merge_keeps_best_source [OF plain_values_ok, of two_sources]
  have keys: "?key ` set ?m = {?key b}" using merged key unfolding rows by simp
  have only: "r = b" if "r \<in> set ?m" for r
  proof -
    have "?key r = ?key b" using keys that by blast
    then have same: "filter (\<lambda>x. ?key x = ?key r) two_sources = [a, b]" using key by (simp add: rows)
    note this_row = merged [THEN conjunct2, THEN conjunct2, THEN conjunct2, THEN bspec, OF that, unfolded Let_def same]
    have best: "source_rank plain_env r \<le> source_rank plain_env b" using this_row by simp
    have hd: "hd (filter (\<lambda>x. source_rank plain_env x = source_rank plain_env r) [a, b]) = r" using this_row by (rule conjunct2)
    have "source_rank plain_env r = 0" using best rank by simp
    with hd rank show ?thesis by simp
  qed
  have "length ?m = card (?key ` set ?m)" using merged by (metis distinct_card length_map set_map)
  then have "length ?m = 1" by (simp only: keys) simp
  then obtain r where "?m = [r]" by (cases ?m) auto
  then show ?thesis using only b by simp
qed

end
