(* ===== verification/Validators.thy ===== *)
theory Validators imports Complex_Main Parquet_Store begin

text \<open>
  \<open>src/quality/validators.py\<close>: the checks a frame must pass before its Parquet file is replaced, and the
  invariant of the store they give.

  A check either raises, or returns with the warnings it logged. The samples of offending rows in the
  messages are not modelled. How a cell reads as a date, a number or a truth value, and whether PyArrow
  converts a frame to a schema, is a parameter; numbers are rationals in place of floating point.
\<close>

section \<open>Checks\<close>

datatype validation_error =
    ColumnsMismatch
  | ConversionFailed
  | DuplicateRows "string list"
  | BadAkshareCode
  | InvalidDates string
  | DatesNotAscending string
  | EmptyCells string
  | BadSecurityId
  | BadCode
  | BadExchange
  | SecurityIdMismatch
  | AkshareCodeMismatch
  | BaostockCodeMismatch
  | QlibSymbolMismatch
  | ActiveNotListed
  | BadAdjustment
  | PercentileOutOfRange string

datatype validation_warning =
    NullValues "string list"
  | NonNumericValues string
  | NegativeValues string
  | PricesOutOfOrder
  | DuplicatesKept "string list"

record 'v value_reader =
  vr_date :: "'v \<Rightarrow> nat option"
  vr_number :: "'v \<Rightarrow> rat option"
  vr_true :: "'v \<Rightarrow> bool"
  vr_converts :: "arrow_schema \<Rightarrow> 'v row list \<Rightarrow> bool"

type_synonym 'v check = "'v raw_frame \<Rightarrow> validation_error + validation_warning list"

definition require :: "bool \<Rightarrow> validation_error \<Rightarrow> validation_error + validation_warning list" where
  "require b e = (if b then Inr [] else Inl e)"

fun run_checks :: "'v check list \<Rightarrow> 'v check" where
  "run_checks [] df = Inr []"
| "run_checks (c # cs) df = bind_res (c df) (\<lambda>w. bind_res (run_checks cs df) (\<lambda>ws. Inr (w @ ws)))"

definition unless_empty :: "'v check list \<Rightarrow> 'v check" where
  "unless_empty cs df = (if rf_rows df = [] then Inr [] else run_checks cs df)"

definition cell_text :: "('v, 'h) store_env \<Rightarrow> 'v option \<Rightarrow> string option" where
  "cell_text env v = map_option (\<lambda>x. py_strip (se_text env x)) v"

definition cell_date :: "'v value_reader \<Rightarrow> 'v option \<Rightarrow> nat option" where
  "cell_date vr v = Option.bind v (vr_date vr)"

definition cell_number :: "'v value_reader \<Rightarrow> 'v option \<Rightarrow> rat option" where
  "cell_number vr v = Option.bind v (vr_number vr)"

definition is_six_digits :: "string \<Rightarrow> bool" where
  "is_six_digits t \<longleftrightarrow> length t = 6 \<and> list_all is_digit t"

definition is_canonical_security_id :: "string \<Rightarrow> bool" where
  "is_canonical_security_id t \<longleftrightarrow> take 3 t \<in> {''SH.'', ''SZ.'', ''BJ.''} \<and> is_six_digits (drop 3 t)"

definition CANONICAL_EXCHANGES :: "string list" where "CANONICAL_EXCHANGES = [''SH'', ''SZ'', ''BJ'']"
definition ADJUSTMENTS :: "string list" where "ADJUSTMENTS = [''unadjusted'', ''qfq'', ''hfq'']"

definition validate_schema_matches :: "'v value_reader \<Rightarrow> arrow_schema \<Rightarrow> 'v check" where
  "validate_schema_matches vr schema =
     run_checks [\<lambda>df. require (rf_columns df = field_names schema) ColumnsMismatch,
                 \<lambda>df. require (vr_converts vr schema (rf_rows df)) ConversionFailed]"

definition validate_unique_columns :: "string list \<Rightarrow> 'v check" where
  "validate_unique_columns columns df = require (distinct (map (\<lambda>r. map r columns) (rf_rows df))) (DuplicateRows columns)"

definition validate_unique_code_date :: "'v check" where
  "validate_unique_code_date = validate_unique_columns [''code'', ''date'']"

definition validate_akshare_six_digit_codes :: "('v, 'h) store_env \<Rightarrow> 'v check" where
  "validate_akshare_six_digit_codes env df =
     (if rf_rows df = [] \<or> ''code'' \<notin> set (rf_columns df) then Inr []
      else require (list_all (\<lambda>r. case cell_text env (r ''code'') of None \<Rightarrow> False | Some t \<Rightarrow> is_six_digits t) (rf_rows df)) BadAkshareCode)"

text \<open>Within every group the dates must not go down; a missing date is an error.\<close>

definition validate_date_monotonic_by_group :: "'v value_reader \<Rightarrow> string list \<Rightarrow> string \<Rightarrow> 'v check" where
  "validate_date_monotonic_by_group vr group_columns date_column df =
     (let key = (\<lambda>r. map r group_columns); day = (\<lambda>r. cell_date vr (r date_column))
      in if rf_rows df = [] then Inr []
         else if list_ex (\<lambda>r. day r = None) (rf_rows df) then Inl (InvalidDates date_column)
         else require (list_all (\<lambda>k. sorted (map (\<lambda>r. the (day r)) (filter (\<lambda>r. key r = k) (rf_rows df)))) (dedup_first (map key (rf_rows df))))
                (DatesNotAscending date_column))"

definition validate_date_monotonic :: "'v value_reader \<Rightarrow> 'v check" where
  "validate_date_monotonic vr = validate_date_monotonic_by_group vr [''code''] ''date''"

definition OHLC_COLUMNS :: "string list" where "OHLC_COLUMNS = [''open'', ''high'', ''low'', ''close'']"
definition OHLC_RELATIVE_TOLERANCE :: rat where "OHLC_RELATIVE_TOLERANCE = 1 / 10000"

text \<open>Prices out of order are only logged, and nothing is compared when one price of the frame is missing.\<close>

definition ohlc_invalid :: "rat \<Rightarrow> rat \<Rightarrow> rat \<Rightarrow> rat \<Rightarrow> bool" where
  "ohlc_invalid op hi lo cl \<longleftrightarrow>
     (let tol = \<bar>hi\<bar> * OHLC_RELATIVE_TOLERANCE
      in hi < lo - tol \<or> op < lo - tol \<or> op > hi + tol \<or> cl < lo - tol \<or> cl > hi + tol)"

definition validate_ohlc :: "'v value_reader \<Rightarrow> 'v check" where
  "validate_ohlc vr df =
     (let nulls = filter (\<lambda>c. list_ex (\<lambda>r. r c = None) (rf_rows df)) OHLC_COLUMNS; number = (\<lambda>r c. cell_number vr (r c))
      in if nulls \<noteq> [] then Inr [NullValues nulls]
         else if list_ex (\<lambda>r. list_ex (\<lambda>c. number r c = None) OHLC_COLUMNS) (rf_rows df) then Inr [NonNumericValues ''ohlc'']
         else if list_ex (\<lambda>r. ohlc_invalid (the (number r ''open'')) (the (number r ''high'')) (the (number r ''low'')) (the (number r ''close'')))
                (rf_rows df) then Inr [PricesOutOfOrder] else Inr [])"

definition validate_non_negative :: "'v value_reader \<Rightarrow> string \<Rightarrow> 'v check" where
  "validate_non_negative vr column df =
     (let number = (\<lambda>r. cell_number vr (r column))
      in if list_ex (\<lambda>r. r column = None) (rf_rows df) then Inr [NullValues [column]]
         else if list_ex (\<lambda>r. number r = None) (rf_rows df) then Inr [NonNumericValues column]
         else if list_ex (\<lambda>r. the (number r) < 0) (rf_rows df) then Inr [NegativeValues column] else Inr [])"

definition blank :: "('v, 'h) store_env \<Rightarrow> 'v option \<Rightarrow> bool" where
  "blank env v \<longleftrightarrow> cell_text env v = None \<or> cell_text env v = Some []"

definition validate_non_empty_columns :: "('v, 'h) store_env \<Rightarrow> string list \<Rightarrow> 'v check" where
  "validate_non_empty_columns env columns =
     unless_empty (map (\<lambda>c df. require (\<not> list_ex (\<lambda>r. blank env (r c)) (rf_rows df)) (EmptyCells c)) columns)"

text \<open>A check of every row; \<open>rows_ok\<close> raises \<open>e\<close> when one fails.\<close>

definition rows_ok :: "('v row \<Rightarrow> bool) \<Rightarrow> validation_error \<Rightarrow> 'v check" where
  "rows_ok p e df = require (list_all p (rf_rows df)) e"

definition validate_canonical_security_id_columns :: "('v, 'h) store_env \<Rightarrow> 'v check" where
  "validate_canonical_security_id_columns env =
     (let t = (\<lambda>r c. cell_text env (r c)); ok = (\<lambda>p v. case v of None \<Rightarrow> False | Some x \<Rightarrow> p x)
      in unless_empty
           [rows_ok (\<lambda>r. ok is_canonical_security_id (t r ''security_id'')) BadSecurityId,
            rows_ok (\<lambda>r. ok is_six_digits (t r ''code'')) BadCode,
            rows_ok (\<lambda>r. ok (\<lambda>x. x \<in> set CANONICAL_EXCHANGES) (t r ''exchange'')) BadExchange,
            rows_ok (\<lambda>r. t r ''security_id'' = (case (t r ''exchange'', t r ''code'') of (Some e, Some c) \<Rightarrow> Some (e @ ''.'' @ c) | _ \<Rightarrow> None))
              SecurityIdMismatch])"

definition percentile_ok :: "'v value_reader \<Rightarrow> string \<Rightarrow> 'v row \<Rightarrow> bool" where
  "percentile_ok vr c r \<longleftrightarrow> (case cell_number vr (r c) of None \<Rightarrow> True | Some x \<Rightarrow> 0 \<le> x \<and> x \<le> 100)"

definition percentiles_in_range :: "'v value_reader \<Rightarrow> (string \<Rightarrow> bool) \<Rightarrow> 'v check" where
  "percentiles_in_range vr is_percentile df =
     run_checks (map (\<lambda>c. rows_ok (percentile_ok vr c) (PercentileOutOfRange c)) (filter is_percentile (rf_columns df))) df"

definition has_substring :: "string \<Rightarrow> string \<Rightarrow> bool" where
  "has_substring p s \<longleftrightarrow> list_ex (\<lambda>i. starts_with p (drop i s)) [0..<Suc (length s)]"

section \<open>The validators of the datasets\<close>

definition validate_cn_security_master :: "('v, 'h) store_env \<Rightarrow> 'v value_reader \<Rightarrow> 'v check" where
  "validate_cn_security_master env vr =
     (let t = (\<lambda>r c. cell_text env (r c)); present = (\<lambda>r c. \<not> blank env (r c)); text_of = (\<lambda>r c. case t r c of None \<Rightarrow> [] | Some x \<Rightarrow> x)
      in run_checks
        [validate_schema_matches vr CN_SECURITY_MASTER_SCHEMA, validate_unique_columns [''security_id''],
         validate_non_empty_columns env [''security_id'', ''code'', ''exchange'', ''updated_at''],
         validate_canonical_security_id_columns env,
         unless_empty
           [rows_ok (\<lambda>r. present r ''akshare_code'' \<longrightarrow> t r ''akshare_code'' = t r ''code'') AkshareCodeMismatch,
            rows_ok (\<lambda>r. present r ''baostock_code'' \<longrightarrow>
               t r ''exchange'' \<noteq> Some ''BJ'' \<and> t r ''baostock_code'' = Some (py_lower (text_of r ''exchange'') @ ''.'' @ text_of r ''code''))
              BaostockCodeMismatch,
            rows_ok (\<lambda>r. present r ''qlib_symbol'' \<longrightarrow> t r ''qlib_symbol'' = Some (py_lower (text_of r ''exchange'') @ text_of r ''code''))
              QlibSymbolMismatch,
            rows_ok (\<lambda>r. (case r ''is_active'' of None \<Rightarrow> False | Some x \<Rightarrow> vr_true vr x) \<longrightarrow> py_lower (text_of r ''listing_status'') = ''active'')
              ActiveNotListed]])"

definition validate_cn_stock_daily_bar :: "('v, 'h) store_env \<Rightarrow> 'v value_reader \<Rightarrow> 'v check" where
  "validate_cn_stock_daily_bar env vr =
     run_checks
       [validate_schema_matches vr CN_STOCK_DAILY_BAR_SCHEMA, validate_unique_columns [''date'', ''security_id'', ''adjustment''],
        validate_non_empty_columns env [''date'', ''security_id'', ''code'', ''exchange'', ''adjustment'', ''source_dataset'', ''updated_at''],
        validate_canonical_security_id_columns env,
        unless_empty
          [rows_ok (\<lambda>r. case cell_text env (r ''adjustment'') of None \<Rightarrow> False | Some a \<Rightarrow> a \<in> set ADJUSTMENTS) BadAdjustment,
           validate_date_monotonic_by_group vr [''security_id'', ''adjustment''] ''date'', validate_ohlc vr,
           validate_non_negative vr ''volume'', validate_non_negative vr ''amount'']]"

definition validate_cn_stock_valuation :: "('v, 'h) store_env \<Rightarrow> 'v value_reader \<Rightarrow> 'v check" where
  "validate_cn_stock_valuation env vr =
     run_checks
       [validate_schema_matches vr CN_STOCK_VALUATION_SCHEMA, validate_unique_columns [''date'', ''security_id''],
        validate_non_empty_columns env [''date'', ''security_id'', ''code'', ''exchange'', ''source_dataset'', ''updated_at''],
        validate_canonical_security_id_columns env,
        unless_empty
          (map (validate_non_negative vr) [''total_market_cap'', ''float_market_cap'', ''total_shares'', ''float_shares''] @
           [percentiles_in_range vr (has_substring ''percentile''), validate_date_monotonic_by_group vr [''security_id''] ''date''])]"

definition validate_daily_bar :: "'v value_reader \<Rightarrow> 'v check" where
  "validate_daily_bar vr =
     run_checks [validate_schema_matches vr DAILY_BAR_SCHEMA, validate_unique_code_date, validate_date_monotonic vr, validate_ohlc vr,
       validate_non_negative vr ''volume'', validate_non_negative vr ''amount'']"

definition validate_baostock_cn_stock_valuation_percentile :: "'v value_reader \<Rightarrow> 'v check" where
  "validate_baostock_cn_stock_valuation_percentile vr =
     run_checks [validate_schema_matches vr BAOSTOCK_VALUATION_PERCENTILE_SCHEMA, validate_unique_code_date, validate_date_monotonic vr,
       percentiles_in_range vr (\<lambda>c. list_ex (\<lambda>p. ends_with p c) [''_1y'', ''_3y'', ''_5y'', ''_10y'', ''_all_history''])]"

definition validate_baostock_cn_stock_basic :: "'v value_reader \<Rightarrow> 'v check" where
  "validate_baostock_cn_stock_basic vr =
     run_checks [validate_schema_matches vr BAOSTOCK_CN_STOCK_BASIC_SCHEMA, validate_unique_columns [''code'']]"

definition validate_baostock_cn_trading_calendar :: "'v value_reader \<Rightarrow> 'v check" where
  "validate_baostock_cn_trading_calendar vr =
     run_checks [validate_schema_matches vr BAOSTOCK_CN_TRADING_CALENDAR_SCHEMA, validate_unique_columns [''calendar_date'']]"

definition validate_baostock_cn_stock_adjustment_factor :: "'v value_reader \<Rightarrow> 'v check" where
  "validate_baostock_cn_stock_adjustment_factor vr =
     run_checks [validate_schema_matches vr BAOSTOCK_CN_STOCK_ADJUSTMENT_FACTOR_SCHEMA,
       validate_unique_columns [''code'', ''dividend_operate_date''], validate_date_monotonic_by_group vr [''code''] ''dividend_operate_date'']"

definition validate_akshare_cn_stock_valuation_eastmoney :: "('v, 'h) store_env \<Rightarrow> 'v value_reader \<Rightarrow> 'v check" where
  "validate_akshare_cn_stock_valuation_eastmoney env vr =
     run_checks ([validate_schema_matches vr AKSHARE_VALUATION_EASTMONEY_SCHEMA, validate_akshare_six_digit_codes env,
       validate_unique_code_date, validate_date_monotonic vr] @
       map (validate_non_negative vr) [''total_market_cap'', ''float_market_cap'', ''total_shares'', ''float_shares''])"

definition validate_akshare_cn_stock_capital_structure_em :: "('v, 'h) store_env \<Rightarrow> 'v value_reader \<Rightarrow> 'v check" where
  "validate_akshare_cn_stock_capital_structure_em env vr =
     run_checks [validate_schema_matches vr AKSHARE_CAPITAL_STRUCTURE_EM_SCHEMA, validate_akshare_six_digit_codes env,
       validate_unique_columns [''code'', ''change_date'', ''change_reason''],
       unless_empty (validate_date_monotonic_by_group vr [''code''] ''change_date'' #
         map (validate_non_negative vr) [''total_shares'', ''restricted_shares'', ''circulated_shares'', ''listed_a_shares''])]"

definition warn_duplicates :: "string list \<Rightarrow> 'v check" where
  "warn_duplicates columns df = (if distinct (map (\<lambda>r. map r columns) (rf_rows df)) then Inr [] else Inr [DuplicatesKept columns])"

definition validate_akshare_cn_stock_delist_sh :: "('v, 'h) store_env \<Rightarrow> 'v value_reader \<Rightarrow> 'v check" where
  "validate_akshare_cn_stock_delist_sh env vr =
     run_checks [validate_schema_matches vr AKSHARE_DELIST_SH_SCHEMA, validate_akshare_six_digit_codes env,
       warn_duplicates [''snapshot_date'', ''market'', ''code'']]"

definition validate_akshare_cn_stock_delist_sz :: "('v, 'h) store_env \<Rightarrow> 'v value_reader \<Rightarrow> 'v check" where
  "validate_akshare_cn_stock_delist_sz env vr =
     run_checks [validate_schema_matches vr AKSHARE_DELIST_SZ_SCHEMA, validate_akshare_six_digit_codes env,
       warn_duplicates [''snapshot_date'', ''market'', ''code'']]"

definition validate_akshare_cn_stock_spot_quote_eastmoney :: "('v, 'h) store_env \<Rightarrow> 'v value_reader \<Rightarrow> 'v check" where
  "validate_akshare_cn_stock_spot_quote_eastmoney env vr =
     run_checks ([validate_schema_matches vr AKSHARE_SPOT_QUOTE_EASTMONEY_SCHEMA, validate_akshare_six_digit_codes env,
       validate_unique_columns [''trade_date'', ''code'']] @
       map (validate_non_negative vr) [''last_price'', ''volume'', ''amount'', ''total_market_cap'', ''float_market_cap''])"

definition validate_akshare_cn_stock_spot_quote_sina :: "('v, 'h) store_env \<Rightarrow> 'v value_reader \<Rightarrow> 'v check" where
  "validate_akshare_cn_stock_spot_quote_sina env vr =
     run_checks ([validate_schema_matches vr AKSHARE_SPOT_QUOTE_SINA_SCHEMA, validate_akshare_six_digit_codes env,
       validate_unique_columns [''trade_date'', ''code'']] @ map (validate_non_negative vr) [''last_price'', ''volume'', ''amount''])"

definition validate_akshare_cn_stock_report_disclosure :: "('v, 'h) store_env \<Rightarrow> 'v value_reader \<Rightarrow> 'v check" where
  "validate_akshare_cn_stock_report_disclosure env vr =
     run_checks [validate_schema_matches vr AKSHARE_REPORT_DISCLOSURE_SCHEMA, validate_akshare_six_digit_codes env,
       validate_unique_columns [''report_period'', ''code'']]"

definition validate_akshare_cn_stock_yysj_em :: "('v, 'h) store_env \<Rightarrow> 'v value_reader \<Rightarrow> 'v check" where
  "validate_akshare_cn_stock_yysj_em env vr =
     run_checks [validate_schema_matches vr AKSHARE_YYSJ_EM_SCHEMA, validate_akshare_six_digit_codes env,
       validate_unique_columns [''report_period'', ''symbol'', ''code'']]"

definition YJYG_KEY :: "string list" where
  "YJYG_KEY =
     [''report_period'', ''code'', ''name'', ''announcement_date'', ''forecast_indicator'', ''forecast_type'', ''performance_change'',
      ''forecast_value'', ''performance_change_pct'', ''performance_change_reason'', ''prior_period_value'']"

definition validate_akshare_cn_stock_yjyg_em :: "('v, 'h) store_env \<Rightarrow> 'v value_reader \<Rightarrow> 'v check" where
  "validate_akshare_cn_stock_yjyg_em env vr =
     run_checks [validate_schema_matches vr AKSHARE_YJYG_EM_SCHEMA, validate_akshare_six_digit_codes env, validate_unique_columns YJYG_KEY,
       unless_empty [rows_ok (\<lambda>r. r ''announcement_date'' \<noteq> None \<longrightarrow> cell_date vr (r ''announcement_date'') \<noteq> None)
         (InvalidDates ''announcement_date'')]]"

definition validate_akshare_cn_stock_financial_report_sina :: "('v, 'h) store_env \<Rightarrow> 'v value_reader \<Rightarrow> 'v check" where
  "validate_akshare_cn_stock_financial_report_sina env vr =
     run_checks [validate_schema_matches vr AKSHARE_FINANCIAL_REPORT_SINA_SCHEMA, validate_akshare_six_digit_codes env,
       validate_unique_columns [''code'', ''report_type'', ''report_date'', ''item_name''],
       validate_date_monotonic_by_group vr [''code'', ''report_type''] ''report_date'']"

definition validate_akshare_cn_stock_daily_bar :: "('v, 'h) store_env \<Rightarrow> 'v value_reader \<Rightarrow> 'v check" where
  "validate_akshare_cn_stock_daily_bar env vr =
     run_checks [validate_schema_matches vr AKSHARE_DAILY_BAR_SCHEMA, validate_akshare_six_digit_codes env,
       validate_unique_columns [''code'', ''date'', ''adjustment''], validate_date_monotonic vr, validate_ohlc vr,
       validate_non_negative vr ''volume'', validate_non_negative vr ''amount'']"

definition validate_akshare_cn_stock_institution_holding :: "('v, 'h) store_env \<Rightarrow> 'v value_reader \<Rightarrow> 'v check" where
  "validate_akshare_cn_stock_institution_holding env vr =
     run_checks [validate_schema_matches vr AKSHARE_STOCK_INSTITUTION_HOLDING_SCHEMA, validate_akshare_six_digit_codes env,
       validate_unique_columns [''report_period'', ''code'']]"

definition validate_qlib_cn_calendar_day :: "'v value_reader \<Rightarrow> 'v check" where
  "validate_qlib_cn_calendar_day vr =
     run_checks [validate_schema_matches vr QLIB_CN_CALENDAR_DAY_SCHEMA, validate_unique_columns [''calendar_date'']]"

definition validate_qlib_cn_instrument_membership :: "'v value_reader \<Rightarrow> 'v check" where
  "validate_qlib_cn_instrument_membership vr =
     run_checks [validate_schema_matches vr QLIB_CN_INSTRUMENT_MEMBERSHIP_SCHEMA,
       validate_unique_columns [''universe'', ''qlib_symbol'', ''start_date'', ''end_date'']]"

definition validate_qlib_cn_stock_features_day :: "'v value_reader \<Rightarrow> 'v check" where
  "validate_qlib_cn_stock_features_day vr =
     run_checks [validate_schema_matches vr QLIB_CN_STOCK_FEATURES_DAY_SCHEMA, validate_unique_columns [''qlib_symbol'', ''date''],
       validate_date_monotonic_by_group vr [''qlib_symbol''] ''date'']"

text \<open>The validator a dataset of the catalog names, and the environment of a store that runs it.\<close>

definition VALIDATORS :: "('v, 'h) store_env \<Rightarrow> 'v value_reader \<Rightarrow> (string \<times> 'v check) list" where
  "VALIDATORS env vr =
     [(''validate_cn_security_master'', validate_cn_security_master env vr),
      (''validate_cn_stock_daily_bar'', validate_cn_stock_daily_bar env vr),
      (''validate_cn_stock_valuation'', validate_cn_stock_valuation env vr),
      (''validate_daily_bar'', validate_daily_bar vr),
      (''validate_baostock_cn_stock_valuation_percentile'', validate_baostock_cn_stock_valuation_percentile vr),
      (''validate_baostock_cn_stock_basic'', validate_baostock_cn_stock_basic vr),
      (''validate_baostock_cn_trading_calendar'', validate_baostock_cn_trading_calendar vr),
      (''validate_baostock_cn_stock_adjustment_factor'', validate_baostock_cn_stock_adjustment_factor vr),
      (''validate_akshare_cn_stock_valuation_eastmoney'', validate_akshare_cn_stock_valuation_eastmoney env vr),
      (''validate_akshare_cn_stock_capital_structure_em'', validate_akshare_cn_stock_capital_structure_em env vr),
      (''validate_akshare_cn_stock_spot_quote_eastmoney'', validate_akshare_cn_stock_spot_quote_eastmoney env vr),
      (''validate_akshare_cn_stock_spot_quote_sina'', validate_akshare_cn_stock_spot_quote_sina env vr),
      (''validate_akshare_cn_stock_report_disclosure'', validate_akshare_cn_stock_report_disclosure env vr),
      (''validate_akshare_cn_stock_yysj_em'', validate_akshare_cn_stock_yysj_em env vr),
      (''validate_akshare_cn_stock_yjyg_em'', validate_akshare_cn_stock_yjyg_em env vr),
      (''validate_akshare_cn_stock_financial_report_sina'', validate_akshare_cn_stock_financial_report_sina env vr),
      (''validate_akshare_cn_stock_daily_bar'', validate_akshare_cn_stock_daily_bar env vr),
      (''validate_akshare_cn_stock_institution_holding'', validate_akshare_cn_stock_institution_holding env vr),
      (''validate_qlib_cn_calendar_day'', validate_qlib_cn_calendar_day vr),
      (''validate_qlib_cn_instrument_membership'', validate_qlib_cn_instrument_membership vr),
      (''validate_qlib_cn_stock_features_day'', validate_qlib_cn_stock_features_day vr)] @
     [(''validate_akshare_cn_stock_delist_sh'', validate_akshare_cn_stock_delist_sh env vr),
      (''validate_akshare_cn_stock_delist_sz'', validate_akshare_cn_stock_delist_sz env vr)]"

definition run_validator :: "('v, 'h) store_env \<Rightarrow> 'v value_reader \<Rightarrow> dataset_definition \<Rightarrow> 'v row list \<Rightarrow> validation_error + validation_warning list" where
  "run_validator env vr d rows =
     (case map_of (VALIDATORS env vr) (ds_validator d) of None \<Rightarrow> Inr [] | Some c \<Rightarrow> c (frame_of (ds_schema d) rows))"

definition validating :: "('v, 'h) store_env \<Rightarrow> 'v value_reader \<Rightarrow> ('v, 'h) store_env" where
  "validating env vr =
     env\<lparr>se_validator := \<lambda>i rows.
       (case dict_get DATASET_CATALOG i of
          None \<Rightarrow> None
        | Some d \<Rightarrow> if is_ok (run_validator env vr d rows) then None else Some (''validation failed for '' @ i))\<rparr>"

section \<open>Accepted frames\<close>

lemma run_checks_ok: "is_ok (run_checks cs df) \<longleftrightarrow> (\<forall>c \<in> set cs. is_ok (c df))"
proof (induction cs)
  case (Cons c cs)
  then show ?case by (cases "c df"; cases "run_checks cs df") auto
qed simp

lemma require_ok [simp]: "is_ok (require b e) = b"
  by (simp add: require_def)

lemma rows_ok_ok [simp]: "is_ok (rows_ok p e df) = list_all p (rf_rows df)"
  by (simp add: rows_ok_def)

lemma unless_empty_ok: "is_ok (unless_empty cs df) \<longleftrightarrow> rf_rows df = [] \<or> (\<forall>c \<in> set cs. is_ok (c df))"
  by (simp add: unless_empty_def run_checks_ok)

lemma unique_columns_ok [simp]: "is_ok (validate_unique_columns cs df) = distinct (map (\<lambda>r. map r cs) (rf_rows df))"
  by (simp add: validate_unique_columns_def)

lemma only_warns [simp]: "is_ok (validate_ohlc vr df)" "is_ok (validate_non_negative vr c df)" "is_ok (warn_duplicates cs df)"
  by (simp_all add: validate_ohlc_def validate_non_negative_def warn_duplicates_def Let_def)

lemmas accepted = run_checks_ok unless_empty_ok

text \<open>The columns a validator wants unique; only the two delisting snapshots tolerate duplicates.\<close>

definition unique_columns_of :: "(string \<times> string list) list" where
  "unique_columns_of =
     [(''validate_cn_security_master'', [''security_id'']),
      (''validate_cn_stock_daily_bar'', [''date'', ''security_id'', ''adjustment'']),
      (''validate_cn_stock_valuation'', [''date'', ''security_id'']),
      (''validate_daily_bar'', [''code'', ''date'']),
      (''validate_baostock_cn_stock_valuation_percentile'', [''code'', ''date'']),
      (''validate_baostock_cn_stock_basic'', [''code'']),
      (''validate_baostock_cn_trading_calendar'', [''calendar_date'']),
      (''validate_baostock_cn_stock_adjustment_factor'', [''code'', ''dividend_operate_date'']),
      (''validate_akshare_cn_stock_valuation_eastmoney'', [''code'', ''date'']),
      (''validate_akshare_cn_stock_capital_structure_em'', [''code'', ''change_date'', ''change_reason'']),
      (''validate_akshare_cn_stock_spot_quote_eastmoney'', [''trade_date'', ''code'']),
      (''validate_akshare_cn_stock_spot_quote_sina'', [''trade_date'', ''code'']),
      (''validate_akshare_cn_stock_report_disclosure'', [''report_period'', ''code'']),
      (''validate_akshare_cn_stock_yysj_em'', [''report_period'', ''symbol'', ''code'']),
      (''validate_akshare_cn_stock_yjyg_em'', YJYG_KEY),
      (''validate_akshare_cn_stock_financial_report_sina'', [''code'', ''report_type'', ''report_date'', ''item_name'']),
      (''validate_akshare_cn_stock_daily_bar'', [''code'', ''date'', ''adjustment'']),
      (''validate_akshare_cn_stock_institution_holding'', [''report_period'', ''code'']),
      (''validate_qlib_cn_calendar_day'', [''calendar_date'']),
      (''validate_qlib_cn_instrument_membership'', [''universe'', ''qlib_symbol'', ''start_date'', ''end_date'']),
      (''validate_qlib_cn_stock_features_day'', [''qlib_symbol'', ''date''])]"

lemma unique_columns_named:
  "list_all (\<lambda>d. case map_of unique_columns_of (ds_validator d) of
      None \<Rightarrow> ds_validator d \<in> {''validate_akshare_cn_stock_delist_sh'', ''validate_akshare_cn_stock_delist_sz''}
    | Some cs \<Rightarrow> set cs \<subseteq> set (ds_unique_columns d)) (map snd DATASET_CATALOG)"
  by code_simp

lemmas validator_defs =
  validate_cn_security_master_def validate_cn_stock_daily_bar_def validate_cn_stock_valuation_def validate_daily_bar_def validate_baostock_cn_stock_valuation_percentile_def validate_baostock_cn_stock_basic_def validate_baostock_cn_trading_calendar_def validate_baostock_cn_stock_adjustment_factor_def validate_akshare_cn_stock_valuation_eastmoney_def validate_akshare_cn_stock_capital_structure_em_def validate_akshare_cn_stock_delist_sh_def validate_akshare_cn_stock_delist_sz_def validate_akshare_cn_stock_spot_quote_eastmoney_def validate_akshare_cn_stock_spot_quote_sina_def validate_akshare_cn_stock_report_disclosure_def validate_akshare_cn_stock_yysj_em_def validate_akshare_cn_stock_yjyg_em_def validate_akshare_cn_stock_financial_report_sina_def validate_akshare_cn_stock_daily_bar_def validate_akshare_cn_stock_institution_holding_def validate_qlib_cn_calendar_day_def validate_qlib_cn_instrument_membership_def validate_qlib_cn_stock_features_day_def
  validate_unique_code_date_def

lemma unique_second: "is_ok (run_checks (a # validate_unique_columns u # cs) df) \<Longrightarrow> distinct (map (\<lambda>r. map r u) (rf_rows df))"
  and unique_third: "is_ok (run_checks (a # b # validate_unique_columns u # cs) df) \<Longrightarrow> distinct (map (\<lambda>r. map r u) (rf_rows df))"
  by (simp_all del: run_checks.simps add: run_checks_ok)

lemma map_of_aligned:
  "list_all2 (\<lambda>(n, x) (m, y). n = m \<and> P x y) xs ys \<Longrightarrow> map_of xs k = Some x \<Longrightarrow> \<exists>y. map_of (ys @ zs) k = Some y \<and> P x y"
  by (induction rule: list_all2_induct) (auto split: if_splits prod.splits)

lemma validators_unique:
  "\<exists>ys zs. VALIDATORS env vr = ys @ zs \<and>
     list_all2 (\<lambda>(n, cs) (m, c). n = m \<and> (is_ok (c df) \<longrightarrow> distinct (map (\<lambda>r. map r cs) (rf_rows df)))) unique_columns_of ys"
  unfolding VALIDATORS_def
  apply (rule exI, rule exI, rule conjI, rule refl)
  unfolding unique_columns_of_def list_all2_Cons list_all2_Nil prod.case
  apply (intro conjI impI TrueI refl)
  unfolding validator_defs Let_def append.simps
  by (erule unique_second unique_third)+

lemma distinct_more_columns:
  assumes "distinct (map (\<lambda>r. map r cs) rows)" and "set cs \<subseteq> set ds"
  shows "distinct (map (\<lambda>r. map r ds) rows)"
proof -
  have "map r cs = map r' cs" if "map r ds = map r' ds" for r r' using that assms(2) by auto
  with assms(1) show ?thesis unfolding distinct_map inj_on_def by blast
qed

lemma accepted_unique_key:
  assumes "dict_get DATASET_CATALOG i = Some d" and "is_ok (run_validator env vr d rows)"
    and "ds_validator d \<notin> {''validate_akshare_cn_stock_delist_sh'', ''validate_akshare_cn_stock_delist_sz''}"
  shows "distinct (map (unique_key d) rows)"
proof -
  have "d \<in> set (map snd DATASET_CATALOG)" using map_of_SomeD [OF assms(1)] by force
  with unique_columns_named assms(3) obtain cs
    where cs: "map_of unique_columns_of (ds_validator d) = Some cs" "set cs \<subseteq> set (ds_unique_columns d)"
    by (auto simp: list_all_iff split: option.splits)

  let ?df = "frame_of (ds_schema d) rows"
  obtain c where c: "map_of (VALIDATORS env vr) (ds_validator d) = Some c"
    and u: "is_ok (c ?df) \<longrightarrow> distinct (map (\<lambda>r. map r cs) (rf_rows ?df))"
    using validators_unique [of env vr ?df] map_of_aligned [OF _ cs(1)] by metis
  have "is_ok (c ?df)" using assms(2) by (simp add: run_validator_def c)
  with u have "distinct (map (\<lambda>r. map r cs) rows)" by (simp add: frame_of_def)
  then show ?thesis unfolding unique_key_def by (rule distinct_more_columns [OF _ cs(2)])
qed

section \<open>Stored frames\<close>

definition files_valid :: "('v, 'h) store_env \<Rightarrow> ('v, 'h) parquet_store \<Rightarrow> bool" where
  "files_valid env s \<longleftrightarrow> (\<forall>i v rows. ps_files s (i, v) = Some rows \<longrightarrow> se_validator env i rows = None)"

lemma prepare_validated: "prepare_dataset_frame env d df p True = Inr rows \<Longrightarrow> se_validator env (ds_id d) rows = None"
  by (auto simp: prepare_dataset_frame_def bind_res_Inr split: if_splits option.splits)

lemma combine_validated: "combine_frames env d existing fresh p = Inr rows \<Longrightarrow> se_validator env (ds_id d) rows = None"
  by (auto simp: combine_frames_def Let_def bind_res_Inr split: if_splits option.splits)

text \<open>
  A predicate of stores that only the last step of a write can break: it looks at files and ledger, and writing validated rows to a
  partition of a dataset it allows keeps it. Then every write keeps it, returning or raising.
\<close>

locale store_invariant =
  fixes env :: "('v, 'h) store_env" and allowed :: "string \<Rightarrow> bool" and I :: "('v, 'h) parquet_store \<Rightarrow> bool"
  assumes data_only: "same_data s s' \<Longrightarrow> I s' = I s"
    and written: "I s \<Longrightarrow> allowed (ds_id d) \<Longrightarrow> dataset_path env d p = Inr path \<Longrightarrow> se_validator env (ds_id d) rows = None \<Longrightarrow>
      wp (write_prepared_dataset env d rows path p) s (\<lambda>_. I) (\<lambda>_. I)"
begin

lemma read_inv:
  assumes "I s"
  shows "wp (read_dataset env d path) s (\<lambda>_. I) (\<lambda>_. I)"
proof (cases "ps_files s path")
  case None
  then show ?thesis using assms by (simp add: wp_def read_dataset_def)
next
  case (Some rows)
  have eq: "read_dataset env d path s = seq_comp (safe_read_parquet env PARQUET_READ_MAX_RETRIES rows)
      (\<lambda>rows. lift_res (clean_dataframe_for_schema env (ds_schema d) (frame_of (ds_schema d) rows))) s"
    by (simp add: read_dataset_def Some)
  have keep: "I s'" if "ps_files s' = ps_files s" "ps_manifest s' = ps_manifest s" for s'
    using data_only [of s s'] assms that by (simp add: same_data_def)
  show ?thesis
    by (rule wp_seq_at, rule eq, rule wp_mono [OF safe_read_wp]) (auto intro: keep split: sum.split)
qed

lemma upsert_partition_inv:
  assumes "I s" and "allowed (ds_id d)" and "dataset_path env d p = Inr path"
  shows "wp (write_dataset_upsert_partition env d df p path skip) s (\<lambda>_. I) (\<lambda>_. I)"
  unfolding write_dataset_upsert_partition_def wp_seq wp_lift
  using assms
  by (auto split: sum.split intro!: wp_mono [OF read_inv] intro!: written combine_validated)

lemma upsert_groups_inv:
  "I s \<Longrightarrow> allowed (ds_id d) \<Longrightarrow> wp (upsert_groups env d column rows skip vs) s (\<lambda>_. I) (\<lambda>_. I)"
proof (induction vs arbitrary: s)
  case (Cons v vs)
  show ?case
  proof (cases "normalize_partition_value env d column v")
    case (Inl e)
    then show ?thesis using Cons.prems by (simp add: wp_def)
  next
    case (Inr t)
    let ?p = "Some [(column, Some (se_of_text env t))]"
    let ?df = "frame_of (ds_schema d) (filter (\<lambda>r. r column = v) rows)"
    show ?thesis
    proof (cases "(v = None \<or> map_option (\<lambda>x. py_strip (se_text env x)) v = Some []) \<or> \<not> is_ok (dataset_path env d ?p)")
      case True
      then show ?thesis
        using Cons.prems Inr by (cases "dataset_path env d ?p") (auto simp: wp_def Let_def seq_comp_def lift_res_def)
    next
      case False
      then obtain path where path: "dataset_path env d ?p = Inr path" by (cases "dataset_path env d ?p") auto
      have eq: "upsert_groups env d column rows skip (v # vs) s =
          seq_comp (write_dataset_upsert_partition env d ?df ?p path skip)
            (\<lambda>r. seq_comp (upsert_groups env d column rows skip vs)
               (\<lambda>r'. Pair (Inr \<lparr>wr_paths = wr_paths r @ wr_paths r', wr_row_count = wr_row_count r + wr_row_count r',
                  wr_updated = wr_updated r + wr_updated r', wr_skipped = wr_skipped r + wr_skipped r'\<rparr>))) s"
        using False Inr path by (auto simp: seq_comp_def lift_res_def Let_def)
      show ?thesis
        by (rule wp_seq_at, rule eq, unfold wp_seq wp_Pair, rule wp_mono [OF upsert_partition_inv [OF Cons.prems path]])
          (rule Cons.IH, simp_all add: Cons.prems(2))
    qed
  qed
qed (simp add: wp_def)

lemma write_dataset_inv:
  assumes "I s" and "allowed i"
  shows "wp (write_dataset env i df p mode skip) s (\<lambda>_. I) (\<lambda>_. I)"
proof (cases "dataset_definition_of i")
  case (Inl e)
  then show ?thesis using assms by (simp add: write_dataset_def)
next
  case (Inr d)
  then have id: "allowed (ds_id d)" using definition_text_columns [OF Inr] assms(2) by simp
  have upsert: "wp (write_dataset_upsert env d df p skip) s (\<lambda>_. I) (\<lambda>_. I)"
    unfolding write_dataset_upsert_def
    using assms upsert_groups_inv [OF assms(1) id] upsert_partition_inv [OF assms(1) id]
    by (auto split: option.split sum.split)
  have other: "wp (seq_comp (lift_res (dataset_path env d p))
      (\<lambda>path. seq_comp (lift_res (prepare_dataset_frame env d df p True))
        (\<lambda>incoming. seq_comp
          (\<lambda>s. if m = Merge \<and> ps_files s path \<noteq> None
               then seq_comp (read_dataset env d path) (\<lambda>existing. lift_res (combine_frames env d existing incoming p)) s
               else (Inr incoming, s))
          (\<lambda>rows. seq_comp (write_prepared_dataset env d rows path p)
            (\<lambda>_. Pair (Inr \<lparr>wr_paths = [path], wr_row_count = length rows, wr_updated = 1, wr_skipped = 0\<rparr>)))))) s
      (\<lambda>_. I) (\<lambda>_. I)" for m
  proof (cases "dataset_path env d p")
    case (Inl e)
    then show ?thesis using assms by simp
  next
    case path: (Inr path)
    show ?thesis
    proof (cases "prepare_dataset_frame env d df p True")
      case (Inl e)
      then show ?thesis using assms path by simp
    next
      case (Inr incoming)
      have merged: "wp (seq_comp (read_dataset env d path) (\<lambda>existing. lift_res (combine_frames env d existing incoming p))) s
          (\<lambda>rows s'. I s' \<and> se_validator env (ds_id d) rows = None) (\<lambda>_. I)"
        unfolding wp_seq wp_lift
        by (rule wp_mono [OF read_inv [OF assms(1)]]) (auto split: sum.split dest: combine_validated)
      have "wp (\<lambda>s. if m = Merge \<and> ps_files s path \<noteq> None
               then seq_comp (read_dataset env d path) (\<lambda>existing. lift_res (combine_frames env d existing incoming p)) s
               else (Inr incoming, s)) s
          (\<lambda>rows s'. I s' \<and> se_validator env (ds_id d) rows = None) (\<lambda>_. I)"
        using merged assms prepare_validated [OF Inr] by (auto simp: wp_def)
      then have "wp (\<lambda>s. if m = Merge \<and> ps_files s path \<noteq> None
               then seq_comp (read_dataset env d path) (\<lambda>existing. lift_res (combine_frames env d existing incoming p)) s
               else (Inr incoming, s)) s
          (\<lambda>rows s'. wp (write_prepared_dataset env d rows path p) s' (\<lambda>_. I) (\<lambda>_. I)) (\<lambda>_. I)"
        by (rule wp_mono) (auto intro: written [OF _ id path])
      then show ?thesis using path Inr by simp
    qed
  qed
  show ?thesis
    using Inr upsert other assms by (auto simp: write_dataset_def Let_def split: option.split)
qed

end

lemma files_valid_written:
  assumes "files_valid env s" and "dataset_path env d p = Inr path" and "se_validator env (ds_id d) rows = None"
  shows "wp (write_prepared_dataset env d rows path p) s (\<lambda>_. files_valid env) (\<lambda>_. files_valid env)"
  using assms(1,3) dataset_path_id [OF assms(2)]
  by (intro wp_mono [OF write_prepared_wp [OF assms(2)]]; cases path) (auto simp: files_valid_def split: if_splits)

interpretation valid_files: store_invariant env "\<lambda>_. True" "files_valid env" for env
  by unfold_locales (simp add: files_valid_def same_data_def, rule files_valid_written)

text \<open>A write touches the files and the ledger of its own dataset only.\<close>

definition apart_from :: "string \<Rightarrow> ('v, 'h) parquet_store \<Rightarrow> ('v, 'h) parquet_store \<Rightarrow> bool" where
  "apart_from i s s' \<longleftrightarrow> (\<forall>j v. j \<noteq> i \<longrightarrow> ps_files s' (j, v) = ps_files s (j, v)) \<and> (\<forall>j c v. j \<noteq> i \<longrightarrow> ps_manifest s' (j, c, v) = ps_manifest s (j, c, v))"

lemma apart_from_written:
  assumes "apart_from (ds_id d) s0 s" and "dataset_path env d p = Inr path"
  shows "wp (write_prepared_dataset env d rows path p) s (\<lambda>_. apart_from (ds_id d) s0) (\<lambda>_. apart_from (ds_id d) s0)"
  using assms(1) dataset_path_id [OF assms(2)]
  by (intro wp_mono [OF write_prepared_wp [OF assms(2)]]; cases path) (auto simp: apart_from_def partition_manifest_key_def)

interpretation other_datasets: store_invariant env "\<lambda>j. j = i" "apart_from i s0" for env i s0
  by unfold_locales (simp add: apart_from_def same_data_def, auto intro: apart_from_written)

lemma write_dataset_apart:
  "wp (write_dataset env i df p mode skip) s (\<lambda>_. apart_from i s) (\<lambda>_. apart_from i s)"
  by (rule other_datasets.write_dataset_inv) (simp_all add: apart_from_def)

lemma store_run_valid: "store_run env n s \<Longrightarrow> files_valid env s"
proof (induction rule: store_run.induct)
  case (empty s)
  then show ?case by (simp add: files_valid_def)
next
  case (write_ok n s i df p mode skip res s')
  then show ?case using valid_files.write_dataset_inv [OF write_ok.IH TrueI, of i df p mode skip] by (simp add: wp_def)
next
  case (write_failed n s i df p mode skip e s')
  then show ?case using valid_files.write_dataset_inv [OF write_failed.IH TrueI, of i df p mode skip] by (simp add: wp_def)
qed

text \<open>
  C29: in every store that writes can produce, whatever they were and however they failed, each stored partition is accepted by the validator of its
  dataset, so its rows have distinct keys; only the two delisting snapshots may hold duplicate keys, because their validator just logs
  them.
\<close>

theorem stored_partitions_validated:
  assumes "store_run (validating env vr) n s" and "dataset_definition_of i = Inr d" and "ps_files s (i, v) = Some rows"
  shows "is_ok (run_validator env vr d rows) \<and>
    (ds_validator d \<notin> {''validate_akshare_cn_stock_delist_sh'', ''validate_akshare_cn_stock_delist_sz''} \<longrightarrow>
       distinct (map (unique_key d) rows))"
proof -
  have d: "dict_get DATASET_CATALOG i = Some d" using assms(2) by (simp add: dataset_definition_of_def split: option.splits)
  have "se_validator (validating env vr) i rows = None"
    using store_run_valid [OF assms(1)] assms(3) by (simp add: files_valid_def)
  then have "is_ok (run_validator env vr d rows)" by (simp add: validating_def d split: if_splits)
  then show ?thesis using accepted_unique_key [OF d] by blast
qed

definition plain_reader :: "string value_reader" where
  "plain_reader = \<lparr>vr_date = (\<lambda>t. Some (length t)), vr_number = (\<lambda>t. Some (of_nat (length t))), vr_true = (\<lambda>t. t = ''True''),
     vr_converts = (\<lambda>schema rows. True)\<rparr>"

theorem stored_partitions_validated_witness:
  "\<exists>(s :: (string, nat) parquet_store) d rows. ps_files s (''baostock_cn_trading_calendar'', []) = Some rows \<and> rows \<noteq> [] \<and>
     is_ok (run_validator plain_env plain_reader d rows) \<and> distinct (map (unique_key d) rows)"
proof -
  let ?E = "validating plain_env plain_reader" and ?i = "''baostock_cn_trading_calendar''"
  let ?w = "write_dataset ?E ?i (calendar_frame ''1'') None (Some Replace) False no_files"
  have "(case fst ?w of Inr res \<Rightarrow> True | Inl e \<Rightarrow> False) \<and> map_option length (ps_files (snd ?w) (?i, [])) = Some 1" by code_simp
  then obtain res s rows where w: "?w = (Inr res, s)" and rows: "ps_files s (?i, []) = Some rows" "length rows = 1"
    by (cases ?w) (auto split: sum.splits)
  have "(case dataset_definition_of ?i of Inr d \<Rightarrow> ds_validator d = ''validate_baostock_cn_trading_calendar'' | Inl e \<Rightarrow> False)" by code_simp
  then obtain d where d: "dataset_definition_of ?i = Inr d" "ds_validator d = ''validate_baostock_cn_trading_calendar''"
    by (auto split: sum.splits)
  have "store_run ?E 0 no_files" by (rule store_run.empty) (simp add: no_files_def)
  from stored_partitions_validated [OF store_run.write_ok [OF this w] d(1) rows(1)] d(2) rows
  show ?thesis by (intro exI [of _ s] exI [of _ d] exI [of _ rows]) auto
qed

end
