(* ===== verification/Security_Master.thy ===== *)
theory Security_Master imports Derived_Rows Validators begin

text \<open>
  \<open>src/sources/derived/security_master.py\<close>: the canonical security master, one row per security that
  the spot quotes, the delisting snapshots, the Baostock stock list or the Qlib data name, and the proof
  that its validator accepts whatever these sources hold.
\<close>

section \<open>Codes\<close>

definition upper_char :: "char \<Rightarrow> char" where
  "upper_char c = (let n = (of_char c :: nat) in if 97 \<le> n \<and> n \<le> 122 then char_of (n - 32) else c)"

definition py_upper :: "string \<Rightarrow> string" where
  "py_upper s = map upper_char s"

text \<open>For ASCII text; Python's \<open>isdigit\<close> also accepts superscript digits, which the pattern of the validator refuses.\<close>

definition six_digit :: "('v, 'h) store_env \<Rightarrow> 'v option \<Rightarrow> string option" where
  "six_digit env v = (let t = clean_string env v in if is_six_digits t then Some t else None)"

definition exchange_from_akshare_code :: "string \<Rightarrow> string option" where
  "exchange_from_akshare_code code =
     (if starts_with ''6'' code then Some ''SH''
      else if starts_with ''0'' code \<or> starts_with ''2'' code \<or> starts_with ''3'' code then Some ''SZ''
      else if starts_with ''4'' code \<or> starts_with ''8'' code \<or> starts_with ''9'' code then Some ''BJ''
      else None)"

definition normalize_exchange :: "('v, 'h) store_env \<Rightarrow> 'v option \<Rightarrow> string option" where
  "normalize_exchange env v =
     (let normalized = py_upper (clean_string env v)
      in if normalized \<in> {''SH'', ''SSE''} then Some ''SH''
         else if normalized \<in> {''SZ'', ''SZSE''} then Some ''SZ''
         else if normalized \<in> {''BJ'', ''BSE''} then Some ''BJ'' else None)"

definition board :: "string \<Rightarrow> string \<Rightarrow> string" where
  "board exchange code =
     (if exchange = ''SH'' \<and> starts_with ''688'' code then ''star''
      else if exchange = ''SH'' \<and> starts_with ''60'' code then ''main''
      else if exchange = ''SZ'' \<and> starts_with ''00'' code then ''main''
      else if exchange = ''SZ'' \<and> starts_with ''30'' code then ''chinext''
      else if exchange = ''BJ'' then ''bse'' else ''unknown'')"

definition qlib_symbol :: "string \<Rightarrow> string \<Rightarrow> string list \<Rightarrow> string" where
  "qlib_symbol exchange code qlib_symbols =
     (let symbol = py_lower exchange @ code
      in if exchange \<in> {''SH'', ''SZ''} then symbol
         else if exchange = ''BJ'' \<and> symbol \<in> set qlib_symbols then symbol else [])"

definition parse_baostock_code :: "string \<Rightarrow> (string \<times> string) option" where
  "parse_baostock_code value =
     (let t = py_lower (py_strip value)
      in if length t = 9 \<and> t ! 2 = CHR ''.'' \<and> is_six_digits (py_strip (drop 3 t)) \<and> take 2 t \<in> {''sh'', ''sz''}
         then Some (py_upper (take 2 t), py_strip (drop 3 t)) else None)"

definition parse_qlib_symbol :: "string \<Rightarrow> (string \<times> string) option" where
  "parse_qlib_symbol value =
     (let t = py_lower (py_strip value)
      in if length t = 8 \<and> is_six_digits (py_strip (drop 2 t)) \<and> take 2 t \<in> {''sh'', ''sz'', ''bj''}
         then Some (py_upper (take 2 t), py_strip (drop 2 t)) else None)"

section \<open>Records\<close>

text \<open>What the sources say of a security; \<open>None\<close> is a key the dictionary lacks or a date it has as null.\<close>

record master_record =
  mr_security_id :: string
  mr_code :: string
  mr_exchange :: string
  mr_sources :: "string list"
  mr_board :: string
  mr_baostock_code :: string
  mr_akshare_code :: string
  mr_spot_name :: string
  mr_spot_date :: "date option"
  mr_delist_name :: string
  mr_list_date :: "date option"
  mr_akshare_delist_date :: "date option"
  mr_delist_snapshot_date :: "date option"
  mr_baostock_name :: string
  mr_ipo_date :: "date option"
  mr_baostock_delist_date :: "date option"
  mr_security_type :: string
  mr_baostock_listing_status :: string

definition new_record :: "string \<Rightarrow> string \<Rightarrow> master_record" where
  "new_record exchange code =
     \<lparr>mr_security_id = exchange @ ''.'' @ code, mr_code = code, mr_exchange = exchange, mr_sources = [], mr_board = board exchange code,
      mr_baostock_code = (if exchange \<in> {''SH'', ''SZ''} then py_lower exchange @ ''.'' @ code else []), mr_akshare_code = code,
      mr_spot_name = [], mr_spot_date = None, mr_delist_name = [], mr_list_date = None, mr_akshare_delist_date = None,
      mr_delist_snapshot_date = None, mr_baostock_name = [], mr_ipo_date = None, mr_baostock_delist_date = None,
      mr_security_type = [], mr_baostock_listing_status = []\<rparr>"

text \<open>\<open>_record\<close> and the mutation of what it returns: the record of a security is created when missing, then updated.\<close>

definition update_record ::
  "string \<Rightarrow> string \<Rightarrow> (master_record \<Rightarrow> master_record) \<Rightarrow> master_record dict \<Rightarrow> master_record dict" where
  "update_record exchange code f records =
     (let i = exchange @ ''.'' @ code
      in dict_set records i (f (case dict_get records i of None \<Rightarrow> new_record exchange code | Some r \<Rightarrow> r)))"

definition add_source :: "string \<Rightarrow> master_record \<Rightarrow> master_record" where
  "add_source source r = r\<lparr>mr_sources := List.insert source (mr_sources r)\<rparr>"

definition merge_spot_row :: "('v, 'h) store_env \<Rightarrow> 'v cell_codec \<Rightarrow> 'v row \<Rightarrow> master_record dict \<Rightarrow> master_record dict" where
  "merge_spot_row env cc row records =
     (case six_digit env (row ''code'') of
        None \<Rightarrow> records
      | Some code \<Rightarrow>
          (case exchange_from_akshare_code code of
             None \<Rightarrow> records
           | Some exchange \<Rightarrow>
               update_record exchange code
                 (\<lambda>r. (add_source ''spot'' r)\<lparr>mr_spot_name := clean_string env (row ''name''),
                                               mr_spot_date := cell_day cc (row ''trade_date'')\<rparr>) records))"

definition merge_delist_row ::
  "('v, 'h) store_env \<Rightarrow> 'v cell_codec \<Rightarrow> string \<Rightarrow> 'v row \<Rightarrow> master_record dict \<Rightarrow> master_record dict" where
  "merge_delist_row env cc default_exchange row records =
     (case six_digit env (row ''code'') of
        None \<Rightarrow> records
      | Some code \<Rightarrow>
          update_record (case normalize_exchange env (row ''exchange'') of None \<Rightarrow> default_exchange | Some e \<Rightarrow> e) code
            (\<lambda>r. (add_source ''delist'' r)\<lparr>mr_delist_name := clean_string env (row ''name''), mr_list_date := cell_day cc (row ''list_date''),
                mr_akshare_delist_date := cell_day cc (row ''delist_date''),
                mr_delist_snapshot_date := cell_day cc (row ''snapshot_date'')\<rparr>) records)"

definition merge_baostock_row :: "('v, 'h) store_env \<Rightarrow> 'v cell_codec \<Rightarrow> 'v row \<Rightarrow> master_record dict \<Rightarrow> master_record dict" where
  "merge_baostock_row env cc row records =
     (case parse_baostock_code (clean_string env (row ''code'')) of
        None \<Rightarrow> records
      | Some (exchange, code) \<Rightarrow>
          update_record exchange code
            (\<lambda>r. (add_source ''baostock'' r)\<lparr>mr_baostock_name := clean_string env (row ''name''), mr_ipo_date := cell_day cc (row ''ipo_date''),
                mr_baostock_delist_date := cell_day cc (row ''delist_date''), mr_security_type := clean_string env (row ''security_type''),
                mr_baostock_listing_status := py_lower (clean_string env (row ''listing_status''))\<rparr>) records)"

definition merge_qlib_symbol :: "string \<Rightarrow> master_record dict \<Rightarrow> master_record dict" where
  "merge_qlib_symbol symbol records =
     (case parse_qlib_symbol symbol of
        None \<Rightarrow> records
      | Some (exchange, code) \<Rightarrow> update_record exchange code (add_source ''qlib'') records)"

section \<open>Rows\<close>

definition status_from_baostock :: "string \<Rightarrow> bool option \<times> string" where
  "status_from_baostock status =
     (let normalized = py_lower (py_strip status)
      in if normalized \<in> {''1'', ''active'', ''listed'', ''normal''} then (Some True, ''active'')
         else if normalized \<in> {''0'', ''delisted'', ''terminated'', ''inactive''} then (Some False, ''delisted'')
         else (None, ''unknown''))"

definition source_priority :: "string list \<Rightarrow> string" where
  "source_priority sources =
     (if 1 < length sources then ''mixed''
      else if ''spot'' \<in> set sources then ''akshare_spot''
      else if ''delist'' \<in> set sources then ''akshare_delist''
      else if ''baostock'' \<in> set sources then ''baostock_basic''
      else if ''qlib'' \<in> set sources then ''qlib_only'' else ''unknown'')"

text \<open>Delisting evidence comes before quotes, quotes before Baostock's delisting date, that before Baostock's status.\<close>

definition listing_state :: "master_record \<Rightarrow> bool option \<times> string" where
  "listing_state r =
     (if ''delist'' \<in> set (mr_sources r) then (Some False, ''delisted'')
      else if ''spot'' \<in> set (mr_sources r) then (Some True, ''active'')
      else if ''baostock'' \<in> set (mr_sources r) \<and> mr_baostock_delist_date r \<noteq> None then (Some False, ''delisted'')
      else if ''baostock'' \<in> set (mr_sources r) then status_from_baostock (mr_baostock_listing_status r)
      else if set (mr_sources r) = {''qlib''} then (Some False, ''unknown'') else (None, ''unknown''))"

definition record_name :: "master_record \<Rightarrow> string" where
  "record_name r =
     (let name = (if ''spot'' \<in> set (mr_sources r) \<and> snd (listing_state r) = ''active'' then mr_spot_name r else [])
      in if name \<noteq> [] then name else if mr_delist_name r \<noteq> [] then mr_delist_name r else mr_baostock_name r)"

definition max_date :: "date option \<Rightarrow> date option \<Rightarrow> date option" where
  "max_date a b = (case (a, b) of (Some x, Some y) \<Rightarrow> Some (max x y) | (None, y) \<Rightarrow> y | (x, None) \<Rightarrow> x)"

definition finalize_record ::
  "('v, 'h) store_env \<Rightarrow> 'v cell_codec \<Rightarrow> 'v \<Rightarrow> string list \<Rightarrow> master_record \<Rightarrow> 'v row" where
  "finalize_record env cc updated_at qlib_symbols r =
     (let t = (\<lambda>x. Some (se_of_text env x)); day = map_option (cc_date cc)
      in row_of
        [(''security_id'', t (mr_security_id r)), (''code'', t (mr_code r)), (''exchange'', t (mr_exchange r)), (''name'', t (record_name r)),
         (''security_type'', t (mr_security_type r)), (''board'', t (mr_board r)), (''baostock_code'', t (mr_baostock_code r)),
         (''akshare_code'', t (mr_akshare_code r)), (''qlib_symbol'', t (qlib_symbol (mr_exchange r) (mr_code r) qlib_symbols)),
         (''ipo_date'', day (if mr_ipo_date r = None then mr_list_date r else mr_ipo_date r)),
         (''delist_date'', day (if mr_akshare_delist_date r = None then mr_baostock_delist_date r else mr_akshare_delist_date r)),
         (''listing_status'', t (snd (listing_state r))), (''is_active'', map_option (cc_bool cc) (fst (listing_state r))),
         (''source_priority'', t (source_priority (mr_sources r))),
         (''latest_source_date'', day (max_date (mr_spot_date r) (mr_delist_snapshot_date r))), (''updated_at'', Some updated_at)])"

record 'v master_sources =
  ms_spot :: "'v row list"
  ms_delist_sh :: "'v row list"
  ms_delist_sz :: "'v row list"
  ms_basic :: "'v row list"
  ms_qlib_symbols :: "string list"

definition security_records :: "('v, 'h) store_env \<Rightarrow> 'v cell_codec \<Rightarrow> 'v master_sources \<Rightarrow> master_record dict" where
  "security_records env cc src =
     fold merge_qlib_symbol (sort (remdups (ms_qlib_symbols src)))
       (fold (merge_baostock_row env cc) (ms_basic src)
         (fold (merge_delist_row env cc ''SZ'') (ms_delist_sz src)
           (fold (merge_delist_row env cc ''SH'') (ms_delist_sh src)
             (fold (merge_spot_row env cc) (ms_spot src) []))))"

definition security_master_frame :: "('v, 'h) store_env \<Rightarrow> 'v cell_codec \<Rightarrow> 'v master_sources \<Rightarrow> 'v \<Rightarrow> 'v raw_frame" where
  "security_master_frame env cc src updated_at =
     (let rows = map (\<lambda>(i, r). finalize_record env cc updated_at (ms_qlib_symbols src) r) (security_records env cc src)
      in if rows = [] then \<lparr>rf_columns = [], rf_rows = []\<rparr>
         else \<lparr>rf_columns = field_names CN_SECURITY_MASTER_SCHEMA, rf_rows = stable_sort (row_less_eq env [''exchange'', ''code'']) rows\<rparr>)"

section \<open>The build\<close>

text \<open>\<open>list_dataset_partitions\<close>, \<open>latest_dataset_partition\<close> and \<open>read_latest_dataset\<close> of the store.\<close>

definition list_dataset_partitions :: "('v, 'h) parquet_store \<Rightarrow> dataset_definition \<Rightarrow> string list" where
  "list_dataset_partitions s d =
     (if ds_partition_column d = None then [] else sorted_list_of_set {v. ps_files s (ds_id d, v) \<noteq> None})"

definition lookup_dataset :: "string \<Rightarrow> store_error + dataset_definition" where
  "lookup_dataset i = (case dataset_definition_of i of Inl e \<Rightarrow> Inl (CatalogFailure e) | Inr d \<Rightarrow> Inr d)"

definition read_latest_dataset :: "('v, 'h) store_env \<Rightarrow> string \<Rightarrow> ('v, 'h, 'v row list) store_comp" where
  "read_latest_dataset env i =
     seq_comp (lift_res (lookup_dataset i))
       (\<lambda>d s. case ds_partition_column d of
                None \<Rightarrow> read_dataset env d (ds_id d, []) s
              | Some column \<Rightarrow>
                  (case list_dataset_partitions s d of
                     [] \<Rightarrow> (Inr [], s)
                   | vs \<Rightarrow> seq_comp (lift_res (dataset_path env d (Some [(column, Some (se_of_text env (last vs)))])))
                             (read_dataset env d) s))"

definition local_qlib_symbols :: "('v, 'h) store_env \<Rightarrow> ('v, 'h, string list) store_comp" where
  "local_qlib_symbols env =
     seq_comp (read_latest_dataset env ''qlib_cn_instrument_membership'')
       (\<lambda>membership. if membership \<noteq> []
          then Pair (Inr (filter (\<lambda>symbol. parse_qlib_symbol symbol \<noteq> None)
                 (map (\<lambda>v. py_lower (py_strip (se_text env v))) (List.map_filter (\<lambda>r. r ''qlib_symbol'') membership))))
          else seq_comp (lift_res (lookup_dataset ''qlib_cn_stock_features_day''))
                 (\<lambda>d s. (Inr (map (\<lambda>symbol. py_lower (py_strip symbol))
                    (filter (\<lambda>symbol. parse_qlib_symbol symbol \<noteq> None) (list_dataset_partitions s d))), s)))"

definition read_master_sources :: "('v, 'h) store_env \<Rightarrow> ('v, 'h, 'v master_sources) store_comp" where
  "read_master_sources env =
     seq_comp (local_qlib_symbols env)
       (\<lambda>qlib. seq_comp (read_latest_dataset env ''akshare_cn_stock_spot_quote_eastmoney'')
       (\<lambda>eastmoney. seq_comp (if eastmoney = [] then read_latest_dataset env ''akshare_cn_stock_spot_quote_sina'' else Pair (Inr eastmoney))
       (\<lambda>spot. seq_comp (read_latest_dataset env ''akshare_cn_stock_delist_sh'')
       (\<lambda>sh. seq_comp (read_latest_dataset env ''akshare_cn_stock_delist_sz'')
       (\<lambda>sz. seq_comp (lift_res (lookup_dataset ''baostock_cn_stock_basic''))
       (\<lambda>d. seq_comp (read_dataset env d (ds_id d, []))
       (\<lambda>basic. Pair (Inr \<lparr>ms_spot = spot, ms_delist_sh = sh, ms_delist_sz = sz, ms_basic = basic, ms_qlib_symbols = qlib\<rparr>))))))))"

record master_result =
  mb_rows :: nat
  mb_active :: nat
  mb_delisted :: nat

text \<open>The registry refresh and the views, which the callers here switch off, are not modelled.\<close>

definition build_security_master :: "('v, 'h) store_env \<Rightarrow> 'v cell_codec \<Rightarrow> 'v \<Rightarrow> ('v, 'h, master_result) store_comp" where
  "build_security_master env cc updated_at =
     seq_comp (read_master_sources env)
       (\<lambda>src. seq_comp (write_dataset env ''cn_security_master'' (security_master_frame env cc src updated_at) None (Some Replace) False)
       (\<lambda>result. seq_comp (lift_res (lookup_dataset ''cn_security_master''))
       (\<lambda>d. seq_comp (read_dataset env d (ds_id d, []))
       (\<lambda>loaded. Pair (Inr
          \<lparr>mb_rows = wr_row_count result,
           mb_active = length (filter (\<lambda>r. case r ''is_active'' of None \<Rightarrow> False | Some x \<Rightarrow> cc_true cc x) loaded),
           mb_delisted = length (filter (\<lambda>r. map_option (se_text env) (r ''listing_status'') = Some ''delisted'') loaded)\<rparr>)))))"

section \<open>Records of sources\<close>

text \<open>A record is well formed when its codes are those of its key, and it belongs to a known exchange.\<close>

definition record_ok :: "string \<Rightarrow> master_record \<Rightarrow> bool" where
  "record_ok i r \<longleftrightarrow>
     i = mr_security_id r \<and> mr_security_id r = mr_exchange r @ ''.'' @ mr_code r \<and> is_six_digits (mr_code r) \<and>
     mr_exchange r \<in> {''SH'', ''SZ'', ''BJ''} \<and> mr_akshare_code r = mr_code r \<and>
     mr_baostock_code r = (if mr_exchange r = ''BJ'' then [] else py_lower (mr_exchange r) @ ''.'' @ mr_code r)"

definition records_ok :: "master_record dict \<Rightarrow> bool" where
  "records_ok records \<longleftrightarrow> distinct (map fst records) \<and> (\<forall>(i, r) \<in> set records. record_ok i r)"

lemma update_record_ok:
  assumes "records_ok records" and "is_six_digits code" and "exchange \<in> {''SH'', ''SZ'', ''BJ''}"
    and "\<And>i r. record_ok i r \<Longrightarrow> record_ok i (f r)"
  shows "records_ok (update_record exchange code f records)"
proof -
  let ?i = "exchange @ ''.'' @ code"
  let ?r = "case dict_get records ?i of None \<Rightarrow> new_record exchange code | Some r \<Rightarrow> r"
  have "record_ok ?i ?r"
  proof (cases "dict_get records ?i")
    case None
    then show ?thesis using assms(2,3) by (auto simp: record_ok_def new_record_def)
  next
    case (Some r)
    then show ?thesis using assms(1) map_of_SomeD [OF Some] by (auto simp: records_ok_def)
  qed
  then have "record_ok ?i (f ?r)" by (rule assms(4))
  moreover have "set (dict_set records ?i (f ?r)) \<subseteq> insert (?i, f ?r) (set records)" by (induction records) auto
  moreover have "distinct (map fst (dict_set records ?i (f ?r)))" using assms(1) by (simp add: records_ok_def distinct_update)
  ultimately show ?thesis using assms(1) unfolding records_ok_def update_record_def Let_def by blast
qed

lemma fold_records_ok: "records_ok records \<Longrightarrow> (\<And>x records. records_ok records \<Longrightarrow> records_ok (f x records)) \<Longrightarrow> records_ok (fold f xs records)"
  by (induction xs arbitrary: records) auto

lemma parsed_codes:
  "parse_baostock_code v = Some (e, c) \<Longrightarrow> e \<in> {''SH'', ''SZ'', ''BJ''} \<and> is_six_digits c"
  "parse_qlib_symbol w = Some (e, c) \<Longrightarrow> e \<in> {''SH'', ''SZ'', ''BJ''} \<and> is_six_digits c"
proof -
  have up: "py_upper ''sh'' = ''SH''" "py_upper ''sz'' = ''SZ''" "py_upper ''bj'' = ''BJ''" by code_simp+
  show "parse_baostock_code v = Some (e, c) \<Longrightarrow> e \<in> {''SH'', ''SZ'', ''BJ''} \<and> is_six_digits c"
    unfolding parse_baostock_code_def Let_def using up by (auto split: if_splits)
  show "parse_qlib_symbol w = Some (e, c) \<Longrightarrow> e \<in> {''SH'', ''SZ'', ''BJ''} \<and> is_six_digits c"
    unfolding parse_qlib_symbol_def Let_def using up by (auto split: if_splits)
qed

lemma exchanges:
  "exchange_from_akshare_code c = Some e \<Longrightarrow> e \<in> {''SH'', ''SZ'', ''BJ''}"
  "normalize_exchange env v = Some e \<Longrightarrow> e \<in> {''SH'', ''SZ'', ''BJ''}"
  unfolding exchange_from_akshare_code_def normalize_exchange_def Let_def by (auto split: if_splits)

lemma six_digit_ok: "six_digit env v = Some c \<Longrightarrow> is_six_digits c"
  by (auto simp: six_digit_def Let_def split: if_splits)

lemma record_ok_same:
  "record_ok i r \<Longrightarrow> mr_security_id r' = mr_security_id r \<Longrightarrow> mr_code r' = mr_code r \<Longrightarrow> mr_exchange r' = mr_exchange r \<Longrightarrow>
   mr_akshare_code r' = mr_akshare_code r \<Longrightarrow> mr_baostock_code r' = mr_baostock_code r \<Longrightarrow> record_ok i r'"
  by (simp only: record_ok_def)

lemma merges_ok:
  assumes "records_ok records"
  shows "records_ok (merge_spot_row env cc row records)"
    and "default_exchange \<in> {''SH'', ''SZ'', ''BJ''} \<Longrightarrow> records_ok (merge_delist_row env cc default_exchange row records)"
    and "records_ok (merge_baostock_row env cc row records)"
    and "records_ok (merge_qlib_symbol symbol records)"
proof -
  have code: "is_six_digits c" if "six_digit env v = Some c" for v c using that by (rule six_digit_ok)
  show "records_ok (merge_spot_row env cc row records)"
    unfolding merge_spot_row_def
    by (simp only: assms split: option.split, intro conjI allI impI TrueI, rule update_record_ok [OF assms six_digit_ok exchanges(1)], assumption+)
       (erule record_ok_same; simp add: add_source_def)
  show "records_ok (merge_delist_row env cc default_exchange row records)" if "default_exchange \<in> {''SH'', ''SZ'', ''BJ''}"
  proof (cases "six_digit env (row ''code'')")
    case None
    then show ?thesis by (simp only: merge_delist_row_def option.case assms)
  next
    case (Some c)
    have e: "(case normalize_exchange env (row ''exchange'') of None \<Rightarrow> default_exchange | Some e \<Rightarrow> e) \<in> {''SH'', ''SZ'', ''BJ''}"
      using that exchanges(2) by (cases "normalize_exchange env (row ''exchange'')") (simp_all only: option.case)
    show ?thesis
      unfolding merge_delist_row_def Some option.case
      by (rule update_record_ok [OF assms six_digit_ok [OF Some] e]) (erule record_ok_same; simp add: add_source_def)
  qed
  show "records_ok (merge_baostock_row env cc row records)"
  proof (cases "parse_baostock_code (clean_string env (row ''code''))")
    case None
    then show ?thesis by (simp only: merge_baostock_row_def option.case assms)
  next
    case (Some ec)
    obtain e c where ec: "ec = (e, c)" by force
    note ok = parsed_codes(1) [OF Some [unfolded ec]]
    show ?thesis
      unfolding merge_baostock_row_def Some option.case ec prod.case
      by (rule update_record_ok [OF assms ok [THEN conjunct2] ok [THEN conjunct1]]) (erule record_ok_same; simp add: add_source_def)
  qed
  show "records_ok (merge_qlib_symbol symbol records)"
  proof (cases "parse_qlib_symbol symbol")
    case None
    then show ?thesis by (simp only: merge_qlib_symbol_def option.case assms)
  next
    case (Some ec)
    obtain e c where ec: "ec = (e, c)" by force
    note ok = parsed_codes(2) [OF Some [unfolded ec]]
    show ?thesis
      unfolding merge_qlib_symbol_def Some option.case ec prod.case
      by (rule update_record_ok [OF assms ok [THEN conjunct2] ok [THEN conjunct1]]) (erule record_ok_same; simp add: add_source_def)
  qed
qed

lemma security_records_ok: "records_ok (security_records env cc src)"
proof -
  have "records_ok []" by (simp add: records_ok_def)
  then show ?thesis
    unfolding security_records_def by (intro fold_records_ok merges_ok) simp_all
qed

lemma active_status: "fst (listing_state r) = Some True \<Longrightarrow> snd (listing_state r) = ''active''"
  unfolding listing_state_def status_from_baostock_def Let_def by (simp only: fst_conv snd_conv option.inject option.distinct simp_thms split: if_splits)

section \<open>The validator accepts the master\<close>

text \<open>What storing a master needs of PyArrow and pandas: columns of texts, dates and truth values convert; null and false are not true; the
  time of the build is not blank.\<close>

definition master_cells_ok :: "('v, 'h) store_env \<Rightarrow> 'v cell_codec \<Rightarrow> 'v value_reader \<Rightarrow> 'v \<Rightarrow> bool" where
  "master_cells_ok env cc vr updated_at \<longleftrightarrow>
     env_ok env \<and> se_coerce env BoolT None = None \<and>
     (\<forall>x. se_coerce env BoolT (Some (cc_bool cc False)) = Some x \<longrightarrow> \<not> vr_true vr x) \<and>
     \<not> blank env (se_coerce env TimestampMs (Some updated_at)) \<and>
     (\<forall>schema rows. (\<forall>r \<in> set rows. coerced_row env schema r) \<longrightarrow> vr_converts vr schema rows)"

lemma digit_not_space: "is_digit c \<Longrightarrow> \<not> is_space c"
  by (auto simp: is_digit_def is_space_def Let_def)

lemma strip_id: "t \<noteq> [] \<Longrightarrow> \<not> is_space (hd t) \<Longrightarrow> \<not> is_space (last t) \<Longrightarrow> py_strip t = t"
proof -
  assume t: "t \<noteq> []" "\<not> is_space (hd t)" "\<not> is_space (last t)"
  have d: "dropWhile is_space u = u" if "u \<noteq> []" "\<not> is_space (hd u)" for u using that by (cases u) auto
  show ?thesis using t by (simp add: py_strip_def d hd_rev)
qed

lemma six_digits_strip: "is_six_digits t \<Longrightarrow> py_strip t = t \<and> t \<noteq> [] \<and> \<not> is_space (last t)"
proof -
  assume t: "is_six_digits t"
  then have "t \<noteq> []" and all: "\<forall>c \<in> set t. is_digit c" by (auto simp: is_six_digits_def list_all_iff)
  then have "is_digit (hd t)" "is_digit (last t)" using hd_in_set last_in_set by blast+
  then have "\<not> is_space (hd t)" "\<not> is_space (last t)" by (simp_all only: digit_not_space not_False_eq_True)
  with \<open>t \<noteq> []\<close> show ?thesis using strip_id by blast
qed

lemma coerce_text:
  assumes "env_ok env" and "map_of schema c = Some StringT" and "r c = Some (se_of_text env x)"
  shows "cell_text env (clean_cells env schema (field_names schema) r c) = Some (py_strip x)"
  using assms by (simp add: clean_cells_own cell_text_def env_ok_def)

text \<open>The cells of a row after cleaning.\<close>

lemma master_cells:
  fixes cc :: "'v cell_codec" and now :: 'v and qs :: "string list"
  assumes "env_ok env" and "record_ok i r"
  defines "m \<equiv> clean_cells env CN_SECURITY_MASTER_SCHEMA (field_names CN_SECURITY_MASTER_SCHEMA) (finalize_record env cc now qs r)"
  shows "m ''security_id'' = Some (se_of_text env i)"
    and "cell_text env (m ''security_id'') = Some (mr_exchange r @ ''.'' @ mr_code r)"
    and "cell_text env (m ''code'') = Some (mr_code r)"
    and "cell_text env (m ''exchange'') = Some (mr_exchange r)"
    and "cell_text env (m ''akshare_code'') = Some (mr_code r)"
    and "cell_text env (m ''baostock_code'') = Some (py_strip (mr_baostock_code r))"
    and "cell_text env (m ''qlib_symbol'') = Some (py_strip (qlib_symbol (mr_exchange r) (mr_code r) qs))"
    and "cell_text env (m ''listing_status'') = Some (py_strip (snd (listing_state r)))"
    and "m ''is_active'' = se_coerce env BoolT (map_option (cc_bool cc) (fst (listing_state r)))"
    and "m ''updated_at'' = se_coerce env TimestampMs (Some now)"
proof -
  let ?S = "CN_SECURITY_MASTER_SCHEMA"
  have ty: "map_of ?S ''security_id'' = Some StringT" "map_of ?S ''code'' = Some StringT" "map_of ?S ''exchange'' = Some StringT"
    "map_of ?S ''akshare_code'' = Some StringT" "map_of ?S ''baostock_code'' = Some StringT" "map_of ?S ''qlib_symbol'' = Some StringT"
    "map_of ?S ''listing_status'' = Some StringT" "map_of ?S ''is_active'' = Some BoolT" "map_of ?S ''updated_at'' = Some TimestampMs"
    by code_simp+
  have cells: "finalize_record env cc now qs r ''security_id'' = Some (se_of_text env (mr_security_id r))"
    "finalize_record env cc now qs r ''code'' = Some (se_of_text env (mr_code r))"
    "finalize_record env cc now qs r ''exchange'' = Some (se_of_text env (mr_exchange r))"
    "finalize_record env cc now qs r ''akshare_code'' = Some (se_of_text env (mr_akshare_code r))"
    "finalize_record env cc now qs r ''baostock_code'' = Some (se_of_text env (mr_baostock_code r))"
    "finalize_record env cc now qs r ''qlib_symbol'' = Some (se_of_text env (qlib_symbol (mr_exchange r) (mr_code r) qs))"
    "finalize_record env cc now qs r ''listing_status'' = Some (se_of_text env (snd (listing_state r)))"
    "finalize_record env cc now qs r ''is_active'' = map_option (cc_bool cc) (fst (listing_state r))"
    "finalize_record env cc now qs r ''updated_at'' = Some now"
    by (simp_all add: finalize_record_def row_of_def Let_def split: option.split)
  have ok: "mr_security_id r = i" "mr_security_id r = mr_exchange r @ ''.'' @ mr_code r" "is_six_digits (mr_code r)"
    "mr_exchange r \<in> {''SH'', ''SZ'', ''BJ''}" "mr_akshare_code r = mr_code r"
    using assms(2) by (auto simp only: record_ok_def)
  have code: "py_strip (mr_code r) = mr_code r" "mr_code r \<noteq> []" "\<not> is_space (last (mr_code r))" using six_digits_strip [OF ok(3)] by auto
  have "list_all (\<lambda>e. py_strip e = e \<and> e \<noteq> [] \<and> \<not> is_space (hd e)) [''SH'', ''SZ'', ''BJ'']" by code_simp
  then have ex: "py_strip (mr_exchange r) = mr_exchange r" "mr_exchange r \<noteq> []" "\<not> is_space (hd (mr_exchange r))"
    using ok(4) by (auto simp only: list_all_iff list.set)
  then have id: "py_strip (mr_exchange r @ ''.'' @ mr_code r) = mr_exchange r @ ''.'' @ mr_code r"
    using code ex by (intro strip_id) simp_all
  note cell = coerce_text [OF assms(1), of ?S _ "finalize_record env cc now qs r", folded m_def]
  show "cell_text env (m ''security_id'') = Some (mr_exchange r @ ''.'' @ mr_code r)"
    using cell [OF ty(1) cells(1)] ok(2) id by simp
  show "cell_text env (m ''code'') = Some (mr_code r)" using cell [OF ty(2) cells(2)] code by simp
  show "cell_text env (m ''exchange'') = Some (mr_exchange r)" using cell [OF ty(3) cells(3)] ex by simp
  show "cell_text env (m ''akshare_code'') = Some (mr_code r)" using cell [OF ty(4) cells(4)] code ok(5) by simp
  show "cell_text env (m ''baostock_code'') = Some (py_strip (mr_baostock_code r))" by (rule cell [OF ty(5) cells(5)])
  show "cell_text env (m ''qlib_symbol'') = Some (py_strip (qlib_symbol (mr_exchange r) (mr_code r) qs))" by (rule cell [OF ty(6) cells(6)])
  show "cell_text env (m ''listing_status'') = Some (py_strip (snd (listing_state r)))" by (rule cell [OF ty(7) cells(7)])
  show "m ''is_active'' = se_coerce env BoolT (map_option (cc_bool cc) (fst (listing_state r)))"
    "m ''updated_at'' = se_coerce env TimestampMs (Some now)"
    by (simp_all only: m_def clean_cells_own ty cells option.case)
  show "m ''security_id'' = Some (se_of_text env i)"
    using assms(1) by (simp only: m_def clean_cells_own ty cells option.case ok(1)) (simp add: env_ok_def)
qed

lemma bind_res_cong_validator:
  "clean_dataframe_for_schema (validating env vr) schema df = clean_dataframe_for_schema env schema df"
  "apply_fixed_column_values (validating env vr) [] rows = Inr rows"
  "row_less_eq (validating env vr) cs = row_less_eq env cs"
proof -
  have "clean_cells (validating env vr) schema cols r = clean_cells env schema cols r" for cols r
    by (intro ext) (simp add: clean_cells_def validating_def split: option.split)
  moreover have "normalize_row (validating env vr) schema r = normalize_row env schema r" for r
    by (cases "r ''adjustment''") (simp_all add: normalize_row_def normalize_optional_adjustment_def validating_def split: sum.split)
  ultimately show "clean_dataframe_for_schema (validating env vr) schema df = clean_dataframe_for_schema env schema df"
    by (simp add: clean_dataframe_for_schema_def)
  show "row_less_eq (validating env vr) cs = row_less_eq env cs"
  proof (intro ext)
    fix r r' show "row_less_eq (validating env vr) cs r r' = row_less_eq env cs r r'"
      by (induction cs) (simp_all add: validating_def split: option.split)
  qed
qed simp

lemma clean_master:
  "clean_dataframe_for_schema env CN_SECURITY_MASTER_SCHEMA (frame_of CN_SECURITY_MASTER_SCHEMA rows) =
     Inr (map (clean_cells env CN_SECURITY_MASTER_SCHEMA (field_names CN_SECURITY_MASTER_SCHEMA)) rows)"
proof -
  have "''adjustment'' \<notin> set (field_names CN_SECURITY_MASTER_SCHEMA)" by code_simp
  then have "traverse (\<lambda>r. normalize_row env CN_SECURITY_MASTER_SCHEMA (f r)) rows = Inr (map f rows)" for f
    by (induction rows) (simp_all add: normalize_row_def)
  then show ?thesis by (simp add: clean_dataframe_for_schema_def frame_of_def)
qed

lemma canonical_id: "e \<in> {''SH'', ''SZ'', ''BJ''} \<Longrightarrow> is_six_digits c \<Longrightarrow> is_canonical_security_id (e @ ''.'' @ c)"
  by (auto simp: is_canonical_security_id_def)

lemma master_row_ok:
  fixes qs :: "string list"
  assumes ok: "master_cells_ok env cc vr now" and r: "record_ok i r"
  defines "m \<equiv> clean_cells env CN_SECURITY_MASTER_SCHEMA (field_names CN_SECURITY_MASTER_SCHEMA) (finalize_record env cc now qs r)"
  defines "t \<equiv> \<lambda>c. cell_text env (m c)"
  shows "\<exists>e c. t ''exchange'' = Some e \<and> t ''code'' = Some c \<and> t ''security_id'' = Some (e @ ''.'' @ c) \<and> e \<in> {''SH'', ''SZ'', ''BJ''} \<and>
      e \<noteq> [] \<and> is_six_digits c \<and> c \<noteq> [] \<and> t ''akshare_code'' = Some c \<and>
      (\<not> blank env (m ''baostock_code'') \<longrightarrow> e \<noteq> ''BJ'' \<and> t ''baostock_code'' = Some (py_lower e @ ''.'' @ c)) \<and>
      (\<not> blank env (m ''qlib_symbol'') \<longrightarrow> t ''qlib_symbol'' = Some (py_lower e @ c)) \<and>
      (\<forall>x. m ''is_active'' = Some x \<longrightarrow> vr_true vr x \<longrightarrow> t ''listing_status'' = Some ''active'') \<and>
      \<not> blank env (m ''updated_at'') \<and> m ''security_id'' = Some (se_of_text env i)"
proof (rule exI [of _ "mr_exchange r"], rule exI [of _ "mr_code r"], intro conjI)
  have env: "env_ok env" using ok by (simp only: master_cells_ok_def)
  note cells = master_cells [OF env r, of cc now qs, folded m_def]
  have rok: "mr_exchange r \<in> {''SH'', ''SZ'', ''BJ''}" "is_six_digits (mr_code r)"
    "mr_baostock_code r = (if mr_exchange r = ''BJ'' then [] else py_lower (mr_exchange r) @ ''.'' @ mr_code r)"
    using r by (simp_all only: record_ok_def)
  note code = six_digits_strip [OF rok(2)]
  show "t ''exchange'' = Some (mr_exchange r)" "t ''code'' = Some (mr_code r)"
    "t ''security_id'' = Some (mr_exchange r @ ''.'' @ mr_code r)" "t ''akshare_code'' = Some (mr_code r)"
    by (simp_all only: t_def cells(2-5))
  show "mr_exchange r \<in> {''SH'', ''SZ'', ''BJ''}" "is_six_digits (mr_code r)" "m ''security_id'' = Some (se_of_text env i)"
    by (fact rok cells)+
  show "mr_exchange r \<noteq> []" "mr_code r \<noteq> []" using rok code by auto
  show "\<not> blank env (m ''updated_at'')" using ok by (simp only: cells master_cells_ok_def) simp
  have low: "list_all (\<lambda>e. py_lower e \<noteq> [] \<and> \<not> is_space (hd (py_lower e))) [''SH'', ''SZ'', ''BJ'']" by code_simp
  then have low: "py_lower (mr_exchange r) \<noteq> []" "\<not> is_space (hd (py_lower (mr_exchange r)))"
    using rok(1) by (auto simp only: list_all_iff list.set)
  then have strip: "py_strip (py_lower (mr_exchange r) @ ''.'' @ mr_code r) = py_lower (mr_exchange r) @ ''.'' @ mr_code r"
    "py_strip (py_lower (mr_exchange r) @ mr_code r) = py_lower (mr_exchange r) @ mr_code r"
    using code by (simp_all add: strip_id)
  have empty: "py_strip [] = []" by code_simp
  show "\<not> blank env (m ''baostock_code'') \<longrightarrow>
      mr_exchange r \<noteq> ''BJ'' \<and> t ''baostock_code'' = Some (py_lower (mr_exchange r) @ ''.'' @ mr_code r)"
    using strip(1) by (simp add: blank_def t_def cells rok(3) empty)
  show "\<not> blank env (m ''qlib_symbol'') \<longrightarrow> t ''qlib_symbol'' = Some (py_lower (mr_exchange r) @ mr_code r)"
  proof -
    have "qlib_symbol (mr_exchange r) (mr_code r) qs \<in> {[], py_lower (mr_exchange r) @ mr_code r}" by (simp add: qlib_symbol_def Let_def)
    then show ?thesis using strip(2) empty by (auto simp: blank_def t_def cells)
  qed
  show "\<forall>x. m ''is_active'' = Some x \<longrightarrow> vr_true vr x \<longrightarrow> t ''listing_status'' = Some ''active''"
  proof (intro allI impI)
    fix x assume x: "m ''is_active'' = Some x" "vr_true vr x"
    have "fst (listing_state r) = Some True"
    proof (cases "fst (listing_state r)")
      case None
      then show ?thesis using x ok by (simp add: cells master_cells_ok_def)
    next
      case (Some b)
      then show ?thesis using x ok by (cases b) (auto simp: cells master_cells_ok_def)
    qed
    moreover have "py_strip ''active'' = ''active''" by code_simp
    ultimately show "t ''listing_status'' = Some ''active''" by (simp add: t_def cells active_status)
  qed
qed

lemma master_accepted:
  assumes ok: "master_cells_ok env cc vr now" and records: "records_ok records"
    and rows: "\<forall>m \<in> set rows. \<exists>(i, r) \<in> set records. m = clean_cells env CN_SECURITY_MASTER_SCHEMA (field_names CN_SECURITY_MASTER_SCHEMA)
        (finalize_record env cc now qs r)"
    and dist: "distinct (map (\<lambda>m. m ''security_id'') rows)"
  shows "is_ok (validate_cn_security_master env vr (frame_of CN_SECURITY_MASTER_SCHEMA rows))"
proof -
  let ?S = "CN_SECURITY_MASTER_SCHEMA"
  let ?df = "frame_of ?S rows"
  have env: "env_ok env" using ok by (simp only: master_cells_ok_def)
  have rf [simp]: "rf_rows ?df = rows" "rf_columns ?df = field_names ?S" by (simp_all add: frame_of_def)
  have conv: "vr_converts vr ?S rows"
  proof -
    have "coerced_row env ?S m" if "m \<in> set rows" for m
    proof -
      obtain r where "m = clean_cells env ?S (field_names ?S) (finalize_record env cc now qs r)" using rows \<open>m \<in> set rows\<close> by blast
      then show ?thesis by (simp only: clean_cells_coerced [OF env])
    qed
    then have "\<forall>m \<in> set rows. coerced_row env ?S m" by blast
    moreover have "\<forall>schema rows. (\<forall>r \<in> set rows. coerced_row env schema r) \<longrightarrow> vr_converts vr schema rows"
      using ok unfolding master_cells_ok_def by (elim conjE)
    ultimately show ?thesis by blast
  qed
  let ?t = "\<lambda>m c. cell_text env (m c)"
  have row: "\<exists>e c. ?t m ''exchange'' = Some e \<and> ?t m ''code'' = Some c \<and> ?t m ''security_id'' = Some (e @ ''.'' @ c) \<and>
      e \<in> {''SH'', ''SZ'', ''BJ''} \<and> e \<noteq> [] \<and> is_six_digits c \<and> c \<noteq> [] \<and> ?t m ''akshare_code'' = Some c \<and>
      (\<not> blank env (m ''baostock_code'') \<longrightarrow> e \<noteq> ''BJ'' \<and> ?t m ''baostock_code'' = Some (py_lower e @ ''.'' @ c)) \<and>
      (\<not> blank env (m ''qlib_symbol'') \<longrightarrow> ?t m ''qlib_symbol'' = Some (py_lower e @ c)) \<and>
      (\<forall>x. m ''is_active'' = Some x \<longrightarrow> vr_true vr x \<longrightarrow> ?t m ''listing_status'' = Some ''active'') \<and> \<not> blank env (m ''updated_at'')"
    if m: "m \<in> set rows" for m
  proof -
    obtain i r where r: "(i, r) \<in> set records" and me: "m = clean_cells env ?S (field_names ?S) (finalize_record env cc now qs r)"
      using rows m by blast
    from r records have "record_ok i r" by (auto simp: records_ok_def)
    from master_row_ok [OF ok this, of qs, folded me] show ?thesis by (elim exE conjE) (intro exI conjI; assumption)
  qed
  have lower: "py_lower ''active'' = ''active''" by code_simp
  have "is_ok (validate_schema_matches vr ?S ?df)" using conv by (simp add: validate_schema_matches_def run_checks_ok del: run_checks.simps)
  moreover have "is_ok (validate_unique_columns [''security_id''] ?df)"
    using dist by (simp add: distinct_map inj_on_def)
  moreover have "is_ok (validate_non_empty_columns env [''security_id'', ''code'', ''exchange'', ''updated_at''] ?df)"
  proof -
    have "\<not> blank env (m ''security_id'') \<and> \<not> blank env (m ''code'') \<and> \<not> blank env (m ''exchange'') \<and> \<not> blank env (m ''updated_at'')"
      if m: "m \<in> set rows" for m
    proof -
      obtain e c where t: "?t m ''exchange'' = Some e" "?t m ''code'' = Some c" "?t m ''security_id'' = Some (e @ ''.'' @ c)"
        and ne: "e \<noteq> []" "c \<noteq> []" "\<not> blank env (m ''updated_at'')"
        using row [OF m] by (elim exE conjE)
      from ne show ?thesis unfolding blank_def t by (simp only: option.inject option.distinct append_is_Nil_conv simp_thms)
    qed
    then show ?thesis unfolding validate_non_empty_columns_def unless_empty_ok by (simp only: list.set list_ex_iff list.map rf require_ok ball_simps) blast
  qed
  moreover have "is_ok (validate_canonical_security_id_columns env ?df)"
    unfolding validate_canonical_security_id_columns_def Let_def unless_empty_ok list.set ball_simps rows_ok_ok rf list_all_iff
    by (intro disjI2 conjI ballI TrueI)
       (drule row, elim exE conjE, simp only: option.case prod.case canonical_id CANONICAL_EXCHANGES_def list.set simp_thms)+
  moreover have "is_ok (rows_ok (\<lambda>r. \<not> blank env (r ''akshare_code'') \<longrightarrow> ?t r ''akshare_code'' = ?t r ''code'') AkshareCodeMismatch ?df)"
    unfolding rows_ok_ok rf list_all_iff using row by metis
  moreover have "is_ok (rows_ok (\<lambda>r. \<not> blank env (r ''baostock_code'') \<longrightarrow> ?t r ''exchange'' \<noteq> Some ''BJ'' \<and>
      ?t r ''baostock_code'' = Some (py_lower (case ?t r ''exchange'' of None \<Rightarrow> [] | Some x \<Rightarrow> x) @ ''.'' @ (case ?t r ''code'' of None \<Rightarrow> [] | Some x \<Rightarrow> x)))
      BaostockCodeMismatch ?df)"
    unfolding rows_ok_ok rf list_all_iff by (intro ballI) (drule row, elim exE conjE, simp only: option.case option.inject simp_thms)
  moreover have "is_ok (rows_ok (\<lambda>r. \<not> blank env (r ''qlib_symbol'') \<longrightarrow>
      ?t r ''qlib_symbol'' = Some (py_lower (case ?t r ''exchange'' of None \<Rightarrow> [] | Some x \<Rightarrow> x) @ (case ?t r ''code'' of None \<Rightarrow> [] | Some x \<Rightarrow> x)))
      QlibSymbolMismatch ?df)"
    unfolding rows_ok_ok rf list_all_iff by (intro ballI) (drule row, elim exE conjE, simp only: option.case option.inject simp_thms)
  moreover have "is_ok (rows_ok (\<lambda>r. (case r ''is_active'' of None \<Rightarrow> False | Some x \<Rightarrow> vr_true vr x) \<longrightarrow>
      py_lower (case ?t r ''listing_status'' of None \<Rightarrow> [] | Some x \<Rightarrow> x) = ''active'') ActiveNotListed ?df)"
    unfolding rows_ok_ok rf list_all_iff
    by (intro ballI impI) (drule row, elim exE conjE, auto simp: lower split: option.splits)
  ultimately show ?thesis
    unfolding validate_cn_security_master_def Let_def run_checks_ok list.set ball_simps unless_empty_ok by blast
qed

lemma master_frame_columns:
  "rf_rows (security_master_frame env cc src now) \<noteq> [] \<Longrightarrow>
   security_master_frame env cc src now = frame_of CN_SECURITY_MASTER_SCHEMA (rf_rows (security_master_frame env cc src now))"
  unfolding security_master_frame_def Let_def frame_of_def
  by (cases "security_records env cc src = []") (simp_all only: list.map if_True if_False map_is_Nil_conv raw_frame.simps simp_thms)

lemma clean_master_frame:
  "clean_dataframe_for_schema env CN_SECURITY_MASTER_SCHEMA (security_master_frame env cc src now) =
     Inr (map (clean_cells env CN_SECURITY_MASTER_SCHEMA (field_names CN_SECURITY_MASTER_SCHEMA)) (rf_rows (security_master_frame env cc src now)))"
proof (cases "rf_rows (security_master_frame env cc src now) = []")
  case True
  then show ?thesis by (simp add: clean_dataframe_for_schema_def)
next
  case False
  then have "security_master_frame env cc src now = frame_of CN_SECURITY_MASTER_SCHEMA (rf_rows (security_master_frame env cc src now))"
    by (rule master_frame_columns)
  then show ?thesis using clean_master [of env "rf_rows (security_master_frame env cc src now)"] by (simp only:)
qed

definition finalized_rows :: "('v, 'h) store_env \<Rightarrow> 'v cell_codec \<Rightarrow> 'v master_sources \<Rightarrow> 'v \<Rightarrow> 'v row list" where
  "finalized_rows env cc src now =
     map (clean_cells env CN_SECURITY_MASTER_SCHEMA (field_names CN_SECURITY_MASTER_SCHEMA))
       (map (\<lambda>(i, r). finalize_record env cc now (ms_qlib_symbols src) r) (security_records env cc src))"

lemma sorted_master_rows:
  "mset (sort_dataset_frame env' CN_SECURITY_MASTER_DATASET
     (map (clean_cells env CN_SECURITY_MASTER_SCHEMA (field_names CN_SECURITY_MASTER_SCHEMA)) (rf_rows (security_master_frame env cc src now)))) =
   mset (finalized_rows env cc src now)"
proof -
  have two: "filter (\<lambda>c. c \<in> set (field_names (ds_schema CN_SECURITY_MASTER_DATASET))) (ds_sort_columns CN_SECURITY_MASTER_DATASET) =
    [''exchange'', ''code'']" by code_simp
  have frame: "mset (rf_rows (security_master_frame env cc src now)) =
    mset (map (\<lambda>(i, r). finalize_record env cc now (ms_qlib_symbols src) r) (security_records env cc src))"
    by (simp add: security_master_frame_def Let_def)
  have "mset (sort_dataset_frame env' CN_SECURITY_MASTER_DATASET rows) = mset rows" for rows
    unfolding sort_dataset_frame_def Let_def two by (simp only: list.case mset_stable_sort if_cancel split: if_split) simp
  then show ?thesis by (simp only: finalized_rows_def mset_map frame)
qed

lemma finalized_ids:
  assumes "env_ok env"
  shows "map (\<lambda>m. m ''security_id'') (finalized_rows env cc src now) = map (\<lambda>x. Some (se_of_text env (fst x))) (security_records env cc src)"
  unfolding finalized_rows_def map_map comp_def
proof (rule map_cong [OF refl])
  fix x assume x: "x \<in> set (security_records env cc src)"
  obtain i r where ir: "x = (i, r)" by force
  have "record_ok i r" using x security_records_ok [of env cc src] unfolding records_ok_def ir by blast
  from master_cells(1) [OF assms this]
  show "clean_cells env CN_SECURITY_MASTER_SCHEMA (field_names CN_SECURITY_MASTER_SCHEMA)
      (case x of (i, r) \<Rightarrow> finalize_record env cc now (ms_qlib_symbols src) r) ''security_id'' = Some (se_of_text env (fst x))"
    by (simp only: ir prod.case fst_conv)
qed


definition plain_codec :: "string cell_codec" where
  "plain_codec = \<lparr>cc_parse_date = (\<lambda>t. None), cc_date = isoformat, cc_bool = (\<lambda>b. if b then ''True'' else ''False''), cc_true = (\<lambda>t. t = ''True'')\<rparr>"

definition demo_sources :: "string master_sources" where
  "demo_sources =
     \<lparr>ms_spot = [map_of [(''code'', ''600000''), (''name'', ''PF Bank'')]],
      ms_delist_sh = [map_of [(''code'', ''600001''), (''name'', ''Gone'')]], ms_delist_sz = [], ms_basic = [], ms_qlib_symbols = []\<rparr>"


end
