(* ===== verification/Derived_Build.thy ===== *)
theory Derived_Build imports Security_Master "HOL-Library.Product_Lexorder" begin

text \<open>
  Building the derived datasets: the marks in the ledger that tell which sources a partition was built from
  (\<open>src/sources/derived/manifest.py\<close>, \<open>src/storage/manifest_rebuild.py\<close>), the plan of an incremental build
  (\<open>src/sources/derived/update.py\<close>), and the full and the incremental builders of
  \<open>stock_daily_bar.py\<close> and \<open>stock_valuation.py\<close>, which are the same code but for the rows they make.

  Staged partitions are written to a store of their own; moving them over the canonical ones is one step
  here, with the outcomes the theory \<open>Derived_Staging\<close> shows for the swap. The file lock, the registry refresh and
  the DuckDB views are not part of the model.
\<close>

section \<open>State and environment\<close>

datatype derived_error =
    StoreRaised store_error
  | MissingManifest string string
  | MissingPartition string string
  | SwapFailed
  | ArgumentRejected string

text \<open>A swap promotes the staged files, fails and leaves the old ones, or fails to restore them too.\<close>

datatype swap_outcome = Promoted | Restored | Lost

text \<open>\<open>de_master_digest\<close> and \<open>de_source_digest\<close> are SHA-256 of the canonical JSON of their arguments.\<close>

record ('v, 'h) derived_env =
  de_store :: "('v, 'h) store_env"
  de_cells :: "'v cell_codec"
  de_master_digest :: "'v option list \<Rightarrow> 'h"
  de_source_digest :: "'h \<Rightarrow> (string \<times> string \<times> string \<times> 'h) list \<Rightarrow> 'h"
  de_swap :: "nat \<Rightarrow> swap_outcome"

text \<open>
  The store; the cells \<open>source_signature\<close> and \<open>master_row_hash\<close> of the ledger rows that have them; the datasets
  whose directory exists; how many swaps were tried.
\<close>

record ('v, 'h) derived_state =
  dv_store :: "('v, 'h) parquet_store"
  dv_marks :: "string \<times> string \<times> string \<Rightarrow> ('h \<times> 'h) option"
  dv_built :: "string list"
  dv_swaps :: nat

type_synonym ('v, 'h, 'a) derived_comp = "('v, 'h) derived_state \<Rightarrow> (derived_error + 'a) \<times> ('v, 'h) derived_state"

definition on_store :: "('v, 'h, 'a) store_comp \<Rightarrow> ('v, 'h, 'a) derived_comp" where
  "on_store m s =
     (case m (dv_store s) of
        (Inl e, p) \<Rightarrow> (Inl (StoreRaised e), s\<lparr>dv_store := p\<rparr>)
      | (Inr x, p) \<Rightarrow> (Inr x, s\<lparr>dv_store := p\<rparr>))"

definition lift_store :: "store_error + 'a \<Rightarrow> ('v, 'h, 'a) derived_comp" where
  "lift_store r = on_store (lift_res r)"

definition partition_of :: "('v, 'h) derived_env \<Rightarrow> dataset_definition \<Rightarrow> string \<Rightarrow> 'v partition option" where
  "partition_of env d v = map_option (\<lambda>c. [(c, Some (se_of_text (de_store env) v))]) (ds_partition_column d)"

section \<open>Ledger rows\<close>

definition upsert_written_dataset_partition_manifest ::
  "('v, 'h) derived_env \<Rightarrow> string \<Rightarrow> 'v raw_frame \<Rightarrow> 'v partition option \<Rightarrow> ('h \<times> 'h) option \<Rightarrow> ('v, 'h, unit) derived_comp" where
  "upsert_written_dataset_partition_manifest env i df p marks =
     seq_comp (lift_store (lookup_dataset i))
       (\<lambda>d. seq_comp (lift_store (dataset_path (de_store env) d p))
       (\<lambda>path s. if ps_files (dv_store s) path = None then (Inl (MissingPartition (fst path) (snd path)), s)
          else seq_comp (lift_store (prepare_dataset_frame (de_store env) d df p True))
            (\<lambda>cleaned. seq_comp (on_store (upsert_partition_manifest_after_write (de_store env) d cleaned p))
            (\<lambda>_ s. (Inr (), if se_staging (de_store env) then s
               else s\<lparr>dv_marks := (dv_marks s)(partition_manifest_key d (snd path) := marks)\<rparr>))) s))"

text \<open>A row written for a partition found on disk: it has no marks.\<close>

definition rebuild_one_partition_manifest ::
  "('v, 'h) derived_env \<Rightarrow> string \<Rightarrow> string \<Rightarrow> bool \<Rightarrow> ('v, 'h, bool) derived_comp" where
  "rebuild_one_partition_manifest env i v force =
     seq_comp (lift_store (lookup_dataset i))
       (\<lambda>d. seq_comp (lift_store (dataset_path (de_store env) d (partition_of env d v)))
       (\<lambda>path s. if ps_files (dv_store s) path = None then (Inr False, s)
          else if \<not> force \<and> ps_manifest (dv_store s) (partition_manifest_key d (snd path)) \<noteq> None then (Inr False, s)
          else seq_comp (on_store (read_dataset (de_store env) d path))
            (\<lambda>rows. seq_comp (upsert_written_dataset_partition_manifest env i (frame_of (ds_schema d) rows) (partition_of env d v) None)
            (\<lambda>_. Pair (Inr True))) s))"

record manifest_rebuild_result =
  mn_dataset :: string
  mn_partition_count :: nat
  mn_updated :: nat
  mn_skipped :: nat

text \<open>The partitions of a dataset; the only one of an unpartitioned dataset is named by the empty text.\<close>

definition dataset_partitions :: "dataset_definition \<Rightarrow> ('v, 'h) derived_state \<Rightarrow> string list" where
  "dataset_partitions d s =
     (if ds_partition_column d = None then (if ps_files (dv_store s) (ds_id d, []) = None then [] else [[]])
      else list_dataset_partitions (dv_store s) d)"

fun rebuild_partitions ::
  "('v, 'h) derived_env \<Rightarrow> dataset_definition \<Rightarrow> (string \<Rightarrow> bool) \<Rightarrow> string list \<Rightarrow> nat \<times> nat \<Rightarrow> ('v, 'h, nat \<times> nat) derived_comp" where
  "rebuild_partitions env d skip [] counts s = (Inr counts, s)"
| "rebuild_partitions env d skip (v # vs) (updated, skipped) s =
     (if skip v then rebuild_partitions env d skip vs (updated, Suc skipped) s
      else seq_comp (lift_store (dataset_path (de_store env) d (partition_of env d v)))
             (\<lambda>path. seq_comp (on_store (read_dataset (de_store env) d path))
             (\<lambda>rows. seq_comp (upsert_written_dataset_partition_manifest env (ds_id d) (frame_of (ds_schema d) rows) (partition_of env d v) None)
             (\<lambda>_. rebuild_partitions env d skip vs (Suc updated, skipped)))) s)"

definition rebuild_partition_manifest ::
  "('v, 'h) derived_env \<Rightarrow> string \<Rightarrow> bool \<Rightarrow> bool \<Rightarrow> ('v, 'h, manifest_rebuild_result) derived_comp" where
  "rebuild_partition_manifest env i include_derived force =
     seq_comp (lift_store (lookup_dataset i))
       (\<lambda>d s. if ds_source d = ''derived'' \<and> \<not> include_derived
          then (Inr \<lparr>mn_dataset = i, mn_partition_count = 0, mn_updated = 0, mn_skipped = 0\<rparr>, s)
          else let known = ps_manifest (dv_store s)
               in seq_comp (rebuild_partitions env d (\<lambda>v. \<not> force \<and> known (partition_manifest_key d v) \<noteq> None) (dataset_partitions d s) (0, 0))
                    (\<lambda>(updated, skipped). Pair (Inr \<lparr>mn_dataset = i, mn_partition_count = length (dataset_partitions d s),
                                                    mn_updated = updated, mn_skipped = skipped\<rparr>)) s)"

fun rebuild_all_partition_manifests ::
  "('v, 'h) derived_env \<Rightarrow> bool \<Rightarrow> bool \<Rightarrow> string list \<Rightarrow> ('v, 'h, manifest_rebuild_result list) derived_comp" where
  "rebuild_all_partition_manifests env include_derived force [] s = (Inr [], s)"
| "rebuild_all_partition_manifests env include_derived force (i # is) s =
     (if map_option ds_source (dict_get DATASET_CATALOG i) = Some ''derived'' \<and> \<not> include_derived
      then rebuild_all_partition_manifests env include_derived force is s
      else seq_comp (rebuild_partition_manifest env i include_derived force)
             (\<lambda>r. seq_comp (rebuild_all_partition_manifests env include_derived force is) (\<lambda>rs. Pair (Inr (r # rs)))) s)"

definition delete_derived_partition_manifest :: "('v, 'h) derived_env \<Rightarrow> string \<Rightarrow> string \<Rightarrow> ('v, 'h, unit) derived_comp" where
  "delete_derived_partition_manifest env i v =
     seq_comp (lift_store (lookup_dataset i))
       (\<lambda>d s. case se_manifest_error (de_store env) (ps_attempts (dv_store s)) of
          Some e \<Rightarrow> (Inl (StoreRaised (ManifestFailure e)), s)
        | None \<Rightarrow> (Inr (), s\<lparr>dv_store := (dv_store s)\<lparr>ps_manifest := (ps_manifest (dv_store s))(partition_manifest_key d v := None)\<rparr>,
                            dv_marks := (dv_marks s)(partition_manifest_key d v := None)\<rparr>))"

text \<open>The rows of partitions that are gone are deleted one by one; that is one step here.\<close>

definition cleanup_stale_derived_manifests :: "('v, 'h) derived_env \<Rightarrow> string \<Rightarrow> ('v, 'h, unit) derived_comp" where
  "cleanup_stale_derived_manifests env i =
     seq_comp (lift_store (lookup_dataset i))
       (\<lambda>d s. case se_manifest_error (de_store env) (ps_attempts (dv_store s)) of
          Some e \<Rightarrow> (Inl (StoreRaised (ManifestFailure e)), s)
        | None \<Rightarrow>
            (let stale = (\<lambda>(j, c, v). j = i \<and> (j, c, v) = partition_manifest_key d v \<and> ps_files (dv_store s) (i, v) = None)
             in (Inr (), s\<lparr>dv_store := (dv_store s)\<lparr>ps_manifest := (\<lambda>k. if stale k then None else ps_manifest (dv_store s) k)\<rparr>,
                          dv_marks := (\<lambda>k. if stale k then None else dv_marks s k)\<rparr>)))"

section \<open>Signatures\<close>

definition MASTER_HASH_COLUMNS :: "string list" where
  "MASTER_HASH_COLUMNS =
     [''security_id'', ''code'', ''exchange'', ''name'', ''security_type'', ''baostock_code'', ''akshare_code'', ''qlib_symbol'',
      ''ipo_date'', ''delist_date'', ''listing_status'', ''is_active'']"

definition master_row_hash :: "('v, 'h) derived_env \<Rightarrow> 'v row \<Rightarrow> 'h" where
  "master_row_hash env security = de_master_digest env (map security MASTER_HASH_COLUMNS)"

definition source_signature :: "('v, 'h) derived_env \<Rightarrow> (string \<times> string \<times> string \<times> 'h) list \<Rightarrow> 'h \<Rightarrow> 'h" where
  "source_signature env rows master_hash =
     de_source_digest env master_hash (sort_key (\<lambda>(i, c, v, h). (i, c, v)) rows)"

fun source_partition_pairs_for_security ::
  "('v, 'h) derived_env \<Rightarrow> 'v row \<Rightarrow> (string \<times> string) list \<Rightarrow> ('v, 'h, (string \<times> string) list) derived_comp" where
  "source_partition_pairs_for_security env security [] s = (Inr [], s)"
| "source_partition_pairs_for_security env security ((i, code_field) # others) s =
     seq_comp (lift_store (lookup_dataset i))
       (\<lambda>d s. let code = clean_string (de_store env) (security code_field); rest = source_partition_pairs_for_security env security others
          in if ds_partition_column d = None \<or> code = [] then rest s
             else seq_comp (lift_store (dataset_path (de_store env) d (partition_of env d code)))
                    (\<lambda>path s. let present = (ps_files (dv_store s) path \<noteq> None)
                       in seq_comp rest (\<lambda>pairs. Pair (Inr (if present then (i, code) # pairs else pairs))) s) s) s"

definition manifest_row :: "('v, 'h) derived_env \<Rightarrow> dataset_definition \<Rightarrow> string \<Rightarrow> ('v, 'h) derived_state \<Rightarrow> 'h manifest_entry option" where
  "manifest_row env d v s = ps_manifest (dv_store s) (partition_manifest_key d v)"

fun source_manifest_rows ::
  "('v, 'h) derived_env \<Rightarrow> bool \<Rightarrow> (string \<times> string) list \<Rightarrow> ('v, 'h, (string \<times> string \<times> string \<times> 'h) list) derived_comp" where
  "source_manifest_rows env rebuild_missing [] s = (Inr [], s)"
| "source_manifest_rows env rebuild_missing ((i, v) # pairs) s =
     seq_comp (lift_store (lookup_dataset i))
       (\<lambda>d. seq_comp (\<lambda>s. if manifest_row env d v s = None \<and> rebuild_missing
             then rebuild_one_partition_manifest env i v True s else (Inr False, s))
       (\<lambda>_ s. case manifest_row env d v s of
          None \<Rightarrow> (Inl (MissingManifest i v), s)
        | Some e \<Rightarrow>
            (case partition_manifest_key d v of (j, c, w) \<Rightarrow>
               seq_comp (source_manifest_rows env rebuild_missing pairs) (\<lambda>rows. Pair (Inr ((j, c, w, me_semantic_hash e) # rows))) s))) s"

definition source_manifest_rows_for_pairs ::
  "('v, 'h) derived_env \<Rightarrow> bool \<Rightarrow> (string \<times> string) list \<Rightarrow> ('v, 'h, (string \<times> string \<times> string \<times> 'h) list) derived_comp" where
  "source_manifest_rows_for_pairs env rebuild_missing pairs = source_manifest_rows env rebuild_missing (dedup_first pairs)"

definition current_source_signature_for_security ::
  "('v, 'h) derived_env \<Rightarrow> 'v row \<Rightarrow> (string \<times> string) list \<Rightarrow>
   ('v, 'h, 'h \<times> 'h \<times> (string \<times> string \<times> string \<times> 'h) list) derived_comp" where
  "current_source_signature_for_security env security pairs =
     seq_comp (source_manifest_rows_for_pairs env True pairs)
       (\<lambda>rows. Pair (Inr (source_signature env rows (master_row_hash env security), master_row_hash env security, rows)))"

section \<open>Sources and rows of a target\<close>

definition TARGET_ORDER :: "string list" where "TARGET_ORDER = [''security_master'', ''daily_bar'', ''valuation'']"

definition DATASET_BY_TARGET :: "string dict" where
  "DATASET_BY_TARGET =
     [(''security_master'', ''cn_security_master''), (''daily_bar'', ''cn_stock_daily_bar''), (''valuation'', ''cn_stock_valuation'')]"

text \<open>The two targets that are built by security.\<close>

datatype target = DailyBar | Valuation

fun target_name :: "target \<Rightarrow> string" where
  "target_name DailyBar = ''daily_bar''"
| "target_name Valuation = ''valuation''"

fun target_dataset :: "target \<Rightarrow> string" where
  "target_dataset DailyBar = ''cn_stock_daily_bar''"
| "target_dataset Valuation = ''cn_stock_valuation''"

text \<open>The source datasets with the column of the master that holds the code: what the plan signs, in the order the rows are read.\<close>

fun target_sources :: "target \<Rightarrow> (string \<times> string) list" where
  "target_sources DailyBar =
     map (\<lambda>(i, a). (i, ''baostock_code'')) BAOSTOCK_DAILY_SOURCES @ map (\<lambda>(i, a). (i, ''akshare_code'')) AKSHARE_DAILY_SOURCES"
| "target_sources Valuation = [(AKSHARE_VALUATION_DATASET, ''akshare_code''), (BAOSTOCK_PERCENTILE_DATASET, ''baostock_code'')]"

definition VALUATION_COLUMNS :: "string list" where
  "VALUATION_COLUMNS =
     [''date'', ''security_id'', ''code'', ''exchange'', ''name'', ''close'', ''total_market_cap'', ''float_market_cap'', ''total_shares'',
      ''float_shares'', ''pe_ttm'', ''pe_static'', ''pb'', ''ps'', ''pcf'', ''source_dataset'', ''updated_at''] @ map snd PERCENTILE_MAPPINGS"

fun target_frame :: "target \<Rightarrow> 'v row list \<Rightarrow> 'v raw_frame" where
  "target_frame DailyBar rows = \<lparr>rf_columns = field_names CN_STOCK_DAILY_BAR_SCHEMA, rf_rows = rows\<rparr>"
| "target_frame Valuation rows = \<lparr>rf_columns = VALUATION_COLUMNS, rf_rows = rows\<rparr>"

fun materialize_target ::
  "('v, 'h) derived_env \<Rightarrow> target \<Rightarrow> (string \<Rightarrow> string \<Rightarrow> 'v row list) \<Rightarrow> 'v row \<Rightarrow> 'v \<Rightarrow> 'v row list" where
  "materialize_target env DailyBar src security updated_at = materialize_security_daily_bar (de_store env) src security updated_at"
| "materialize_target env Valuation src security updated_at =
     materialize_security_valuation (de_store env) (de_cells env) src security updated_at"

text \<open>
  \<open>read_partition_or_empty\<close>, and \<open>_read_partition_or_empty_cached\<close>, which asks the partitions listed when the build of the daily bars
  began.
\<close>

definition read_partition_or_empty ::
  "('v, 'h) derived_env \<Rightarrow> (string \<times> string \<Rightarrow> bool) option \<Rightarrow> string \<Rightarrow> string \<Rightarrow> ('v, 'h, 'v row list) derived_comp" where
  "read_partition_or_empty env cache i code =
     seq_comp (lift_store (lookup_dataset i))
       (\<lambda>d s. if ds_partition_column d = None then on_store (read_dataset (de_store env) d (i, [])) s
          else if \<not> (case cache of None \<Rightarrow> ps_files (dv_store s) (i, code) \<noteq> None | Some listed \<Rightarrow> listed (i, code)) then (Inr [], s)
          else seq_comp (lift_store (dataset_path (de_store env) d (partition_of env d code)))
                 (\<lambda>path. on_store (read_dataset (de_store env) d path)) s)"

definition source_requests :: "('v, 'h) derived_env \<Rightarrow> target \<Rightarrow> 'v row \<Rightarrow> (string \<times> string) list" where
  "source_requests env target security =
     filter (\<lambda>(i, code). code \<noteq> []) (map (\<lambda>(i, f). (i, clean_string (de_store env) (security f))) (target_sources target))"

definition rows_from :: "((string \<times> string) \<times> 'v row list) list \<Rightarrow> string \<Rightarrow> string \<Rightarrow> 'v row list" where
  "rows_from read i code = (case map_of read (i, code) of None \<Rightarrow> [] | Some rows \<Rightarrow> rows)"

definition materialize_security ::
  "('v, 'h) derived_env \<Rightarrow> target \<Rightarrow> (string \<times> string \<Rightarrow> bool) option \<Rightarrow> 'v row \<Rightarrow> 'v \<Rightarrow> ('v, 'h, 'v row list) derived_comp" where
  "materialize_security env target cache security updated_at =
     seq_comp (map_comp (\<lambda>(i, code). read_partition_or_empty env cache i code) (source_requests env target security))
       (\<lambda>frames. Pair (Inr (materialize_target env target (rows_from (zip (source_requests env target security) frames)) security updated_at)))"

section \<open>Staging and swapping\<close>

text \<open>A partition written to the staging store, which starts empty and whose ledger is the canonical one.\<close>

definition stage_partition ::
  "('v, 'h) derived_env \<Rightarrow> target \<Rightarrow> string \<Rightarrow> 'v row list \<Rightarrow> (string \<times> string \<Rightarrow> 'v row list option) \<Rightarrow>
   ('v, 'h, dataset_write_result \<times> (string \<times> string \<Rightarrow> 'v row list option)) derived_comp" where
  "stage_partition env target sid rows staged s =
     (case write_dataset ((de_store env)\<lparr>se_staging := True\<rparr>) (target_dataset target) (target_frame target rows)
             (Some [(''security_id'', Some (se_of_text (de_store env) sid))]) (Some Replace) False
             ((dv_store s)\<lparr>ps_files := staged, ps_legacy := []\<rparr>) of
        (r, p) \<Rightarrow>
          (case r of Inl e \<Rightarrow> Inl (StoreRaised e) | Inr res \<Rightarrow> Inr (res, ps_files p),
           s\<lparr>dv_store := (dv_store s)\<lparr>ps_attempts := ps_attempts p, ps_dirty := ps_dirty p\<rparr>\<rparr>))"

definition swap_files ::
  "('v, 'h) derived_env \<Rightarrow> string \<Rightarrow> (string \<times> string \<Rightarrow> bool) \<Rightarrow> (string \<times> string \<Rightarrow> 'v row list option) \<Rightarrow> ('v, 'h, unit) derived_comp" where
  "swap_files env i swapped staged s =
     (let swap = (\<lambda>new. s\<lparr>dv_store := (dv_store s)\<lparr>ps_files := (\<lambda>x. if swapped x then new x else ps_files (dv_store s) x)\<rparr>,
                          dv_swaps := Suc (dv_swaps s)\<rparr>)
      in case de_swap env (dv_swaps s) of
           Promoted \<Rightarrow> (Inr (), (swap staged)\<lparr>dv_built := List.insert i (dv_built s)\<rparr>)
         | Restored \<Rightarrow> (Inl SwapFailed, swap (ps_files (dv_store s)))
         | Lost \<Rightarrow> (Inl SwapFailed, swap (\<lambda>_. None)))"

definition commit_partition ::
  "('v, 'h) derived_env \<Rightarrow> string \<Rightarrow> string \<Rightarrow> (string \<times> string \<Rightarrow> 'v row list option) \<Rightarrow> ('v, 'h, unit) derived_comp" where
  "commit_partition env i sid staged = swap_files env i (\<lambda>x. x = (i, sid)) staged"

definition commit_dataset :: "('v, 'h) derived_env \<Rightarrow> string \<Rightarrow> (string \<times> string \<Rightarrow> 'v row list option) \<Rightarrow> ('v, 'h, unit) derived_comp" where
  "commit_dataset env i staged = swap_files env i (\<lambda>x. fst x = i) staged"

section \<open>The builders\<close>

definition read_master :: "('v, 'h) derived_env \<Rightarrow> ('v, 'h, 'v row list) derived_comp" where
  "read_master env =
     seq_comp (lift_store (lookup_dataset ''cn_security_master''))
       (\<lambda>d. on_store (read_dataset (de_store env) d (''cn_security_master'', [])))"

definition read_or_build_master :: "('v, 'h) derived_env \<Rightarrow> 'v \<Rightarrow> ('v, 'h, 'v row list) derived_comp" where
  "read_or_build_master env now =
     seq_comp (read_master env)
       (\<lambda>master s. if ps_files (dv_store s) (''cn_security_master'', []) = None \<or> master = []
          then seq_comp (on_store (build_security_master (de_store env) (de_cells env) now)) (\<lambda>_. read_master env) s
          else (Inr master, s))"

text \<open>The partitions listed by \<open>_build_daily_source_partition_cache\<close>; the valuation has no such cache.\<close>

definition source_partition_cache :: "target \<Rightarrow> ('v, 'h) derived_state \<Rightarrow> (string \<times> string \<Rightarrow> bool) option" where
  "source_partition_cache target s =
     (if target = DailyBar then Some (\<lambda>(i, v). ps_files (dv_store s) (i, v) \<noteq> None) else None)"

definition filter_master :: "('v, 'h) derived_env \<Rightarrow> target \<Rightarrow> (string \<times> string \<Rightarrow> bool) option \<Rightarrow> 'v row list \<Rightarrow> 'v row list" where
  "filter_master env target cache master =
     (case cache of
        None \<Rightarrow> master
      | Some listed \<Rightarrow> filter (\<lambda>security. list_ex (\<lambda>(i, code). listed (i, code)) (source_requests env target security)) master)"

record build_result =
  br_dataset :: string
  br_rows :: nat
  br_partitions :: nat

text \<open>One security of an incremental build: its partition is replaced, or deleted when its sources are gone.\<close>

definition build_partition ::
  "('v, 'h) derived_env \<Rightarrow> target \<Rightarrow> (string \<times> string \<Rightarrow> bool) option \<Rightarrow> 'v \<Rightarrow> 'v row \<Rightarrow> ('v, 'h, nat \<times> nat) derived_comp" where
  "build_partition env target cache updated_at security =
     (let sid = clean_string (de_store env) (security ''security_id''); i = target_dataset target
      in if sid = [] then Pair (Inr (0, 0))
         else seq_comp (materialize_security env target cache security updated_at)
           (\<lambda>rows. if rows = []
              then seq_comp (commit_partition env i sid (\<lambda>_. None))
                     (\<lambda>_. seq_comp (delete_derived_partition_manifest env i sid) (\<lambda>_. Pair (Inr (0, 0))))
              else
                seq_comp (source_partition_pairs_for_security env security (target_sources target))
                  (\<lambda>pairs. seq_comp (current_source_signature_for_security env security pairs)
                  (\<lambda>(signature, master_hash, _). seq_comp (stage_partition env target sid rows (\<lambda>_. None))
                  (\<lambda>(result, staged). seq_comp (commit_partition env i sid staged)
                  (\<lambda>_. seq_comp (upsert_written_dataset_partition_manifest env i (target_frame target rows)
                          (Some [(''security_id'', Some (se_of_text (de_store env) sid))]) (Some (signature, master_hash)))
                  (\<lambda>_. Pair (Inr (wr_row_count result, wr_updated result)))))))))"

definition build_partitions :: "('v, 'h) derived_env \<Rightarrow> target \<Rightarrow> string list \<Rightarrow> 'v \<Rightarrow> 'v \<Rightarrow> ('v, 'h, build_result) derived_comp" where
  "build_partitions env target ids master_now updated_at =
     (if ids = [] then Pair (Inr \<lparr>br_dataset = target_dataset target, br_rows = 0, br_partitions = 0\<rparr>)
      else seq_comp (read_or_build_master env master_now)
        (\<lambda>master s. seq_comp
           (map_comp (build_partition env target (source_partition_cache target s) updated_at)
              (filter (\<lambda>security. map_option (se_text (de_store env)) (security ''security_id'') \<in> Some ` set ids) master))
           (\<lambda>counts. Pair (Inr \<lparr>br_dataset = target_dataset target, br_rows = sum_list (map fst counts),
                                br_partitions = sum_list (map snd counts)\<rparr>)) s))"

text \<open>A full build stages every partition, then swaps the whole dataset.\<close>

type_synonym ('v, 'h) signed_frames = "('h \<times> 'h \<times> 'v row list) dict"

fun stage_securities ::
  "('v, 'h) derived_env \<Rightarrow> target \<Rightarrow> (string \<times> string \<Rightarrow> bool) option \<Rightarrow> 'v \<Rightarrow> 'v row list \<Rightarrow>
   (string \<times> string \<Rightarrow> 'v row list option) \<Rightarrow> ('v, 'h) signed_frames \<Rightarrow> nat \<times> nat \<Rightarrow>
   ('v, 'h, (string \<times> string \<Rightarrow> 'v row list option) \<times> ('v, 'h) signed_frames \<times> nat \<times> nat) derived_comp" where
  "stage_securities env target cache updated_at [] staged signatures counts s = (Inr (staged, signatures, counts), s)"
| "stage_securities env target cache updated_at (security # securities) staged signatures counts s =
     (let sid = clean_string (de_store env) (security ''security_id'')
      in if sid = [] then stage_securities env target cache updated_at securities staged signatures counts s
         else seq_comp (materialize_security env target cache security updated_at)
           (\<lambda>rows. if rows = [] then stage_securities env target cache updated_at securities staged signatures counts
              else seq_comp (source_partition_pairs_for_security env security (target_sources target))
                (\<lambda>pairs. seq_comp (current_source_signature_for_security env security pairs)
                (\<lambda>(signature, master_hash, _). seq_comp (stage_partition env target sid rows staged)
                (\<lambda>(result, staged').
                   stage_securities env target cache updated_at securities staged' (dict_set signatures sid (signature, master_hash, rows))
                     (fst counts + wr_row_count result, snd counts + wr_updated result))))) s)"

fun mark_partitions :: "('v, 'h) derived_env \<Rightarrow> target \<Rightarrow> ('v, 'h) signed_frames \<Rightarrow> ('v, 'h, unit) derived_comp" where
  "mark_partitions env target [] s = (Inr (), s)"
| "mark_partitions env target ((sid, signature, master_hash, rows) # rest) s =
     seq_comp (upsert_written_dataset_partition_manifest env (target_dataset target) (target_frame target rows)
        (Some [(''security_id'', Some (se_of_text (de_store env) sid))]) (Some (signature, master_hash)))
       (\<lambda>_. mark_partitions env target rest) s"

definition build_full :: "('v, 'h) derived_env \<Rightarrow> target \<Rightarrow> 'v \<Rightarrow> 'v \<Rightarrow> ('v, 'h, build_result) derived_comp" where
  "build_full env target master_now updated_at =
     seq_comp (read_or_build_master env master_now)
       (\<lambda>master s. seq_comp
          (stage_securities env target (source_partition_cache target s) updated_at
             (filter_master env target (source_partition_cache target s) master) (\<lambda>_. None) [] (0, 0))
          (\<lambda>(staged, signatures, rows, partitions). seq_comp (commit_dataset env (target_dataset target) staged)
          (\<lambda>_. seq_comp (mark_partitions env target signatures)
          (\<lambda>_. seq_comp (cleanup_stale_derived_manifests env (target_dataset target))
          (\<lambda>_. Pair (Inr \<lparr>br_dataset = target_dataset target, br_rows = rows, br_partitions = partitions\<rparr>))))) s)"

section \<open>The plan of an incremental build\<close>

text \<open>This module's \<open>_clean_string\<close> does not know pandas' null, whose text is \<open><NA>\<close>.\<close>

definition plan_string :: "('v, 'h) store_env \<Rightarrow> 'v option \<Rightarrow> string" where
  "plan_string env v = (case v of None \<Rightarrow> ''<NA>'' | Some x \<Rightarrow> py_strip (se_text env x))"

text \<open>
  \<open>known\<close> is the target's ledger row, with its marks, as read when the plan began; \<open>since\<close> tells which ledger rows were
  updated at or after \<open>changed_since\<close>.
\<close>

definition security_changed ::
  "('v, 'h) derived_env \<Rightarrow> target \<Rightarrow> (string \<Rightarrow> ('h \<times> 'h) option option) \<Rightarrow> (string \<times> string \<times> string \<Rightarrow> bool) \<Rightarrow> 'v row \<Rightarrow>
   ('v, 'h, bool) derived_comp" where
  "security_changed env target known since security =
     (let sid = plan_string (de_store env) (security ''security_id'')
      in if sid = [] then Pair (Inr False)
         else seq_comp (source_partition_pairs_for_security env security (target_sources target))
           (\<lambda>pairs. seq_comp (lift_store (lookup_dataset (target_dataset target)))
           (\<lambda>d. seq_comp (lift_store (dataset_path (de_store env) d (partition_of env d sid)))
           (\<lambda>path s. let target_exists = (ps_files (dv_store s) path \<noteq> None)
              in if pairs = [] then (Inr target_exists, s)
                 else if \<not> target_exists then (Inr True, s)
                 else seq_comp (current_source_signature_for_security env security pairs)
                   (\<lambda>(signature, master_hash, rows). Pair (Inr
                      (case known sid of
                         None \<Rightarrow> True
                       | Some None \<Rightarrow> True
                       | Some (Some (target_signature, target_master_hash)) \<Rightarrow>
                           signature \<noteq> target_signature \<or> master_hash \<noteq> target_master_hash \<or>
                           list_ex (\<lambda>(i, c, v, h). since (i, c, v)) rows))) s))))"

definition known_marks :: "('v, 'h) derived_env \<Rightarrow> target \<Rightarrow> ('v, 'h) derived_state \<Rightarrow> string \<Rightarrow> ('h \<times> 'h) option option" where
  "known_marks env target s sid =
     (let k = (target_dataset target, ''security_id'', sid)
      in if ps_manifest (dv_store s) k = None then None else Some (dv_marks s k))"

definition changed_security_ids_for_target ::
  "('v, 'h) derived_env \<Rightarrow> target \<Rightarrow> (string \<times> string \<times> string \<Rightarrow> bool) \<Rightarrow> 'v row list \<Rightarrow> ('v, 'h, string list) derived_comp" where
  "changed_security_ids_for_target env target since master s =
     seq_comp (map_comp (security_changed env target (known_marks env target s) since) master)
       (\<lambda>flags. Pair (Inr (sort (remdups (map (\<lambda>(security, _). plan_string (de_store env) (security ''security_id''))
          (filter snd (zip master flags))))))) s"

record incremental_plan =
  ip_ids :: "(target \<times> string list) list"
  ip_full :: "target list"

fun plan_targets ::
  "('v, 'h) derived_env \<Rightarrow> (string \<times> string \<times> string \<Rightarrow> bool) \<Rightarrow> 'v row list \<Rightarrow> target list \<Rightarrow> ('v, 'h, incremental_plan) derived_comp" where
  "plan_targets env since master [] s = (Inr \<lparr>ip_ids = [], ip_full = []\<rparr>, s)"
| "plan_targets env since master (target # targets) s =
     (let full = seq_comp (plan_targets env since master targets) (\<lambda>plan. Pair (Inr (plan\<lparr>ip_full := target # ip_full plan\<rparr>)))
      in if target_dataset target \<notin> set (dv_built s) then full s
         else case changed_security_ids_for_target env target since master s of
                (Inl (MissingManifest i v), s') \<Rightarrow> full s'
              | (Inl e, s') \<Rightarrow> (Inl e, s')
              | (Inr ids, s') \<Rightarrow>
                  seq_comp (plan_targets env since master targets)
                    (\<lambda>plan. Pair (Inr (plan\<lparr>ip_ids := (target, ids) # ip_ids plan\<rparr>))) s')"

definition resolve_incremental_plan ::
  "('v, 'h) derived_env \<Rightarrow> target list \<Rightarrow> string list \<Rightarrow> (string \<times> string \<times> string \<Rightarrow> bool) \<Rightarrow> ('v, 'h, incremental_plan) derived_comp" where
  "resolve_incremental_plan env targets explicit since =
     (if targets = [] then Pair (Inr \<lparr>ip_ids = [], ip_full = []\<rparr>)
      else if explicit \<noteq> [] then Pair (Inr \<lparr>ip_ids = map (\<lambda>t. (t, explicit)) targets, ip_full = []\<rparr>)
      else seq_comp (read_master env)
        (\<lambda>master. if master = [] then Pair (Inr \<lparr>ip_ids = [], ip_full = targets\<rparr>) else plan_targets env since master targets))"

section \<open>The entry point\<close>

definition expand_targets :: "string list \<Rightarrow> string list \<Rightarrow> derived_error + string list" where
  "expand_targets targets exclude_targets =
     (case filter (\<lambda>t. t \<noteq> ''daily_bar'') exclude_targets of
        t # _ \<Rightarrow> Inl (ArgumentRejected (''Unsupported derived exclude target: '' @ t))
      | [] \<Rightarrow>
          if ''daily_bar'' \<in> set exclude_targets \<and> ''daily_bar'' \<in> set targets
          then Inl (ArgumentRejected ''cannot exclude explicitly requested target: daily_bar'')
          else (case filter (\<lambda>t. t \<noteq> ''all'' \<and> t \<notin> set TARGET_ORDER) targets of
                  t # _ \<Rightarrow> Inl (ArgumentRejected (''Unsupported derived target: '' @ t))
                | [] \<Rightarrow> Inr (filter (\<lambda>t. (''all'' \<in> set targets \<or> t \<in> set targets) \<and> t \<notin> set exclude_targets) TARGET_ORDER)))"

definition normalize_security_ids :: "string list \<Rightarrow> string list" where
  "normalize_security_ids ids = dedup_first (map (\<lambda>t. py_upper (py_strip t)) (filter (\<lambda>t. py_strip t \<noteq> []) ids))"

datatype build_mode = Full | Incremental

text \<open>\<open>None\<close>: every security; otherwise only these.\<close>

definition target_security_ids :: "target \<Rightarrow> build_mode \<Rightarrow> incremental_plan \<Rightarrow> string list option" where
  "target_security_ids target mode plan =
     (if mode = Full \<or> target \<in> set (ip_full plan) then None
      else Some (case map_of (ip_ids plan) target of None \<Rightarrow> [] | Some ids \<Rightarrow> ids))"

text \<open>The two modules, whose builders are the same code but for the target.\<close>

definition build_cn_stock_daily_bar_partitions ::
  "('v, 'h) derived_env \<Rightarrow> string list \<Rightarrow> 'v \<Rightarrow> 'v \<Rightarrow> ('v, 'h, build_result) derived_comp" where
  "build_cn_stock_daily_bar_partitions env = build_partitions env DailyBar"

definition build_cn_stock_daily_bar ::
  "('v, 'h) derived_env \<Rightarrow> string list option \<Rightarrow> 'v \<Rightarrow> 'v \<Rightarrow> ('v, 'h, build_result) derived_comp" where
  "build_cn_stock_daily_bar env ids master_now updated_at =
     (case ids of
        None \<Rightarrow> build_full env DailyBar master_now updated_at
      | Some is \<Rightarrow> build_cn_stock_daily_bar_partitions env is master_now updated_at)"

definition build_cn_stock_valuation_partitions ::
  "('v, 'h) derived_env \<Rightarrow> string list \<Rightarrow> 'v \<Rightarrow> 'v \<Rightarrow> ('v, 'h, build_result) derived_comp" where
  "build_cn_stock_valuation_partitions env = build_partitions env Valuation"

definition build_cn_stock_valuation ::
  "('v, 'h) derived_env \<Rightarrow> string list option \<Rightarrow> 'v \<Rightarrow> 'v \<Rightarrow> ('v, 'h, build_result) derived_comp" where
  "build_cn_stock_valuation env ids master_now updated_at =
     (case ids of
        None \<Rightarrow> build_full env Valuation master_now updated_at
      | Some is \<Rightarrow> build_cn_stock_valuation_partitions env is master_now updated_at)"

fun builder ::
  "('v, 'h) derived_env \<Rightarrow> target \<Rightarrow> string list option \<Rightarrow> 'v \<Rightarrow> 'v \<Rightarrow> ('v, 'h, build_result) derived_comp" where
  "builder env DailyBar = build_cn_stock_daily_bar env"
| "builder env Valuation = build_cn_stock_valuation env"

lemma builder_cases:
  "builder env target ids master_now updated_at =
     (case ids of None \<Rightarrow> build_full env target master_now updated_at | Some is \<Rightarrow> build_partitions env target is master_now updated_at)"
  by (cases target; cases ids)
     (simp_all add: build_cn_stock_daily_bar_def build_cn_stock_valuation_def build_cn_stock_daily_bar_partitions_def
        build_cn_stock_valuation_partitions_def)

definition security_master_result :: "('v, 'h) derived_env \<Rightarrow> 'v \<Rightarrow> ('v, 'h, build_result) derived_comp" where
  "security_master_result env now =
     seq_comp (on_store (build_security_master (de_store env) (de_cells env) now))
       (\<lambda>r. Pair (Inr \<lparr>br_dataset = ''cn_security_master'', br_rows = mb_rows r, br_partitions = 1\<rparr>))"

text \<open>
  The master first, then, once, the plan, then the two targets in order. Every builder calls the clock itself; \<open>clock\<close>
  gives the times of the master, of a master built for want of one, and of the rows of each target.
\<close>

record 'v build_clock =
  bc_master :: 'v
  bc_late_master :: 'v
  bc_rows :: "target \<Rightarrow> 'v"

fun build_targets ::
  "('v, 'h) derived_env \<Rightarrow> build_mode \<Rightarrow> incremental_plan \<Rightarrow> 'v build_clock \<Rightarrow> target list \<Rightarrow> ('v, 'h, build_result list) derived_comp" where
  "build_targets env mode plan clock [] s = (Inr [], s)"
| "build_targets env mode plan clock (target # targets) s =
     seq_comp (builder env target (target_security_ids target mode plan) (bc_late_master clock) (bc_rows clock target))
       (\<lambda>r. seq_comp (build_targets env mode plan clock targets) (\<lambda>rs. Pair (Inr (r # rs)))) s"

definition build_derived_datasets ::
  "('v, 'h) derived_env \<Rightarrow> string list \<Rightarrow> string list \<Rightarrow> bool \<Rightarrow> build_mode \<Rightarrow> string list \<Rightarrow>
   (string \<times> string \<times> string \<Rightarrow> bool) \<Rightarrow> 'v build_clock \<Rightarrow> ('v, 'h, build_result list) derived_comp" where
  "build_derived_datasets env targets exclude_targets include_security_master mode security_ids since clock =
     (let ids = normalize_security_ids security_ids
      in if mode = Full \<and> ids \<noteq> [] then Pair (Inl (ArgumentRejected ''--security-id is only supported with --mode incremental''))
         else case expand_targets targets exclude_targets of
           Inl e \<Rightarrow> Pair (Inl e)
         | Inr expanded \<Rightarrow>
             let wanted = filter (\<lambda>t. target_name t \<in> set expanded) [DailyBar, Valuation];
                 with_master = (''security_master'' \<in> set expanded \<or> include_security_master \<and> wanted \<noteq> [])
             in seq_comp (if with_master then seq_comp (security_master_result env (bc_master clock)) (\<lambda>r. Pair (Inr [r])) else Pair (Inr []))
                  (\<lambda>masters. seq_comp (if mode = Incremental \<and> wanted \<noteq> [] then resolve_incremental_plan env wanted ids since
                                       else Pair (Inr \<lparr>ip_ids = [], ip_full = []\<rparr>))
                  (\<lambda>plan. seq_comp (build_targets env mode plan clock wanted) (\<lambda>rs. Pair (Inr (masters @ rs))))))"

end
