(* ===== verification/Derived_Marks.thy ===== *)
theory Derived_Marks imports Derived_Build begin

text \<open>
  What the steps of \<open>Derived_Build\<close> do to a store, as rules on their outcome, and what the marks of a partition say: the signature
  of its sources and the hash of its master row determine the rows a build makes, so that a partition whose marks still match need not be
  built again. The digests are taken to be injective on the contents they are made of.
\<close>

section \<open>Rules for the steps\<close>

text \<open>The outcome of a run, so that conditions on the state reduce as they stand.\<close>

definition outcome :: "('e + 'a) \<times> 's \<Rightarrow> ('a \<Rightarrow> 's \<Rightarrow> bool) \<Rightarrow> ('e \<Rightarrow> 's \<Rightarrow> bool) \<Rightarrow> bool" where
  "outcome r Q E = (case r of (Inr x, s) \<Rightarrow> Q x s | (Inl e, s) \<Rightarrow> E e s)"

lemma wp_outcome: "wp m s Q E = outcome (m s) Q E"
  by (simp add: wp_def outcome_def)

lemma outcome_simps [simp]:
  "outcome (Inr x, s) Q E = Q x s"
  "outcome (Inl e, s) Q E = E e s"
  "outcome (seq_comp m f s) Q E = outcome (m s) (\<lambda>x s'. outcome (f x s') Q E) E"
  "outcome (on_store n t) R F = outcome (n (dv_store t)) (\<lambda>x p. R x (t\<lparr>dv_store := p\<rparr>)) (\<lambda>e p. F (StoreRaised e) (t\<lparr>dv_store := p\<rparr>))"
  "outcome (lift_store r t) R F = (case r of Inl e \<Rightarrow> F (StoreRaised e) t | Inr x \<Rightarrow> R x t)"
  by (auto simp: outcome_def seq_comp_def on_store_def lift_store_def lift_res_def split: prod.splits sum.splits)

lemma outcome_if [simp]: "outcome (if b then x else y) Q E = (if b then outcome x Q E else outcome y Q E)"
  by simp

lemma outcome_mono:
  "outcome r Q E \<Longrightarrow> (\<And>x s. Q x s \<Longrightarrow> Q' x s) \<Longrightarrow> (\<And>e s. E e s \<Longrightarrow> E' e s) \<Longrightarrow> outcome r Q' E'"
  by (auto simp: outcome_def split: prod.splits sum.splits)

text \<open>Only counters may differ; the error is not one of the ledger.\<close>

definition calm :: "('v, 'h) derived_state \<Rightarrow> ('v, 'h) derived_state \<Rightarrow> bool" where
  "calm s s' \<longleftrightarrow> same_data (dv_store s) (dv_store s') \<and> dv_marks s' = dv_marks s \<and> dv_built s' = dv_built s"

definition not_ledger :: "derived_error \<Rightarrow> bool" where
  "not_ledger e \<longleftrightarrow> (\<forall>m. e \<noteq> StoreRaised (ManifestFailure m))"

lemma calm_refl [simp]: "calm s s"
  by (simp add: calm_def)

lemma calm_trans: "calm s t \<Longrightarrow> calm t u \<Longrightarrow> calm s u"
  by (simp add: calm_def same_data_def)

lemma calm_store: "same_data (dv_store s) p \<Longrightarrow> calm s (s\<lparr>dv_store := p\<rparr>)"
  by (simp add: calm_def)

lemma calm_files: "calm s s' \<Longrightarrow> ps_files (dv_store s') = ps_files (dv_store s)"
  by (simp add: calm_def same_data_def)

lemma calm_files_ok: "calm s s' \<Longrightarrow> files_ok env (dv_store s') = files_ok env (dv_store s)"
  by (simp add: calm_def same_data_ok)

lemma lookup_dataset: "dataset_definition_of i = Inr d \<Longrightarrow> lookup_dataset i = Inr d"
  by (simp add: lookup_dataset_def)

lemma lookup_dataset_Inr: "lookup_dataset i = Inr d \<Longrightarrow> dataset_definition_of i = Inr d"
  by (auto simp: lookup_dataset_def split: sum.splits)

lemma lookup_not_ledger: "lookup_dataset i = Inl e \<Longrightarrow> not_ledger (StoreRaised e)"
  by (auto simp: lookup_dataset_def not_ledger_def split: sum.splits)

lemma normalize_partition_not_ledger: "normalize_partition_value env d c v = Inl e \<Longrightarrow> \<forall>m. e \<noteq> ManifestFailure m"
  by (auto simp: normalize_partition_value_def akshare_partition_code_def Let_def split: if_splits option.splits)

lemma partition_not_ledger: "dataset_path env d p = Inl e \<Longrightarrow> not_ledger (StoreRaised e)"
  by (auto simp: dataset_path_def partition_value_def Let_def not_ledger_def normalize_partition_not_ledger
      split: if_splits option.splits list.splits)

lemma prepare_not_ledger: "prepare_dataset_frame env d df p b = Inl e \<Longrightarrow> not_ledger (StoreRaised e)"
proof -
  have fixd: "apply_fixed_column_values env cs rows = Inl e \<Longrightarrow> e \<noteq> ManifestFailure m" for cs rows m e
  proof (induction cs arbitrary: rows)
    case (Cons ce cs)
    then show ?case by (cases ce) (auto simp: fix_cell_def Let_def bind_res_Inl dest!: traverse_Inl split: if_splits)
  qed simp
  assume "prepare_dataset_frame env d df p b = Inl e"
  then show ?thesis
    using clean_not_manifest [of env "ds_schema d" df] fixd [of "ds_fixed_column_values d"] partition_not_ledger [of env d p]
    by (auto simp: prepare_dataset_frame_def not_ledger_def require_partition_value_def dataset_path_def bind_res_Inl
        split: if_splits option.splits)
qed

text \<open>A stripped code is its own partition.\<close>

lemma partition_path:
  assumes "env_ok (de_store env)" and "ds_partition_column d = Some c" and "dataset_path (de_store env) d (partition_of env d v) = Inr path"
    and "py_strip v = v"
  shows "path = (ds_id d, v)"
  using assms
  by (auto simp: dataset_path_def partition_value_def partition_of_def normalize_partition_value_def akshare_partition_code_def env_ok_def Let_def
      split: if_splits)

text \<open>The sources of the targets are partitioned by code and are no targets.\<close>

definition source_ok :: "string \<Rightarrow> bool" where
  "source_ok i \<longleftrightarrow> (case dataset_definition_of i of Inl e \<Rightarrow> False
     | Inr d \<Rightarrow> ds_partition_column d = Some ''code'' \<and> ds_source d \<noteq> ''derived'')"

lemma sources_ok: "(i, f) \<in> set (target_sources target) \<Longrightarrow> source_ok i"
proof -
  have "list_all (\<lambda>(i, f). source_ok i) (target_sources DailyBar)" "list_all (\<lambda>(i, f). source_ok i) (target_sources Valuation)"
    by code_simp+
  then show "(i, f) \<in> set (target_sources target) \<Longrightarrow> source_ok i" by (cases target) (auto simp only: list_all_iff)
qed

lemma source_definition:
  "source_ok i \<Longrightarrow> \<exists>d. dataset_definition_of i = Inr d \<and> ds_id d = i \<and> ds_partition_column d = Some ''code''"
  by (auto simp: source_ok_def split: sum.splits dest: definition_text_columns)

lemma source_no_target: "source_ok i \<Longrightarrow> i \<noteq> target_dataset t \<and> i \<noteq> ''cn_security_master''"
proof -
  have "\<not> source_ok ''cn_stock_daily_bar''" "\<not> source_ok ''cn_stock_valuation''" "\<not> source_ok ''cn_security_master''" by code_simp+
  then show "source_ok i \<Longrightarrow> i \<noteq> target_dataset t \<and> i \<noteq> ''cn_security_master''" by (cases t) auto
qed

lemma source_ids_distinct: "distinct (map fst (target_sources target))"
proof -
  have "distinct (map fst (target_sources DailyBar))" "distinct (map fst (target_sources Valuation))" by code_simp+
  then show ?thesis by (cases target) simp_all
qed

lemma requests_mem:
  "(i, c) \<in> set (source_requests env target security) \<longleftrightarrow>
     (\<exists>f. (i, f) \<in> set (target_sources target) \<and> c = clean_string (de_store env) (security f) \<and> c \<noteq> [])"
  by (auto simp: source_requests_def)

lemma clean_string_strip [simp]: "py_strip (clean_string env v) = clean_string env v"
proof -
  have "py_strip [] = []" by code_simp
  then show ?thesis by (cases v) (simp_all add: clean_string_def)
qed

lemma read_source_wp:
  assumes "env_ok (de_store env)" and "files_ok (de_store env) (dv_store s)" and "source_ok i" and "py_strip c = c"
    and "case cache of None \<Rightarrow> True | Some listed \<Rightarrow> listed (i, c) = (ps_files (dv_store s) (i, c) \<noteq> None)"
  shows "outcome (read_partition_or_empty env cache i c s) (\<lambda>rows s'. rows = stored_rows (dv_store s) (i, c) \<and> calm s s')
    (\<lambda>e s'. not_ledger e \<and> calm s s')"
proof -
  obtain d where d: "dataset_definition_of i = Inr d" "ds_id d = i" "ds_partition_column d = Some ''code''"
    using source_definition [OF assms(3)] by blast
  have listed: "(case cache of None \<Rightarrow> ps_files (dv_store s) (i, c) \<noteq> None | Some listed \<Rightarrow> listed (i, c)) = (ps_files (dv_store s) (i, c) \<noteq> None)"
    using assms(5) by (cases cache) auto
  have read: "outcome (read_dataset (de_store env) d (i, c) (dv_store s))
      (\<lambda>rows p. rows = stored_rows (dv_store s) (i, c) \<and> calm s (s\<lparr>dv_store := p\<rparr>)) (\<lambda>e p. not_ledger (StoreRaised e) \<and> calm s (s\<lparr>dv_store := p\<rparr>))"
    using read_dataset_wp [OF assms(2), of "(i, c)" d] d(1)
    by (auto simp: wp_outcome not_ledger_def elim!: outcome_mono intro: calm_store)
  have path: "path = (i, c)" if "dataset_path (de_store env) d (partition_of env d c) = Inr path" for path
    using partition_path [OF assms(1) d(3) that assms(4)] d(2) by simp
  show ?thesis
  proof (cases "ps_files (dv_store s) (i, c) = None")
    case True
    then show ?thesis by (simp add: read_partition_or_empty_def lookup_dataset [OF d(1)] d(3) listed stored_rows_def)
  next
    case False
    then show ?thesis
      using partition_not_ledger path
      by (cases "dataset_path (de_store env) d (partition_of env d c)")
         (auto simp: read_partition_or_empty_def lookup_dataset [OF d(1)] d(3) listed read simp del: not_None_eq)
  qed
qed

lemma map_comp_outcome:
  assumes "\<And>x t. x \<in> set xs \<Longrightarrow> calm s t \<Longrightarrow> outcome (f x t) (\<lambda>y t'. y = g x \<and> calm s t') (\<lambda>e t'. not_ledger e \<and> calm s t')"
  shows "calm s t \<Longrightarrow> outcome (map_comp f xs t) (\<lambda>ys t'. ys = map g xs \<and> calm s t') (\<lambda>e t'. not_ledger e \<and> calm s t')"
  using assms
proof (induction xs arbitrary: t)
  case (Cons x xs)
  show ?case
    unfolding map_comp.simps outcome_simps
    by (rule outcome_mono [OF Cons.prems(2) [OF _ Cons.prems(1)]]) (auto intro!: outcome_mono [OF Cons.IH] intro: Cons.prems(2))
qed simp

text \<open>The rows depend on the sources only through the requested partitions.\<close>

lemma materialize_requests:
  assumes "\<And>i c. (i, c) \<in> set (source_requests env target security) \<Longrightarrow> src i c = src' i c"
  shows "materialize_target env target src security t = materialize_target env target src' security t"
proof (cases target)
  case DailyBar
  have b: "src i (clean_string (de_store env) (security ''baostock_code'')) = src' i (clean_string (de_store env) (security ''baostock_code''))"
    if "clean_string (de_store env) (security ''baostock_code'') \<noteq> []" "(i, a) \<in> set BAOSTOCK_DAILY_SOURCES" for i a
    using assms that DailyBar by (force simp: requests_mem)
  have a: "src i (clean_string (de_store env) (security ''akshare_code'')) = src' i (clean_string (de_store env) (security ''akshare_code''))"
    if "clean_string (de_store env) (security ''akshare_code'') \<noteq> []" "(i, a) \<in> set AKSHARE_DAILY_SOURCES" for i a
    using assms that DailyBar by (force simp: requests_mem)
  have "map (\<lambda>(d, a). map (map_baostock_daily (de_store env) d a security t) (src d (clean_string (de_store env) (security ''baostock_code''))))
      BAOSTOCK_DAILY_SOURCES =
    map (\<lambda>(d, a). map (map_baostock_daily (de_store env) d a security t) (src' d (clean_string (de_store env) (security ''baostock_code''))))
      BAOSTOCK_DAILY_SOURCES" if "clean_string (de_store env) (security ''baostock_code'') \<noteq> []"
    using b [OF that] by (intro map_cong refl) auto
  moreover have "map (\<lambda>(d, a). map (map_akshare_daily (de_store env) d a security t) (src d (clean_string (de_store env) (security ''akshare_code''))))
      AKSHARE_DAILY_SOURCES =
    map (\<lambda>(d, a). map (map_akshare_daily (de_store env) d a security t) (src' d (clean_string (de_store env) (security ''akshare_code''))))
      AKSHARE_DAILY_SOURCES" if "clean_string (de_store env) (security ''akshare_code'') \<noteq> []"
    using a [OF that] by (intro map_cong refl) auto
  ultimately show ?thesis unfolding DailyBar materialize_target.simps materialize_security_daily_bar_def Let_def
    by (cases "clean_string (de_store env) (security ''baostock_code'') = []"; cases "clean_string (de_store env) (security ''akshare_code'') = []")
       (simp_all only: if_True if_False simp_thms)
next
  case Valuation
  let ?a = "clean_string (de_store env) (security ''akshare_code'')" and ?b = "clean_string (de_store env) (security ''baostock_code'')"
  have "(if ?a = [] then [] else src AKSHARE_VALUATION_DATASET ?a) = (if ?a = [] then [] else src' AKSHARE_VALUATION_DATASET ?a)"
    "(if ?b = [] then [] else src BAOSTOCK_PERCENTILE_DATASET ?b) = (if ?b = [] then [] else src' BAOSTOCK_PERCENTILE_DATASET ?b)"
    using Valuation assms by (auto simp: requests_mem)
  then show ?thesis unfolding Valuation materialize_target.simps materialize_security_valuation_def Let_def by (simp only:)
qed

definition cache_ok :: "(string \<times> string \<Rightarrow> bool) option \<Rightarrow> ('v, 'h) derived_state \<Rightarrow> bool" where
  "cache_ok cache s \<longleftrightarrow>
     (case cache of None \<Rightarrow> True | Some listed \<Rightarrow> \<forall>i c. source_ok i \<longrightarrow> listed (i, c) = (ps_files (dv_store s) (i, c) \<noteq> None))"

definition source_rows :: "(string \<times> string \<Rightarrow> 'v row list option) \<Rightarrow> string \<Rightarrow> string \<Rightarrow> 'v row list" where
  "source_rows files i c = (case files (i, c) of None \<Rightarrow> [] | Some rows \<Rightarrow> rows)"

lemma source_rows_stored: "source_rows (ps_files p) i c = stored_rows p (i, c)"
  by (simp add: source_rows_def stored_rows_def)

lemma materialize_outcome:
  assumes "env_ok (de_store env)" and "files_ok (de_store env) (dv_store s)" and "cache_ok cache s"
  shows "outcome (materialize_security env target cache security now s)
    (\<lambda>rows s'. rows = materialize_target env target (source_rows (ps_files (dv_store s))) security now \<and> calm s s')
    (\<lambda>e s'. not_ledger e \<and> calm s s')"
proof -
  let ?r = "source_requests env target security"
  have req: "source_ok i \<and> py_strip c = c" if "(i, c) \<in> set ?r" for i c
    using that sources_ok by (auto simp: requests_mem)
  have read: "outcome (map_comp (\<lambda>(i, c). read_partition_or_empty env cache i c) ?r s)
      (\<lambda>frames t. frames = map (stored_rows (dv_store s)) ?r \<and> calm s t) (\<lambda>e t. not_ledger e \<and> calm s t)"
  proof (rule map_comp_outcome)
    fix x and t :: "('a, 'b) derived_state" assume x: "x \<in> set ?r" and t: "calm s t"
    obtain i c where ic: "x = (i, c)" by force
    have t_ok: "files_ok (de_store env) (dv_store t)" using assms(2) calm_files_ok [OF t] by blast
    have "case cache of None \<Rightarrow> True | Some listed \<Rightarrow> listed (i, c) = (ps_files (dv_store t) (i, c) \<noteq> None)"
      using assms(3) req x ic calm_files [OF t] by (auto simp: cache_ok_def split: option.splits)
    from read_source_wp [OF assms(1) t_ok _ _ this] req x ic calm_files [OF t]
    show "outcome ((case x of (i, c) \<Rightarrow> read_partition_or_empty env cache i c) t)
        (\<lambda>y t'. y = stored_rows (dv_store s) x \<and> calm s t') (\<lambda>e t'. not_ledger e \<and> calm s t')"
      by (auto elim!: outcome_mono simp: stored_rows_def intro: calm_trans [OF t])
  qed simp
  have lookup: "rows_from (zip ?r (map (stored_rows (dv_store s)) ?r)) i c = source_rows (ps_files (dv_store s)) i c"
    if "(i, c) \<in> set ?r" for i c
  proof -
    have "map_of (zip xs (map f xs)) x = Some (f x)" if "x \<in> set xs" for f :: "string \<times> string \<Rightarrow> 'a row list" and xs x
      using that by (induction xs) auto
    from this [OF that] show ?thesis by (simp add: rows_from_def source_rows_stored)
  qed
  show ?thesis
    unfolding materialize_security_def outcome_simps
    by (rule outcome_mono [OF read]) (auto intro!: materialize_requests lookup)
qed

section \<open>Marks\<close>

definition source_schema :: "string \<Rightarrow> arrow_schema" where
  "source_schema i = (case dataset_definition_of i of Inl e \<Rightarrow> [] | Inr d \<Rightarrow> ds_schema d)"

definition signed_sources ::
  "('v, 'h) derived_env \<Rightarrow> target \<Rightarrow> (string \<times> string \<Rightarrow> 'v row list option) \<Rightarrow> 'v row \<Rightarrow> (string \<times> string \<times> string \<times> 'h) list" where
  "signed_sources env target files security =
     map (\<lambda>(i, c). (i, ''code'', c, dataframe_semantic_hash (de_store env) (source_schema i) (source_rows files i c)))
       (filter (\<lambda>x. files x \<noteq> None) (source_requests env target security))"

text \<open>The marks a partition gets that is built from these files.\<close>

definition mark_for ::
  "('v, 'h) derived_env \<Rightarrow> target \<Rightarrow> (string \<times> string \<Rightarrow> 'v row list option) \<Rightarrow> 'v row \<Rightarrow> 'h \<times> 'h" where
  "mark_for env target files security =
     (source_signature env (signed_sources env target files security) (master_row_hash env security), master_row_hash env security)"

text \<open>The ledger holds the digests of every source partition.\<close>

definition sources_ledger :: "('v, 'h) derived_env \<Rightarrow> ('v, 'h) derived_state \<Rightarrow> bool" where
  "sources_ledger env s \<longleftrightarrow> (\<forall>i c rows. source_ok i \<longrightarrow> ps_files (dv_store s) (i, c) = Some rows \<longrightarrow>
     ps_manifest (dv_store s) (i, ''code'', c) = Some (dataset_partition_manifest_row (de_store env) (source_schema i) rows))"

lemma source_schema: "dataset_definition_of i = Inr d \<Longrightarrow> source_schema i = ds_schema d"
  by (simp add: source_schema_def)

lemma pairs_outcome:
  assumes "env_ok (de_store env)" and "\<forall>(i, f) \<in> set others. source_ok i"
  shows "outcome (source_partition_pairs_for_security env security others s)
    (\<lambda>pairs s'. pairs = filter (\<lambda>x. ps_files (dv_store s) x \<noteq> None)
        (filter (\<lambda>(i, code). code \<noteq> []) (map (\<lambda>(i, f). (i, clean_string (de_store env) (security f))) others)) \<and> s' = s)
    (\<lambda>e s'. not_ledger e \<and> s' = s)"
  using assms(2)
proof (induction others)
  case (Cons x xs)
  obtain i f where x: "x = (i, f)" by force
  obtain d where d: "dataset_definition_of i = Inr d" "ds_id d = i" "ds_partition_column d = Some ''code''"
    using source_definition [of i] Cons.prems x by auto
  let ?c = "clean_string (de_store env) (security f)"
  have path: "path = (i, ?c)" if "dataset_path (de_store env) d (partition_of env d ?c) = Inr path" for path
    using partition_path [OF assms(1) d(3) that] d(2) by simp
  have IH: "outcome (source_partition_pairs_for_security env security xs s)
    (\<lambda>pairs s'. pairs = filter (\<lambda>x. ps_files (dv_store s) x \<noteq> None)
        (filter (\<lambda>(i, code). code \<noteq> []) (map (\<lambda>(i, f). (i, clean_string (de_store env) (security f))) xs)) \<and> s' = s)
    (\<lambda>e s'. not_ledger e \<and> s' = s)"
    using Cons by simp
  show ?case
    using partition_not_ledger path
    by (cases "?c = []"; cases "dataset_path (de_store env) d (partition_of env d ?c)")
       (auto simp: x lookup_dataset [OF d(1)] d(3) Let_def intro!: outcome_mono [OF IH] simp del: not_None_eq)
qed simp

lemma request_ids_distinct: "distinct (map fst (source_requests env target security))"
proof -
  have "distinct (map fst xs) \<Longrightarrow> distinct (map fst (filter P (map (\<lambda>(i, f). (i, g f)) xs)))"
    for P and xs :: "(string \<times> string) list" and g :: "string \<Rightarrow> string"
    by (induction xs) force+
  from this [OF source_ids_distinct, of "\<lambda>(i, code). code \<noteq> []" "\<lambda>f. clean_string (de_store env) (security f)" target]
  show ?thesis by (simp only: source_requests_def)
qed

lemma manifest_rows_outcome:
  assumes "sources_ledger env s" and "\<forall>(i, c) \<in> set pairs. source_ok i \<and> ps_files (dv_store s) (i, c) \<noteq> None"
  shows "outcome (source_manifest_rows env True pairs s)
    (\<lambda>rows s'. rows = map (\<lambda>(i, c). (i, ''code'', c, dataframe_semantic_hash (de_store env) (source_schema i)
       (source_rows (ps_files (dv_store s)) i c))) pairs \<and> s' = s) (\<lambda>e s'. False)"
  using assms(2)
proof (induction pairs)
  case (Cons x xs)
  obtain i c where x: "x = (i, c)" by force
  obtain d where d: "dataset_definition_of i = Inr d" "ds_id d = i" "ds_partition_column d = Some ''code''"
    using source_definition [of i] Cons.prems x by auto
  obtain rows where rows: "ps_files (dv_store s) (i, c) = Some rows" using Cons.prems x by auto
  have key: "partition_manifest_key d c = (i, ''code'', c)" using d by (simp add: partition_manifest_key_def)
  have entry: "ps_manifest (dv_store s) (i, ''code'', c) = Some (dataset_partition_manifest_row (de_store env) (source_schema i) rows)"
    using assms(1) Cons.prems rows x by (auto simp: sources_ledger_def)
  show ?case
    by (simp add: x lookup_dataset [OF d(1)] manifest_row_def key entry)
       (rule outcome_mono [OF Cons.IH], use Cons.prems in \<open>auto simp: source_rows_def rows dataset_partition_manifest_row_def\<close>)
qed simp

lemma signature_outcome:
  assumes "sources_ledger env s"
  shows "outcome (current_source_signature_for_security env security
      (filter (\<lambda>x. ps_files (dv_store s) x \<noteq> None) (source_requests env target security)) s)
    (\<lambda>(signature, master_hash, rows) s'. (signature, master_hash) = mark_for env target (ps_files (dv_store s)) security \<and> s' = s) (\<lambda>e s'. False)"
proof -
  let ?p = "filter (\<lambda>x. ps_files (dv_store s) x \<noteq> None) (source_requests env target security)"
  have "distinct (source_requests env target security)" using request_ids_distinct by (metis distinct_map)
  then have "dedup_first ?p = ?p" by (intro dedup_first_distinct) simp
  moreover have "\<forall>(i, c) \<in> set ?p. source_ok i \<and> ps_files (dv_store s) (i, c) \<noteq> None"
    using sources_ok by (auto simp: requests_mem)
  ultimately show ?thesis
    unfolding current_source_signature_for_security_def source_manifest_rows_for_pairs_def outcome_simps
    by (simp only:) (rule outcome_mono [OF manifest_rows_outcome [OF assms]], auto simp: mark_for_def signed_sources_def)
qed

section \<open>What the marks determine\<close>

text \<open>Digests of different contents differ.\<close>

definition digests_ok :: "('v, 'h) derived_env \<Rightarrow> bool" where
  "digests_ok env \<longleftrightarrow>
     (\<forall>a b. de_master_digest env a = de_master_digest env b \<longrightarrow> a = b) \<and>
     (\<forall>h h' xs ys. de_source_digest env h xs = de_source_digest env h' ys \<longrightarrow> h = h' \<and> xs = ys) \<and>
     (\<forall>schema rows rows'. se_digest (de_store env) schema rows = se_digest (de_store env) schema rows' \<longrightarrow>
        map (\<lambda>r. map r (field_names schema)) rows = map (\<lambda>r. map r (field_names schema)) rows')"

text \<open>The columns of the sources that a target reads.\<close>

fun columns_read :: "target \<Rightarrow> string list" where
  "columns_read DailyBar =
     [''date'', ''open'', ''high'', ''low'', ''close'', ''prev_close'', ''volume'', ''amount'', ''turnover_rate'', ''pct_change'',
      ''trade_status'', ''is_st'', ''source_endpoint'', ''quality_status'']"
| "columns_read Valuation =
     [''date'', ''close'', ''total_market_cap'', ''float_market_cap'', ''total_shares'', ''float_shares'', ''pe_ttm'', ''pe_static'', ''pb'', ''ps'',
      ''pcf'', ''pb_mrq'', ''ps_ttm'', ''pcf_ncf_ttm''] @ map fst PERCENTILE_MAPPINGS"

definition semantic_schema :: "string \<Rightarrow> arrow_schema" where
  "semantic_schema i = filter (\<lambda>f. fst f \<notin> set SEMANTIC_EXCLUDED_COLUMNS) (source_schema i)"

text \<open>None of them is excluded from the semantic digest.\<close>

lemma columns_read_signed:
  assumes "c \<in> set (columns_read target)"
  shows "c \<in> set (field_names (semantic_schema i)) \<or> c \<notin> set (field_names (source_schema i))"
proof -
  have "list_all (\<lambda>c. c \<notin> set SEMANTIC_EXCLUDED_COLUMNS) (columns_read DailyBar)"
    "list_all (\<lambda>c. c \<notin> set SEMANTIC_EXCLUDED_COLUMNS) (columns_read Valuation)" by code_simp+
  then have "c \<notin> set SEMANTIC_EXCLUDED_COLUMNS" using assms unfolding list_all_iff by (metis target.exhaust)
  then show ?thesis by (auto simp only: semantic_schema_def field_names_def set_map set_filter mem_Collect_eq image_iff)
qed

definition normal_files :: "('v, 'h) derived_env \<Rightarrow> (string \<times> string \<Rightarrow> 'v row list option) \<Rightarrow> bool" where
  "normal_files env files \<longleftrightarrow> (\<forall>i v rows d. files (i, v) = Some rows \<longrightarrow> dataset_definition_of i = Inr d \<longrightarrow>
     (\<forall>r \<in> set rows. normal_row (de_store env) d r))"

lemma normal_files_ok: "normal_files env (ps_files p) = files_ok (de_store env) p"
  by (simp add: normal_files_def files_ok_def)

text \<open>Rows that agree on columns.\<close>

definition agree_on :: "string list \<Rightarrow> 'v row list \<Rightarrow> 'v row list \<Rightarrow> bool" where
  "agree_on cs rows rows' \<longleftrightarrow> list_all2 (\<lambda>r r'. \<forall>c \<in> set cs. r c = r' c) rows rows'"

lemma map_rows_agree: "map (\<lambda>r. map r cs) rows = map (\<lambda>r. map r cs) rows' \<Longrightarrow> agree_on cs rows rows'"
proof (induction rows arbitrary: rows')
  case (Cons r rows)
  then show ?case by (cases rows') (auto simp: agree_on_def)
qed (simp add: agree_on_def)

lemma agree_map: "agree_on cs rows rows' \<Longrightarrow> (\<And>r r'. \<forall>c \<in> set cs. r c = r' c \<Longrightarrow> f r = g r') \<Longrightarrow> map f rows = map g rows'"
  unfolding agree_on_def by (induction rule: list_all2_induct) auto

lemma signed_agree:
  assumes "digests_ok env" and "(i, f) \<in> set (target_sources target)"
    and "\<forall>r \<in> set rows. \<forall>d. dataset_definition_of i = Inr d \<longrightarrow> normal_row (de_store env) d r"
    and "\<forall>r \<in> set rows'. \<forall>d. dataset_definition_of i = Inr d \<longrightarrow> normal_row (de_store env) d r"
    and "dataframe_semantic_hash (de_store env) (source_schema i) rows = dataframe_semantic_hash (de_store env) (source_schema i) rows'"
  shows "agree_on (columns_read target) rows rows'"
proof -
  obtain d where d: "dataset_definition_of i = Inr d" using source_definition [OF sources_ok [OF assms(2)]] by blast
  have absent: "r c = None" if "normal_row (de_store env) d r" "c \<notin> set (field_names (source_schema i))" for r c
  proof -
    have "coerced_row (de_store env) (ds_schema d) r" using that(1) by (simp add: normal_row_def coerced_clean)
    moreover have "map_of (ds_schema d) c = None" using that(2) d by (simp add: source_schema field_names_def map_of_eq_None_iff)
    ultimately show ?thesis unfolding coerced_row_def by (elim allE [of _ c]) (simp only: option.case)
  qed
  have "map (\<lambda>r. map r (field_names (semantic_schema i))) rows = map (\<lambda>r. map r (field_names (semantic_schema i))) rows'"
  proof -
    have "se_digest (de_store env) (semantic_schema i) rows = se_digest (de_store env) (semantic_schema i) rows'"
      using assms(5) by (simp only: dataframe_semantic_hash_def semantic_schema_def)
    then show ?thesis using assms(1) unfolding digests_ok_def by blast
  qed
  then have "agree_on (field_names (semantic_schema i)) rows rows'" by (rule map_rows_agree)
  then show ?thesis
    unfolding agree_on_def
  proof (rule list.rel_mono_strong)
    fix r r' assume r: "r \<in> set rows" "r' \<in> set rows'" "\<forall>c \<in> set (field_names (semantic_schema i)). r c = r' c"
    show "\<forall>c \<in> set (columns_read target). r c = r' c"
    proof
      fix c assume "c \<in> set (columns_read target)"
      from columns_read_signed [OF this, of i] show "r c = r' c"
        using r assms(3,4) d absent by (metis (full_types))
    qed
  qed
qed

lemma agree_empty: "agree_on cs rows rows' \<Longrightarrow> rows = [] \<longleftrightarrow> rows' = []"
  unfolding agree_on_def by (cases rows; cases rows') simp_all

lemma agree_append: "agree_on cs a a' \<Longrightarrow> agree_on cs b b' \<Longrightarrow> agree_on cs (a @ b) (a' @ b')"
  unfolding agree_on_def by (rule list_all2_appendI)

lemma string_with_default_cong: "r c = r' c \<Longrightarrow> string_with_default env x (r c) = string_with_default env x (r' c)"
  by simp

text \<open>What the master's hash covers of a security.\<close>

lemma master_columns:
  assumes "digests_ok env" and "master_row_hash env security = master_row_hash env security'"
  shows "\<forall>c \<in> set MASTER_HASH_COLUMNS. security c = security' c"
  using assms unfolding digests_ok_def master_row_hash_def by (metis map_eq_conv)

lemma map_daily_cong:
  assumes "\<forall>c \<in> set (columns_read DailyBar). r c = r' c" and "\<forall>c \<in> set MASTER_HASH_COLUMNS. security c = security' c"
  shows "map_baostock_daily env i a security t r = map_baostock_daily env i a security' t r'"
    and "map_akshare_daily env i a security t r = map_akshare_daily env i a security' t r'"
  using assms by (simp_all add: map_baostock_daily_def map_akshare_daily_def MASTER_HASH_COLUMNS_def)

lemma rows_by_date_agree:
  assumes "agree_on cs rows rows'" and "''date'' \<in> set cs"
  shows "rel_option (\<lambda>r r'. \<forall>c \<in> set cs. r c = r' c) (rows_by_date cc rows d) (rows_by_date cc rows' d)"
proof -
  let ?R = "\<lambda>r r'. \<forall>c \<in> set cs. r c = r' c"
  let ?k = "\<lambda>r. cell_day cc (r ''date'')"
  have "list_all2 ?R (filter (\<lambda>r. ?k r \<noteq> None) rows) (filter (\<lambda>r. ?k r \<noteq> None) rows')"
    using assms(1) unfolding agree_on_def by (induction rule: list_all2_induct) (use assms(2) in auto)
  then have "rel_option ?R (last_by ?k (filter (\<lambda>r. ?k r \<noteq> None) rows) (Some d)) (last_by ?k (filter (\<lambda>r. ?k r \<noteq> None) rows') (Some d))"
  proof (induction rule: list_all2_induct)
    case (Cons x xs y ys)
    have "?k x = ?k y" using Cons.hyps assms(2) by simp
    with Cons show ?case by (auto simp: last_by_Cons split: option.splits)
  qed simp
  then show ?thesis by (simp only: rows_by_date_def)
qed

lemma dates_of_agree: "agree_on cs rows rows' \<Longrightarrow> ''date'' \<in> set cs \<Longrightarrow> dates_of cc rows = dates_of cc rows'"
  unfolding agree_on_def dates_of_def by (induction rule: list_all2_induct) (auto simp: map_filter_simps split: option.split)

lemma valuation_row_cong:
  assumes "rel_option (\<lambda>r r'. \<forall>c \<in> set (columns_read Valuation). r c = r' c) a a'"
    and "rel_option (\<lambda>r r'. \<forall>c \<in> set (columns_read Valuation). r c = r' c) b b'"
    and "\<forall>c \<in> set MASTER_HASH_COLUMNS. security c = security' c"
  shows "valuation_row env cc d security a b t = valuation_row env cc d security' a' b' t"
proof -
  have val: "value_of x c = value_of x' c"
    if "rel_option (\<lambda>r r'. \<forall>c \<in> set (columns_read Valuation). r c = r' c) x x'" "c \<in> set (columns_read Valuation)" for x x' :: "'a row option" and c
    using that by (cases x; cases x') (auto simp: value_of_def)
  have mem: "list_all (\<lambda>c. c \<in> set (columns_read Valuation))
    ([''close'', ''total_market_cap'', ''float_market_cap'', ''total_shares'', ''float_shares'', ''pe_ttm'', ''pe_static'', ''pb'', ''ps'',
      ''pcf'', ''pb_mrq'', ''ps_ttm'', ''pcf_ncf_ttm''] @ map fst PERCENTILE_MAPPINGS)"
    by code_simp
  have v: "value_of a c = value_of a' c" "value_of b c = value_of b' c"
    if "c \<in> set ([''close'', ''total_market_cap'', ''float_market_cap'', ''total_shares'', ''float_shares'', ''pe_ttm'', ''pe_static'', ''pb'', ''ps'',
      ''pcf'', ''pb_mrq'', ''ps_ttm'', ''pcf_ncf_ttm''] @ map fst PERCENTILE_MAPPINGS)" for c
  proof -
    have "c \<in> set (columns_read Valuation)" using mem that by (simp only: list_all_iff)
    then show "value_of a c = value_of a' c" "value_of b c = value_of b' c" using val assms(1,2) by blast+
  qed
  have p: "map (\<lambda>(source_column, target_column). (target_column, value_of b source_column)) PERCENTILE_MAPPINGS =
      map (\<lambda>(source_column, target_column). (target_column, value_of b' source_column)) PERCENTILE_MAPPINGS"
  proof (intro map_cong refl)
    fix x assume "x \<in> set PERCENTILE_MAPPINGS"
    then have "fst x \<in> set (map fst PERCENTILE_MAPPINGS)" by simp
    then have "value_of b (fst x) = value_of b' (fst x)" by (intro v(2)) (simp only: set_append Un_iff simp_thms)
    then show "(case x of (source_column, target_column) \<Rightarrow> (target_column, value_of b source_column)) =
      (case x of (source_column, target_column) \<Rightarrow> (target_column, value_of b' source_column))" by (cases x) simp
  qed
  have n: "(a \<noteq> None) = (a' \<noteq> None)" "(b \<noteq> None) = (b' \<noteq> None)"
    subgoal using assms(1) by (cases a; cases a') auto
    subgoal using assms(2) by (cases b; cases b') auto
    done
  have sec: "security ''security_id'' = security' ''security_id''" "security ''code'' = security' ''code''"
    "security ''exchange'' = security' ''exchange''" "security ''name'' = security' ''name''"
    using assms(3) by (simp_all add: MASTER_HASH_COLUMNS_def)
  show ?thesis
    unfolding valuation_row_def p n sec
    by (simp only: v set_append Un_iff list.set insert_iff simp_thms)
qed

text \<open>Equal marks mean equal rows: a partition whose marks still match is what a build would make now.\<close>

lemma agree_concat:
  assumes "\<And>x. x \<in> set xs \<Longrightarrow> map (f x) (src x) = map (g x) (src' x)"
  shows "concat (map (\<lambda>x. map (f x) (src x)) xs) = concat (map (\<lambda>x. map (g x) (src' x)) xs)"
  using assms by (induction xs) simp_all

lemma materialize_agree:
  assumes sec: "\<forall>c \<in> set MASTER_HASH_COLUMNS. security c = security' c"
    and src: "\<And>i c. (i, c) \<in> set (source_requests env target security) \<Longrightarrow> agree_on (columns_read target) (src i c) (src' i c)"
  shows "materialize_target env target src security t = materialize_target env target src' security' t"
proof -
  let ?a = "clean_string (de_store env) (security ''akshare_code'')" and ?b = "clean_string (de_store env) (security ''baostock_code'')"
  have codes: "security ''akshare_code'' = security' ''akshare_code''" "security ''baostock_code'' = security' ''baostock_code''"
    using sec by (simp_all add: MASTER_HASH_COLUMNS_def)
  show ?thesis
  proof (cases target)
    case DailyBar
    have b: "map (map_baostock_daily (de_store env) i x security t) (src i ?b) = map (map_baostock_daily (de_store env) i x security' t) (src' i ?b)"
      if "?b \<noteq> []" "(i, x) \<in> set BAOSTOCK_DAILY_SOURCES" for i x
    proof (rule agree_map [OF _ map_daily_cong(1) [OF _ sec]])
      have "(i, ''baostock_code'') \<in> set (target_sources DailyBar)" using that(2) by force
      then show "agree_on (columns_read DailyBar) (src i ?b) (src' i ?b)"
        using src that(1) unfolding DailyBar requests_mem by blast
    qed
    have a: "map (map_akshare_daily (de_store env) i x security t) (src i ?a) = map (map_akshare_daily (de_store env) i x security' t) (src' i ?a)"
      if "?a \<noteq> []" "(i, x) \<in> set AKSHARE_DAILY_SOURCES" for i x
    proof (rule agree_map [OF _ map_daily_cong(2) [OF _ sec]])
      have "(i, ''akshare_code'') \<in> set (target_sources DailyBar)" using that(2) by force
      then show "agree_on (columns_read DailyBar) (src i ?a) (src' i ?a)"
        using src that(1) unfolding DailyBar requests_mem by blast
    qed
    have "(if ?b = [] then [] else concat (map (\<lambda>(i, x). map (map_baostock_daily (de_store env) i x security t) (src i ?b)) BAOSTOCK_DAILY_SOURCES)) =
      (if ?b = [] then [] else concat (map (\<lambda>(i, x). map (map_baostock_daily (de_store env) i x security' t) (src' i ?b)) BAOSTOCK_DAILY_SOURCES))"
      using b by (cases "?b = []") (simp_all only: if_True if_False simp_thms, rule arg_cong [of _ _ concat], rule map_cong [OF refl],
        clarify, simp only: simp_thms)
    moreover have "(if ?a = [] then [] else concat (map (\<lambda>(i, x). map (map_akshare_daily (de_store env) i x security t) (src i ?a)) AKSHARE_DAILY_SOURCES)) =
      (if ?a = [] then [] else concat (map (\<lambda>(i, x). map (map_akshare_daily (de_store env) i x security' t) (src' i ?a)) AKSHARE_DAILY_SOURCES))"
      using a by (cases "?a = []") (simp_all only: if_True if_False simp_thms, rule arg_cong [of _ _ concat], rule map_cong [OF refl],
        clarify, simp only: simp_thms)
    ultimately show ?thesis
      unfolding DailyBar materialize_target.simps materialize_security_daily_bar_def Let_def codes by (simp only:)
  next
    case Valuation
    let ?A = "if ?a = [] then [] else src AKSHARE_VALUATION_DATASET ?a" and ?A' = "if ?a = [] then [] else src' AKSHARE_VALUATION_DATASET ?a"
    let ?B = "if ?b = [] then [] else src BAOSTOCK_PERCENTILE_DATASET ?b" and ?B' = "if ?b = [] then [] else src' BAOSTOCK_PERCENTILE_DATASET ?b"
    have agree: "agree_on (columns_read Valuation) ?A ?A'" "agree_on (columns_read Valuation) ?B ?B'"
      using src unfolding Valuation requests_mem by (auto simp: agree_on_def)
    have date: "''date'' \<in> set (columns_read Valuation)" by simp
    have "valuation_row (de_store env) (de_cells env) d security (rows_by_date (de_cells env) ?A d) (rows_by_date (de_cells env) ?B d) t =
        valuation_row (de_store env) (de_cells env) d security' (rows_by_date (de_cells env) ?A' d) (rows_by_date (de_cells env) ?B' d) t" for d
      by (rule valuation_row_cong [OF rows_by_date_agree [OF agree(1) date] rows_by_date_agree [OF agree(2) date] sec])
    moreover have "dates_of (de_cells env) ?A = dates_of (de_cells env) ?A'" "dates_of (de_cells env) ?B = dates_of (de_cells env) ?B'"
      using dates_of_agree [OF agree(1) date] dates_of_agree [OF agree(2) date] by blast+
    ultimately show ?thesis
      unfolding Valuation materialize_target.simps materialize_security_valuation_def Let_def codes [symmetric] by (simp only:)
  qed
qed

lemma same_marks_same_rows:
  assumes ok: "digests_ok env" and files: "normal_files env files" "normal_files env files'"
    and mark: "mark_for env target files security = mark_for env target files' security'"
  shows "materialize_target env target (source_rows files) security t = materialize_target env target (source_rows files') security' t"
proof (rule materialize_agree)
  have hash: "master_row_hash env security = master_row_hash env security'" using mark by (simp add: mark_for_def)
  show sec: "\<forall>c \<in> set MASTER_HASH_COLUMNS. security c = security' c" by (rule master_columns [OF ok hash])
  have codes: "security ''akshare_code'' = security' ''akshare_code''" "security ''baostock_code'' = security' ''baostock_code''"
    using sec by (simp_all add: MASTER_HASH_COLUMNS_def)
  have fields: "f \<in> {''akshare_code'', ''baostock_code''}" if "(i, f) \<in> set (target_sources target)" for i f
    using that by (cases target) auto
  have req: "source_requests env target security = source_requests env target security'"
    unfolding source_requests_def
  proof (rule arg_cong [of _ _ "filter _"], rule map_cong [OF refl])
    fix x assume x: "x \<in> set (target_sources target)"
    obtain i f where x_def: "x = (i, f)" by force
    have "security f = security' f" using fields x codes unfolding x_def by blast
    then show "(case x of (i, code_field) \<Rightarrow> (i, clean_string (de_store env) (security code_field))) =
      (case x of (i, code_field) \<Rightarrow> (i, clean_string (de_store env) (security' code_field)))" by (simp add: x_def)
  qed
  let ?sort = "sort_key (\<lambda>(i, c, v, h). (i, c, v))"
  have "?sort (signed_sources env target files security) = ?sort (signed_sources env target files' security')"
  proof -
    have inj: "de_source_digest env h xs = de_source_digest env h' ys \<Longrightarrow> xs = ys" for h h' xs ys
      using ok unfolding digests_ok_def by blast
    show ?thesis
      using mark unfolding mark_for_def source_signature_def prod.inject by (rule inj [OF conjunct1])
  qed
  then have "set (?sort (signed_sources env target files security)) = set (?sort (signed_sources env target files' security'))"
    by (rule arg_cong)
  then have signed: "set (signed_sources env target files security) = set (signed_sources env target files' security')" by simp
  fix i c assume ic: "(i, c) \<in> set (source_requests env target security)"
  then obtain f where f: "(i, f) \<in> set (target_sources target)" by (auto simp: requests_mem)
  obtain d where d: "dataset_definition_of i = Inr d" using source_definition [OF sources_ok [OF f]] by blast
  let ?h = "\<lambda>files. dataframe_semantic_hash (de_store env) (source_schema i) (source_rows files i c)"
  have mem: "(i, ''code'', c, h) \<in> set (signed_sources env target files security) \<longleftrightarrow> files (i, c) \<noteq> None \<and> h = ?h files"
    "(i, ''code'', c, h) \<in> set (signed_sources env target files' security') \<longleftrightarrow> files' (i, c) \<noteq> None \<and> h = ?h files'" for h
    using ic unfolding signed_sources_def req by auto
  have present: "files (i, c) \<noteq> None \<longleftrightarrow> files' (i, c) \<noteq> None" using mem signed by metis
  show "agree_on (columns_read target) (source_rows files i c) (source_rows files' i c)"
  proof (cases "files (i, c) = None")
    case True
    then show ?thesis using present by (simp add: source_rows_def agree_on_def)
  next
    case False
    then have "?h files = ?h files'" using mem signed present by metis
    moreover have "\<forall>r \<in> set (source_rows g i c). \<forall>d. dataset_definition_of i = Inr d \<longrightarrow> normal_row (de_store env) d r" if "normal_files env g" for g
    proof (cases "g (i, c)")
      case (Some rows)
      then show ?thesis using that unfolding normal_files_def source_rows_def by simp
    qed (simp add: source_rows_def)
    ultimately show ?thesis using signed_agree [OF ok f] files by blast
  qed
qed

end
